(* ===== verification/Machines.thy ===== *)
theory Machines
  imports Main
begin

text \<open>
  State machines: the states that are reached from a start by steps, and the interfaces of their
  invariants. The services are instances.
\<close>

section \<open>Reachable states\<close>

inductive reach :: "('s \<Rightarrow> bool) \<Rightarrow> ('s \<Rightarrow> 's \<Rightarrow> bool) \<Rightarrow> 's \<Rightarrow> bool"
  for start :: "'s \<Rightarrow> bool" and step :: "'s \<Rightarrow> 's \<Rightarrow> bool" where
  started: "start s \<Longrightarrow> reach start step s"
| stepped: "reach start step s \<Longrightarrow> step s s' \<Longrightarrow> reach start step s'"

locale inductive_invariant =
  fixes start :: "'s \<Rightarrow> bool"
    and step :: "'s \<Rightarrow> 's \<Rightarrow> bool"
    and inv :: "'s \<Rightarrow> bool"
  assumes inv_start: "start s \<Longrightarrow> inv s"
    and inv_step: "inv s \<Longrightarrow> step s s' \<Longrightarrow> inv s'"
begin

lemma holds: "reach start step s \<Longrightarrow> inv s"
  by (induction rule: reach.induct) (auto intro: inv_start inv_step)

lemma holds_rtranclp: "step\<^sup>*\<^sup>* s s' \<Longrightarrow> inv s \<Longrightarrow> inv s'"
  by (induction rule: rtranclp_induct) (auto intro: inv_step)

end

text \<open>An invariant that is kept in the states where another one holds.\<close>

locale relative_invariant = inductive_invariant start step base
  for start :: "'s \<Rightarrow> bool" and step :: "'s \<Rightarrow> 's \<Rightarrow> bool" and base :: "'s \<Rightarrow> bool" +
  fixes extra :: "'s \<Rightarrow> bool"
  assumes extra_start: "start s \<Longrightarrow> extra s"
    and extra_step: "base s \<Longrightarrow> extra s \<Longrightarrow> step s s' \<Longrightarrow> extra s'"
begin

lemma both_step: "base s \<and> extra s \<Longrightarrow> step s s' \<Longrightarrow> base s' \<and> extra s'"
  using inv_step extra_step by blast

lemma extra_holds: "reach start step s \<Longrightarrow> base s \<and> extra s"
  by (induction rule: reach.induct) (auto intro: inv_start inv_step extra_start extra_step)

end

sublocale relative_invariant \<subseteq> both: inductive_invariant start step "\<lambda>s. base s \<and> extra s"
  using inv_start extra_start inv_step extra_step by unfold_locales blast+

end
