(* ===== verification/Prelude.thy ===== *)
theory Prelude
  imports Main "HOL-Library.Char_ord" "HOL-Library.List_Lexorder"
begin

text \<open>
  What every component of the development shares: HTTP exceptions as values, sequential
  composition of steps that may throw, table operations over lists of rows (the queries the
  services send to PostgreSQL through TypeORM), the JavaScript string and array helpers the
  services call, and the named theorem collections the component proofs are driven by.
\<close>

section \<open>Exceptions\<close>

text \<open>
  The NestJS exception classes the services throw, each with its message. Messages are
  transcribed to ASCII: the Vietnamese ones lose their diacritics. \<open>UniqueViolation\<close> is the
  driver error with PostgreSQL code 23505, which some handlers catch; \<open>InternalError\<close> is every
  other uncaught error (a response with status 500).
\<close>

datatype exn =
    BadRequest string
  | Unauthorized string
  | Forbidden string
  | NotFound string
  | Conflict string
  | TooManyRequests string
  | PayloadTooLarge string
  | ServiceUnavailable string
  | UniqueViolation string
  | InternalError string

text \<open>Sequential composition: the continuation runs only when the first step returned.\<close>

definition bindE :: "exn + 'a \<Rightarrow> ('a \<Rightarrow> exn + 'b) \<Rightarrow> exn + 'b" where
  "bindE m f = (case m of Inl e \<Rightarrow> Inl e | Inr x \<Rightarrow> f x)"

text \<open>\<open>if (!b) throw e\<close>.\<close>

definition guardE :: "bool \<Rightarrow> exn \<Rightarrow> exn + unit" where
  "guardE b e = (if b then Inr () else Inl e)"

text \<open>A row that must exist: \<open>if (!row) throw e\<close>.\<close>

definition someE :: "'a option \<Rightarrow> exn \<Rightarrow> exn + 'a" where
  "someE x e = (case x of None \<Rightarrow> Inl e | Some y \<Rightarrow> Inr y)"

text \<open>
  \<open>db.transaction(body)\<close>: an exception of the body rolls its writes back, so the state that
  remains is the one the transaction started from.
\<close>

definition transaction :: "'s \<Rightarrow> exn + ('a \<times> 's) \<Rightarrow> (exn + 'a) \<times> 's" where
  "transaction s r = (case r of Inl e \<Rightarrow> (Inl e, s) | Inr (a, s') \<Rightarrow> (Inr a, s'))"

named_theorems returns "when a step that may throw returns normally"
named_theorems row_simps "table operations"

lemma bindE_simps [simp]:
  "bindE (Inl e) f = Inl e" "bindE (Inr x) f = f x"
  by (simp_all add: bindE_def)

lemma bindE_Inr [returns]: "bindE m f = Inr y \<longleftrightarrow> (\<exists>x. m = Inr x \<and> f x = Inr y)"
  by (cases m) (simp_all add: bindE_def)

lemma bindE_assoc: "bindE (bindE m f) g = bindE m (\<lambda>x. bindE (f x) g)"
  by (cases m) simp_all

lemma guardE_Inr [returns]: "guardE b e = Inr u \<longleftrightarrow> b"
  by (simp add: guardE_def)

lemma guardE_simps [simp]: "guardE True e = Inr ()" "guardE False e = Inl e"
  by (simp_all add: guardE_def)

lemma someE_Inr [returns]: "someE x e = Inr y \<longleftrightarrow> x = Some y"
  by (cases x) (simp_all add: someE_def)

lemma someE_simps [simp]: "someE None e = Inl e" "someE (Some y) e = Inr y"
  by (simp_all add: someE_def)

lemma transaction_simps [simp]:
  "transaction s (Inl e) = (Inl e, s)" "transaction s (Inr (a, s')) = (Inr a, s')"
  by (simp_all add: transaction_def)

lemma transaction_cases:
  obtains (throws) e where "r = Inl e" "transaction s r = (Inl e, s)"
    | (returns) a s' where "r = Inr (a, s')" "transaction s r = (Inr a, s')"
proof (cases r)
  case (Inl e)
  then show ?thesis using throws by simp
next
  case (Inr p)
  then show ?thesis using returns by (cases p) simp
qed

lemma transaction_snd: "snd (transaction s r) = (case r of Inl e \<Rightarrow> s | Inr p \<Rightarrow> snd p)"
  by (cases r) (auto simp: transaction_def split: prod.splits)

lemma transaction_Inr: "transaction s r = (Inr a, s') \<longleftrightarrow> r = Inr (a, s')"
  by (cases r) (auto simp: transaction_def split: prod.splits)

lemma transaction_error: "transaction s r = (Inl e, s') \<longleftrightarrow> r = Inl e \<and> s' = s"
  by (cases r) (auto simp: transaction_def split: prod.splits)

lemma transaction_Inl: "fst (transaction s r) = Inl e \<Longrightarrow> snd (transaction s r) = s"
  by (cases r) (auto simp: transaction_def split: prod.splits)

section \<open>Tables\<close>

text \<open>
  A table is a list of rows in insertion order. \<open>find_by\<close> is \<open>findOneBy\<close> (the first matching
  row), \<open>put\<close> is \<open>save\<close> of an entity read before (it overwrites the row with the same key),
  \<open>update_where\<close> is an \<open>UPDATE ... WHERE\<close>, \<open>delete_where\<close> a \<open>DELETE ... WHERE\<close>; an inserted
  row goes to the end.
\<close>

definition find_by :: "('r \<Rightarrow> bool) \<Rightarrow> 'r list \<Rightarrow> 'r option" where
  "find_by P t = List.find P t"

definition update_where :: "('r \<Rightarrow> bool) \<Rightarrow> ('r \<Rightarrow> 'r) \<Rightarrow> 'r list \<Rightarrow> 'r list" where
  "update_where P f t = map (\<lambda>r. if P r then f r else r) t"

definition put :: "('r \<Rightarrow> 'k) \<Rightarrow> 'r \<Rightarrow> 'r list \<Rightarrow> 'r list" where
  "put key x t = update_where (\<lambda>r. key r = key x) (\<lambda>_. x) t"

definition delete_where :: "('r \<Rightarrow> bool) \<Rightarrow> 'r list \<Rightarrow> 'r list" where
  "delete_where P t = filter (\<lambda>r. \<not> P r) t"

definition count_where :: "('r \<Rightarrow> bool) \<Rightarrow> 'r list \<Rightarrow> nat" where
  "count_where P t = length (filter P t)"

definition exists_where :: "('r \<Rightarrow> bool) \<Rightarrow> 'r list \<Rightarrow> bool" where
  "exists_where P t = list_ex P t"

lemma find_by_Some: "find_by P t = Some r \<Longrightarrow> r \<in> set t \<and> P r"
  by (auto simp: find_by_def find_Some_iff in_set_conv_nth)

lemma find_by_None [row_simps]: "find_by P t = None \<longleftrightarrow> (\<forall>r \<in> set t. \<not> P r)"
  by (auto simp: find_by_def find_None_iff)

lemma find_by_distinct:
  assumes "distinct (map key t)" "r \<in> set t"
    and "\<And>x. P x \<Longrightarrow> key x = key r" "P r"
  shows "find_by P t = Some r"
proof -
  from assms(2,4) obtain x where x: "find_by P t = Some x"
    by (cases "find_by P t") (auto simp: find_by_None)
  then have "x \<in> set t" "key x = key r"
    using assms(3) by (auto dest: find_by_Some)
  with assms(1,2) have "x = r"
    by (auto simp: distinct_map inj_on_def)
  with x show ?thesis by simp
qed

lemma set_update_where: "set (update_where P f t) = (\<lambda>r. if P r then f r else r) ` set t"
  by (simp add: update_where_def)

lemma update_where_keys [row_simps]:
  "(\<And>r. P r \<Longrightarrow> key (f r) = key r) \<Longrightarrow> map key (update_where P f t) = map key t"
  by (auto simp: update_where_def)

lemma put_keys [row_simps]: "map key (put key x t) = map key t"
  unfolding put_def by (rule update_where_keys) simp

lemma length_put [row_simps]: "length (put key x t) = length t"
  by (simp add: put_def update_where_def)

lemma set_put:
  "x' \<in> set t \<Longrightarrow> key x' = key x \<Longrightarrow> set (put key x t) = insert x {r \<in> set t. key r \<noteq> key x}"
  by (auto simp: put_def set_update_where)

lemma set_put_subset: "set (put key x t) \<subseteq> insert x {r \<in> set t. key r \<noteq> key x}"
  by (auto simp: put_def set_update_where)

lemma in_put_cases:
  assumes "r \<in> set (put key x t)"
  obtains (changed) "r = x" | (kept) "r \<in> set t" "key r \<noteq> key x"
  using assms set_put_subset [of key x t] by blast

lemma find_put_same [row_simps]:
  "find_by (\<lambda>r. key r = k) t = Some y \<Longrightarrow> key x = k \<Longrightarrow>
   find_by (\<lambda>r. key r = k) (put key x t) = Some x"
  by (induction t) (auto simp: find_by_def put_def update_where_def split: if_splits)

lemma find_put_other [row_simps]:
  "(\<And>r. key r = key x \<Longrightarrow> \<not> P r) \<Longrightarrow> find_by P (put key x t) = find_by P t"
  by (induction t) (auto simp: find_by_def put_def update_where_def)

lemma filter_put_other [row_simps]:
  "(\<And>r. key r = key x \<Longrightarrow> \<not> P r) \<Longrightarrow> filter P (put key x t) = filter P t"
  by (induction t) (auto simp: put_def update_where_def)

lemma filter_update_where_other:
  "(\<And>r. Q r \<Longrightarrow> \<not> P r \<and> \<not> P (f r)) \<Longrightarrow> filter P (update_where Q f t) = filter P t"
  by (induction t) (auto simp: update_where_def)

lemma set_delete_where [row_simps]: "set (delete_where P t) = {r \<in> set t. \<not> P r}"
  by (auto simp: delete_where_def)

lemma distinct_map_delete_where: "distinct (map key t) \<Longrightarrow> distinct (map key (delete_where P t))"
  by (induction t) (auto simp: delete_where_def)

lemma exists_where_iff [row_simps]: "exists_where P t \<longleftrightarrow> (\<exists>r \<in> set t. P r)"
  by (simp add: exists_where_def list_ex_iff)

lemma count_where_append [row_simps]: "count_where P (t @ u) = count_where P t + count_where P u"
  by (simp add: count_where_def)

lemma count_where_Nil [simp]: "count_where P [] = 0"
  by (simp add: count_where_def)

lemma count_where_Cons [simp]: "count_where P (r # t) = (if P r then 1 else 0) + count_where P t"
  by (simp add: count_where_def)

lemma count_where_zero [row_simps]: "count_where P t = 0 \<longleftrightarrow> (\<forall>r \<in> set t. \<not> P r)"
  by (auto simp: count_where_def filter_empty_conv)

lemma count_where_cong: "(\<And>r. r \<in> set t \<Longrightarrow> P r = Q r) \<Longrightarrow> count_where P t = count_where Q t"
  by (simp add: count_where_def cong: filter_cong)

text \<open>
  How a count changes when the one row with a given key is overwritten: the old row leaves the
  count, the new one enters it.
\<close>

lemma count_put:
  assumes "distinct (map key t)" "y \<in> set t" "key y = key x"
  shows "int (count_where P (put key x t)) =
    int (count_where P t) - of_bool (P y) + of_bool (P x)"
  using assms
proof (induction t)
  case Nil
  then show ?case by simp
next
  case (Cons r t)
  show ?case
  proof (cases "key r = key x")
    case True
    with Cons.prems have r: "r = y" by (metis distinct.simps(2) image_eqI list.set_map list.simps(9) set_ConsD)
    have "key x \<notin> key ` set t"
      using Cons.prems(1) True by auto
    then have rest: "put key x t = t"
      unfolding put_def update_where_def by (intro map_idI) (metis (mono_tags, lifting) image_eqI)
    show ?thesis
      using r True rest by (simp add: put_def update_where_def)
  next
    case False
    with Cons have "int (count_where P (put key x t)) =
        int (count_where P t) - of_bool (P y) + of_bool (P x)"
      by auto
    with False show ?thesis
      by (simp add: put_def update_where_def)
  qed
qed

section \<open>JavaScript helpers\<close>

text \<open>\<open>[...new Set(xs)]\<close>: first occurrences, in order.\<close>

definition new_set :: "'a list \<Rightarrow> 'a list" where
  "new_set xs = rev (remdups (rev xs))"

lemma set_new_set [simp]: "set (new_set xs) = set xs"
  by (simp add: new_set_def)

lemma distinct_new_set [simp]: "distinct (new_set xs)"
  by (simp add: new_set_def)

lemma new_set_distinct: "distinct xs \<Longrightarrow> new_set xs = xs"
  by (simp add: new_set_def distinct_remdups_id)

text \<open>
  A string is a list of code units below 256. \<open>trim\<close> removes the white space JavaScript
  removes: tab to carriage return, space and the no-break space.
\<close>

definition is_space :: "char \<Rightarrow> bool" where
  "is_space c = (let n = (of_char c :: nat) in (9 \<le> n \<and> n \<le> 13) \<or> n = 32 \<or> n = 160)"

definition trim :: "string \<Rightarrow> string" where
  "trim s = rev (dropWhile is_space (rev (dropWhile is_space s)))"

definition lower_char :: "char \<Rightarrow> char" where
  "lower_char c =
     (let n = (of_char c :: nat) in
      if (65 \<le> n \<and> n \<le> 90) \<or> (192 \<le> n \<and> n \<le> 222 \<and> n \<noteq> 215) then char_of (n + 32) else c)"

definition to_lower :: "string \<Rightarrow> string" where
  "to_lower = map lower_char"

text \<open>\<open>s.split(sep)\<close>\<close>

fun split_on :: "char \<Rightarrow> string \<Rightarrow> string list" where
  "split_on sep [] = [[]]"
| "split_on sep (c # cs) =
     (if c = sep then [] # split_on sep cs
      else case split_on sep cs of [] \<Rightarrow> [[c]] | w # ws \<Rightarrow> (c # w) # ws)"

lemma split_on_not_Nil [simp]: "split_on sep s \<noteq> []"
  by (induction s) (auto split: list.splits)

text \<open>\<open>xs.filter((_, i) => i !== k)\<close>\<close>

definition without_index :: "nat \<Rightarrow> 'a list \<Rightarrow> 'a list" where
  "without_index k xs = take k xs @ drop (Suc k) xs"

lemma length_without_index: "length (without_index k xs) \<le> length xs"
  by (simp add: without_index_def)

lemma set_without_index: "set (without_index k xs) \<subseteq> set xs"
  using set_take_subset set_drop_subset by (fastforce simp: without_index_def)

text \<open>\<open>a ?? b\<close> on an optional value.\<close>

definition or_else :: "'a option \<Rightarrow> 'a \<Rightarrow> 'a" where
  "or_else x d = (case x of None \<Rightarrow> d | Some y \<Rightarrow> y)"

lemma or_else_simps [simp]: "or_else None d = d" "or_else (Some y) d = y"
  by (simp_all add: or_else_def)

definition or_opt :: "'a option \<Rightarrow> 'a option \<Rightarrow> 'a option" where
  "or_opt x y = (case x of None \<Rightarrow> y | Some z \<Rightarrow> Some z)"

lemma or_opt_simps [simp]: "or_opt None y = y" "or_opt (Some z) y = Some z"
  by (simp_all add: or_opt_def)

section \<open>Calls to other services\<close>

text \<open>
  The outcome of a \<open>fetch\<close>: the call itself failed (refused, timed out), or a response with its
  status and, when the body parses as the expected JSON, its content. What the other service
  answers is a parameter of every definition that calls it.
\<close>

datatype 'a reply = NetworkError | Reply nat "'a option"

fun reply_ok :: "'a reply \<Rightarrow> bool" where
  "reply_ok NetworkError = False"
| "reply_ok (Reply st _) = (200 \<le> st \<and> st < 300)"

end
