(* ===== verification/Schema.thy ===== *)
theory Schema
  imports Prelude
begin

text \<open>
  The tables of the discussion service (the TypeORM entities of
  \<open>services/discussion-service/src\<close>) as records, its database as one record of tables, the
  caller of a request, and the surroundings of a request: the clock, the generated uuids and the
  other services it calls. A primary key that no code reads is left out (revisions, votes,
  memberships, rules, bindings are found by their unique columns), and so are the columns that are
  reserved for later use and never read (the AI screening columns, the comment lock, the content
  provenance) and the update time stamps TypeORM maintains. Time is a number of milliseconds,
  counters are integers, versions natural numbers.
\<close>

type_synonym uuid = string
type_synonym time = nat

section \<open>Enumerations\<close>

datatype post_type = Question | Discussion
datatype post_status = Open | Solved | Closed
datatype moderation_status = Pending | Approved | Hidden
datatype visibility = Visible | Held | Concealed
datatype target_type = OnDiscussion | OnComment | OnAnswer
datatype vote_type = Upvote | Downvote
datatype revision_type = Editorial | Semantic
datatype room_type = MAJOR | COURSE | EVENT | FORUM
datatype room_visibility = PUBLIC | RESTRICTED | PRIVATE
datatype posting_policy = ANYONE | MEMBERS | APPROVED
datatype room_status = DRAFT | ACTIVE | READ_ONLY | ARCHIVED
datatype review_policy = DirectPolicy | ApprovalPolicy
datatype membership_policy = OpenJoin | ApprovalJoin | InviteOnly
datatype member_role = Owner | Moderator | Contributor | Member
datatype member_status = Waiting | Active | Muted | Banned | Gone
datatype post_permission = Inherit | DirectPost | ApprovalPost | BlockedPost
datatype severity = Low | Medium | High
datatype tag_status = TagActive | TagInactive | TagMerged
datatype decision = Allow | Hide | Hold

section \<open>Rows\<close>

record room =
  r_id :: uuid
  r_slug :: string
  r_name :: string
  r_description :: string
  r_type :: room_type
  r_parent :: "uuid option"
  r_visibility :: room_visibility
  r_membershipPolicy :: membership_policy
  r_postingPolicy :: posting_policy
  r_reviewPolicy :: review_policy
  r_policyLocked :: bool
  r_status :: room_status
  r_createdBy :: uuid
  r_startAt :: "time option"
  r_endAt :: "time option"
  r_rulesVersion :: nat

record room_academic_binding =
  b_roomId :: uuid
  b_majorId :: uuid
  b_curriculumId :: "uuid option"
  b_courseId :: "uuid option"
  b_curriculumCourseId :: "uuid option"

record room_membership =
  m_roomId :: uuid
  m_userId :: uuid
  m_role :: member_role
  m_status :: member_status
  m_postPermission :: post_permission
  m_assignedBy :: "uuid option"
  m_joinedAt :: time
  m_expiresAt :: "time option"

record room_rule =
  ru_roomId :: uuid
  ru_ruleCode :: string
  ru_title :: string
  ru_description :: string
  ru_severity :: severity
  ru_version :: nat
  ru_active :: bool

text \<open>The author's proposed next version of a published post.\<close>

record pending_revision =
  pr_title :: string
  pr_content :: string
  pr_isAnonymous :: bool
  pr_tagIds :: "uuid list"
  pr_mediaIds :: "uuid list"

record discussion =
  d_id :: uuid
  d_title :: string
  d_content :: string
  d_postType :: post_type
  d_status :: post_status
  d_authorId :: uuid
  d_isAnonymous :: bool
  d_upvoteCount :: int
  d_downvoteCount :: int
  d_commentCount :: int
  d_answerCount :: int
  d_viewCount :: int
  d_acceptedCommentId :: "uuid option"
  d_acceptedAnswerId :: "uuid option"
  d_contentVersion :: nat
  d_moderationStatus :: moderation_status
  d_visibility :: visibility
  d_pendingRevision :: "pending_revision option"
  d_moderationNote :: string
  d_roomId :: "uuid option"
  d_majorId :: "uuid option"
  d_curriculumId :: "uuid option"
  d_courseId :: "uuid option"
  d_curriculumCourseId :: "uuid option"
  d_createdAt :: time
  d_deletedAt :: "time option"

record discussion_media =
  dm_discussionId :: uuid
  dm_mediaId :: uuid
  dm_sortOrder :: nat

record discussion_revision =
  dr_discussionId :: uuid
  dr_contentVersion :: nat
  dr_title :: string
  dr_content :: string
  dr_revisionType :: revision_type
  dr_editedBy :: uuid

record tag =
  t_id :: uuid
  t_name :: string
  t_slug :: string
  t_description :: "string option"
  t_usageCount :: int
  t_status :: tag_status
  t_mergedIntoTagId :: "uuid option"
  t_createdAt :: time
  t_updatedAt :: time

record comment =
  c_id :: uuid
  c_discussionId :: uuid
  c_authorId :: uuid
  c_content :: string
  c_parentCommentId :: "uuid option"
  c_isAnonymous :: bool
  c_upvoteCount :: int
  c_downvoteCount :: int
  c_moderationStatus :: moderation_status
  c_visibility :: visibility
  c_createdAt :: time
  c_deletedAt :: "time option"

record answer =
  a_id :: uuid
  a_discussionId :: uuid
  a_authorId :: uuid
  a_content :: string
  a_isAnonymous :: bool
  a_contentVersion :: nat
  a_moderationStatus :: moderation_status
  a_visibility :: visibility
  a_upvoteCount :: int
  a_downvoteCount :: int
  a_createdAt :: time
  a_deletedAt :: "time option"

record answer_revision =
  ar_answerId :: uuid
  ar_contentVersion :: nat
  ar_content :: string
  ar_revisionType :: revision_type
  ar_editedBy :: uuid

record answer_acceptance =
  ac_discussionId :: uuid
  ac_answerId :: uuid
  ac_questionVersion :: nat
  ac_answerVersion :: nat
  ac_acceptedBy :: uuid
  ac_revokedAt :: "time option"
  ac_revokedBy :: "uuid option"
  ac_revokeReason :: "string option"

record vote =
  v_userId :: uuid
  v_targetType :: target_type
  v_targetId :: uuid
  v_voteType :: vote_type

record moderation_review =
  mr_entityId :: uuid
  mr_contentVersion :: nat
  mr_decision :: decision
  mr_note :: string
  mr_reviewerId :: uuid
  mr_createdAt :: time

text \<open>JSON values, for event payloads and the policy audit.\<close>

datatype json =
    JNull
  | JBool bool
  | JNum int
  | JStr string
  | JArr "json list"
  | JObj "(string \<times> json) list"

record outbox_event =
  o_id :: uuid
  o_eventType :: string
  o_payload :: "(string \<times> json) list"
  o_createdAt :: time
  o_deliveredAt :: "time option"
  o_attempts :: nat
  o_nextAttemptAt :: time

record policy_audit =
  pa_roomId :: uuid
  pa_actorId :: uuid
  pa_memberId :: "uuid option"
  pa_before :: "(string \<times> json) list"
  pa_after :: "(string \<times> json) list"
  pa_createdAt :: time

section \<open>The database\<close>

record db =
  rooms :: "room list"
  bindings :: "room_academic_binding list"
  memberships :: "room_membership list"
  roomRules :: "room_rule list"
  policyAudits :: "policy_audit list"
  discussions :: "discussion list"
  discussionTags :: "(uuid \<times> uuid) list"
  discussionMedia :: "discussion_media list"
  discussionRevisions :: "discussion_revision list"
  tags :: "tag list"
  comments :: "comment list"
  answers :: "answer list"
  answerRevisions :: "answer_revision list"
  answerAcceptances :: "answer_acceptance list"
  votes :: "vote list"
  moderationReviews :: "moderation_review list"
  outbox :: "outbox_event list"

text \<open>
  The database after the migrations: the two rooms seeded by
  \<open>community-foundation.migration.ts\<close>, which belong to a system user and have no membership.
\<close>

definition system_user :: uuid where
  "system_user = ''00000000-0000-4000-8000-000000000001''"

definition seeded_room :: "uuid \<Rightarrow> string \<Rightarrow> string \<Rightarrow> string \<Rightarrow> room" where
  "seeded_room i slug name description =
     \<lparr>r_id = i, r_slug = slug, r_name = name, r_description = description, r_type = FORUM,
      r_parent = None, r_visibility = PUBLIC, r_membershipPolicy = OpenJoin,
      r_postingPolicy = ANYONE, r_reviewPolicy = DirectPolicy, r_policyLocked = False,
      r_status = ACTIVE, r_createdBy = system_user, r_startAt = None, r_endAt = None,
      r_rulesVersion = 1\<rparr>"

definition general_id :: uuid where
  "general_id = ''00000000-0000-4000-8000-000000000101''"

definition off_topic_id :: uuid where
  "off_topic_id = ''00000000-0000-4000-8000-000000000102''"

definition init_db :: db where
  "init_db =
     \<lparr>rooms =
        [seeded_room general_id ''general'' ''General''
           ''Trao doi chung trong cong dong AcaSocial.'',
         seeded_room off_topic_id ''off-topic'' ''Ngoai le''
           ''Cac cuoc tro chuyen khong thuoc pham vi hoc thuat cu the.''],
      bindings = [], memberships = [], roomRules = [], policyAudits = [], discussions = [],
      discussionTags = [], discussionMedia = [], discussionRevisions = [], tags = [],
      comments = [], answers = [], answerRevisions = [], answerAcceptances = [], votes = [],
      moderationReviews = [], outbox = []\<rparr>"

section \<open>The caller and the surroundings of a request\<close>

text \<open>\<open>GatewayUser\<close>: the two headers the gateway injects after it verified the token.\<close>

record gateway_user =
  uid :: "uuid option"
  urole :: "string option"

text \<open>What the media, academic and identity services answer to the calls of this service.\<close>

record media_asset =
  uploadedBy :: "uuid option"
  scanStatus :: string

record academic_context =
  ctx_curriculumCourseId :: uuid
  ctx_majorId :: uuid
  ctx_curriculumId :: uuid
  ctx_courseId :: uuid

record profile =
  p_userId :: uuid
  p_fullName :: string

text \<open>
  One request is handled at one instant \<open>now\<close>; \<open>fresh k\<close> is the k-th uuid generated while it
  is handled. The calls to other services are functions of their arguments, and \<open>valid_uuid\<close> is
  what the validation library takes for a uuid.
\<close>

record env =
  now :: time
  fresh :: "nat \<Rightarrow> uuid"
  media_info :: "uuid \<Rightarrow> media_asset reply"
  academic_info :: "uuid \<Rightarrow> academic_context reply"
  major_info :: "uuid \<Rightarrow> unit reply"
  display_info :: "uuid list \<Rightarrow> (profile list) reply"
  usernames_info :: "string list \<Rightarrow> ((uuid \<times> string) list) reply"
  valid_uuid :: "string \<Rightarrow> bool"

section \<open>Live rows\<close>

text \<open>A soft-deleted row is invisible to every query that does not ask for deleted rows.\<close>

definition d_live :: "discussion \<Rightarrow> bool" where
  "d_live d = (d_deletedAt d = None)"

definition c_live :: "comment \<Rightarrow> bool" where
  "c_live c = (c_deletedAt c = None)"

definition a_live :: "answer \<Rightarrow> bool" where
  "a_live a = (a_deletedAt a = None)"

definition find_discussion :: "uuid \<Rightarrow> db \<Rightarrow> discussion option" where
  "find_discussion i s = find_by (\<lambda>d. d_id d = i \<and> d_live d) (discussions s)"

definition find_comment :: "uuid \<Rightarrow> db \<Rightarrow> comment option" where
  "find_comment i s = find_by (\<lambda>c. c_id c = i \<and> c_live c) (comments s)"

definition find_answer :: "uuid \<Rightarrow> db \<Rightarrow> answer option" where
  "find_answer i s = find_by (\<lambda>a. a_id a = i \<and> a_live a) (answers s)"

definition find_room :: "uuid \<Rightarrow> db \<Rightarrow> room option" where
  "find_room i s = find_by (\<lambda>r. r_id r = i) (rooms s)"

definition find_tag :: "uuid \<Rightarrow> db \<Rightarrow> tag option" where
  "find_tag i s = find_by (\<lambda>t. t_id t = i) (tags s)"

definition m_key :: "room_membership \<Rightarrow> uuid \<times> uuid" where
  "m_key m = (m_roomId m, m_userId m)"

definition find_membership :: "uuid \<Rightarrow> uuid \<Rightarrow> db \<Rightarrow> room_membership option" where
  "find_membership roomId userId s = find_by (\<lambda>m. m_key m = (roomId, userId)) (memberships s)"

text \<open>\<open>manager.save(entity)\<close> of a row read before.\<close>

definition save_discussion :: "discussion \<Rightarrow> db \<Rightarrow> db" where
  "save_discussion d s = s\<lparr>discussions := put d_id d (discussions s)\<rparr>"

definition save_comment :: "comment \<Rightarrow> db \<Rightarrow> db" where
  "save_comment c s = s\<lparr>comments := put c_id c (comments s)\<rparr>"

definition save_answer :: "answer \<Rightarrow> db \<Rightarrow> db" where
  "save_answer a s = s\<lparr>answers := put a_id a (answers s)\<rparr>"

definition save_room :: "room \<Rightarrow> db \<Rightarrow> db" where
  "save_room r s = s\<lparr>rooms := put r_id r (rooms s)\<rparr>"

definition save_tag :: "tag \<Rightarrow> db \<Rightarrow> db" where
  "save_tag t s = s\<lparr>tags := put t_id t (tags s)\<rparr>"

definition save_membership :: "room_membership \<Rightarrow> db \<Rightarrow> db" where
  "save_membership m s = s\<lparr>memberships := put m_key m (memberships s)\<rparr>"

text \<open>Insertion of a row, rejected when a row with the same unique columns is there.\<close>

definition insert_row :: "('r \<Rightarrow> 'k) \<Rightarrow> string \<Rightarrow> 'r \<Rightarrow> 'r list \<Rightarrow> exn + 'r list" where
  "insert_row key constraint x t =
     (if exists_where (\<lambda>r. key r = key x) t then Inl (UniqueViolation constraint)
      else Inr (t @ [x]))"

lemma insert_row_Inr [returns]:
  "insert_row key constraint x t = Inr t' \<longleftrightarrow> key x \<notin> key ` set t \<and> t' = t @ [x]"
  unfolding insert_row_def exists_where_iff by (auto simp: image_iff) (metis)

section \<open>Tables as repositories\<close>

text \<open>
  What a service relies on when it reads a row by its key, changes it and saves it. The laws are
  proved once, for any table; the tables of the database are the interpretations below.
\<close>

locale repository =
  fixes rows :: "'s \<Rightarrow> 'r list"
    and key :: "'r \<Rightarrow> 'k"
    and live :: "'r \<Rightarrow> bool"
    and lookup :: "'k \<Rightarrow> 's \<Rightarrow> 'r option"
    and save :: "'r \<Rightarrow> 's \<Rightarrow> 's"
  assumes lookup_rows: "lookup k s = find_by (\<lambda>r. key r = k \<and> live r) (rows s)"
    and rows_save: "rows (save x s) = put key x (rows s)"
begin

lemma found: "lookup k s = Some r \<Longrightarrow> r \<in> set (rows s) \<and> key r = k \<and> live r"
  unfolding lookup_rows by (drule find_by_Some) simp

lemma lookup_unique:
  assumes "distinct (map key (rows s))" "r \<in> set (rows s)" "live r"
  shows "lookup (key r) s = Some r"
  unfolding lookup_rows using assms by (intro find_by_distinct [where key = key]) auto

lemma keys_save: "map key (rows (save x s)) = map key (rows s)"
  by (simp add: rows_save put_keys)

lemma lookup_save_other: "key x \<noteq> k \<Longrightarrow> lookup k (save x s) = lookup k s"
  unfolding lookup_rows rows_save by (rule find_put_other) simp

lemma in_rows_save:
  assumes "r \<in> set (rows (save x s))"
  shows "r = x \<or> r \<in> set (rows s) \<and> key r \<noteq> key x"
  using assms unfolding rows_save by (rule in_put_cases) auto

lemma ball_save:
  assumes "\<And>r. r \<in> set (rows s) \<Longrightarrow> key r \<noteq> key x \<Longrightarrow> P r" and "P x"
  shows "\<forall>r \<in> set (rows (save x s)). P r"
  using assms in_rows_save by blast

lemma saved_row:
  assumes "lookup (key x) s = Some y"
  shows "x \<in> set (rows (save x s))"
  using found [OF assms] set_put [of y "rows s" key x] by (simp add: rows_save)

lemma lookup_save_same:
  assumes "distinct (map key (rows s))" "lookup (key x) s = Some y" "live x"
  shows "lookup (key x) (save x s) = Some x"
  using assms saved_row by (intro lookup_unique) (simp_all add: keys_save)

end

interpretation discussion_repo:
  repository discussions d_id d_live find_discussion save_discussion
  by unfold_locales (simp_all add: find_discussion_def save_discussion_def)

interpretation comment_repo: repository comments c_id c_live find_comment save_comment
  by unfold_locales (simp_all add: find_comment_def save_comment_def)

interpretation answer_repo: repository answers a_id a_live find_answer save_answer
  by unfold_locales (simp_all add: find_answer_def save_answer_def)

interpretation room_repo: repository rooms r_id "\<lambda>_. True" find_room save_room
  by unfold_locales (simp_all add: find_room_def save_room_def)

interpretation tag_repo: repository tags t_id "\<lambda>_. True" find_tag save_tag
  by unfold_locales (simp_all add: find_tag_def save_tag_def)

interpretation membership_repo:
  repository memberships m_key "\<lambda>_. True" "\<lambda>(r, u). find_membership r u" save_membership
  by unfold_locales (auto simp: find_membership_def save_membership_def)

end
