(* ===== verification/Content_Policy.thy ===== *)
theory Content_Policy
  imports Schema
begin

text \<open>
  Who may do what with a piece of content: \<open>common/content-policy.ts\<close>, the request guards
  (\<open>common/guards/*.ts\<close>) and the decorator that reads the caller from the gateway's headers.
\<close>

section \<open>The caller\<close>

text \<open>\<open>x || null\<close> on a header: an empty string counts as absent.\<close>

definition truthy :: "string option \<Rightarrow> string option" where
  "truthy x = (case x of None \<Rightarrow> None | Some t \<Rightarrow> if t = '''' then None else Some t)"

definition current_user :: "(string \<Rightarrow> string option) \<Rightarrow> gateway_user" where
  "current_user headers =
     \<lparr>uid = truthy (headers ''x-user-id''), urole = truthy (headers ''x-user-role'')\<rparr>"

definition guest :: gateway_user where
  "guest = \<lparr>uid = None, urole = None\<rparr>"

definition authenticated :: "gateway_user \<Rightarrow> exn + uuid" where
  "authenticated u = someE (truthy (uid u)) (Unauthorized ''Authentication required'')"

definition admin :: "gateway_user \<Rightarrow> bool" where
  "admin u = (urole u = Some ''admin'')"

text \<open>\<open>['admin', 'moderator'].includes(user.role ?? '')\<close>\<close>

definition staff :: "gateway_user \<Rightarrow> bool" where
  "staff u = (or_else (urole u) '''' \<in> set [''admin'', ''moderator''])"

section \<open>Guards of the routes\<close>

definition gateway_auth_guard :: "(string \<Rightarrow> string option) \<Rightarrow> exn + unit" where
  "gateway_auth_guard headers =
     guardE (truthy (headers ''x-user-id'') \<noteq> None) (Unauthorized ''Authentication required'')"

definition roles_guard :: "string list \<Rightarrow> (string \<Rightarrow> string option) \<Rightarrow> exn + unit" where
  "roles_guard required headers =
     (if required = [] then Inr ()
      else case truthy (headers ''x-user-role'') of
          None \<Rightarrow> Inl (Forbidden ''Insufficient permissions'')
        | Some r \<Rightarrow> guardE (r \<in> set required) (Forbidden ''Insufficient permissions''))"

text \<open>The bytes of a string (code units below 256 take one or two bytes in UTF-8).\<close>

definition utf8_char :: "char \<Rightarrow> nat list" where
  "utf8_char c =
     (let n = (of_char c :: nat) in if n < 128 then [n] else [192 + n div 64, 128 + n mod 64])"

definition utf8 :: "string \<Rightarrow> nat list" where
  "utf8 s = concat (map utf8_char s)"

definition internal_token_guard :: "string option \<Rightarrow> string option \<Rightarrow> exn + unit" where
  "internal_token_guard expected token =
     (case (truthy expected, token) of
        (Some e, Some t) \<Rightarrow>
          if length (utf8 t) \<noteq> length (utf8 e) \<or> utf8 t \<noteq> utf8 e
          then Inl (Forbidden ''Invalid internal service token'') else Inr ()
      | _ \<Rightarrow> Inl (Forbidden ''Invalid internal service token''))"

section \<open>Content\<close>

definition approved :: "moderation_status \<Rightarrow> visibility \<Rightarrow> bool" where
  "approved ms v = (ms \<in> set [Pending, Approved] \<and> v = Visible)"

definition requireReadable :: "discussion \<Rightarrow> gateway_user \<Rightarrow> exn + unit" where
  "requireReadable d u =
     (if \<not> approved (d_moderationStatus d) (d_visibility d) \<and> \<not> staff u \<and> Some (d_authorId d) \<noteq> uid u
      then Inl (NotFound ''Content not found'') else Inr ())"

definition requireApproved :: "discussion \<Rightarrow> exn + unit" where
  "requireApproved d =
     guardE (approved (d_moderationStatus d) (d_visibility d)) (BadRequest ''Post awaits approval'')"

definition canManage :: "uuid \<Rightarrow> gateway_user \<Rightarrow> bool" where
  "canManage authorId u = (truthy (uid u) \<noteq> None \<and> (Some authorId = uid u \<or> staff u))"

definition requireManager :: "uuid \<Rightarrow> gateway_user \<Rightarrow> exn + unit" where
  "requireManager authorId u = bindE (authenticated u) (\<lambda>_.
     guardE (canManage authorId u) (Forbidden ''You cannot modify this content''))"

definition requireOpen :: "discussion \<Rightarrow> exn + unit" where
  "requireOpen d = guardE (d_status d \<noteq> Closed) (BadRequest ''This discussion is closed'')"

text \<open>
  \<open>SELECT ... FOR UPDATE\<close>: the row lock makes the handlers that follow atomic with respect to one
  post, which is why every handler below is one step on the database.
\<close>

definition lockPost :: "uuid \<Rightarrow> db \<Rightarrow> exn + discussion" where
  "lockPost i s = someE (find_discussion i s) (NotFound ''Discussion not found'')"

definition lockCommentPost :: "uuid \<Rightarrow> db \<Rightarrow> exn + discussion \<times> comment" where
  "lockCommentPost i s =
     bindE (someE (find_comment i s) (NotFound ''Comment not found'')) (\<lambda>found.
     bindE (lockPost (c_discussionId found) s) (\<lambda>post.
     bindE (someE (find_comment i s) (NotFound ''Comment not found'')) (\<lambda>comment.
     Inr (post, comment))))"

section \<open>What the guards mean\<close>

lemma truthy_Some [returns]: "truthy x = Some i \<longleftrightarrow> x = Some i \<and> i \<noteq> ''''"
  by (auto simp: truthy_def split: option.splits)

lemma authenticated_Inr [returns]: "authenticated u = Inr i \<longleftrightarrow> uid u = Some i \<and> i \<noteq> ''''"
  by (simp add: authenticated_def returns)

lemma staff_iff: "staff u \<longleftrightarrow> urole u = Some ''admin'' \<or> urole u = Some ''moderator''"
  by (cases "urole u") (auto simp: staff_def)

lemma requireReadable_Inr [returns]:
  "requireReadable d u = Inr x \<longleftrightarrow>
     approved (d_moderationStatus d) (d_visibility d) \<or> staff u \<or> uid u = Some (d_authorId d)"
  by (auto simp: requireReadable_def)

lemma requireApproved_Inr [returns]:
  "requireApproved d = Inr x \<longleftrightarrow> approved (d_moderationStatus d) (d_visibility d)"
  by (simp add: requireApproved_def returns)

lemma requireManager_Inr [returns]:
  "requireManager a u = Inr x \<longleftrightarrow> (\<exists>i. uid u = Some i \<and> i \<noteq> '''' \<and> (a = i \<or> staff u))"
  by (auto simp: requireManager_def canManage_def returns truthy_def split: if_splits)

lemma requireOpen_Inr [returns]: "requireOpen d = Inr x \<longleftrightarrow> d_status d \<noteq> Closed"
  by (simp add: requireOpen_def returns)

lemma lockPost_Inr [returns]: "lockPost i s = Inr d \<longleftrightarrow> find_discussion i s = Some d"
  by (simp add: lockPost_def returns)

lemma lockCommentPost_Inr [returns]:
  "lockCommentPost i s = Inr (post, c) \<longleftrightarrow>
     find_comment i s = Some c \<and> find_discussion (c_discussionId c) s = Some post"
  by (auto simp: lockCommentPost_def returns)

text \<open>The byte comparison decides equality of the tokens, since the encoding is injective.\<close>

lemma utf8_char_inj:
  assumes "utf8_char c @ x = utf8_char d @ y"
  shows "c = d \<and> x = y"
proof -
  let ?m = "of_char c :: nat" and ?n = "of_char d :: nat"
  have "?m = ?n \<and> x = y"
  proof (cases "?m < 128 \<or> ?n < 128")
    case True
    then show ?thesis using assms by (auto simp: utf8_char_def Let_def split: if_splits)
  next
    case False
    then have "?m div 64 = ?n div 64" "?m mod 64 = ?n mod 64" "x = y"
      using assms by (auto simp: utf8_char_def Let_def)
    then show ?thesis by (metis div_mult_mod_eq)
  qed
  then show ?thesis by simp
qed

lemma utf8_inj: "utf8 s = utf8 t \<Longrightarrow> s = t"
proof (induction s arbitrary: t)
  case Nil
  then show ?case
    by (cases t) (auto simp: utf8_def utf8_char_def Let_def split: if_splits)
next
  case (Cons c s)
  then obtain d t' where t: "t = d # t'"
    by (cases t) (auto simp: utf8_def utf8_char_def Let_def split: if_splits)
  then have "c = d \<and> utf8 s = utf8 t'"
    using Cons.prems by (intro utf8_char_inj) (simp add: utf8_def)
  then show ?case using Cons.IH t by simp
qed

end
