(* ===== verification/Outbox.thy ===== *)
theory Outbox
  imports Schema
begin

text \<open>
  The transactional outbox of the discussion service: \<open>OutboxService.event\<close> appends an event in
  the transaction that causes it, \<open>OutboxWorker.deliver\<close> publishes the due events to the NATS
  stream in batches of twenty and reschedules the ones whose publication failed.
\<close>

section \<open>Writing events\<close>

definition event :: "env \<Rightarrow> nat \<Rightarrow> string \<Rightarrow> (string \<times> json) list \<Rightarrow> db \<Rightarrow> exn + db" where
  "event e k eventType data s =
     bindE (insert_row o_id ''discussion_outbox_pkey''
              \<lparr>o_id = fresh e k, o_eventType = eventType, o_payload = data, o_createdAt = now e,
               o_deliveredAt = None, o_attempts = 0, o_nextAttemptAt = now e\<rparr> (outbox s))
       (\<lambda>box. Inr (s\<lparr>outbox := box\<rparr>))"

lemma event_Inr [returns]:
  "event e k ty data s = Inr s' \<longleftrightarrow>
     fresh e k \<notin> o_id ` set (outbox s) \<and>
     s' = s\<lparr>outbox := outbox s @
              [\<lparr>o_id = fresh e k, o_eventType = ty, o_payload = data, o_createdAt = now e,
                o_deliveredAt = None, o_attempts = 0, o_nextAttemptAt = now e\<rparr>]\<rparr>"
  by (auto simp: event_def returns)

section \<open>Publishing\<close>

text \<open>
  The outcome of \<open>js.publish\<close>: acknowledged by the stream, stored by the stream while the
  acknowledgement was lost, or not stored (also when there is no connection).
\<close>

datatype publish_result = Acked | AckLost | Refused

record message =
  subject :: string
  eventId :: uuid
  eventType :: string
  eventData :: "(string \<times> json) list"

definition message_of :: "outbox_event \<Rightarrow> message" where
  "message_of ev =
     \<lparr>subject = ''ac.social.'' @ o_eventType ev, eventId = o_id ev, eventType = o_eventType ev,
      eventData = o_payload ev\<rparr>"

definition publish ::
  "bool \<Rightarrow> publish_result \<Rightarrow> outbox_event \<Rightarrow> message list \<Rightarrow> (exn + unit) \<times> message list" where
  "publish connected result ev stream =
     (if \<not> connected then (Inl (InternalError ''NATS not connected''), stream)
      else case result of
          Acked \<Rightarrow> (Inr (), stream @ [message_of ev])
        | AckLost \<Rightarrow> (Inl (InternalError ''NATS timeout''), stream @ [message_of ev])
        | Refused \<Rightarrow> (Inl (InternalError ''NATS timeout''), stream))"

section \<open>The worker\<close>

definition due :: "time \<Rightarrow> outbox_event \<Rightarrow> bool" where
  "due t ev = (o_deliveredAt ev = None \<and> o_nextAttemptAt ev \<le> t)"

definition batch :: "time \<Rightarrow> outbox_event list \<Rightarrow> outbox_event list" where
  "batch t box = take 20 (sort_key o_createdAt (filter (due t) box))"

definition mark_delivered :: "time \<Rightarrow> uuid \<Rightarrow> outbox_event list \<Rightarrow> outbox_event list" where
  "mark_delivered t i =
     update_where (\<lambda>ev. o_id ev = i) (\<lambda>ev. ev\<lparr>o_deliveredAt := Some t\<rparr>)"

definition reschedule :: "time \<Rightarrow> uuid \<Rightarrow> outbox_event list \<Rightarrow> outbox_event list" where
  "reschedule t i =
     update_where (\<lambda>ev. o_id ev = i)
       (\<lambda>ev. ev\<lparr>o_attempts := o_attempts ev + 1, o_nextAttemptAt := t + 5000\<rparr>)"

fun deliver_rows ::
  "time \<Rightarrow> bool \<Rightarrow> (uuid \<Rightarrow> publish_result) \<Rightarrow> outbox_event list \<Rightarrow>
   outbox_event list \<times> message list \<Rightarrow> outbox_event list \<times> message list" where
  "deliver_rows t connected net [] (box, stream) = (box, stream)"
| "deliver_rows t connected net (row # rows) (box, stream) =
     (case publish connected (net (o_id row)) row stream of
        (Inr _, stream') \<Rightarrow>
          deliver_rows t connected net rows (mark_delivered t (o_id row) box, stream')
      | (Inl _, stream') \<Rightarrow>
          deliver_rows t connected net rows (reschedule t (o_id row) box, stream'))"

definition deliver ::
  "time \<Rightarrow> bool \<Rightarrow> (uuid \<Rightarrow> publish_result) \<Rightarrow>
   outbox_event list \<times> message list \<Rightarrow> outbox_event list \<times> message list" where
  "deliver t connected net q = deliver_rows t connected net (batch t (fst q)) q"

section \<open>What one round does\<close>

lemma mem_batch: "ev \<in> set (batch t box) \<Longrightarrow> ev \<in> set box \<and> due t ev"
  by (auto simp: batch_def dest: in_set_takeD)

lemma distinct_batch: "distinct (map o_id box) \<Longrightarrow> distinct (map o_id (batch t box))"
proof -
  assume "distinct (map o_id box)"
  then have "distinct (map o_id (sort_key o_createdAt (filter (due t) box)))"
    by (auto simp: distinct_map intro: inj_on_subset)
  then show ?thesis by (simp add: batch_def distinct_take flip: take_map)
qed

lemma keys_mark [row_simps]: "map o_id (mark_delivered t i box) = map o_id box"
  unfolding mark_delivered_def by (rule update_where_keys) simp

lemma keys_reschedule [row_simps]: "map o_id (reschedule t i box) = map o_id box"
  unfolding reschedule_def by (rule update_where_keys) simp

text \<open>What becomes of one row: it depends on its own outcome only.\<close>

definition delivered_row ::
  "time \<Rightarrow> bool \<Rightarrow> (uuid \<Rightarrow> publish_result) \<Rightarrow> outbox_event \<Rightarrow> outbox_event" where
  "delivered_row t connected net ev =
     (if connected \<and> net (o_id ev) = Acked then ev\<lparr>o_deliveredAt := Some t\<rparr>
      else ev\<lparr>o_attempts := o_attempts ev + 1, o_nextAttemptAt := t + 5000\<rparr>)"

definition sent :: "bool \<Rightarrow> (uuid \<Rightarrow> publish_result) \<Rightarrow> outbox_event \<Rightarrow> bool" where
  "sent connected net ev = (connected \<and> net (o_id ev) \<noteq> Refused)"

lemma delivered_row_id [simp]: "o_id (delivered_row t c net ev) = o_id ev"
  by (simp add: delivered_row_def)

lemma deliver_row:
  "deliver_rows t c net (row # rows) (box, stream) = deliver_rows t c net rows
     (map (\<lambda>ev. if o_id ev = o_id row then delivered_row t c net ev else ev) box,
      stream @ (if sent c net row then [message_of row] else []))"
  by (cases "net (o_id row)"; cases c)
    (simp_all add: publish_def sent_def delivered_row_def mark_delivered_def reschedule_def
      update_where_def cong: if_cong)

lemma deliver_rows_eq:
  assumes "distinct (map o_id rows)"
  shows "deliver_rows t c net rows (box, stream) =
    (map (\<lambda>ev. if o_id ev \<in> o_id ` set rows then delivered_row t c net ev else ev) box,
     stream @ map message_of (filter (sent c net) rows))"
  using assms
proof (induction rows arbitrary: box stream)
  case Nil
  then show ?case by simp
next
  case (Cons row rows)
  then have new: "o_id row \<notin> o_id ` set rows" by auto
  have "deliver_rows t c net (row # rows) (box, stream) =
    (map (\<lambda>ev. if o_id ev \<in> o_id ` set rows then delivered_row t c net ev else ev)
       (map (\<lambda>ev. if o_id ev = o_id row then delivered_row t c net ev else ev) box),
     (stream @ (if sent c net row then [message_of row] else [])) @
       map message_of (filter (sent c net) rows))"
    unfolding deliver_row using Cons by simp
  also have "map (\<lambda>ev. if o_id ev \<in> o_id ` set rows then delivered_row t c net ev else ev)
       (map (\<lambda>ev. if o_id ev = o_id row then delivered_row t c net ev else ev) box) =
     map (\<lambda>ev. if o_id ev \<in> o_id ` set (row # rows) then delivered_row t c net ev else ev) box"
    using new by simp
  finally show ?case by simp
qed

lemma deliver_eq:
  assumes "distinct (map o_id box)"
  shows "deliver t c net (box, stream) =
    (map (\<lambda>ev. if o_id ev \<in> o_id ` set (batch t box) then delivered_row t c net ev else ev) box,
     stream @ map message_of (filter (sent c net) (batch t box)))"
  unfolding deliver_def using deliver_rows_eq [OF distinct_batch [OF assms]] by simp

lemma in_batch_iff:
  assumes "distinct (map o_id box)" "ev \<in> set box"
  shows "o_id ev \<in> o_id ` set (batch t box) \<longleftrightarrow> ev \<in> set (batch t box)"
proof
  assume "o_id ev \<in> o_id ` set (batch t box)"
  then obtain ev' where "ev' \<in> set (batch t box)" "o_id ev' = o_id ev" by auto
  moreover from this have "ev' \<in> set box" by (auto dest: mem_batch)
  ultimately show "ev \<in> set (batch t box)"
    using assms by (metis distinct_map inj_onD)
qed simp

lemma keys_deliver:
  assumes "distinct (map o_id box)"
  shows "map o_id (fst (deliver t c net (box, stream))) = map o_id box"
  unfolding deliver_eq [OF assms] by simp

section \<open>Draining\<close>

text \<open>
  A worker that takes at least \<open>capacity\<close> pending items from its queue in each round, or all of
  them, empties the queue.
\<close>

locale draining =
  fixes pending :: "'q \<Rightarrow> nat"
    and round :: "'q \<Rightarrow> 'q"
    and ok :: "'q \<Rightarrow> bool"
    and capacity :: nat
  assumes takes: "ok q \<Longrightarrow> pending (round q) = pending q - capacity"
    and keeps: "ok q \<Longrightarrow> ok (round q)"
begin

lemma ok_rounds: "ok q \<Longrightarrow> ok ((round ^^ n) q)"
  by (induction n) (simp_all add: keeps)

lemma pending_rounds: "ok q \<Longrightarrow> pending ((round ^^ n) q) = pending q - n * capacity"
  by (induction n) (simp_all add: takes ok_rounds)

lemma drained: "ok q \<Longrightarrow> pending q \<le> n * capacity \<Longrightarrow> pending ((round ^^ n) q) = 0"
  by (simp add: pending_rounds)

end

definition backlog :: "time \<Rightarrow> outbox_event list \<times> message list \<Rightarrow> nat" where
  "backlog t q = count_where (due t) (fst q)"

definition keyed :: "outbox_event list \<times> message list \<Rightarrow> bool" where
  "keyed q = distinct (map o_id (fst q))"

lemma length_batch: "length (batch t box) = min 20 (count_where (due t) box)"
  by (simp add: batch_def count_where_def min.commute)

lemma backlog_deliver:
  assumes "keyed q"
  shows "backlog t (deliver t True (\<lambda>_. Acked) q) = backlog t q - 20"
proof -
  obtain box stream where q: "q = (box, stream)" by (cases q)
  with assms have d: "distinct (map o_id box)" by (simp add: keyed_def)
  let ?b = "set (batch t box)"
  have "count_where (due t) (fst (deliver t True (\<lambda>_. Acked) q)) =
        length (filter (\<lambda>ev. due t ev \<and> ev \<notin> ?b) box)"
  proof -
    have "filter (due t \<circ> (\<lambda>ev. if o_id ev \<in> o_id ` ?b then delivered_row t True (\<lambda>_. Acked) ev else ev)) box
        = filter (\<lambda>ev. due t ev \<and> ev \<notin> ?b) box"
      using in_batch_iff [OF d] by (intro filter_cong) (auto simp: delivered_row_def due_def)
    then show ?thesis
      by (simp add: q deliver_eq [OF d] count_where_def filter_map)
  qed
  also have "\<dots> = card ({ev \<in> set box. due t ev} - ?b)"
    using d by (subst distinct_card [symmetric]) (auto simp: distinct_map intro: arg_cong [where f = card])
  also have "\<dots> = card {ev \<in> set box. due t ev} - card ?b"
    using mem_batch by (intro card_Diff_subset) auto
  also have "card ?b = length (batch t box)"
    using distinct_batch [OF d] by (intro distinct_card) (simp add: distinct_map)
  also have "card {ev \<in> set box. due t ev} = count_where (due t) box"
    using d by (simp add: count_where_def distinct_map distinct_card flip: set_filter)
  finally show ?thesis
    by (simp add: backlog_def q length_batch)
qed

interpretation outbox_worker:
  draining "backlog t" "deliver t True (\<lambda>_. Acked)" keyed 20 for t
proof unfold_locales
  fix q
  assume "keyed q"
  then show "backlog t (deliver t True (\<lambda>_. Acked) q) = backlog t q - 20"
    by (rule backlog_deliver)
  show "keyed (deliver t True (\<lambda>_. Acked) q)"
    using \<open>keyed q\<close> keys_deliver by (cases q) (simp add: keyed_def)
qed

end
