(* ===== verification/Services.thy ===== *)
theory Services
  imports Content_Policy Outbox
begin

text \<open>
  The services of \<open>common/\<close> that the handlers call and that ask other services over HTTP:
  attachments (\<open>MediaReferenceService\<close>), academic contexts (\<open>AcademicReferenceService\<close>) and
  mentions (\<open>MentionService\<close>). The answers are the functions of the \<open>env\<close> record.
\<close>

section \<open>Attachments\<close>

definition check_asset :: "env \<Rightarrow> uuid option \<Rightarrow> uuid \<Rightarrow> exn + unit" where
  "check_asset e ownerId i =
     (case media_info e i of
        NetworkError \<Rightarrow> Inl (ServiceUnavailable ''Media service unavailable'')
      | Reply st body \<Rightarrow>
          if st = 404 then Inl (BadRequest ''Attachment not found'')
          else if \<not> reply_ok (media_info e i)
          then Inl (ServiceUnavailable ''Cannot verify attachment'')
          else case body of
              None \<Rightarrow> Inl (InternalError ''invalid JSON'')
            | Some asset \<Rightarrow>
                if scanStatus asset \<noteq> ''clean''
                then Inl (BadRequest ''File chua duoc quet virus. Vui long tai lai hoac go file.'')
                else if truthy ownerId \<noteq> None \<and> uploadedBy asset \<noteq> ownerId
                then Inl (Forbidden ''You can only attach your own files'')
                else Inr ())"

fun validate_media :: "env \<Rightarrow> uuid list \<Rightarrow> uuid option \<Rightarrow> exn + unit" where
  "validate_media e [] ownerId = Inr ()"
| "validate_media e (i # ids) ownerId =
     bindE (check_asset e ownerId i) (\<lambda>_. validate_media e ids ownerId)"

lemma validate_media_Inr:
  "validate_media e ids ownerId = Inr u \<longleftrightarrow> (\<forall>i \<in> set ids. check_asset e ownerId i = Inr ())"
  by (induction ids) (auto simp: returns)

lemma check_asset_Inr:
  "check_asset e ownerId i = Inr () \<longleftrightarrow>
     (\<exists>st asset. media_info e i = Reply st (Some asset) \<and> 200 \<le> st \<and> st < 300 \<and>
        scanStatus asset = ''clean'' \<and> (truthy ownerId = None \<or> uploadedBy asset = ownerId))"
  by (auto simp: check_asset_def split: reply.splits option.splits if_splits)

section \<open>Academic contexts\<close>

definition academic_context :: "env \<Rightarrow> uuid \<Rightarrow> exn + academic_context" where
  "academic_context e i =
     (case academic_info e i of
        NetworkError \<Rightarrow> Inl (ServiceUnavailable ''Academic service unavailable'')
      | Reply st body \<Rightarrow>
          if st = 404 then Inl (BadRequest ''Academic context does not exist'')
          else if \<not> reply_ok (academic_info e i)
          then Inl (ServiceUnavailable ''Cannot validate academic context'')
          else someE body (InternalError ''invalid JSON''))"

definition academic_major :: "env \<Rightarrow> uuid \<Rightarrow> exn + unit" where
  "academic_major e i =
     (case major_info e i of
        NetworkError \<Rightarrow> Inl (ServiceUnavailable ''Academic service unavailable'')
      | Reply st body \<Rightarrow>
          if st = 404 then Inl (BadRequest ''Active major does not exist'')
          else if \<not> reply_ok (major_info e i)
          then Inl (ServiceUnavailable ''Cannot validate major'')
          else someE body (InternalError ''invalid JSON''))"

section \<open>Mentions\<close>

text \<open>
  \<open>/(?:^|\s)@([a-zA-Z0-9_]{3,20})\b/g\<close>: an at sign at the start of the text or after white space,
  followed by a maximal run of 3 to 20 word characters. The flag says whether the position is at
  such a boundary.
\<close>

definition word_char :: "char \<Rightarrow> bool" where
  "word_char c =
     (let n = (of_char c :: nat) in
      (97 \<le> n \<and> n \<le> 122) \<or> (65 \<le> n \<and> n \<le> 90) \<or> (48 \<le> n \<and> n \<le> 57) \<or> n = 95)"

function mentions_at :: "bool \<Rightarrow> string \<Rightarrow> string list" where
  "mentions_at boundary [] = []"
| "mentions_at boundary (c # cs) =
     (if boundary \<and> c = CHR ''@''
      then
        (let w = takeWhile word_char cs in
         if 3 \<le> length w \<and> length w \<le> 20
         then w # mentions_at False (dropWhile word_char cs)
         else mentions_at False cs)
      else mentions_at (is_space c) cs)"
  by pat_completeness auto

termination
  by (relation "measure (\<lambda>(_, s). length s)") (simp_all add: le_imp_less_Suc length_dropWhile_le)

definition mentioned_usernames :: "string \<Rightarrow> string list" where
  "mentioned_usernames content = take 20 (new_set (mentions_at True content))"

record mention_context =
  mc_entityType :: string
  mc_entityId :: uuid
  mc_discussionId :: uuid
  mc_discussionTitle :: string

definition mention_payload ::
  "uuid \<Rightarrow> mention_context \<Rightarrow> uuid \<times> string \<Rightarrow> (string \<times> json) list" where
  "mention_payload actorId ctx mentioned =
     [(''recipientId'', JStr (fst mentioned)), (''actorId'', JStr actorId),
      (''mentionedUsername'', JStr (snd mentioned)), (''entityType'', JStr (mc_entityType ctx)),
      (''entityId'', JStr (mc_entityId ctx)), (''discussionId'', JStr (mc_discussionId ctx)),
      (''discussionTitle'', JStr (mc_discussionTitle ctx))]"

fun events :: "env \<Rightarrow> nat \<Rightarrow> string \<Rightarrow> (string \<times> json) list list \<Rightarrow> db \<Rightarrow> exn + db" where
  "events e k ty [] s = Inr s"
| "events e k ty (data # rest) s =
     bindE (event e k ty data s) (\<lambda>s. events e (k + 1) ty rest s)"

definition emit_mentions ::
  "env \<Rightarrow> nat \<Rightarrow> string \<Rightarrow> uuid \<Rightarrow> mention_context \<Rightarrow> db \<Rightarrow> exn + db" where
  "emit_mentions e k content actorId ctx s =
     (let usernames = mentioned_usernames content in
      if usernames = [] then Inr s
      else case usernames_info e usernames of
          NetworkError \<Rightarrow> Inr s
        | Reply st body \<Rightarrow>
            if \<not> reply_ok (usernames_info e usernames) then Inr s
            else bindE (someE body (InternalError ''invalid JSON'')) (\<lambda>users.
              events e k ''mention.created''
                (map (mention_payload actorId ctx) (filter (\<lambda>u. fst u \<noteq> actorId) users)) s))"

section \<open>What the services may change\<close>

text \<open>Two databases that differ in the outbox only.\<close>

definition same_content :: "db \<Rightarrow> db \<Rightarrow> bool" where
  "same_content s s' = (s'\<lparr>outbox := []\<rparr> = s\<lparr>outbox := []\<rparr>)"

lemma same_content_refl [simp]: "same_content s s"
  by (simp add: same_content_def)

lemma same_content_trans: "same_content s t \<Longrightarrow> same_content t u \<Longrightarrow> same_content s u"
  by (simp add: same_content_def)

lemma event_same_content: "event e k ty data s = Inr s' \<Longrightarrow> same_content s s'"
  by (auto simp: returns same_content_def)

lemma events_same_content: "events e k ty datas s = Inr s' \<Longrightarrow> same_content s s'"
  by (induction datas arbitrary: k s)
    (auto simp: returns same_content_def dest!: event_same_content)

lemma emit_mentions_same_content: "emit_mentions e k c a ctx s = Inr s' \<Longrightarrow> same_content s s'"
  by (auto simp: emit_mentions_def returns Let_def events_same_content
      split: if_splits reply.splits)

lemma same_content_tables:
  assumes "same_content s s'"
  shows "rooms s' = rooms s" "bindings s' = bindings s" "memberships s' = memberships s"
    "roomRules s' = roomRules s" "policyAudits s' = policyAudits s"
    "discussions s' = discussions s" "discussionTags s' = discussionTags s"
    "discussionMedia s' = discussionMedia s" "discussionRevisions s' = discussionRevisions s"
    "tags s' = tags s" "comments s' = comments s" "answers s' = answers s"
    "answerRevisions s' = answerRevisions s" "answerAcceptances s' = answerAcceptances s"
    "votes s' = votes s" "moderationReviews s' = moderationReviews s"
  using assms by (cases s; cases s'; simp add: same_content_def)+

lemma same_content_outbox:
  assumes "same_content s s'"
  shows "s' = s\<lparr>outbox := outbox s'\<rparr>"
  using assms by (cases s; cases s'; simp add: same_content_def)

text \<open>The events appended by a call.\<close>

lemma events_outbox:
  "events e k ty datas s = Inr s' \<Longrightarrow>
     \<exists>new. outbox s' = outbox s @ new \<and> map o_payload new = datas \<and> (\<forall>ev \<in> set new. o_eventType ev = ty)"
proof (induction datas arbitrary: k s)
  case Nil
  then show ?case by simp
next
  case (Cons data datas)
  then obtain s1 where s1: "event e k ty data s = Inr s1" "events e (k + 1) ty datas s1 = Inr s'"
    by (auto simp: returns)
  from Cons.IH [OF s1(2)] obtain new where
    "outbox s' = outbox s1 @ new" "map o_payload new = datas" "\<forall>ev \<in> set new. o_eventType ev = ty"
    by blast
  with s1(1) show ?case
    by (auto simp: event_Inr intro!: exI)
qed

text \<open>A username that is mentioned has between 3 and 20 word characters, and occurs once.\<close>

lemma mentions_at_words:
  "w \<in> set (mentions_at b s) \<Longrightarrow> 3 \<le> length w \<and> length w \<le> 20 \<and> list_all word_char w"
  by (induction b s rule: mentions_at.induct)
    (auto simp: Let_def list_all_iff dest: set_takeWhileD split: if_splits)

lemma mentioned_usernames_spec:
  "distinct (mentioned_usernames c)" "length (mentioned_usernames c) \<le> 20"
  "w \<in> set (mentioned_usernames c) \<Longrightarrow> 3 \<le> length w \<and> length w \<le> 20 \<and> list_all word_char w"
  using mentions_at_words by (auto simp: mentioned_usernames_def distinct_take dest: in_set_takeD)

end
