(* ===== verification/Rooms.thy ===== *)
theory Rooms
  imports Services
begin

text \<open>
  \<open>rooms/rooms.service.ts\<close>: rooms, their academic bindings, members, rules and posting policy.
  A handler takes the environment of the request, its arguments, the caller and the database, and
  returns the response (or the exception) with the new database.
\<close>

section \<open>Requests\<close>

record create_room_dto =
  cr_slug :: string
  cr_name :: string
  cr_description :: "string option"
  cr_roomType :: room_type
  cr_parentRoomId :: "uuid option"
  cr_majorId :: "uuid option"
  cr_curriculumCourseId :: "uuid option"
  cr_visibility :: "room_visibility option"
  cr_postingPolicy :: "posting_policy option"
  cr_membershipPolicy :: "membership_policy option"
  cr_reviewPolicy :: "review_policy option"
  cr_startAt :: "time option"
  cr_endAt :: "time option"

record create_rule_dto =
  ur_ruleCode :: string
  ur_title :: string
  ur_description :: string
  ur_severity :: severity

record update_membership_dto =
  um_postPermission :: "post_permission option"
  um_role :: member_role
  um_status :: member_status

record update_policy_dto =
  up_reviewPolicy :: review_policy
  up_policyLocked :: "bool option"

section \<open>Who manages a room\<close>

text \<open>\<open>expiresAt && expiresAt <= new Date()\<close>\<close>

definition expired :: "time \<Rightarrow> room_membership \<Rightarrow> bool" where
  "expired t m = (case m_expiresAt m of None \<Rightarrow> False | Some x \<Rightarrow> x \<le> t)"

definition find_active_membership :: "uuid \<Rightarrow> uuid \<Rightarrow> db \<Rightarrow> room_membership option" where
  "find_active_membership roomId userId s =
     find_by (\<lambda>m. m_key m = (roomId, userId) \<and> m_status m = Active) (memberships s)"

definition managedRoomIds :: "env \<Rightarrow> gateway_user \<Rightarrow> db \<Rightarrow> exn + uuid list" where
  "managedRoomIds e u s = bindE (authenticated u) (\<lambda>actor.
     Inr (map m_roomId
       (filter (\<lambda>m. m_userId m = actor \<and> m_status m = Active \<and> m_role m \<in> set [Owner, Moderator] \<and>
                    \<not> expired (now e) m)
         (memberships s))))"

definition requireRoomManager :: "env \<Rightarrow> uuid \<Rightarrow> gateway_user \<Rightarrow> db \<Rightarrow> exn + unit" where
  "requireRoomManager e roomId u s = bindE (authenticated u) (\<lambda>actor.
     if staff u then Inr ()
     else case find_active_membership roomId actor s of
         None \<Rightarrow> Inl (Forbidden ''Room manager role required'')
       | Some m \<Rightarrow>
           if expired (now e) m \<or> m_role m \<notin> set [Owner, Moderator]
           then Inl (Forbidden ''Room manager role required'') else Inr ())"

definition requirePolicyOwner :: "env \<Rightarrow> uuid \<Rightarrow> gateway_user \<Rightarrow> db \<Rightarrow> exn + unit" where
  "requirePolicyOwner e roomId u s = bindE (authenticated u) (\<lambda>actor.
     if admin u then Inr ()
     else case find_active_membership roomId actor s of
         None \<Rightarrow> Inl (Forbidden ''Chi chu room va quan tri vien duoc cau hinh quyen dang'')
       | Some m \<Rightarrow>
           if m_role m \<noteq> Owner \<or> expired (now e) m
           then Inl (Forbidden ''Chi chu room va quan tri vien duoc cau hinh quyen dang'')
           else Inr ())"

section \<open>Reading rooms\<close>

definition binding :: "uuid \<Rightarrow> db \<Rightarrow> room_academic_binding option" where
  "binding roomId s = find_by (\<lambda>b. b_roomId b = roomId) (bindings s)"

text \<open>The effective permission to post, which only \<open>postPermission\<close> computes.\<close>

datatype post_decision = Direct | NeedsApproval | Blocked

definition postPermission :: "env \<Rightarrow> room \<Rightarrow> room_membership option \<Rightarrow> post_decision" where
  "postPermission e room membership =
     (let inherited = (if r_reviewPolicy room = ApprovalPolicy then NeedsApproval else Direct) in
      case membership of
        None \<Rightarrow> inherited
      | Some m \<Rightarrow>
          if m_status m \<in> set [Banned, Muted] \<or> expired (now e) m then Blocked
          else if m_postPermission m = BlockedPost then Blocked
          else if m_status m = Active \<and> m_postPermission m \<noteq> Inherit
          then (case m_postPermission m of
                  DirectPost \<Rightarrow> Direct | ApprovalPost \<Rightarrow> NeedsApproval | BlockedPost \<Rightarrow> Blocked
                | Inherit \<Rightarrow> inherited)
          else inherited)"

text \<open>\<open>/^[0-9a-f]{8}-[0-9a-f]{4}-[1-5][0-9a-f]{3}-[89ab][0-9a-f]{3}-[0-9a-f]{12}$/i\<close>\<close>

definition hex_char :: "char \<Rightarrow> bool" where
  "hex_char c = (lower_char c \<in> set ''0123456789abcdef'')"

definition uuid_pattern :: "(char \<Rightarrow> bool) list" where
  "uuid_pattern =
     replicate 8 hex_char @ [\<lambda>c. c = CHR ''-''] @ replicate 4 hex_char @ [\<lambda>c. c = CHR ''-''] @
     [\<lambda>c. c \<in> set ''12345''] @ replicate 3 hex_char @ [\<lambda>c. c = CHR ''-''] @
     [\<lambda>c. lower_char c \<in> set ''89ab''] @ replicate 3 hex_char @ [\<lambda>c. c = CHR ''-''] @
     replicate 12 hex_char"

definition is_uuid :: "string \<Rightarrow> bool" where
  "is_uuid s = list_all2 (\<lambda>p c. p c) uuid_pattern s"

definition findOne_room ::
  "string \<Rightarrow> gateway_user \<Rightarrow> db \<Rightarrow> exn + (room \<times> room_academic_binding option)" where
  "findOne_room idOrSlug u s =
     bindE (someE (if is_uuid idOrSlug then find_room idOrSlug s
                   else find_by (\<lambda>r. r_slug r = idOrSlug) (rooms s))
              (NotFound ''Room not found'')) (\<lambda>room.
     if r_visibility room = PRIVATE \<and> \<not> staff u \<and>
        (case truthy (uid u) of
           None \<Rightarrow> True | Some i \<Rightarrow> find_active_membership (r_id room) i s = None)
     then Inl (NotFound ''Room not found'')
     else Inr (room, binding (r_id room) s))"

record room_view =
  rv_room :: room
  rv_effectivePostPermission :: post_decision
  rv_canManage :: bool
  rv_canConfigurePolicy :: bool
  rv_academicBinding :: "room_academic_binding option"

definition visible_room :: "gateway_user \<Rightarrow> db \<Rightarrow> room \<Rightarrow> bool" where
  "visible_room u s room =
     (staff u \<or> r_visibility room \<noteq> PRIVATE \<or>
      exists_where (\<lambda>m. m_roomId m = r_id room \<and> Some (m_userId m) = uid u \<and> m_status m = Active)
        (memberships s))"

text \<open>The collation of the database orders the names; it is the argument \<open>collate\<close>.\<close>

definition list_rooms ::
  "env \<Rightarrow> (string \<Rightarrow> string) \<Rightarrow> room_type option \<Rightarrow> uuid option \<Rightarrow> gateway_user \<Rightarrow> db \<Rightarrow>
   exn + room_view list" where
  "list_rooms e collate type parentRoomId u s =
     (let selected = sort_key (collate \<circ> r_name)
            (filter (\<lambda>r. (type = None \<or> Some (r_type r) = type) \<and>
                         (truthy parentRoomId = None \<or> r_parent r = parentRoomId) \<and>
                         visible_room u s r) (rooms s));
          loggedIn = (truthy (uid u) \<noteq> None);
          own = (if loggedIn then filter (\<lambda>m. Some (m_userId m) = uid u) (memberships s) else [])
      in bindE (if loggedIn then managedRoomIds e u s else Inr []) (\<lambda>managedIds.
         Inr (map (\<lambda>room.
           \<lparr>rv_room = room,
            rv_effectivePostPermission =
              postPermission e room (find_by (\<lambda>m. m_roomId m = r_id room) own),
            rv_canManage = ((loggedIn \<and> staff u) \<or> r_id room \<in> set managedIds),
            rv_canConfigurePolicy =
              (admin u \<or>
               exists_where (\<lambda>m. m_roomId m = r_id room \<and> m_status m = Active \<and> m_role m = Owner \<and>
                 \<not> expired (now e) m) own),
            rv_academicBinding = binding (r_id room) s\<rparr>) selected)))"

section \<open>Creating a room\<close>

definition create_guards :: "create_room_dto \<Rightarrow> gateway_user \<Rightarrow> exn + unit" where
  "create_guards dto u =
     bindE (guardE (cr_roomType dto \<notin> set [MAJOR, COURSE] \<or> admin u)
              (Forbidden ''Only admins create canonical academic rooms'')) (\<lambda>_.
     guardE (case (cr_startAt dto, cr_endAt dto) of
               (Some st, Some en) \<Rightarrow> st < en | _ \<Rightarrow> True)
       (BadRequest ''endAt must be after startAt''))"

definition create_parent ::
  "env \<Rightarrow> create_room_dto \<Rightarrow> gateway_user \<Rightarrow> db \<Rightarrow> exn + room option" where
  "create_parent e dto u s =
     (let parent = (case cr_parentRoomId dto of None \<Rightarrow> None | Some p \<Rightarrow> find_room p s) in
      bindE (guardE (cr_parentRoomId dto = None \<or> parent \<noteq> None)
               (BadRequest ''Parent room not found'')) (\<lambda>_.
      bindE (guardE (cr_roomType dto \<noteq> COURSE \<or> map_option r_type parent = Some MAJOR)
               (BadRequest ''Course room must be a child of a major room'')) (\<lambda>_.
      case parent of
        None \<Rightarrow> Inr None
      | Some p \<Rightarrow>
          if cr_roomType dto \<in> set [EVENT, FORUM]
          then bindE (requireRoomManager e (r_id p) u s) (\<lambda>_. Inr (Some p))
          else Inr (Some p))))"

definition create_context ::
  "env \<Rightarrow> create_room_dto \<Rightarrow> room option \<Rightarrow> db \<Rightarrow> exn + academic_context option" where
  "create_context e dto parent s =
     (if cr_roomType dto \<noteq> COURSE then Inr None
      else case cr_curriculumCourseId dto of
          None \<Rightarrow> Inl (BadRequest ''Course room requires curriculumCourseId'')
        | Some cc \<Rightarrow>
            bindE (academic_context e cc) (\<lambda>context.
            case (case parent of None \<Rightarrow> None | Some p \<Rightarrow> binding (r_id p) s) of
              None \<Rightarrow> Inl (BadRequest ''Course does not belong to the parent major room'')
            | Some b \<Rightarrow>
                if b_majorId b \<noteq> ctx_majorId context
                then Inl (BadRequest ''Course does not belong to the parent major room'')
                else Inr (Some context)))"

text \<open>The join of the bindings with the rooms of a type.\<close>

definition bound_rooms ::
  "room_type \<Rightarrow> (room_academic_binding \<Rightarrow> bool) \<Rightarrow> db \<Rightarrow> room_academic_binding list" where
  "bound_rooms ty P s =
     filter (\<lambda>b. P b \<and> exists_where (\<lambda>r. r_id r = b_roomId b \<and> r_type r = ty) (rooms s)) (bindings s)"

definition create_canonical :: "env \<Rightarrow> create_room_dto \<Rightarrow> db \<Rightarrow> exn + unit" where
  "create_canonical e dto s =
     (case cr_roomType dto of
        MAJOR \<Rightarrow>
          (case cr_majorId dto of
             None \<Rightarrow> Inl (BadRequest ''Major room requires majorId'')
           | Some mj \<Rightarrow>
               bindE (academic_major e mj) (\<lambda>_.
               guardE (bound_rooms MAJOR (\<lambda>b. b_majorId b = mj) s = [])
                 (Conflict ''Canonical major room already exists'')))
      | COURSE \<Rightarrow>
          guardE (bound_rooms COURSE
                    (\<lambda>b. cr_curriculumCourseId dto \<noteq> None \<and>
                         b_curriculumCourseId b = cr_curriculumCourseId dto) s = [])
            (Conflict ''Canonical course room already exists'')
      | _ \<Rightarrow> Inr ())"

text \<open>The checks before the transaction, which read the database only.\<close>

definition create_checks ::
  "env \<Rightarrow> create_room_dto \<Rightarrow> gateway_user \<Rightarrow> db \<Rightarrow>
   exn + uuid \<times> room option \<times> academic_context option" where
  "create_checks e dto u s =
     bindE (authenticated u) (\<lambda>actor.
     bindE (create_guards dto u) (\<lambda>_.
     bindE (create_parent e dto u s) (\<lambda>parent.
     bindE (create_context e dto parent s) (\<lambda>context.
     bindE (create_canonical e dto s) (\<lambda>_.
     Inr (actor, parent, context))))))"

definition new_room :: "env \<Rightarrow> create_room_dto \<Rightarrow> uuid \<Rightarrow> room" where
  "new_room e dto actor =
     \<lparr>r_id = fresh e 0, r_slug = cr_slug dto, r_name = cr_name dto,
      r_description = or_else (cr_description dto) '''',
      r_type = cr_roomType dto, r_parent = cr_parentRoomId dto,
      r_visibility = or_else (cr_visibility dto) PUBLIC,
      r_membershipPolicy = or_else (cr_membershipPolicy dto) OpenJoin,
      r_postingPolicy = or_else (cr_postingPolicy dto) ANYONE,
      r_reviewPolicy = or_else (cr_reviewPolicy dto) DirectPolicy, r_policyLocked = False,
      r_status =
        (if cr_roomType dto = EVENT \<and>
            (case cr_startAt dto of None \<Rightarrow> False | Some t \<Rightarrow> now e < t)
         then DRAFT else ACTIVE),
      r_createdBy = actor, r_startAt = cr_startAt dto, r_endAt = cr_endAt dto,
      r_rulesVersion = 1\<rparr>"

definition new_binding ::
  "create_room_dto \<Rightarrow> uuid \<Rightarrow> room option \<Rightarrow> academic_context option \<Rightarrow> db \<Rightarrow>
   room_academic_binding option" where
  "new_binding dto roomId parent context s =
     (if cr_roomType dto = MAJOR
      then Some \<lparr>b_roomId = roomId, b_majorId = or_else (cr_majorId dto) '''', b_curriculumId = None,
                 b_courseId = None, b_curriculumCourseId = None\<rparr>
      else case context of
          Some c \<Rightarrow>
            Some \<lparr>b_roomId = roomId, b_majorId = ctx_majorId c,
                  b_curriculumId = Some (ctx_curriculumId c), b_courseId = Some (ctx_courseId c),
                  b_curriculumCourseId = Some (ctx_curriculumCourseId c)\<rparr>
        | None \<Rightarrow>
            (case parent of
               None \<Rightarrow> None
             | Some p \<Rightarrow> map_option (\<lambda>b. b\<lparr>b_roomId := roomId\<rparr>) (binding (r_id p) s)))"

definition room_type_json :: "room_type \<Rightarrow> json" where
  "room_type_json ty =
     JStr (case ty of MAJOR \<Rightarrow> ''major'' | COURSE \<Rightarrow> ''course'' | EVENT \<Rightarrow> ''event'' | FORUM \<Rightarrow> ''forum'')"

definition new_membership ::
  "env \<Rightarrow> uuid \<Rightarrow> uuid \<Rightarrow> member_role \<Rightarrow> member_status \<Rightarrow> uuid option \<Rightarrow> room_membership" where
  "new_membership e roomId userId role status assignedBy =
     \<lparr>m_roomId = roomId, m_userId = userId, m_role = role, m_status = status,
      m_postPermission = Inherit, m_assignedBy = assignedBy, m_joinedAt = now e,
      m_expiresAt = None\<rparr>"

definition create_body ::
  "env \<Rightarrow> create_room_dto \<Rightarrow> uuid \<Rightarrow> room option \<Rightarrow> academic_context option \<Rightarrow> db \<Rightarrow>
   exn + uuid \<times> db" where
  "create_body e dto actor parent context s =
     (let room = new_room e dto actor in
      bindE (insert_row r_id ''rooms_pkey'' room (rooms s)) (\<lambda>_.
      bindE (insert_row r_slug ''rooms_slug_key'' room (rooms s)) (\<lambda>rs.
      bindE (case new_binding dto (r_id room) parent context s of
               None \<Rightarrow> Inr (bindings s)
             | Some b \<Rightarrow> insert_row b_roomId ''room_academic_bindings_room_id_key'' b (bindings s))
        (\<lambda>bs.
      bindE (insert_row m_key ''room_memberships_room_id_user_id_key''
               (new_membership e (r_id room) actor Owner Active (Some actor)) (memberships s)) (\<lambda>ms.
      bindE (event e 1 ''room.created''
               [(''roomId'', JStr (r_id room)), (''roomType'', room_type_json (r_type room))]
               (s\<lparr>rooms := rs, bindings := bs, memberships := ms\<rparr>)) (\<lambda>s.
      Inr (r_id room, s)))))))"

definition conflict_of :: "exn \<Rightarrow> exn" where
  "conflict_of ex =
     (case ex of
        UniqueViolation _ \<Rightarrow> Conflict ''Room slug or academic binding already exists''
      | _ \<Rightarrow> ex)"

definition create_room ::
  "env \<Rightarrow> create_room_dto \<Rightarrow> gateway_user \<Rightarrow> db \<Rightarrow>
   (exn + (room \<times> room_academic_binding option)) \<times> db" where
  "create_room e dto u s =
     (case create_checks e dto u s of
        Inl ex \<Rightarrow> (Inl ex, s)
      | Inr (actor, parent, context) \<Rightarrow>
          (case transaction s (create_body e dto actor parent context s) of
             (Inl ex, s') \<Rightarrow> (Inl (conflict_of ex), s')
           | (Inr roomId, s') \<Rightarrow> (findOne_room roomId u s', s')))"

section \<open>Joining\<close>

definition join_room ::
  "env \<Rightarrow> uuid \<Rightarrow> gateway_user \<Rightarrow> db \<Rightarrow> (exn + room_membership) \<times> db" where
  "join_room e i u s =
     transaction s
       (bindE (authenticated u) (\<lambda>actor.
        bindE (someE (find_room i s) (NotFound ''Room not found'')) (\<lambda>room.
        bindE (guardE (r_membershipPolicy room \<noteq> InviteOnly) (Forbidden ''This room is invite only''))
          (\<lambda>_.
        let status = (if r_membershipPolicy room = ApprovalJoin then Waiting else Active) in
        case find_membership i actor s of
          None \<Rightarrow>
            let m = new_membership e i actor Member status None in
            bindE (insert_row m_key ''room_memberships_room_id_user_id_key'' m (memberships s)) (\<lambda>ms.
            Inr (m, s\<lparr>memberships := ms\<rparr>))
        | Some existing \<Rightarrow>
            if m_status existing \<in> set [Active, Waiting, Muted] then Inr (existing, s)
            else if m_status existing = Banned then Inl (Forbidden ''You are banned from this room'')
            else
              let m = existing\<lparr>m_role := Member, m_status := status, m_assignedBy := None,
                               m_expiresAt := None\<rparr> in
              Inr (m, save_membership m s)))))"

section \<open>The posting gate\<close>

text \<open>\<open>INSERT ... ON CONFLICT DO NOTHING\<close> of a member, in a public room that is open to members.\<close>

definition auto_join :: "env \<Rightarrow> room \<Rightarrow> uuid \<Rightarrow> db \<Rightarrow> db" where
  "auto_join e room actor s =
     (if find_membership (r_id room) actor s = None \<and> r_visibility room = PUBLIC \<and>
         r_membershipPolicy room = OpenJoin \<and> r_postingPolicy room = MEMBERS
      then s\<lparr>memberships := memberships s @ [new_membership e (r_id room) actor Member Active None]\<rparr>
      else s)"

record posting_context =
  pc_room :: room
  pc_binding :: "room_academic_binding option"
  pc_requiresApproval :: bool

definition active_in :: "room_membership option \<Rightarrow> bool" where
  "active_in membership = (map_option m_status membership = Some Active)"

definition post_gate :: "env \<Rightarrow> room \<Rightarrow> room_membership option \<Rightarrow> db \<Rightarrow> exn + posting_context" where
  "post_gate e room membership s =
     bindE (guardE (case membership of None \<Rightarrow> True | Some m \<Rightarrow> \<not> expired (now e) m)
              (Forbidden ''Membership expired'')) (\<lambda>_.
     bindE (guardE (case membership of None \<Rightarrow> True
                    | Some m \<Rightarrow> m_postPermission m \<noteq> BlockedPost \<and> m_status m \<noteq> Banned \<and>
                                m_status m \<noteq> Muted)
              (Forbidden ''You cannot post in this room'')) (\<lambda>_.
     bindE (guardE (r_visibility room \<noteq> PRIVATE \<or> active_in membership)
              (Forbidden ''Active membership required for a private room'')) (\<lambda>_.
     bindE (guardE (r_postingPolicy room \<noteq> MEMBERS \<or> active_in membership)
              (Forbidden ''Active membership required'')) (\<lambda>_.
     bindE (guardE (r_postingPolicy room \<noteq> APPROVED \<or>
                    (case membership of None \<Rightarrow> False
                     | Some m \<Rightarrow> m_status m = Active \<and> m_role m \<in> set [Owner, Moderator, Contributor]))
              (Forbidden ''Approved contributor role required'')) (\<lambda>_.
     Inr \<lparr>pc_room = room, pc_binding = binding (r_id room) s,
          pc_requiresApproval = (postPermission e room membership = NeedsApproval)\<rparr>)))))"

text \<open>
  \<open>assertCanPost\<close> works on a connection of its own, so its membership is committed even when it is
  called in a transaction that is rolled back later.
\<close>

definition assertCanPost ::
  "env \<Rightarrow> uuid \<Rightarrow> gateway_user \<Rightarrow> db \<Rightarrow> (exn + posting_context) \<times> db" where
  "assertCanPost e roomId u s =
     (case bindE (authenticated u) (\<lambda>actor.
           bindE (someE (find_room roomId s) (NotFound ''Room not found'')) (\<lambda>room.
           bindE (guardE (r_status room = ACTIVE) (Forbidden ''Room is not accepting new posts'')) (\<lambda>_.
           Inr (actor, room)))) of
        Inl ex \<Rightarrow> (Inl ex, s)
      | Inr (actor, room) \<Rightarrow>
          let s' = auto_join e room actor s in
          (post_gate e room (find_membership (r_id room) actor s') s', s'))"

section \<open>Rules, members and policy\<close>

definition rule_key :: "room_rule \<Rightarrow> uuid \<times> string \<times> nat" where
  "rule_key r = (ru_roomId r, ru_ruleCode r, ru_version r)"

text \<open>\<open>ORDER BY version DESC LIMIT 1\<close> of the active rules with a code.\<close>

definition latest_rule :: "uuid \<Rightarrow> string \<Rightarrow> db \<Rightarrow> room_rule option" where
  "latest_rule roomId code s =
     (let rs = sort_key ru_version
            (filter (\<lambda>r. ru_roomId r = roomId \<and> ru_ruleCode r = code \<and> ru_active r) (roomRules s))
      in if rs = [] then None else Some (last rs))"

definition add_rule_body ::
  "env \<Rightarrow> uuid \<Rightarrow> create_rule_dto \<Rightarrow> db \<Rightarrow> exn + room_rule \<times> db" where
  "add_rule_body e roomId dto s =
     bindE (someE (find_room roomId s) (NotFound ''Room not found'')) (\<lambda>room.
     let previous = latest_rule roomId (ur_ruleCode dto) s;
         retired = (case previous of None \<Rightarrow> roomRules s
                    | Some r \<Rightarrow> put rule_key (r\<lparr>ru_active := False\<rparr>) (roomRules s));
         rule = \<lparr>ru_roomId = roomId, ru_ruleCode = ur_ruleCode dto, ru_title = ur_title dto,
                 ru_description = ur_description dto, ru_severity = ur_severity dto,
                 ru_version = (case previous of None \<Rightarrow> 0 | Some r \<Rightarrow> ru_version r) + 1,
                 ru_active = True\<rparr>;
         room' = room\<lparr>r_rulesVersion := r_rulesVersion room + 1\<rparr> in
     bindE (insert_row rule_key ''room_rules_room_id_rule_code_version_key'' rule retired) (\<lambda>rules.
     bindE (event e 0 ''room.rules.changed''
              [(''roomId'', JStr roomId), (''rulesVersion'', JNum (int (r_rulesVersion room')))]
              (save_room room' (s\<lparr>roomRules := rules\<rparr>))) (\<lambda>s.
     Inr (rule, s))))"

definition add_rule ::
  "env \<Rightarrow> uuid \<Rightarrow> create_rule_dto \<Rightarrow> gateway_user \<Rightarrow> db \<Rightarrow> (exn + room_rule) \<times> db" where
  "add_rule e roomId dto u s =
     (case requireRoomManager e roomId u s of
        Inl ex \<Rightarrow> (Inl ex, s)
      | Inr _ \<Rightarrow> transaction s (add_rule_body e roomId dto s))"

definition role_json :: "member_role \<Rightarrow> json" where
  "role_json r = JStr (case r of Owner \<Rightarrow> ''owner'' | Moderator \<Rightarrow> ''moderator''
     | Contributor \<Rightarrow> ''contributor'' | Member \<Rightarrow> ''member'')"

definition status_json :: "member_status \<Rightarrow> json" where
  "status_json st = JStr (case st of Waiting \<Rightarrow> ''pending'' | Active \<Rightarrow> ''active'' | Muted \<Rightarrow> ''muted''
     | Banned \<Rightarrow> ''banned'' | Gone \<Rightarrow> ''left'')"

definition permission_json :: "post_permission \<Rightarrow> json" where
  "permission_json p = JStr (case p of Inherit \<Rightarrow> ''inherit'' | DirectPost \<Rightarrow> ''direct''
     | ApprovalPost \<Rightarrow> ''approval'' | BlockedPost \<Rightarrow> ''blocked'')"

definition policy_json :: "review_policy \<Rightarrow> json" where
  "policy_json p = JStr (case p of DirectPolicy \<Rightarrow> ''direct'' | ApprovalPolicy \<Rightarrow> ''approval'')"

definition canManageOwners :: "env \<Rightarrow> uuid \<Rightarrow> gateway_user \<Rightarrow> uuid \<Rightarrow> db \<Rightarrow> bool" where
  "canManageOwners e roomId u actor s =
     (admin u \<or>
      (case find_active_membership roomId actor s of
         None \<Rightarrow> False | Some m \<Rightarrow> m_role m = Owner \<and> \<not> expired (now e) m))"

definition active_owners :: "uuid \<Rightarrow> db \<Rightarrow> nat" where
  "active_owners roomId s =
     count_where (\<lambda>m. m_roomId m = roomId \<and> m_role m = Owner \<and> m_status m = Active) (memberships s)"

definition membership_audit ::
  "env \<Rightarrow> uuid \<Rightarrow> uuid \<Rightarrow> room_membership \<Rightarrow> update_membership_dto \<Rightarrow> policy_audit" where
  "membership_audit e actor memberId m dto =
     \<lparr>pa_roomId = m_roomId m, pa_actorId = actor, pa_memberId = Some memberId,
      pa_before = [(''role'', role_json (m_role m)), (''status'', status_json (m_status m)),
                   (''postPermission'', permission_json (m_postPermission m))],
      pa_after = (case um_postPermission dto of None \<Rightarrow> []
                  | Some p \<Rightarrow> [(''postPermission'', permission_json p)]) @
                 [(''role'', role_json (um_role dto)), (''status'', status_json (um_status dto))],
      pa_createdAt = now e\<rparr>"

definition update_membership_body ::
  "env \<Rightarrow> uuid \<Rightarrow> uuid \<Rightarrow> update_membership_dto \<Rightarrow> gateway_user \<Rightarrow> uuid \<Rightarrow> db \<Rightarrow>
   exn + room_membership \<times> db" where
  "update_membership_body e roomId memberId dto u actor s =
     bindE (someE (find_room roomId s) (NotFound ''Room not found'')) (\<lambda>room.
     bindE (someE (find_membership roomId memberId s) (NotFound ''Room membership not found''))
       (\<lambda>membership.
     bindE (guardE (\<not> (m_role membership = Owner \<or> um_role dto = Owner \<or> um_postPermission dto \<noteq> None) \<or>
                    canManageOwners e roomId u actor s)
              (Forbidden ''Chi chu room va quan tri vien duoc cau hinh quyen dang'')) (\<lambda>_.
     bindE (guardE (\<not> (m_role membership = Owner \<and> m_status membership = Active \<and>
                        (um_role dto \<noteq> Owner \<or> um_status dto \<noteq> Active)) \<or>
                    active_owners roomId s > 1)
              (Conflict ''A room must retain at least one active owner'')) (\<lambda>_.
     bindE (guardE (\<not> (r_policyLocked room \<and> \<not> admin u \<and> um_postPermission dto \<noteq> None \<and>
                        um_postPermission dto \<noteq> Some (m_postPermission membership)))
              (Forbidden ''Chinh sach da duoc quan tri vien khoa'')) (\<lambda>_.
     let membership' = membership\<lparr>m_role := um_role dto, m_status := um_status dto,
           m_assignedBy := Some actor,
           m_postPermission := or_else (um_postPermission dto) (m_postPermission membership)\<rparr> in
     Inr (membership',
          save_membership membership'
            (s\<lparr>policyAudits := policyAudits s @
                [membership_audit e actor memberId membership dto]\<rparr>)))))))"

definition update_membership ::
  "env \<Rightarrow> uuid \<Rightarrow> uuid \<Rightarrow> update_membership_dto \<Rightarrow> gateway_user \<Rightarrow> db \<Rightarrow>
   (exn + room_membership) \<times> db" where
  "update_membership e roomId memberId dto u s =
     (case bindE (authenticated u) (\<lambda>actor.
           bindE (requireRoomManager e roomId u s) (\<lambda>_.
           bindE (if um_postPermission dto \<noteq> None then requirePolicyOwner e roomId u s else Inr ())
             (\<lambda>_. Inr actor))) of
        Inl ex \<Rightarrow> (Inl ex, s)
      | Inr actor \<Rightarrow> transaction s (update_membership_body e roomId memberId dto u actor s))"

definition update_room_status ::
  "env \<Rightarrow> uuid \<Rightarrow> room_status \<Rightarrow> gateway_user \<Rightarrow> db \<Rightarrow> (exn + room) \<times> db" where
  "update_room_status e roomId status u s =
     transaction s
       (bindE (requireRoomManager e roomId u s) (\<lambda>_.
        bindE (someE (find_room roomId s) (NotFound ''Room not found'')) (\<lambda>room.
        let room' = room\<lparr>r_status := status\<rparr> in Inr (room', save_room room' s))))"

definition policy_change_audit ::
  "env \<Rightarrow> uuid \<Rightarrow> room \<Rightarrow> update_policy_dto \<Rightarrow> policy_audit" where
  "policy_change_audit e actor room dto =
     \<lparr>pa_roomId = r_id room, pa_actorId = actor, pa_memberId = None,
      pa_before = [(''reviewPolicy'', policy_json (r_reviewPolicy room)),
                   (''policyLocked'', JBool (r_policyLocked room))],
      pa_after = (''reviewPolicy'', policy_json (up_reviewPolicy dto)) #
        (case up_policyLocked dto of None \<Rightarrow> [] | Some b \<Rightarrow> [(''policyLocked'', JBool b)]),
      pa_createdAt = now e\<rparr>"

definition update_policy_body ::
  "env \<Rightarrow> uuid \<Rightarrow> update_policy_dto \<Rightarrow> gateway_user \<Rightarrow> uuid \<Rightarrow> db \<Rightarrow> exn + room \<times> db" where
  "update_policy_body e roomId dto u actor s =
     bindE (someE (find_room roomId s) (NotFound ''Room not found'')) (\<lambda>room.
     bindE (guardE (admin u \<or> (\<not> r_policyLocked room \<and> up_policyLocked dto = None))
              (Forbidden ''Chi quan tri vien duoc thay doi chinh sach da khoa'')) (\<lambda>_.
     let room' = room\<lparr>r_reviewPolicy := up_reviewPolicy dto,
           r_policyLocked := or_else (up_policyLocked dto) (r_policyLocked room)\<rparr> in
     Inr (room',
          save_room room'
            (s\<lparr>policyAudits := policyAudits s @ [policy_change_audit e actor room dto]\<rparr>))))"

definition update_policy ::
  "env \<Rightarrow> uuid \<Rightarrow> update_policy_dto \<Rightarrow> gateway_user \<Rightarrow> db \<Rightarrow> (exn + room) \<times> db" where
  "update_policy e roomId dto u s =
     (case bindE (authenticated u) (\<lambda>actor.
           bindE (requirePolicyOwner e roomId u s) (\<lambda>_. Inr actor)) of
        Inl ex \<Rightarrow> (Inl ex, s)
      | Inr actor \<Rightarrow> transaction s (update_policy_body e roomId dto u actor s))"

section \<open>Queries for managers\<close>

text \<open>
  The names of the members are fetched a hundred at a time; the first call that fails ends the
  loop, and what was fetched before it is kept.
\<close>

function fetch_profiles :: "env \<Rightarrow> uuid list \<Rightarrow> profile list" where
  "fetch_profiles e ids =
     (if ids = [] then []
      else case display_info e (take 100 ids) of
          NetworkError \<Rightarrow> []
        | Reply st body \<Rightarrow>
            if \<not> reply_ok (display_info e (take 100 ids)) then fetch_profiles e (drop 100 ids)
            else case body of
                None \<Rightarrow> []
              | Some ps \<Rightarrow> ps @ fetch_profiles e (drop 100 ids))"
  by pat_completeness auto

termination
  by (relation "measure (\<lambda>(_, ids). length ids)") auto

declare fetch_profiles.simps [simp del]

definition members ::
  "env \<Rightarrow> uuid \<Rightarrow> gateway_user \<Rightarrow> db \<Rightarrow> exn + (room_membership \<times> string option) list" where
  "members e roomId u s = bindE (requireRoomManager e roomId u s) (\<lambda>_.
     let ms = sort_key m_joinedAt (filter (\<lambda>m. m_roomId m = roomId) (memberships s));
         profiles = fetch_profiles e (map m_userId ms) in
     Inr (map (\<lambda>m. (m, map_option p_fullName
                         (find_by (\<lambda>p. p_userId p = m_userId m) profiles))) ms))"

definition policyHistory :: "env \<Rightarrow> uuid \<Rightarrow> gateway_user \<Rightarrow> db \<Rightarrow> exn + policy_audit list" where
  "policyHistory e roomId u s = bindE (requireRoomManager e roomId u s) (\<lambda>_.
     Inr (take 50 (rev (sort_key pa_createdAt
       (filter (\<lambda>a. pa_roomId a = roomId) (policyAudits s))))))"

definition findCanonicalRoom :: "uuid option \<Rightarrow> uuid option \<Rightarrow> db \<Rightarrow> room option" where
  "findCanonicalRoom curriculumCourseId majorId s =
     (let active = (\<lambda>b. exists_where (\<lambda>r. r_id r = b_roomId b \<and> r_status r = ACTIVE) (rooms s));
          course = (if truthy curriculumCourseId = None then []
            else bound_rooms COURSE (\<lambda>b. b_curriculumCourseId b = curriculumCourseId \<and> active b) s);
          major = (if truthy majorId = None then []
            else bound_rooms MAJOR (\<lambda>b. Some (b_majorId b) = majorId \<and> active b) s) in
      case course of
        b # _ \<Rightarrow> find_room (b_roomId b) s
      | [] \<Rightarrow> (case major of b # _ \<Rightarrow> find_room (b_roomId b) s | [] \<Rightarrow> None))"

end
