(* ===== verification/Rooms_Correct.thy ===== *)
theory Rooms_Correct
  imports Rooms
begin

text \<open>
  What makes the rooms correct: the posting gate, the owner that every room keeps, the versions
  of the rules, the canonical rooms of the majors, and who may change membership and policy.
\<close>

section \<open>What the guards of a room mean\<close>

lemma find_active_membership_Some:
  "find_active_membership r i s = Some m \<Longrightarrow>
     m \<in> set (memberships s) \<and> m_roomId m = r \<and> m_userId m = i \<and> m_status m = Active"
  unfolding find_active_membership_def by (drule find_by_Some) (simp add: m_key_def)

lemma find_membership_Some:
  "find_membership r i s = Some m \<Longrightarrow> m \<in> set (memberships s) \<and> m_roomId m = r \<and> m_userId m = i"
  unfolding find_membership_def by (drule find_by_Some) (simp add: m_key_def)

lemma find_room_Some: "find_room i s = Some r \<Longrightarrow> r \<in> set (rooms s) \<and> r_id r = i"
  using room_repo.found by auto

text \<open>A member who owns the room now: what the policy handlers ask for.\<close>

definition owns :: "env \<Rightarrow> uuid \<Rightarrow> uuid \<Rightarrow> db \<Rightarrow> bool" where
  "owns e roomId i s =
     (case find_active_membership roomId i s of
        None \<Rightarrow> False | Some m \<Rightarrow> m_role m = Owner \<and> \<not> expired (now e) m)"

definition manages :: "env \<Rightarrow> uuid \<Rightarrow> uuid \<Rightarrow> db \<Rightarrow> bool" where
  "manages e roomId i s =
     (case find_active_membership roomId i s of
        None \<Rightarrow> False | Some m \<Rightarrow> (m_role m = Owner \<or> m_role m = Moderator) \<and> \<not> expired (now e) m)"

lemma requireRoomManager_Inr [returns]:
  "requireRoomManager e r u s = Inr x \<longleftrightarrow>
     (\<exists>i. uid u = Some i \<and> i \<noteq> '''' \<and> (staff u \<or> manages e r i s))"
  by (auto simp: requireRoomManager_def manages_def returns split: option.splits if_splits)

lemma requirePolicyOwner_Inr [returns]:
  "requirePolicyOwner e r u s = Inr x \<longleftrightarrow>
     (\<exists>i. uid u = Some i \<and> i \<noteq> '''' \<and> (admin u \<or> owns e r i s))"
  by (auto simp: requirePolicyOwner_def owns_def returns split: option.splits if_splits)

lemma canManageOwners_iff: "canManageOwners e r u i s \<longleftrightarrow> admin u \<or> owns e r i s"
  by (simp add: canManageOwners_def owns_def)

section \<open>The posting gate\<close>

lemma post_gate_Inr:
  "post_gate e room mem s = Inr pc \<longleftrightarrow>
     (\<forall>m. mem = Some m \<longrightarrow>
        \<not> expired (now e) m \<and> m_postPermission m \<noteq> BlockedPost \<and> m_status m \<noteq> Banned \<and> m_status m \<noteq> Muted) \<and>
     (r_visibility room = PRIVATE \<or> r_postingPolicy room = MEMBERS \<longrightarrow>
        (\<exists>m. mem = Some m \<and> m_status m = Active)) \<and>
     (r_postingPolicy room = APPROVED \<longrightarrow>
        (\<exists>m. mem = Some m \<and> m_status m = Active \<and> m_role m \<noteq> Member)) \<and>
     pc = \<lparr>pc_room = room, pc_binding = binding (r_id room) s,
           pc_requiresApproval = (postPermission e room mem = NeedsApproval)\<rparr>"
proof (cases mem)
  case None
  then show ?thesis by (auto simp: post_gate_def returns active_in_def)
next
  case (Some m)
  then show ?thesis
    by (cases "m_role m") (auto simp: post_gate_def returns active_in_def)
qed

text \<open>The effective permission computed for the room lists agrees with the gate.\<close>

lemma post_gate_permission:
  "post_gate e room mem s = Inr pc \<Longrightarrow> postPermission e room mem \<noteq> Blocked"
  by (cases mem) (auto simp: post_gate_Inr postPermission_def Let_def split: post_permission.splits)

definition only_memberships :: "db \<Rightarrow> db \<Rightarrow> bool" where
  "only_memberships s t = (t\<lparr>memberships := []\<rparr> = s\<lparr>memberships := []\<rparr>)"

lemma only_memberships_refl [simp]: "only_memberships s s"
  by (simp add: only_memberships_def)

lemma only_memberships_eq: "only_memberships s t \<Longrightarrow> t = s\<lparr>memberships := memberships t\<rparr>"
  by (cases s; cases t) (simp add: only_memberships_def)

lemma auto_join_only: "only_memberships s (auto_join e room actor s)"
  by (simp add: auto_join_def only_memberships_def)

lemma assertCanPost_cases:
  obtains (refused) ex where "assertCanPost e r u s = (Inl ex, s)"
  | (gate) i room where "uid u = Some i" "i \<noteq> ''''" "find_room r s = Some room" "r_id room = r"
      "r_status room = ACTIVE"
      "assertCanPost e r u s =
         (post_gate e room (find_membership r i (auto_join e room i s)) (auto_join e room i s),
          auto_join e room i s)"
proof (cases "bindE (authenticated u) (\<lambda>actor.
           bindE (someE (find_room r s) (NotFound ''Room not found'')) (\<lambda>room.
           bindE (guardE (r_status room = ACTIVE) (Forbidden ''Room is not accepting new posts'')) (\<lambda>_.
           Inr (actor, room))))")
  case (Inl ex)
  then show ?thesis by (intro refused [of ex]) (simp add: assertCanPost_def)
next
  case (Inr p)
  obtain i room where p: "p = (i, room)" by (cases p)
  from Inr have *: "uid u = Some i" "i \<noteq> ''''" "find_room r s = Some room" "r_status room = ACTIVE"
    by (auto simp: returns p)
  moreover from *(3) have "r_id room = r" using find_room_Some by blast
  moreover from this have "assertCanPost e r u s =
       (post_gate e room (find_membership r i (auto_join e room i s)) (auto_join e room i s),
        auto_join e room i s)"
    using Inr by (simp add: assertCanPost_def p Let_def)
  ultimately show ?thesis by (intro gate)
qed

lemma assertCanPost_only: "only_memberships s (snd (assertCanPost e r u s))"
  by (rule assertCanPost_cases [of e r u s]) (simp_all add: auto_join_only)

text \<open>
  A handler that asks a gate and then runs its transaction keeps every invariant that does not
  depend on what the gate may change, if the body of the transaction keeps it.
\<close>

locale posting_gate =
  fixes gate :: "'e \<Rightarrow> 'k \<Rightarrow> 'u \<Rightarrow> 's \<Rightarrow> (exn + 'c) \<times> 's"
    and framed :: "'s \<Rightarrow> 's \<Rightarrow> bool"
  assumes gate_framed: "framed s (snd (gate e r u s))"
begin

lemma gated_invariant:
  assumes stable: "\<And>t. framed s t \<Longrightarrow> I s \<Longrightarrow> I t" and "I s"
    and body: "\<And>pc t a s'. framed s t \<Longrightarrow> I t \<Longrightarrow> body pc t = Inr (a, s') \<Longrightarrow> I s'"
  shows "I (snd (case gate e r u s of
                   (Inl ex, t) \<Rightarrow> (Inl ex, t)
                 | (Inr pc, t) \<Rightarrow> transaction t (body pc t)))"
proof -
  obtain res t where g: "gate e r u s = (res, t)" by (cases "gate e r u s")
  then have t: "framed s t" "I t"
    using gate_framed [of s e r u] stable [of t] \<open>I s\<close> by simp_all
  show ?thesis
  proof (cases res)
    case (Inl ex)
    then show ?thesis using g t by simp
  next
    case (Inr pc)
    then show ?thesis
      using g t body [OF t, of pc] by (cases "body pc t") (auto simp: transaction_def)
  qed
qed

end

interpretation rooms_gate: posting_gate assertCanPost only_memberships
  by unfold_locales (rule assertCanPost_only)

section \<open>Keys and owners\<close>

definition rooms_keyed :: "db \<Rightarrow> bool" where
  "rooms_keyed s \<longleftrightarrow>
     distinct (map r_id (rooms s)) \<and> distinct (map r_slug (rooms s)) \<and>
     distinct (map b_roomId (bindings s)) \<and> set (map b_roomId (bindings s)) \<subseteq> set (map r_id (rooms s)) \<and>
     distinct (map m_key (memberships s))"

text \<open>The rooms the migration seeds have no members when the service starts.\<close>

definition seeded :: "uuid \<Rightarrow> bool" where
  "seeded i \<longleftrightarrow> i = general_id \<or> i = off_topic_id"

definition owned :: "db \<Rightarrow> bool" where
  "owned s \<longleftrightarrow> (\<forall>i \<in> set (map r_id (rooms s)). seeded i \<or> 0 < active_owners i s)"

lemma rooms_keyed_cong:
  "rooms s' = rooms s \<Longrightarrow> bindings s' = bindings s \<Longrightarrow> memberships s' = memberships s \<Longrightarrow>
   rooms_keyed s' = rooms_keyed s"
  by (simp add: rooms_keyed_def)

lemma owned_cong:
  "map r_id (rooms s') = map r_id (rooms s) \<Longrightarrow> memberships s' = memberships s \<Longrightarrow>
   owned s' = owned s"
  unfolding owned_def active_owners_def by (simp del: set_map)

lemma ownedI:
  "(\<And>i. i \<in> set (map r_id (rooms s)) \<Longrightarrow> seeded i \<or> 0 < active_owners i s) \<Longrightarrow> owned s"
  unfolding owned_def by (rule ballI)

lemma ownedD: "owned s \<Longrightarrow> i \<in> set (map r_id (rooms s)) \<Longrightarrow> seeded i \<or> 0 < active_owners i s"
  unfolding owned_def by (rule bspec)

text \<open>Membership rows: a new one adds its owner, a saved one replaces the old row.\<close>

lemma active_owners_insert:
  "memberships s' = memberships s @ [m] \<Longrightarrow> active_owners i s \<le> active_owners i s'"
  by (simp add: active_owners_def row_simps)

lemma active_owners_save:
  assumes "distinct (map m_key (memberships s))" "m \<in> set (memberships s)" "m_key m' = m_key m"
  shows "int (active_owners i (save_membership m' s)) = int (active_owners i s)
     - of_bool (m_roomId m = i \<and> m_role m = Owner \<and> m_status m = Active)
     + of_bool (m_roomId m = i \<and> m_role m' = Owner \<and> m_status m' = Active)"
proof -
  have "m_roomId m' = m_roomId m" using assms(3) by (simp add: m_key_def)
  then show ?thesis
    using count_put [OF assms(1,2), of m' "\<lambda>m. m_roomId m = i \<and> m_role m = Owner \<and> m_status m = Active"]
      assms(3)
    by (simp add: active_owners_def save_membership_def)
qed

lemma owned_save_membership:
  assumes "rooms_keyed s" "owned s" "m \<in> set (memberships s)" "m_key m' = m_key m"
    and "m_role m = Owner \<and> m_status m = Active \<Longrightarrow>
         m_role m' = Owner \<and> m_status m' = Active \<or> 1 < active_owners (m_roomId m) s"
  shows "owned (save_membership m' s)"
proof (rule ownedI)
  fix i
  assume "i \<in> set (map r_id (rooms (save_membership m' s)))"
  then have i: "seeded i \<or> 0 < active_owners i s"
    using ownedD [OF assms(2), of i] by (simp add: save_membership_def)
  have "int (active_owners i (save_membership m' s)) = int (active_owners i s)
     - of_bool (m_roomId m = i \<and> m_role m = Owner \<and> m_status m = Active)
     + of_bool (m_roomId m = i \<and> m_role m' = Owner \<and> m_status m' = Active)"
    using assms(1,3,4) by (intro active_owners_save) (simp_all add: rooms_keyed_def)
  then show "seeded i \<or> 0 < active_owners i (save_membership m' s)"
    using i assms(5) by (auto simp: of_bool_def split: if_splits)
qed

lemma rooms_keyed_save_membership:
  "rooms_keyed s \<Longrightarrow> rooms_keyed (save_membership m s)"
  by (simp add: rooms_keyed_def save_membership_def put_keys)

lemma rooms_keyed_save_room:
  assumes "rooms_keyed s" "find_room (r_id r) s = Some r0" "r_slug r = r_slug r0"
  shows "rooms_keyed (save_room r s)"
proof -
  have r0: "r0 \<in> set (rooms s)" "r_id r0 = r_id r"
    using find_room_Some [OF assms(2)] by simp_all
  have "\<And>r'. r' \<in> set (rooms s) \<Longrightarrow> r_id r' = r_id r \<Longrightarrow> r' = r0"
    using assms(1) r0 by (metis distinct_map inj_onD rooms_keyed_def)
  then have "map r_slug (put r_id r (rooms s)) = map r_slug (rooms s)"
    unfolding put_def update_where_def using assms(3) by auto
  then show ?thesis
    using assms(1) by (simp add: rooms_keyed_def save_room_def put_keys)
qed

lemma owned_save_room: "owned (save_room r s) = owned s"
  by (rule owned_cong) (simp_all add: save_room_def put_keys)

lemma find_membership_None:
  "find_membership r i s = None \<longleftrightarrow> (r, i) \<notin> m_key ` set (memberships s)"
  unfolding find_membership_def find_by_None by (auto simp: image_iff)

lemma rooms_keyed_insert_membership:
  assumes "rooms_keyed s" "m_key m \<notin> m_key ` set (memberships s)"
  shows "rooms_keyed (s\<lparr>memberships := memberships s @ [m]\<rparr>)"
  using assms by (simp add: rooms_keyed_def)

lemma owned_insert_membership:
  assumes "owned s" shows "owned (s\<lparr>memberships := memberships s @ [m]\<rparr>)"
proof (rule ownedI)
  fix i
  assume "i \<in> set (map r_id (rooms (s\<lparr>memberships := memberships s @ [m]\<rparr>)))"
  then show "seeded i \<or> 0 < active_owners i (s\<lparr>memberships := memberships s @ [m]\<rparr>)"
    using ownedD [OF assms, of i]
      active_owners_insert [of "s\<lparr>memberships := memberships s @ [m]\<rparr>" s m i] by auto
qed

text \<open>The two facts every operation keeps.\<close>

definition rooms_ok :: "db \<Rightarrow> bool" where
  "rooms_ok s \<longleftrightarrow> rooms_keyed s \<and> owned s"

lemma rooms_ok_auto_join:
  assumes "rooms_ok s" shows "rooms_ok (auto_join e room i s)"
  using assms rooms_keyed_insert_membership owned_insert_membership
  by (auto simp: rooms_ok_def auto_join_def new_membership_def m_key_def find_membership_None)

lemma rooms_ok_assertCanPost: "rooms_ok s \<Longrightarrow> rooms_ok (snd (assertCanPost e r u s))"
  by (rule assertCanPost_cases [of e r u s]) (simp_all add: rooms_ok_auto_join)

lemma join_room_cases:
  obtains (same) "snd (join_room e i u s) = s"
  | (joined) m where "m_key m \<notin> m_key ` set (memberships s)" "m_role m = Member"
      "snd (join_room e i u s) = s\<lparr>memberships := memberships s @ [m]\<rparr>"
  | (rejoined) m m' where "m \<in> set (memberships s)" "m_key m' = m_key m" "m_status m = Gone"
      "m_role m' = Member" "snd (join_room e i u s) = save_membership m' s"
proof (cases "join_room e i u s")
  case (Pair res s')
  show ?thesis
  proof (cases res)
    case (Inl ex)
    with Pair have "s' = s" by (simp add: join_room_def transaction_error)
    with Pair show ?thesis by (intro same) simp
  next
    case (Inr m)
    from Pair obtain actor where tx:
      "(let status = if r_membershipPolicy (the (find_room i s)) = ApprovalJoin then Waiting else Active
        in case find_membership i actor s of
          None \<Rightarrow>
            let m = new_membership e i actor Member status None in
            bindE (insert_row m_key ''room_memberships_room_id_user_id_key'' m (memberships s)) (\<lambda>ms.
            Inr (m, s\<lparr>memberships := ms\<rparr>))
        | Some existing \<Rightarrow>
            if m_status existing \<in> set [Active, Waiting, Muted] then Inr (existing, s)
            else if m_status existing = Banned then Inl (Forbidden ''You are banned from this room'')
            else
              let m = existing\<lparr>m_role := Member, m_status := status, m_assignedBy := None,
                               m_expiresAt := None\<rparr> in
              Inr (m, save_membership m s)) = Inr (m, s')"
      unfolding Inr join_room_def transaction_Inr by (auto simp: returns)
    show ?thesis
    proof (cases "find_membership i actor s")
      case None
      then show ?thesis
        using tx Pair by (intro joined [of m]) (auto simp: returns Let_def new_membership_def)
    next
      case (Some m0)
      then have m0: "m0 \<in> set (memberships s)" using find_membership_Some by blast
      show ?thesis
      proof (cases "m_status m0")
        case Gone
        then show ?thesis
          using tx Pair Some m0 by (intro rejoined [of m0 m]) (auto simp: Let_def m_key_def)
      qed (use tx Pair Some in \<open>auto intro: same\<close>)
    qed
  qed
qed

lemma rooms_ok_join: "rooms_ok s \<Longrightarrow> rooms_ok (snd (join_room e i u s))"
  by (rule join_room_cases [of e i u s])
    (auto simp: rooms_ok_def rooms_keyed_insert_membership owned_insert_membership
      rooms_keyed_save_membership intro!: owned_save_membership)

text \<open>What a successful change of a membership is.\<close>

lemma update_membership_Inr:
  assumes "update_membership e r j dto u s = (Inr m', s')"
  obtains i room m where
    "uid u = Some i" "i \<noteq> ''''" "staff u \<or> manages e r i s"
    "um_postPermission dto \<noteq> None \<Longrightarrow> admin u \<or> owns e r i s"
    "find_room r s = Some room" "find_membership r j s = Some m"
    "m_role m = Owner \<or> um_role dto = Owner \<or> um_postPermission dto \<noteq> None \<Longrightarrow> admin u \<or> owns e r i s"
    "m_role m = Owner \<Longrightarrow> m_status m = Active \<Longrightarrow> um_role dto \<noteq> Owner \<or> um_status dto \<noteq> Active \<Longrightarrow>
       1 < active_owners r s"
    "r_policyLocked room \<Longrightarrow> \<not> admin u \<Longrightarrow> um_postPermission dto \<noteq> None \<Longrightarrow>
       um_postPermission dto = Some (m_postPermission m)"
    "m' = m\<lparr>m_role := um_role dto, m_status := um_status dto, m_assignedBy := Some i,
            m_postPermission := or_else (um_postPermission dto) (m_postPermission m)\<rparr>"
    "s' = save_membership m' (s\<lparr>policyAudits := policyAudits s @ [membership_audit e i j m dto]\<rparr>)"
proof -
  from assms obtain i where g: "bindE (authenticated u) (\<lambda>actor.
           bindE (requireRoomManager e r u s) (\<lambda>_.
           bindE (if um_postPermission dto \<noteq> None then requirePolicyOwner e r u s else Inr ())
             (\<lambda>_. Inr actor))) = Inr i"
    and b: "update_membership_body e r j dto u i s = Inr (m', s')"
    unfolding update_membership_def by (auto simp: transaction_Inr split: sum.splits)
  from g have i: "uid u = Some i" "i \<noteq> ''''" "staff u \<or> manages e r i s"
    "um_postPermission dto \<noteq> None \<Longrightarrow> admin u \<or> owns e r i s"
    by (auto simp: returns split: if_splits)
  from b obtain room m where
    "find_room r s = Some room" "find_membership r j s = Some m"
    "m_role m = Owner \<or> um_role dto = Owner \<or> um_postPermission dto \<noteq> None \<longrightarrow> admin u \<or> owns e r i s"
    "m_role m = Owner \<and> m_status m = Active \<and> (um_role dto \<noteq> Owner \<or> um_status dto \<noteq> Active) \<longrightarrow>
       1 < active_owners r s"
    "\<not> (r_policyLocked room \<and> \<not> admin u \<and> um_postPermission dto \<noteq> None \<and>
         um_postPermission dto \<noteq> Some (m_postPermission m))"
    "m' = m\<lparr>m_role := um_role dto, m_status := um_status dto, m_assignedBy := Some i,
            m_postPermission := or_else (um_postPermission dto) (m_postPermission m)\<rparr>"
    "s' = save_membership m' (s\<lparr>policyAudits := policyAudits s @ [membership_audit e i j m dto]\<rparr>)"
    unfolding update_membership_body_def returns Let_def canManageOwners_iff by blast
  with i that show thesis by blast
qed

lemma update_membership_error:
  "update_membership e r j dto u s = (Inl ex, s') \<Longrightarrow> s' = s"
  by (auto simp: update_membership_def transaction_error split: sum.splits)

lemma rooms_ok_update_membership:
  assumes "rooms_ok s" shows "rooms_ok (snd (update_membership e r j dto u s))"
proof (cases "update_membership e r j dto u s")
  case (Pair res s')
  show ?thesis
  proof (cases res)
    case (Inl ex)
    then show ?thesis using Pair assms update_membership_error by fastforce
  next
    case (Inr m')
    obtain i m where m: "find_membership r j s = Some m"
      "m_role m = Owner \<Longrightarrow> m_status m = Active \<Longrightarrow> um_role dto \<noteq> Owner \<or> um_status dto \<noteq> Active \<Longrightarrow>
       1 < active_owners r s"
      "m' = m\<lparr>m_role := um_role dto, m_status := um_status dto, m_assignedBy := Some i,
            m_postPermission := or_else (um_postPermission dto) (m_postPermission m)\<rparr>"
      "s' = save_membership m' (s\<lparr>policyAudits := policyAudits s @ [membership_audit e i j m dto]\<rparr>)"
      using update_membership_Inr [OF Pair [unfolded Inr]] by metis
    let ?s = "s\<lparr>policyAudits := policyAudits s @ [membership_audit e i j m dto]\<rparr>"
    have "rooms_keyed ?s" "owned ?s" "\<And>k. active_owners k ?s = active_owners k s"
      using assms rooms_keyed_cong [of ?s s] owned_cong [of ?s s]
      by (simp_all add: rooms_ok_def active_owners_def)
    moreover have "m \<in> set (memberships ?s)" "m_roomId m = r" "m_key m' = m_key m"
      using find_membership_Some [OF m(1)] by (simp_all add: m(3) m_key_def)
    ultimately show ?thesis
      using Pair m(2-4) owned_save_membership [of ?s m m'] rooms_keyed_save_membership
      by (auto simp: rooms_ok_def)
  qed
qed

lemma update_room_status_Inr:
  assumes "update_room_status e r st u s = (Inr room', s')"
  obtains i room where "uid u = Some i" "i \<noteq> ''''" "staff u \<or> manages e r i s"
    "find_room r s = Some room" "room' = room\<lparr>r_status := st\<rparr>" "s' = save_room room' s"
  using assms unfolding update_room_status_def transaction_Inr returns Let_def by blast

lemma update_room_status_error: "update_room_status e r st u s = (Inl ex, s') \<Longrightarrow> s' = s"
  by (simp add: update_room_status_def transaction_error)

lemma update_policy_Inr:
  assumes "update_policy e r dto u s = (Inr room', s')"
  obtains i room where
    "uid u = Some i" "i \<noteq> ''''" "admin u \<or> owns e r i s" "find_room r s = Some room"
    "admin u \<or> \<not> r_policyLocked room \<and> up_policyLocked dto = None"
    "room' = room\<lparr>r_reviewPolicy := up_reviewPolicy dto,
                   r_policyLocked := or_else (up_policyLocked dto) (r_policyLocked room)\<rparr>"
    "s' = save_room room' (s\<lparr>policyAudits := policyAudits s @ [policy_change_audit e i room dto]\<rparr>)"
proof -
  from assms obtain i where
    g: "bindE (authenticated u) (\<lambda>actor. bindE (requirePolicyOwner e r u s) (\<lambda>_. Inr actor)) = Inr i"
    and b: "update_policy_body e r dto u i s = Inr (room', s')"
    unfolding update_policy_def by (auto simp: transaction_Inr split: sum.splits)
  from g have "uid u = Some i" "i \<noteq> ''''" "admin u \<or> owns e r i s"
    by (auto simp: returns)
  with b that show thesis
    unfolding update_policy_body_def returns Let_def by blast
qed

lemma update_policy_error: "update_policy e r dto u s = (Inl ex, s') \<Longrightarrow> s' = s"
  by (auto simp: update_policy_def transaction_error split: sum.splits)

lemma rooms_ok_save_room:
  assumes "rooms_ok s" "find_room (r_id room) s = Some room0" "r_slug room = r_slug room0"
  shows "rooms_ok (save_room room s)"
  using assms rooms_keyed_save_room by (auto simp: rooms_ok_def owned_save_room)

lemma rooms_ok_audits [simp]: "rooms_ok (s\<lparr>policyAudits := as\<rparr>) = rooms_ok s"
  using rooms_keyed_cong [of "s\<lparr>policyAudits := as\<rparr>" s] owned_cong [of "s\<lparr>policyAudits := as\<rparr>" s]
  by (simp add: rooms_ok_def)

lemma rooms_ok_update_room_status:
  assumes "rooms_ok s" shows "rooms_ok (snd (update_room_status e r st u s))"
proof (cases "update_room_status e r st u s")
  case (Pair res s')
  show ?thesis
  proof (cases res)
    case (Inl ex)
    then show ?thesis using Pair assms update_room_status_error by fastforce
  next
    case (Inr room')
    from update_room_status_Inr [OF Pair [unfolded Inr]] obtain room where
      "find_room r s = Some room" "room' = room\<lparr>r_status := st\<rparr>" "s' = save_room room' s"
      by metis
    then show ?thesis
      using Pair assms find_room_Some by (auto intro!: rooms_ok_save_room [of _ _ room])
  qed
qed

lemma rooms_ok_update_policy:
  assumes "rooms_ok s" shows "rooms_ok (snd (update_policy e r dto u s))"
proof (cases "update_policy e r dto u s")
  case (Pair res s')
  show ?thesis
  proof (cases res)
    case (Inl ex)
    then show ?thesis using Pair assms update_policy_error by fastforce
  next
    case (Inr room')
    obtain i room where *: "find_room r s = Some room"
      "room' = room\<lparr>r_reviewPolicy := up_reviewPolicy dto,
                     r_policyLocked := or_else (up_policyLocked dto) (r_policyLocked room)\<rparr>"
      "s' = save_room room' (s\<lparr>policyAudits := policyAudits s @ [policy_change_audit e i room dto]\<rparr>)"
      using update_policy_Inr [OF Pair [unfolded Inr]] by metis
    have "rooms_ok (save_room room' (s\<lparr>policyAudits := policyAudits s @ [policy_change_audit e i room dto]\<rparr>))"
    proof (rule rooms_ok_save_room)
      show "find_room (r_id room') (s\<lparr>policyAudits := policyAudits s @ [policy_change_audit e i room dto]\<rparr>) = Some room"
        using *(1) find_room_Some [OF *(1)] by (simp add: find_room_def *(2))
    qed (simp_all add: assms *(2))
    then show ?thesis using Pair *(3) by simp
  qed
qed

section \<open>Creation\<close>

lemma create_body_Inr:
  assumes "create_body e dto actor parent ctx s = Inr (i, s')"
  obtains bs where
    "i = fresh e 0" "i \<notin> r_id ` set (rooms s)" "cr_slug dto \<notin> r_slug ` set (rooms s)"
    "new_binding dto i parent ctx s = None \<and> bs = bindings s \<or>
     (\<exists>b. new_binding dto i parent ctx s = Some b \<and> b_roomId b \<notin> b_roomId ` set (bindings s) \<and>
        bs = bindings s @ [b])"
    "(i, actor) \<notin> m_key ` set (memberships s)"
    "rooms s' = rooms s @ [new_room e dto actor]" "bindings s' = bs"
    "memberships s' = memberships s @ [new_membership e i actor Owner Active (Some actor)]"
    "roomRules s' = roomRules s"
    "same_content (s\<lparr>rooms := rooms s', bindings := bindings s', memberships := memberships s'\<rparr>) s'"
proof -
  let ?room = "new_room e dto actor" and ?m = "new_membership e (fresh e 0) actor Owner Active (Some actor)"
  have id: "r_id ?room = fresh e 0" "r_slug ?room = cr_slug dto"
    by (simp_all add: new_room_def)
  from assms obtain bs s1 where
    *: "i = fresh e 0" "fresh e 0 \<notin> r_id ` set (rooms s)" "cr_slug dto \<notin> r_slug ` set (rooms s)"
    "(case new_binding dto (fresh e 0) parent ctx s of
               None \<Rightarrow> Inr (bindings s)
             | Some b \<Rightarrow> insert_row b_roomId ''room_academic_bindings_room_id_key'' b (bindings s)) = Inr bs"
    "m_key ?m \<notin> m_key ` set (memberships s)"
    "event e 1 ''room.created''
       [(''roomId'', JStr (fresh e 0)), (''roomType'', room_type_json (r_type ?room))]
       (s\<lparr>rooms := rooms s @ [?room], bindings := bs, memberships := memberships s @ [?m]\<rparr>) = Inr s'"
    unfolding create_body_def Let_def returns id by blast
  have "s' = s\<lparr>rooms := rooms s @ [?room], bindings := bs, memberships := memberships s @ [?m],
               outbox := outbox s'\<rparr>"
    using *(6) by (auto simp: event_Inr)
  then have tables: "rooms s' = rooms s @ [?room]" "bindings s' = bs"
    "memberships s' = memberships s @ [?m]" "roomRules s' = roomRules s"
    "same_content (s\<lparr>rooms := rooms s', bindings := bindings s', memberships := memberships s'\<rparr>) s'"
    by (cases s, cases s', simp add: same_content_def)+
  have "new_binding dto i parent ctx s = None \<and> bs = bindings s \<or>
     (\<exists>b. new_binding dto i parent ctx s = Some b \<and> b_roomId b \<notin> b_roomId ` set (bindings s) \<and>
        bs = bindings s @ [b])"
    using *(1,4) by (cases "new_binding dto i parent ctx s") (auto simp: returns)
  with *(1-3,5) tables that show thesis
    by (auto simp: new_membership_def m_key_def)
qed

lemma new_binding_room: "new_binding dto i parent ctx s = Some b \<Longrightarrow> b_roomId b = i"
  by (auto simp: new_binding_def split: if_splits option.splits)

lemma create_room_cases:
  obtains (same) ex where "create_room e dto u s = (Inl ex, s)"
  | (created) actor parent ctx i s' where
      "create_checks e dto u s = Inr (actor, parent, ctx)"
      "create_body e dto actor parent ctx s = Inr (i, s')"
      "create_room e dto u s = (findOne_room i u s', s')"
proof (cases "create_checks e dto u s")
  case (Inl ex)
  then show ?thesis using same by (simp add: create_room_def)
next
  case (Inr p)
  obtain actor parent ctx where p: "p = (actor, parent, ctx)" by (cases p)
  show ?thesis
  proof (cases "create_body e dto actor parent ctx s")
    case (Inl ex)
    then show ?thesis using same Inr by (simp add: create_room_def p)
  next
    case (Inr q)
    then show ?thesis
      using created [of actor parent ctx] \<open>create_checks e dto u s = Inr p\<close>
      by (cases q) (simp add: create_room_def p)
  qed
qed

lemma rooms_ok_create_room:
  assumes "rooms_ok s" shows "rooms_ok (snd (create_room e dto u s))"
proof (rule create_room_cases [of e dto u s])
  fix ex assume "create_room e dto u s = (Inl ex, s)"
  then show ?thesis using assms by simp
next
  fix actor parent ctx i s'
  assume body: "create_body e dto actor parent ctx s = Inr (i, s')"
    and res: "create_room e dto u s = (findOne_room i u s', s')"
  from body obtain bs where *: "i \<notin> r_id ` set (rooms s)" "cr_slug dto \<notin> r_slug ` set (rooms s)"
    "new_binding dto i parent ctx s = None \<and> bs = bindings s \<or>
     (\<exists>b. new_binding dto i parent ctx s = Some b \<and> b_roomId b \<notin> b_roomId ` set (bindings s) \<and>
        bs = bindings s @ [b])"
    "(i, actor) \<notin> m_key ` set (memberships s)" "i = fresh e 0"
    "rooms s' = rooms s @ [new_room e dto actor]" "bindings s' = bs"
    "memberships s' = memberships s @ [new_membership e i actor Owner Active (Some actor)]"
    by (rule create_body_Inr) blast
  have id: "r_id (new_room e dto actor) = i" "r_slug (new_room e dto actor) = cr_slug dto"
    using *(5) by (simp_all add: new_room_def)
  have key: "m_key (new_membership e i actor Owner Active (Some actor)) = (i, actor)"
    by (simp add: new_membership_def m_key_def)
  have keyed: "rooms_keyed s'"
    using assms * id key new_binding_room [of dto i parent ctx s]
    by (auto simp: rooms_ok_def rooms_keyed_def image_subset_iff)
  moreover have "owned s'"
  proof (rule ownedI)
    fix j
    assume "j \<in> set (map r_id (rooms s'))"
    then consider "j = i" | "j \<in> set (map r_id (rooms s))" using *(6) id by auto
    then show "seeded j \<or> 0 < active_owners j s'"
    proof cases
      case 1
      then show ?thesis
        by (simp add: active_owners_def *(8) row_simps new_membership_def)
    next
      case 2
      then show ?thesis
        using assms ownedD [of s j] active_owners_insert [OF *(8), of j] by (auto simp: rooms_ok_def)
    qed
  qed
  ultimately show ?thesis using res by (simp add: rooms_ok_def)
qed

section \<open>Rules\<close>

definition same_code :: "room_rule \<Rightarrow> room_rule \<Rightarrow> bool" where
  "same_code x y \<longleftrightarrow> ru_roomId x = ru_roomId y \<and> ru_ruleCode x = ru_ruleCode y"

text \<open>Of the versions of a rule exactly the newest one is active.\<close>

definition rules_versioned :: "db \<Rightarrow> bool" where
  "rules_versioned s \<longleftrightarrow>
     distinct (map rule_key (roomRules s)) \<and>
     (\<forall>x \<in> set (roomRules s).
        ru_active x \<longleftrightarrow> (\<forall>y \<in> set (roomRules s). same_code x y \<longrightarrow> ru_version y \<le> ru_version x))"

lemma latest_rule_Some:
  assumes "rules_versioned s" "latest_rule r code s = Some x"
  shows "x \<in> set (roomRules s)" "ru_roomId x = r" "ru_ruleCode x = code" "ru_active x"
    "y \<in> set (roomRules s) \<Longrightarrow> ru_roomId y = r \<Longrightarrow> ru_ruleCode y = code \<Longrightarrow> ru_version y \<le> ru_version x"
proof -
  have "x \<in> set (sort_key ru_version
      (filter (\<lambda>x. ru_roomId x = r \<and> ru_ruleCode x = code \<and> ru_active x) (roomRules s)))"
    using assms(2) last_in_set by (fastforce simp: latest_rule_def Let_def split: if_splits)
  then show *: "x \<in> set (roomRules s)" "ru_roomId x = r" "ru_ruleCode x = code" "ru_active x"
    by auto
  assume "y \<in> set (roomRules s)" "ru_roomId y = r" "ru_ruleCode y = code"
  then show "ru_version y \<le> ru_version x"
    using assms(1) * by (auto simp: rules_versioned_def same_code_def)
qed

lemma latest_rule_None:
  assumes "rules_versioned s" "latest_rule r code s = None" "x \<in> set (roomRules s)"
  shows "ru_roomId x \<noteq> r \<or> ru_ruleCode x \<noteq> code"
proof (rule ccontr)
  assume x: "\<not> ?thesis"
  let ?C = "{y \<in> set (roomRules s). same_code x y}"
  have "finite (ru_version ` ?C)" "ru_version ` ?C \<noteq> {}"
    using assms(3) by (auto simp: same_code_def)
  then obtain y where y: "y \<in> ?C" "ru_version y = Max (ru_version ` ?C)"
    using Max_in by (metis (no_types, lifting) imageE)
  have "ru_active y"
    using assms(1) y \<open>finite (ru_version ` ?C)\<close>
    by (auto simp: rules_versioned_def same_code_def intro!: Max_ge)
  moreover have "ru_roomId y = r" "ru_ruleCode y = code" "y \<in> set (roomRules s)"
    using x y(1) by (auto simp: same_code_def)
  ultimately have "filter (\<lambda>x. ru_roomId x = r \<and> ru_ruleCode x = code \<and> ru_active x) (roomRules s) \<noteq> []"
    by (auto simp: filter_empty_conv)
  then have "sort_key ru_version
      (filter (\<lambda>x. ru_roomId x = r \<and> ru_ruleCode x = code \<and> ru_active x) (roomRules s)) \<noteq> []"
    by (metis set_empty set_sort)
  then show False using assms(2) by (simp add: latest_rule_def Let_def)
qed

text \<open>The rules after one was added: the previous version is retired, the next one is active.\<close>

definition retired_rules :: "uuid \<Rightarrow> string \<Rightarrow> db \<Rightarrow> room_rule list" where
  "retired_rules r code s =
     (case latest_rule r code s of None \<Rightarrow> roomRules s
      | Some x \<Rightarrow> put rule_key (x\<lparr>ru_active := False\<rparr>) (roomRules s))"

definition next_version :: "uuid \<Rightarrow> string \<Rightarrow> db \<Rightarrow> nat" where
  "next_version r code s = (case latest_rule r code s of None \<Rightarrow> 0 | Some x \<Rightarrow> ru_version x) + 1"

lemma retired_rules_set:
  assumes ok: "rules_versioned s" and x: "x \<in> set (retired_rules r code s)"
  shows "\<exists>y \<in> set (roomRules s). rule_key x = rule_key y \<and>
    (ru_active x \<longleftrightarrow> ru_active y \<and> \<not> (ru_roomId y = r \<and> ru_ruleCode y = code))"
proof (cases "latest_rule r code s")
  case None
  then show ?thesis using x latest_rule_None [OF ok] by (auto simp: retired_rules_def)
next
  case (Some l)
  note l = latest_rule_Some [OF ok Some]
  have "x \<in> set (put rule_key (l\<lparr>ru_active := False\<rparr>) (roomRules s))"
    using x Some by (simp add: retired_rules_def)
  then show ?thesis
  proof (cases rule: in_put_cases)
    case changed
    then show ?thesis using l(1-3) by (auto simp: rule_key_def intro!: bexI [of _ l])
  next
    case kept
    have "\<not> (ru_active x \<and> ru_roomId x = r \<and> ru_ruleCode x = code)"
    proof
      assume *: "ru_active x \<and> ru_roomId x = r \<and> ru_ruleCode x = code"
      then have "ru_version l \<le> ru_version x"
        using ok kept(1) l(1-3) by (auto simp: rules_versioned_def same_code_def)
      moreover have "ru_version x \<le> ru_version l" using l(5) kept(1) * by blast
      ultimately show False using kept(2) l(2,3) * by (simp add: rule_key_def)
    qed
    then show ?thesis using kept(1) by blast
  qed
qed

lemma next_version_fresh:
  assumes "rules_versioned s" "y \<in> set (roomRules s)" "ru_roomId y = r" "ru_ruleCode y = code"
  shows "ru_version y < next_version r code s"
  using assms latest_rule_Some(5) [OF assms(1)] latest_rule_None [OF assms(1)]
  by (cases "latest_rule r code s") (auto simp: next_version_def less_Suc_eq_le)

lemma rules_versioned_add:
  assumes ok: "rules_versioned s"
    and rule: "ru_roomId rule = r" "ru_ruleCode rule = code" "ru_version rule = next_version r code s"
      "ru_active rule"
    and s': "roomRules s' = retired_rules r code s @ [rule]"
  shows "rule_key rule \<notin> rule_key ` set (retired_rules r code s)" "rules_versioned s'"
proof -
  have keys: "map rule_key (retired_rules r code s) = map rule_key (roomRules s)"
    by (auto simp: retired_rules_def put_keys split: option.splits)
  then have keyset: "rule_key ` set (retired_rules r code s) = rule_key ` set (roomRules s)"
    by (metis list.set_map)
  show new: "rule_key rule \<notin> rule_key ` set (retired_rules r code s)"
  proof
    assume "rule_key rule \<in> rule_key ` set (retired_rules r code s)"
    then obtain y where "y \<in> set (roomRules s)" "rule_key y = rule_key rule"
      unfolding keyset by force
    then show False
      using next_version_fresh [OF ok, of y r code] rule by (auto simp: rule_key_def)
  qed
  have newest: "ru_version y \<le> ru_version rule" if "y \<in> set (roomRules s')" "same_code rule y" for y
  proof (cases "y = rule")
    case False
    then have "y \<in> set (retired_rules r code s)" using that s' by simp
    then obtain y' where "y' \<in> set (roomRules s)" "rule_key y = rule_key y'"
      using retired_rules_set [OF ok] by blast
    then show ?thesis
      using next_version_fresh [OF ok, of y' r code] rule that(2)
      by (auto simp: rule_key_def same_code_def)
  qed simp
  have active: "ru_active x \<longleftrightarrow>
      (\<forall>y \<in> set (roomRules s'). same_code x y \<longrightarrow> ru_version y \<le> ru_version x)"
    if x: "x \<in> set (retired_rules r code s)" for x
  proof -
    from retired_rules_set [OF ok x] obtain x' where x': "x' \<in> set (roomRules s)"
      "rule_key x = rule_key x'"
      "ru_active x \<longleftrightarrow> ru_active x' \<and> \<not> (ru_roomId x' = r \<and> ru_ruleCode x' = code)" by blast
    show ?thesis
    proof (cases "ru_roomId x' = r \<and> ru_ruleCode x' = code")
      case True
      then have "same_code x rule" "ru_version x < ru_version rule"
        using next_version_fresh [OF ok x'(1)] rule x'(2) by (auto simp: same_code_def rule_key_def)
      then show ?thesis using True x'(3) s' by auto
    next
      case False
      have "(\<forall>y \<in> set (roomRules s'). same_code x y \<longrightarrow> ru_version y \<le> ru_version x) \<longleftrightarrow>
            (\<forall>y \<in> set (roomRules s). same_code x' y \<longrightarrow> ru_version y \<le> ru_version x')"
        (is "?new \<longleftrightarrow> ?old")
      proof
        assume ?new
        show ?old
        proof (intro ballI impI)
          fix y assume "y \<in> set (roomRules s)" "same_code x' y"
          then have "rule_key y \<in> rule_key ` set (retired_rules r code s)"
            unfolding keyset by (intro imageI)
          then obtain y' where "y' \<in> set (retired_rules r code s)" "rule_key y' = rule_key y"
            by (elim imageE) simp
          with \<open>same_code x' y\<close> show "ru_version y \<le> ru_version x'"
            using \<open>?new\<close> s' x'(2) by (auto simp: same_code_def rule_key_def)
        qed
      next
        assume ?old
        show ?new
        proof (intro ballI impI)
          fix y assume y: "y \<in> set (roomRules s')" "same_code x y"
          then have "y \<noteq> rule" using False rule x'(2) by (auto simp: same_code_def rule_key_def)
          then have "y \<in> set (retired_rules r code s)" using y(1) s' by simp
          then obtain y' where "y' \<in> set (roomRules s)" "rule_key y = rule_key y'"
            using retired_rules_set [OF ok] by blast
          then show "ru_version y \<le> ru_version x"
            using \<open>?old\<close> x'(2) y(2) by (auto simp: same_code_def rule_key_def)
        qed
      qed
      then show ?thesis using False x'(1,3) ok by (simp add: rules_versioned_def)
    qed
  qed
  have "distinct (map rule_key (roomRules s'))"
    using ok new keys unfolding s' keyset by (simp add: rules_versioned_def)
  moreover have "\<forall>x \<in> set (roomRules s'). ru_active x \<longleftrightarrow>
      (\<forall>y \<in> set (roomRules s'). same_code x y \<longrightarrow> ru_version y \<le> ru_version x)"
    using active newest rule(4) unfolding s' by (auto simp: s')
  ultimately show "rules_versioned s'" by (simp add: rules_versioned_def)
qed

definition added_rule :: "uuid \<Rightarrow> create_rule_dto \<Rightarrow> db \<Rightarrow> room_rule" where
  "added_rule r dto s =
     \<lparr>ru_roomId = r, ru_ruleCode = ur_ruleCode dto, ru_title = ur_title dto,
      ru_description = ur_description dto, ru_severity = ur_severity dto,
      ru_version = next_version r (ur_ruleCode dto) s, ru_active = True\<rparr>"

lemma add_rule_body_eq:
  "add_rule_body e r dto s =
     bindE (someE (find_room r s) (NotFound ''Room not found'')) (\<lambda>room.
     bindE (insert_row rule_key ''room_rules_room_id_rule_code_version_key''
              (added_rule r dto s) (retired_rules r (ur_ruleCode dto) s)) (\<lambda>rules.
     bindE (event e 0 ''room.rules.changed''
              [(''roomId'', JStr r), (''rulesVersion'', JNum (int (r_rulesVersion room + 1)))]
              (save_room (room\<lparr>r_rulesVersion := r_rulesVersion room + 1\<rparr>) (s\<lparr>roomRules := rules\<rparr>))) (\<lambda>s'.
     Inr (added_rule r dto s, s'))))"
  by (simp add: add_rule_body_def added_rule_def retired_rules_def next_version_def Let_def
      cong: option.case_cong)

lemma rules_versioned_added:
  assumes "rules_versioned s"
  shows "rule_key (added_rule r dto s) \<notin> rule_key ` set (retired_rules r (ur_ruleCode dto) s)"
    "roomRules s' = retired_rules r (ur_ruleCode dto) s @ [added_rule r dto s] \<Longrightarrow> rules_versioned s'"
  using rules_versioned_add [OF assms, of "added_rule r dto s" r "ur_ruleCode dto"
      "s\<lparr>roomRules := retired_rules r (ur_ruleCode dto) s @ [added_rule r dto s]\<rparr>"]
    rules_versioned_add [OF assms, of "added_rule r dto s" r "ur_ruleCode dto" s']
  by (simp_all add: added_rule_def)

lemma add_rule_Inr:
  assumes "add_rule e r dto u s = (Inr rule, s')"
  obtains i room where "uid u = Some i" "staff u \<or> manages e r i s" "find_room r s = Some room"
    "rule = added_rule r dto s"
    "same_content (save_room (room\<lparr>r_rulesVersion := r_rulesVersion room + 1\<rparr>)
       (s\<lparr>roomRules := retired_rules r (ur_ruleCode dto) s @ [added_rule r dto s]\<rparr>)) s'"
proof -
  from assms have g: "requireRoomManager e r u s = Inr ()" and b: "add_rule_body e r dto s = Inr (rule, s')"
    unfolding add_rule_def by (auto simp: transaction_Inr split: sum.splits)
  from b obtain room rules where "find_room r s = Some room" "rule = added_rule r dto s"
    "rules = retired_rules r (ur_ruleCode dto) s @ [added_rule r dto s]"
    "event e 0 ''room.rules.changed''
       [(''roomId'', JStr r), (''rulesVersion'', JNum (int (r_rulesVersion room + 1)))]
       (save_room (room\<lparr>r_rulesVersion := r_rulesVersion room + 1\<rparr>) (s\<lparr>roomRules := rules\<rparr>)) = Inr s'"
    unfolding add_rule_body_eq returns by blast
  with g that show thesis
    unfolding requireRoomManager_Inr using event_same_content by metis
qed

lemma add_rule_error: "add_rule e r dto u s = (Inl ex, s') \<Longrightarrow> s' = s"
  by (auto simp: add_rule_def transaction_error split: sum.splits)

lemma rules_versioned_cong: "roomRules s' = roomRules s \<Longrightarrow> rules_versioned s' = rules_versioned s"
  by (simp add: rules_versioned_def)

lemma rooms_ok_rules [simp]: "rooms_ok (s\<lparr>roomRules := rs\<rparr>) = rooms_ok s"
  using rooms_keyed_cong [of "s\<lparr>roomRules := rs\<rparr>" s] owned_cong [of "s\<lparr>roomRules := rs\<rparr>" s]
  by (simp add: rooms_ok_def)

lemma rooms_ok_cong:
  "rooms s' = rooms s \<Longrightarrow> bindings s' = bindings s \<Longrightarrow> memberships s' = memberships s \<Longrightarrow>
   rooms_ok s' = rooms_ok s"
  using rooms_keyed_cong [of s' s] owned_cong [of s' s] by (simp add: rooms_ok_def)

lemma rooms_ok_same_content: "same_content s s' \<Longrightarrow> rooms_ok s' = rooms_ok s"
  by (rule rooms_ok_cong) (simp_all add: same_content_tables)

lemma rooms_ok_add_rule:
  assumes "rooms_ok s" shows "rooms_ok (snd (add_rule e r dto u s))"
proof (cases "add_rule e r dto u s")
  case (Pair res s')
  show ?thesis
  proof (cases res)
    case (Inl ex)
    then show ?thesis using Pair assms add_rule_error by fastforce
  next
    case (Inr rule)
    let ?s = "\<lambda>rs. s\<lparr>roomRules := rs\<rparr>"
    obtain room rs where room: "find_room r s = Some room" and
      same: "same_content (save_room (room\<lparr>r_rulesVersion := r_rulesVersion room + 1\<rparr>) (?s rs)) s'"
      using add_rule_Inr [OF Pair [unfolded Inr]] by metis
    have "rooms_ok (save_room (room\<lparr>r_rulesVersion := r_rulesVersion room + 1\<rparr>) (?s rs))"
    proof (rule rooms_ok_save_room)
      show "find_room (r_id (room\<lparr>r_rulesVersion := r_rulesVersion room + 1\<rparr>)) (?s rs) = Some room"
        using room find_room_Some [OF room] by (simp add: find_room_def)
    qed (simp_all add: assms)
    then show ?thesis using Pair same rooms_ok_same_content by simp
  qed
qed

lemma rules_versioned_add_rule:
  assumes "rules_versioned s" shows "rules_versioned (snd (add_rule e r dto u s))"
proof (cases "add_rule e r dto u s")
  case (Pair res s')
  show ?thesis
  proof (cases res)
    case (Inl ex)
    then show ?thesis using Pair assms add_rule_error by fastforce
  next
    case (Inr rule)
    have "roomRules s' = retired_rules r (ur_ruleCode dto) s @ [added_rule r dto s]"
      by (rule add_rule_Inr [OF Pair [unfolded Inr]]) (simp add: same_content_tables(4) save_room_def)
    then show ?thesis using Pair rules_versioned_added(2) [OF assms] by simp
  qed
qed

section \<open>Canonical rooms\<close>

text \<open>A major has at most one canonical room.\<close>

definition majors_unique :: "db \<Rightarrow> bool" where
  "majors_unique s \<longleftrightarrow>
     (\<forall>b \<in> set (bindings s). length (bound_rooms MAJOR (\<lambda>b'. b_majorId b' = b_majorId b) s) \<le> 1)"

lemma majors_uniqueD:
  assumes "majors_unique s" shows "length (bound_rooms MAJOR (\<lambda>b. b_majorId b = mj) s) \<le> 1"
proof (cases "\<exists>b \<in> set (bindings s). b_majorId b = mj")
  case True
  then show ?thesis using assms by (auto simp: majors_unique_def)
next
  case False
  then have "bound_rooms MAJOR (\<lambda>b. b_majorId b = mj) s = []"
    by (auto simp: bound_rooms_def filter_empty_conv)
  then show ?thesis by simp
qed

lemma bound_rooms_cong:
  assumes "map (\<lambda>r. (r_id r, r_type r)) (rooms s') = map (\<lambda>r. (r_id r, r_type r)) (rooms s)"
    and "bindings s' = bindings s"
  shows "bound_rooms ty P s' = bound_rooms ty P s"
proof -
  have ex: "exists_where (\<lambda>r. r_id r = i \<and> r_type r = ty) rs \<longleftrightarrow>
      (i, ty) \<in> set (map (\<lambda>r. (r_id r, r_type r)) rs)" for i rs
    by (auto simp: exists_where_iff)
  show ?thesis unfolding bound_rooms_def ex using assms by simp
qed

lemma majors_unique_cong:
  assumes "map (\<lambda>r. (r_id r, r_type r)) (rooms s') = map (\<lambda>r. (r_id r, r_type r)) (rooms s)"
    and "bindings s' = bindings s"
  shows "majors_unique s' = majors_unique s"
  using assms(2) bound_rooms_cong [OF assms] by (simp add: majors_unique_def)

lemma majors_unique_save_room:
  assumes "rooms_keyed s" "find_room (r_id r) s = Some r0" "r_type r = r_type r0"
  shows "majors_unique (save_room r s) = majors_unique s"
proof (rule majors_unique_cong)
  have r0: "r0 \<in> set (rooms s)" "r_id r0 = r_id r"
    using find_room_Some [OF assms(2)] by simp_all
  then have "\<And>r'. r' \<in> set (rooms s) \<Longrightarrow> r_id r' = r_id r \<Longrightarrow> r' = r0"
    using assms(1) by (metis distinct_map inj_onD rooms_keyed_def)
  then show "map (\<lambda>r. (r_id r, r_type r)) (rooms (save_room r s)) = map (\<lambda>r. (r_id r, r_type r)) (rooms s)"
    using assms(3) by (auto simp: save_room_def put_def update_where_def)
qed (simp add: save_room_def)

lemma create_canonical_MAJOR:
  assumes "create_checks e dto u s = Inr (actor, parent, ctx)" "cr_roomType dto = MAJOR"
  obtains mj where "cr_majorId dto = Some mj" "bound_rooms MAJOR (\<lambda>b. b_majorId b = mj) s = []"
  using assms by (auto simp: create_checks_def create_canonical_def returns split: option.splits)

lemma bound_rooms_created:
  assumes "rooms_keyed s" "i \<notin> r_id ` set (rooms s)" "r_id room = i"
    and "rooms s' = rooms s @ [room]" "bindings s' = bindings s @ bs"
    and "\<And>b. b \<in> set bs \<Longrightarrow> b_roomId b = i"
  shows "bound_rooms ty P s' = bound_rooms ty P s @ filter (\<lambda>b. P b \<and> r_type room = ty) bs"
proof -
  have "\<forall>b \<in> set (bindings s). b_roomId b \<noteq> i"
    using assms(1,2) by (force simp: rooms_keyed_def image_subset_iff)
  have "filter (\<lambda>b. P b \<and> exists_where (\<lambda>r. r_id r = b_roomId b \<and> r_type r = ty) (rooms s')) (bindings s)
      = filter (\<lambda>b. P b \<and> exists_where (\<lambda>r. r_id r = b_roomId b \<and> r_type r = ty) (rooms s)) (bindings s)"
    using assms(3,4) \<open>\<forall>b \<in> set (bindings s). b_roomId b \<noteq> i\<close>
    by (intro filter_cong) (auto simp: exists_where_iff)
  moreover have
    "filter (\<lambda>b. P b \<and> exists_where (\<lambda>r. r_id r = b_roomId b \<and> r_type r = ty) (rooms s')) bs
      = filter (\<lambda>b. P b \<and> r_type room = ty) bs"
    using assms(2-4,6) by (intro filter_cong) (auto simp: exists_where_iff image_iff)
  ultimately show ?thesis by (simp add: bound_rooms_def assms(5))
qed

lemma majors_unique_create_room:
  assumes "rooms_ok s" "majors_unique s" shows "majors_unique (snd (create_room e dto u s))"
proof (rule create_room_cases [of e dto u s])
  fix ex assume "create_room e dto u s = (Inl ex, s)"
  then show ?thesis using assms by simp
next
  fix actor parent ctx i s'
  assume checks: "create_checks e dto u s = Inr (actor, parent, ctx)"
    and body: "create_body e dto actor parent ctx s = Inr (i, s')"
    and res: "create_room e dto u s = (findOne_room i u s', s')"
  let ?room = "new_room e dto actor"
  from body obtain bs where *: "i \<notin> r_id ` set (rooms s)" "r_id ?room = i"
    "rooms s' = rooms s @ [?room]" "bindings s' = bindings s @ bs"
    "length bs \<le> 1" "\<And>b. b \<in> set bs \<Longrightarrow> new_binding dto i parent ctx s = Some b"
    by (rule create_body_Inr) (fastforce simp: new_room_def)
  have split: "bound_rooms MAJOR P s' =
      bound_rooms MAJOR P s @ filter (\<lambda>b. P b \<and> r_type ?room = MAJOR) bs" for P
    using assms(1) *(1-4) new_binding_room [OF *(6)]
    by (intro bound_rooms_created) (simp_all add: rooms_ok_def)
  have "length (bound_rooms MAJOR (\<lambda>b. b_majorId b = mj) s') \<le> 1" for mj
  proof (cases "filter (\<lambda>b. b_majorId b = mj \<and> r_type ?room = MAJOR) bs")
    case Nil
    then show ?thesis using majors_uniqueD [OF assms(2), of mj] split by simp
  next
    case (Cons b rest)
    then have b: "b \<in> set bs" "b_majorId b = mj" "cr_roomType dto = MAJOR"
      by (auto simp: new_room_def dest!: arg_cong [where f = set])
    obtain mj' where mj': "cr_majorId dto = Some mj'" "bound_rooms MAJOR (\<lambda>b. b_majorId b = mj') s = []"
      using create_canonical_MAJOR [OF checks b(3)] by blast
    have "mj' = mj" using *(6) [OF b(1)] b(2,3) mj'(1) by (auto simp: new_binding_def)
    then show ?thesis
      using split mj'(2) order_trans [OF length_filter_le *(5)] by simp
  qed
  then show ?thesis using res by (simp add: majors_unique_def)
qed

lemma majors_unique_same_content: "same_content s s' \<Longrightarrow> majors_unique s' = majors_unique s"
  by (rule majors_unique_cong) (simp_all add: same_content_tables)

lemma majors_unique_add_rule:
  assumes "rooms_ok s" "majors_unique s" shows "majors_unique (snd (add_rule e r dto u s))"
proof (cases "add_rule e r dto u s")
  case (Pair res s')
  show ?thesis
  proof (cases res)
    case (Inl ex)
    then show ?thesis using Pair assms add_rule_error by fastforce
  next
    case (Inr rule)
    obtain room rs where room: "find_room r s = Some room" and
      same: "same_content (save_room (room\<lparr>r_rulesVersion := r_rulesVersion room + 1\<rparr>)
               (s\<lparr>roomRules := rs\<rparr>)) s'"
      using add_rule_Inr [OF Pair [unfolded Inr]] by metis
    have "majors_unique (save_room (room\<lparr>r_rulesVersion := r_rulesVersion room + 1\<rparr>)
               (s\<lparr>roomRules := rs\<rparr>)) = majors_unique (s\<lparr>roomRules := rs\<rparr>)"
      using assms(1) room find_room_Some [OF room]
      by (intro majors_unique_save_room [where ?r0.0 = room]) (auto simp: find_room_def rooms_ok_def rooms_keyed_def)
    also have "\<dots> = majors_unique s" by (rule majors_unique_cong) simp_all
    finally show ?thesis using Pair assms majors_unique_same_content [OF same] by simp
  qed
qed

lemma majors_unique_update_room_status:
  assumes "rooms_ok s" "majors_unique s" shows "majors_unique (snd (update_room_status e r st u s))"
proof (cases "update_room_status e r st u s")
  case (Pair res s')
  show ?thesis
  proof (cases res)
    case (Inl ex)
    then show ?thesis using Pair assms update_room_status_error by fastforce
  next
    case (Inr room')
    from update_room_status_Inr [OF Pair [unfolded Inr]] obtain room where
      "find_room r s = Some room" "room' = room\<lparr>r_status := st\<rparr>" "s' = save_room room' s"
      by metis
    then show ?thesis
      using Pair assms majors_unique_save_room [of s room' room] find_room_Some
      by (auto simp: rooms_ok_def)
  qed
qed

lemma majors_unique_update_policy:
  assumes "rooms_ok s" "majors_unique s" shows "majors_unique (snd (update_policy e r dto u s))"
proof (cases "update_policy e r dto u s")
  case (Pair res s')
  show ?thesis
  proof (cases res)
    case (Inl ex)
    then show ?thesis using Pair assms update_policy_error by fastforce
  next
    case (Inr room')
    obtain i room where *: "find_room r s = Some room"
      "room' = room\<lparr>r_reviewPolicy := up_reviewPolicy dto,
                     r_policyLocked := or_else (up_policyLocked dto) (r_policyLocked room)\<rparr>"
      "s' = save_room room' (s\<lparr>policyAudits := policyAudits s @ [policy_change_audit e i room dto]\<rparr>)"
      using update_policy_Inr [OF Pair [unfolded Inr]] by metis
    let ?s = "s\<lparr>policyAudits := policyAudits s @ [policy_change_audit e i room dto]\<rparr>"
    have "find_room (r_id room') ?s = Some room"
      using *(1) find_room_Some [OF *(1)] by (simp add: find_room_def *(2))
    then have "majors_unique (save_room room' ?s) = majors_unique ?s"
      using assms(1) by (intro majors_unique_save_room) (simp_all add: *(2) rooms_ok_def rooms_keyed_def)
    also have "\<dots> = majors_unique s" by (rule majors_unique_cong) simp_all
    finally show ?thesis using Pair *(3) assms(2) by simp
  qed
qed

lemma majors_unique_memberships [simp]: "majors_unique (s\<lparr>memberships := ms\<rparr>) = majors_unique s"
  by (rule majors_unique_cong) simp_all

lemma majors_unique_save_membership [simp]: "majors_unique (save_membership m s) = majors_unique s"
  by (simp add: save_membership_def)

lemma majors_unique_join: "majors_unique s \<Longrightarrow> majors_unique (snd (join_room e i u s))"
  by (rule join_room_cases [of e i u s]) simp_all

lemma majors_unique_update_membership:
  assumes "majors_unique s" shows "majors_unique (snd (update_membership e r j dto u s))"
proof (cases "update_membership e r j dto u s")
  case (Pair res s')
  show ?thesis
  proof (cases res)
    case (Inl ex)
    then show ?thesis using Pair assms update_membership_error by fastforce
  next
    case (Inr m')
    obtain as where "s' = save_membership m' (s\<lparr>policyAudits := as\<rparr>)"
      using update_membership_Inr [OF Pair [unfolded Inr]] by metis
    moreover have "majors_unique (s\<lparr>policyAudits := as\<rparr>) = majors_unique s"
      by (rule majors_unique_cong) simp_all
    ultimately show ?thesis using Pair assms by simp
  qed
qed

text \<open>What the gate leaves behind: the rooms stay well formed.\<close>

definition rooms_inv :: "db \<Rightarrow> bool" where
  "rooms_inv s \<longleftrightarrow> rooms_ok s \<and> rules_versioned s \<and> majors_unique s"

lemma rooms_inv_cong:
  "rooms s' = rooms s \<Longrightarrow> bindings s' = bindings s \<Longrightarrow> memberships s' = memberships s \<Longrightarrow>
   roomRules s' = roomRules s \<Longrightarrow> rooms_inv s' = rooms_inv s"
  using rooms_ok_cong [of s' s] majors_unique_cong [of s' s] rules_versioned_cong [of s' s]
  by (simp add: rooms_inv_def)

lemma rules_versioned_only: "only_memberships s t \<Longrightarrow> rules_versioned t = rules_versioned s"
  by (metis only_memberships_eq rules_versioned_cong db.select_convs(4) db.surjective db.update_convs(3))

lemma rooms_inv_assertCanPost:
  assumes "rooms_inv s" shows "rooms_inv (snd (assertCanPost e r u s))"
proof -
  let ?t = "snd (assertCanPost e r u s)"
  have t: "?t = s\<lparr>memberships := memberships ?t\<rparr>"
    by (rule only_memberships_eq [OF assertCanPost_only])
  have "majors_unique ?t" using assms by (subst t) (simp add: rooms_inv_def)
  then show ?thesis
    using assms rooms_ok_assertCanPost rules_versioned_only [OF assertCanPost_only]
    by (simp add: rooms_inv_def)
qed

lemma create_room_rules: "roomRules (snd (create_room e dto u s)) = roomRules s"
proof (rule create_room_cases [of e dto u s])
  fix actor parent ctx i s'
  assume "create_body e dto actor parent ctx s = Inr (i, s')"
    and res: "create_room e dto u s = (findOne_room i u s', s')"
  from this(1) have "roomRules s' = roomRules s" by (rule create_body_Inr)
  then show ?thesis using res by simp
qed simp

lemma join_room_rules: "roomRules (snd (join_room e i u s)) = roomRules s"
  by (rule join_room_cases [of e i u s]) (simp_all add: save_membership_def)

end
