(* ===== verification/Presenter.thy ===== *)
theory Presenter
  imports Content_Policy
begin

text \<open>
  \<open>common/content-presenter.ts\<close>: how posts, comments and answers are shown to a caller. The three
  kinds of rows are seen through one record of what the presenter reads; the fields it copies
  without looking at them are the parameter \<open>'b\<close>.
\<close>

record 'b item =
  i_id :: uuid
  i_authorId :: uuid
  i_isAnonymous :: bool
  i_deletedAt :: "time option"
  i_moderationStatus :: moderation_status
  i_visibility :: visibility
  i_pendingRevision :: "pending_revision option"
  i_moderationNote :: "string option"
  i_content :: string
  i_body :: 'b

record 'b presented =
  p_id :: uuid
  p_authorId :: "uuid option"
  p_author :: "profile option"
  p_isAnonymous :: bool
  p_deletedAt :: "time option"
  p_moderationStatus :: moderation_status
  p_visibility :: visibility
  p_pendingRevision :: "pending_revision option"
  p_moderationNote :: "string option"
  p_content :: string
  p_isMine :: bool
  p_canManage :: bool
  p_canVote :: bool
  p_myVote :: "vote_type option"
  p_body :: 'b

definition own_votes :: "target_type \<Rightarrow> uuid list \<Rightarrow> gateway_user \<Rightarrow> db \<Rightarrow> vote list" where
  "own_votes ty ids u s =
     (case truthy (uid u) of
        None \<Rightarrow> []
      | Some i \<Rightarrow> filter (\<lambda>v. v_userId v = i \<and> v_targetType v = ty \<and> v_targetId v \<in> set ids) (votes s))"

text \<open>The authors whose names are asked from the identity service; a failed call yields no names.\<close>

definition display_ids :: "'b item list \<Rightarrow> uuid list" where
  "display_ids items =
     new_set (map i_authorId (filter (\<lambda>i. \<not> i_isAnonymous i \<and> i_deletedAt i = None) items))"

definition profiles_of :: "env \<Rightarrow> uuid list \<Rightarrow> profile list" where
  "profiles_of e ids =
     (if ids = [] then []
      else case display_info e ids of
          NetworkError \<Rightarrow> []
        | Reply st body \<Rightarrow> if reply_ok (display_info e ids) then or_else body [] else [])"

definition deleted_text :: string where
  "deleted_text = ''[Binh luan da xoa]''"

definition present_one ::
  "target_type \<Rightarrow> gateway_user \<Rightarrow> vote list \<Rightarrow> profile list \<Rightarrow> 'b item \<Rightarrow> 'b presented" where
  "present_one ty u vs profiles item =
     (let mine = (Some (i_authorId item) = uid u);
          gone = (i_deletedAt item \<noteq> None);
          hiddenAuthor = (i_isAnonymous item \<or> gone);
          loggedIn = (truthy (uid u) \<noteq> None) in
      \<lparr>p_id = i_id item,
       p_authorId = (if hiddenAuthor then None else Some (i_authorId item)),
       p_author =
         (if hiddenAuthor then None else find_by (\<lambda>p. p_userId p = i_authorId item) profiles),
       p_isAnonymous = (if gone then True else i_isAnonymous item),
       p_deletedAt = i_deletedAt item,
       p_moderationStatus = i_moderationStatus item,
       p_visibility = i_visibility item,
       p_pendingRevision = (if mine then i_pendingRevision item else None),
       p_moderationNote = (if mine \<or> staff u then i_moderationNote item else None),
       p_content = (if gone then deleted_text else i_content item),
       p_isMine = (loggedIn \<and> mine),
       p_canManage = (\<not> gone \<and> canManage (i_authorId item) u),
       p_canVote =
         ((ty \<noteq> OnDiscussion \<or> approved (i_moderationStatus item) (i_visibility item)) \<and>
          loggedIn \<and> \<not> mine \<and> \<not> gone),
       p_myVote = map_option v_voteType (find_by (\<lambda>v. v_targetId v = i_id item) vs),
       p_body = i_body item\<rparr>)"

definition present_many ::
  "env \<Rightarrow> target_type \<Rightarrow> gateway_user \<Rightarrow> db \<Rightarrow> 'b item list \<Rightarrow> 'b presented list" where
  "present_many e ty u s items =
     (let vs = (if items = [] then [] else own_votes ty (map i_id items) u s);
          profiles = profiles_of e (display_ids items) in
      map (present_one ty u vs profiles) items)"

section \<open>The three kinds of content\<close>

record post_body =
  pb_title :: string
  pb_postType :: post_type
  pb_status :: post_status
  pb_upvoteCount :: int
  pb_downvoteCount :: int
  pb_commentCount :: int
  pb_answerCount :: int
  pb_viewCount :: int
  pb_acceptedCommentId :: "uuid option"
  pb_acceptedAnswerId :: "uuid option"
  pb_contentVersion :: nat
  pb_roomId :: "uuid option"
  pb_academic :: "uuid option \<times> uuid option \<times> uuid option \<times> uuid option"
  pb_createdAt :: time
  pb_tags :: "tag list"
  pb_media :: "discussion_media list"

record reply_body =
  rb_discussionId :: uuid
  rb_parentCommentId :: "uuid option"
  rb_contentVersion :: "nat option"
  rb_upvoteCount :: int
  rb_downvoteCount :: int
  rb_createdAt :: time

text \<open>The relations \<open>tags\<close> and \<open>media\<close> of a post.\<close>

definition tags_of :: "uuid \<Rightarrow> db \<Rightarrow> tag list" where
  "tags_of i s = filter (\<lambda>t. (i, t_id t) \<in> set (discussionTags s)) (tags s)"

definition media_of :: "uuid \<Rightarrow> db \<Rightarrow> discussion_media list" where
  "media_of i s = filter (\<lambda>m. dm_discussionId m = i) (discussionMedia s)"

definition post_item :: "db \<Rightarrow> discussion \<Rightarrow> post_body item" where
  "post_item s d =
     \<lparr>i_id = d_id d, i_authorId = d_authorId d, i_isAnonymous = d_isAnonymous d,
      i_deletedAt = d_deletedAt d, i_moderationStatus = d_moderationStatus d,
      i_visibility = d_visibility d, i_pendingRevision = d_pendingRevision d,
      i_moderationNote = Some (d_moderationNote d), i_content = d_content d,
      i_body =
        \<lparr>pb_title = d_title d, pb_postType = d_postType d, pb_status = d_status d,
         pb_upvoteCount = d_upvoteCount d, pb_downvoteCount = d_downvoteCount d,
         pb_commentCount = d_commentCount d, pb_answerCount = d_answerCount d,
         pb_viewCount = d_viewCount d, pb_acceptedCommentId = d_acceptedCommentId d,
         pb_acceptedAnswerId = d_acceptedAnswerId d, pb_contentVersion = d_contentVersion d,
         pb_roomId = d_roomId d,
         pb_academic = (d_majorId d, d_curriculumId d, d_courseId d, d_curriculumCourseId d),
         pb_createdAt = d_createdAt d, pb_tags = tags_of (d_id d) s,
         pb_media = media_of (d_id d) s\<rparr>\<rparr>"

definition comment_item :: "comment \<Rightarrow> reply_body item" where
  "comment_item c =
     \<lparr>i_id = c_id c, i_authorId = c_authorId c, i_isAnonymous = c_isAnonymous c,
      i_deletedAt = c_deletedAt c, i_moderationStatus = c_moderationStatus c,
      i_visibility = c_visibility c, i_pendingRevision = None, i_moderationNote = None,
      i_content = c_content c,
      i_body =
        \<lparr>rb_discussionId = c_discussionId c, rb_parentCommentId = c_parentCommentId c,
         rb_contentVersion = None, rb_upvoteCount = c_upvoteCount c,
         rb_downvoteCount = c_downvoteCount c, rb_createdAt = c_createdAt c\<rparr>\<rparr>"

definition answer_item :: "answer \<Rightarrow> reply_body item" where
  "answer_item a =
     \<lparr>i_id = a_id a, i_authorId = a_authorId a, i_isAnonymous = a_isAnonymous a,
      i_deletedAt = a_deletedAt a, i_moderationStatus = a_moderationStatus a,
      i_visibility = a_visibility a, i_pendingRevision = None, i_moderationNote = None,
      i_content = a_content a,
      i_body =
        \<lparr>rb_discussionId = a_discussionId a, rb_parentCommentId = None,
         rb_contentVersion = Some (a_contentVersion a), rb_upvoteCount = a_upvoteCount a,
         rb_downvoteCount = a_downvoteCount a, rb_createdAt = a_createdAt a\<rparr>\<rparr>"

section \<open>Anonymity\<close>

text \<open>
  What a caller sees of anonymous or deleted content does not depend on who wrote it, unless the
  caller wrote it.
\<close>

lemma display_ids_anonymous:
  "i_isAnonymous item \<or> i_deletedAt item \<noteq> None \<Longrightarrow>
   display_ids (pre @ item\<lparr>i_authorId := a\<rparr> # post) = display_ids (pre @ item # post)"
  by (auto simp: display_ids_def)

lemma present_one_anonymous:
  assumes "i_isAnonymous item \<or> i_deletedAt item \<noteq> None"
    and "uid u \<noteq> Some (i_authorId item)" "uid u \<noteq> Some a"
  shows "present_one ty u vs ps (item\<lparr>i_authorId := a\<rparr>) = present_one ty u vs ps item"
  using assms by (auto simp: present_one_def canManage_def Let_def)

lemma present_many_anonymous:
  assumes "i_isAnonymous item \<or> i_deletedAt item \<noteq> None"
    and "uid u \<noteq> Some (i_authorId item)" "uid u \<noteq> Some a"
  shows "present_many e ty u s (pre @ item\<lparr>i_authorId := a\<rparr> # post) =
         present_many e ty u s (pre @ item # post)"
  using assms display_ids_anonymous [OF assms(1)] present_one_anonymous [OF assms]
  by (simp add: present_many_def Let_def)

lemma present_many_ids: "map p_id (present_many e ty u s items) = map i_id items"
  by (simp add: present_many_def present_one_def Let_def)

lemma length_present_many [simp]: "length (present_many e ty u s items) = length items"
  by (simp add: present_many_def Let_def)

end
