(* ===== verification/Discussions.thy ===== *)
theory Discussions
  imports Rooms_Correct Presenter
begin

text \<open>
  \<open>discussions/discussions.service.ts\<close>: posts. A post is created in a room whose gate decides
  whether it is visible at once, edited directly or through a pending revision, closed and
  reopened by moderators, and carries the comment its author accepted.
\<close>

section \<open>Shared steps\<close>

text \<open>\<open>if (post.roomId) await this.rooms.assertCanPost(...)\<close> in front of a transaction's writes.\<close>

definition with_gate ::
  "env \<Rightarrow> uuid option \<Rightarrow> gateway_user \<Rightarrow> (posting_context option \<Rightarrow> db \<Rightarrow> exn + 'a \<times> db) \<Rightarrow> db \<Rightarrow>
   (exn + 'a) \<times> db" where
  "with_gate e roomId u body s =
     (case roomId of
        None \<Rightarrow> transaction s (body None s)
      | Some r \<Rightarrow>
          (case assertCanPost e r u s of
             (Inl ex, t) \<Rightarrow> (Inl ex, t)
           | (Inr pc, t) \<Rightarrow> transaction t (body (Some pc) t)))"

text \<open>The tags of a request, which must all exist and be active.\<close>

definition active_tags :: "uuid list \<Rightarrow> db \<Rightarrow> exn + tag list" where
  "active_tags ids s =
     (let found = filter (\<lambda>t. t_id t \<in> set ids) (tags s) in
      if length found \<noteq> length ids \<or> list_ex (\<lambda>t. t_status t \<noteq> TagActive) found
      then Inl (BadRequest ''One or more active tags do not exist'') else Inr found)"

text \<open>\<open>UPDATE tags SET usage_count = GREATEST(usage_count + $1, 0) WHERE id = $2\<close>\<close>

definition bump_usage :: "int \<Rightarrow> uuid \<Rightarrow> tag list \<Rightarrow> tag list" where
  "bump_usage delta i =
     update_where (\<lambda>t. t_id t = i) (\<lambda>t. t\<lparr>t_usageCount := max (t_usageCount t + delta) 0\<rparr>)"

definition tagCounts :: "uuid list \<Rightarrow> int \<Rightarrow> db \<Rightarrow> db" where
  "tagCounts ids delta s = s\<lparr>tags := fold (bump_usage delta) (sort ids) (tags s)\<rparr>"

definition attach :: "uuid \<Rightarrow> uuid list \<Rightarrow> db \<Rightarrow> db" where
  "attach discussionId ids s =
     s\<lparr>discussionMedia := delete_where (\<lambda>m. dm_discussionId m = discussionId) (discussionMedia s) @
         map (\<lambda>(sortOrder, mediaId).
                \<lparr>dm_discussionId = discussionId, dm_mediaId = mediaId, dm_sortOrder = sortOrder\<rparr>)
           (enumerate 0 ids)\<rparr>"

text \<open>Saving a post whose \<open>tags\<close> were assigned synchronises the join table.\<close>

definition replace_tags :: "uuid \<Rightarrow> uuid list \<Rightarrow> db \<Rightarrow> db" where
  "replace_tags i ids s =
     s\<lparr>discussionTags :=
         filter (\<lambda>(d, t). d \<noteq> i \<or> t \<in> set ids) (discussionTags s) @
         map (Pair i) (filter (\<lambda>t. (i, t) \<notin> set (discussionTags s)) ids)\<rparr>"

definition dr_key :: "discussion_revision \<Rightarrow> uuid \<times> nat" where
  "dr_key r = (dr_discussionId r, dr_contentVersion r)"

definition insert_revision :: "discussion_revision \<Rightarrow> db \<Rightarrow> exn + db" where
  "insert_revision r s =
     bindE (insert_row dr_key ''discussion_revisions_discussion_id_content_version_key'' r
              (discussionRevisions s)) (\<lambda>rs.
     Inr (s\<lparr>discussionRevisions := rs\<rparr>))"

text \<open>\<open>UPDATE answer_acceptances ... WHERE discussion_id = $1 AND revoked_at IS NULL\<close>\<close>

definition ac_active :: "uuid \<Rightarrow> answer_acceptance \<Rightarrow> bool" where
  "ac_active i a = (ac_discussionId a = i \<and> ac_revokedAt a = None)"

definition revoke_acceptances :: "env \<Rightarrow> uuid \<Rightarrow> uuid \<Rightarrow> string \<Rightarrow> db \<Rightarrow> db" where
  "revoke_acceptances e i actor reason s =
     s\<lparr>answerAcceptances :=
         update_where (ac_active i)
           (\<lambda>a. a\<lparr>ac_revokedAt := Some (now e), ac_revokedBy := Some actor,
                  ac_revokeReason := Some reason\<rparr>)
           (answerAcceptances s)\<rparr>"

section \<open>Requests\<close>

record create_discussion_dto =
  cd_roomId :: uuid
  cd_curriculumCourseId :: "uuid option"
  cd_title :: string
  cd_content :: string
  cd_postType :: post_type
  cd_tagIds :: "uuid list option"
  cd_mediaIds :: "uuid list option"
  cd_isAnonymous :: "bool option"

record update_discussion_dto =
  ud_expectedVersion :: "nat option"
  ud_revisionType :: "revision_type option"
  ud_title :: "string option"
  ud_content :: "string option"
  ud_tagIds :: "uuid list option"
  ud_mediaIds :: "uuid list option"
  ud_isAnonymous :: "bool option"

section \<open>Reading a post\<close>

type_synonym post_view = "post_body presented \<times> reply_body presented option"

definition present_post :: "env \<Rightarrow> gateway_user \<Rightarrow> db \<Rightarrow> discussion \<Rightarrow> post_view" where
  "present_post e u s post =
     (let acceptedAnswer = (case d_acceptedAnswerId post of None \<Rightarrow> None | Some a \<Rightarrow> find_answer a s);
          answer = (if acceptedAnswer = None
                    then (case d_acceptedCommentId post of None \<Rightarrow> None | Some c \<Rightarrow> find_comment c s)
                    else None) in
      (hd (present_many e OnDiscussion u s [post_item s post]),
       or_opt
         (map_option (\<lambda>a. hd (present_many e OnAnswer u s [answer_item a])) acceptedAnswer)
         (map_option (\<lambda>c. hd (present_many e OnComment u s [comment_item c])) answer)))"

definition readable_post :: "uuid \<Rightarrow> gateway_user \<Rightarrow> db \<Rightarrow> exn + discussion" where
  "readable_post i u s =
     bindE (someE (find_discussion i s) (NotFound ''Discussion not found'')) (\<lambda>post.
     bindE (requireReadable post u) (\<lambda>_.
     bindE (case d_roomId post of
              None \<Rightarrow> Inr ()
            | Some r \<Rightarrow> bindE (findOne_room r u s) (\<lambda>_. Inr ())) (\<lambda>_.
     Inr post)))"

definition findOne ::
  "env \<Rightarrow> uuid \<Rightarrow> gateway_user \<Rightarrow> bool \<Rightarrow> db \<Rightarrow> (exn + post_view) \<times> db" where
  "findOne e i u countView s =
     (case readable_post i u s of
        Inl ex \<Rightarrow> (Inl ex, s)
      | Inr post \<Rightarrow>
          (Inr (present_post e u s post),
           if countView
           then s\<lparr>discussions := update_where (\<lambda>d. d_id d = i)
                    (\<lambda>d. d\<lparr>d_viewCount := d_viewCount d + 1\<rparr>) (discussions s)\<rparr>
           else s))"

text \<open>\<open>return this.findOne(id, user, false)\<close> at the end of a handler.\<close>

definition then_find ::
  "env \<Rightarrow> uuid \<Rightarrow> gateway_user \<Rightarrow> (exn + 'a) \<times> db \<Rightarrow> (exn + post_view) \<times> db" where
  "then_find e i u r =
     (case r of (Inl ex, s) \<Rightarrow> (Inl ex, s) | (Inr _, s) \<Rightarrow> findOne e i u False s)"

section \<open>Creating a post\<close>

definition or_ctx ::
  "academic_context option \<Rightarrow> (academic_context \<Rightarrow> uuid) \<Rightarrow> uuid option \<Rightarrow> uuid option" where
  "or_ctx selected f fallback = (case selected of Some c \<Rightarrow> Some (f c) | None \<Rightarrow> fallback)"

definition new_discussion ::
  "env \<Rightarrow> create_discussion_dto \<Rightarrow> uuid \<Rightarrow> academic_context option \<Rightarrow> posting_context \<Rightarrow> discussion" where
  "new_discussion e dto authorId selected pc =
     \<lparr>d_id = fresh e 0, d_title = cd_title dto, d_content = cd_content dto,
      d_postType = cd_postType dto, d_status = Open, d_authorId = authorId,
      d_isAnonymous = or_else (cd_isAnonymous dto) False,
      d_upvoteCount = 0, d_downvoteCount = 0, d_commentCount = 0, d_answerCount = 0,
      d_viewCount = 0, d_acceptedCommentId = None, d_acceptedAnswerId = None,
      d_contentVersion = 1, d_moderationStatus = Pending,
      d_visibility = (if pc_requiresApproval pc then Held else Visible),
      d_pendingRevision = None, d_moderationNote = '''', d_roomId = Some (cd_roomId dto),
      d_majorId = or_ctx selected ctx_majorId (map_option b_majorId (pc_binding pc)),
      d_curriculumId =
        or_ctx selected ctx_curriculumId (Option.bind (pc_binding pc) b_curriculumId),
      d_courseId = or_ctx selected ctx_courseId (Option.bind (pc_binding pc) b_courseId),
      d_curriculumCourseId =
        or_ctx selected ctx_curriculumCourseId (Option.bind (pc_binding pc) b_curriculumCourseId),
      d_createdAt = now e, d_deletedAt = None\<rparr>"

definition context_fits :: "academic_context option \<Rightarrow> posting_context \<Rightarrow> exn + unit" where
  "context_fits selected pc =
     (case (selected, pc_binding pc) of
        (Some c, Some b) \<Rightarrow>
          if ctx_majorId c \<noteq> b_majorId b
          then Inl (BadRequest ''Selected course does not belong to the room major'')
          else if b_curriculumCourseId b \<noteq> None \<and>
                  b_curriculumCourseId b \<noteq> Some (ctx_curriculumCourseId c)
          then Inl (BadRequest ''Course room fixes the academic context'')
          else Inr ()
      | _ \<Rightarrow> Inr ())"

definition link_tags :: "uuid \<Rightarrow> uuid list \<Rightarrow> db \<Rightarrow> exn + db" where
  "link_tags i ids s =
     (if list_ex (\<lambda>t. (i, t) \<in> set (discussionTags s)) ids
      then Inl (UniqueViolation ''discussion_tags_pkey'')
      else Inr (s\<lparr>discussionTags := discussionTags s @ map (Pair i) ids\<rparr>))"

definition create_discussion_body ::
  "env \<Rightarrow> create_discussion_dto \<Rightarrow> uuid \<Rightarrow> academic_context option \<Rightarrow> posting_context \<Rightarrow> db \<Rightarrow>
   exn + uuid \<times> db" where
  "create_discussion_body e dto authorId selected pc s =
     (let tagIds = new_set (or_else (cd_tagIds dto) []);
          post = new_discussion e dto authorId selected pc in
      bindE (context_fits selected pc) (\<lambda>_.
      bindE (active_tags tagIds s) (\<lambda>ts.
      bindE (insert_row d_id ''discussions_pkey'' post (discussions s)) (\<lambda>ds.
      bindE (link_tags (d_id post) (map t_id ts) (s\<lparr>discussions := ds\<rparr>)) (\<lambda>s.
      bindE (insert_revision
               \<lparr>dr_discussionId = d_id post, dr_contentVersion = 1, dr_title = d_title post,
                dr_content = d_content post, dr_revisionType = Semantic, dr_editedBy = authorId\<rparr>
               (tagCounts tagIds 1 (attach (d_id post) (or_else (cd_mediaIds dto) []) s))) (\<lambda>s.
      bindE (event e 1 ''discussion.created''
               [(''discussionId'', JStr (d_id post)), (''title'', JStr (d_title post)),
                (''recipientId'', JStr authorId)] s) (\<lambda>s.
      Inr (d_id post, s))))))))"

definition create_discussion ::
  "env \<Rightarrow> gateway_user \<Rightarrow> create_discussion_dto \<Rightarrow> db \<Rightarrow> (exn + post_view) \<times> db" where
  "create_discussion e u dto s =
     (case bindE (authenticated u) (\<lambda>authorId.
           bindE (validate_media e (or_else (cd_mediaIds dto) []) (Some authorId)) (\<lambda>_.
           bindE (case cd_curriculumCourseId dto of
                    None \<Rightarrow> Inr None
                  | Some cc \<Rightarrow> bindE (academic_context e cc) (\<lambda>c. Inr (Some c))) (\<lambda>selected.
           Inr (authorId, selected)))) of
        Inl ex \<Rightarrow> (Inl ex, s)
      | Inr (authorId, selected) \<Rightarrow>
          (case assertCanPost e (cd_roomId dto) u s of
             (Inl ex, t) \<Rightarrow> (Inl ex, t)
           | (Inr pc, t) \<Rightarrow>
               (case transaction t (create_discussion_body e dto authorId selected pc t) of
                  (Inl ex, t') \<Rightarrow> (Inl ex, t')
                | (Inr i, t') \<Rightarrow> findOne e i u False t')))"

section \<open>Editing a post\<close>

definition content_changed :: "discussion \<Rightarrow> update_discussion_dto \<Rightarrow> bool" where
  "content_changed post dto =
     ((ud_title dto \<noteq> None \<and> ud_title dto \<noteq> Some (d_title post)) \<or>
      (ud_content dto \<noteq> None \<and> ud_content dto \<noteq> Some (d_content post)) \<or>
      ud_tagIds dto \<noteq> None \<or> ud_mediaIds dto \<noteq> None \<or>
      (ud_isAnonymous dto \<noteq> None \<and> ud_isAnonymous dto \<noteq> Some (d_isAnonymous post)) \<or>
      (d_pendingRevision post \<noteq> None \<and> (ud_title dto \<noteq> None \<or> ud_content dto \<noteq> None)))"

text \<open>The proposed version: what the request sets, else the previous proposal, else the post.\<close>

definition next_draft :: "update_discussion_dto \<Rightarrow> discussion \<Rightarrow> db \<Rightarrow> pending_revision" where
  "next_draft dto post s =
     (let previous = d_pendingRevision post in
      \<lparr>pr_title = or_else (or_opt (ud_title dto) (map_option pr_title previous)) (d_title post),
       pr_content = or_else (or_opt (ud_content dto) (map_option pr_content previous)) (d_content post),
       pr_isAnonymous =
         or_else (or_opt (ud_isAnonymous dto) (map_option pr_isAnonymous previous)) (d_isAnonymous post),
       pr_tagIds =
         or_else (or_opt (map_option new_set (ud_tagIds dto)) (map_option pr_tagIds previous))
           (map t_id (tags_of (d_id post) s)),
       pr_mediaIds =
         or_else (or_opt (ud_mediaIds dto) (map_option pr_mediaIds previous))
           (map dm_mediaId (media_of (d_id post) s))\<rparr>)"

definition revision_row ::
  "update_discussion_dto \<Rightarrow> discussion \<Rightarrow> string \<Rightarrow> string \<Rightarrow> uuid \<Rightarrow> discussion_revision" where
  "revision_row dto post title content editor =
     \<lparr>dr_discussionId = d_id post, dr_contentVersion = d_contentVersion post, dr_title = title,
      dr_content = content, dr_revisionType = or_else (ud_revisionType dto) Semantic,
      dr_editedBy = editor\<rparr>"

definition update_draft ::
  "update_discussion_dto \<Rightarrow> uuid \<Rightarrow> discussion \<Rightarrow> db \<Rightarrow> exn + unit \<times> db" where
  "update_draft dto editor post s =
     bindE (case ud_tagIds dto of
              None \<Rightarrow> Inr ()
            | Some ids \<Rightarrow> bindE (active_tags (new_set ids) s) (\<lambda>_. Inr ())) (\<lambda>_.
     let draft = next_draft dto post s;
         post' = post\<lparr>d_pendingRevision := Some draft, d_contentVersion := d_contentVersion post + 1,
                      d_moderationStatus := Pending, d_moderationNote := ''''\<rparr> in
     bindE (insert_revision (revision_row dto post' (pr_title draft) (pr_content draft) editor)
              (save_discussion post' s)) (\<lambda>s.
     Inr ((), s)))"

definition change_tags :: "uuid list option \<Rightarrow> discussion \<Rightarrow> db \<Rightarrow> exn + db" where
  "change_tags tagIds post s =
     (case tagIds of
        None \<Rightarrow> Inr s
      | Some ids \<Rightarrow>
          bindE (active_tags ids s) (\<lambda>ts.
          let old = map t_id (tags_of (d_id post) s);
              s1 = tagCounts (filter (\<lambda>t. t \<notin> set ids) old) (-1) s;
              s2 = tagCounts (filter (\<lambda>t. t \<notin> set old) (map t_id ts)) 1 s1 in
          Inr (replace_tags (d_id post) (map t_id ts) s2)))"

definition edited_fields :: "update_discussion_dto \<Rightarrow> discussion \<Rightarrow> discussion" where
  "edited_fields dto post =
     post\<lparr>d_title := or_else (ud_title dto) (d_title post),
          d_content := or_else (ud_content dto) (d_content post),
          d_isAnonymous := or_else (ud_isAnonymous dto) (d_isAnonymous post)\<rparr>"

text \<open>A content change publishes a new version and revokes what was accepted.\<close>

definition new_version :: "bool \<Rightarrow> discussion \<Rightarrow> discussion" where
  "new_version requiresApproval post =
     post\<lparr>d_contentVersion := d_contentVersion post + 1, d_moderationStatus := Pending,
          d_visibility := (if requiresApproval \<or> d_visibility post \<noteq> Visible then Held else Visible),
          d_pendingRevision := None, d_moderationNote := '''',
          d_status := (if d_acceptedAnswerId post \<noteq> None \<or> d_acceptedCommentId post \<noteq> None
                       then Open else d_status post),
          d_acceptedAnswerId := None, d_acceptedCommentId := None\<rparr>"

definition update_direct ::
  "env \<Rightarrow> update_discussion_dto \<Rightarrow> uuid \<Rightarrow> bool \<Rightarrow> discussion \<Rightarrow> db \<Rightarrow> exn + unit \<times> db" where
  "update_direct e dto editor requiresApproval post s =
     bindE (change_tags (map_option new_set (ud_tagIds dto)) post s) (\<lambda>s.
     let edited = edited_fields dto post in
     bindE (if content_changed post dto
            then
              (let post' = new_version requiresApproval edited in
               bindE (insert_revision
                        (revision_row dto post' (d_title post') (d_content post') editor) s) (\<lambda>s.
               Inr (save_discussion post'
                     (if d_acceptedAnswerId post \<noteq> None
                      then revoke_acceptances e (d_id post) editor ''question_edited'' s else s))))
            else Inr (save_discussion edited s)) (\<lambda>s.
     Inr ((), case ud_mediaIds dto of None \<Rightarrow> s | Some ids \<Rightarrow> attach (d_id post) ids s)))"

definition update_discussion_body ::
  "env \<Rightarrow> update_discussion_dto \<Rightarrow> uuid \<Rightarrow> discussion \<Rightarrow> posting_context option \<Rightarrow> db \<Rightarrow>
   exn + unit \<times> db" where
  "update_discussion_body e dto editor post policy s =
     (let requiresApproval = (case policy of None \<Rightarrow> False | Some pc \<Rightarrow> pc_requiresApproval pc) in
      bindE (guardE (d_pendingRevision post = None \<or> ud_expectedVersion dto \<noteq> None)
               (Conflict ''Discussion changed; reload'')) (\<lambda>_.
      bindE (guardE (ud_expectedVersion dto = None \<or> ud_expectedVersion dto = Some (d_contentVersion post))
               (Conflict ''Discussion changed; reload'')) (\<lambda>_.
      if content_changed post dto \<and> (requiresApproval \<or> d_pendingRevision post \<noteq> None) \<and>
         d_visibility post = Visible
      then update_draft dto editor post s
      else update_direct e dto editor requiresApproval post s)))"

definition update_discussion ::
  "env \<Rightarrow> uuid \<Rightarrow> gateway_user \<Rightarrow> update_discussion_dto \<Rightarrow> db \<Rightarrow> (exn + post_view) \<times> db" where
  "update_discussion e i u dto s =
     then_find e i u
       (case bindE (authenticated u) (\<lambda>editor.
             bindE (validate_media e (or_else (ud_mediaIds dto) []) (uid u)) (\<lambda>_.
             bindE (lockPost i s) (\<lambda>post.
             bindE (requireManager (d_authorId post) u) (\<lambda>_.
             bindE (requireOpen post) (\<lambda>_.
             Inr (editor, post)))))) of
          Inl ex \<Rightarrow> (Inl ex, s)
        | Inr (editor, post) \<Rightarrow>
            with_gate e (d_roomId post) \<lparr>uid = Some (d_authorId post), urole = urole u\<rparr>
              (update_discussion_body e dto editor post) s)"

section \<open>Deleting a post\<close>

definition remove_discussion ::
  "env \<Rightarrow> uuid \<Rightarrow> gateway_user \<Rightarrow> db \<Rightarrow> (exn + unit) \<times> db" where
  "remove_discussion e i u s =
     transaction s
       (bindE (authenticated u) (\<lambda>_.
        bindE (lockPost i s) (\<lambda>post.
        bindE (requireManager (d_authorId post) u) (\<lambda>_.
        let ts = map t_id (tags_of i s) in
        bindE (event e 0 ''content.deleted''
                 [(''entityType'', JStr ''discussion''), (''entityId'', JStr i),
                  (''roomId'', case d_roomId post of None \<Rightarrow> JNull | Some r \<Rightarrow> JStr r)]
                 (save_discussion (post\<lparr>d_deletedAt := Some (now e)\<rparr>) s)) (\<lambda>s.
        Inr ((), tagCounts ts (-1) s))))))"

section \<open>The accepted comment and the status\<close>

definition requireQuestionOwner :: "discussion \<Rightarrow> gateway_user \<Rightarrow> exn + unit" where
  "requireQuestionOwner post u =
     bindE (guardE (d_postType post = Question)
              (BadRequest ''Only questions can have accepted answers'')) (\<lambda>_.
     guardE (Some (d_authorId post) = uid u) (Forbidden ''Only the question author can accept answers''))"

definition accept_comment_body ::
  "env \<Rightarrow> uuid \<Rightarrow> gateway_user \<Rightarrow> uuid \<Rightarrow> db \<Rightarrow> exn + unit \<times> db" where
  "accept_comment_body e i u commentId s =
     bindE (authenticated u) (\<lambda>_.
     bindE (lockPost i s) (\<lambda>post.
     bindE (requireApproved post) (\<lambda>_.
     bindE (requireQuestionOwner post u) (\<lambda>_.
     bindE (requireOpen post) (\<lambda>_.
     bindE (someE (find_comment commentId s) (NotFound ''Answer not found'')) (\<lambda>c.
     bindE (guardE (c_discussionId c = i \<and> c_parentCommentId c = None)
              (BadRequest ''Only a root answer in this question can be accepted'')) (\<lambda>_.
     bindE (guardE (c_authorId c \<noteq> d_authorId post) (BadRequest ''You cannot accept your own answer'')) (\<lambda>_.
     if d_acceptedCommentId post = Some (c_id c) then Inr ((), s)
     else
       bindE (event e 0 ''answer.accepted''
                [(''discussionId'', JStr i), (''commentId'', JStr (c_id c)),
                 (''recipientId'', JStr (c_authorId c))]
                (save_discussion (post\<lparr>d_acceptedCommentId := Some (c_id c), d_status := Solved\<rparr>) s)) (\<lambda>s.
       Inr ((), s))))))))))"

definition accept_comment ::
  "env \<Rightarrow> uuid \<Rightarrow> gateway_user \<Rightarrow> uuid \<Rightarrow> db \<Rightarrow> (exn + post_view) \<times> db" where
  "accept_comment e i u commentId s =
     then_find e i u (transaction s (accept_comment_body e i u commentId s))"

definition remove_accepted_comment ::
  "env \<Rightarrow> uuid \<Rightarrow> gateway_user \<Rightarrow> db \<Rightarrow> (exn + post_view) \<times> db" where
  "remove_accepted_comment e i u s =
     then_find e i u
       (transaction s
         (bindE (authenticated u) (\<lambda>_.
          bindE (lockPost i s) (\<lambda>post.
          bindE (requireQuestionOwner post u) (\<lambda>_.
          bindE (requireOpen post) (\<lambda>_.
          Inr ((), save_discussion (post\<lparr>d_acceptedCommentId := None, d_status := Open\<rparr>) s)))))))"

definition set_status ::
  "env \<Rightarrow> uuid \<Rightarrow> gateway_user \<Rightarrow> post_status \<Rightarrow> db \<Rightarrow> (exn + post_view) \<times> db" where
  "set_status e i u status s =
     then_find e i u
       (transaction s
         (bindE (authenticated u) (\<lambda>_.
          bindE (guardE (status \<in> set [Open, Closed])
                   (BadRequest ''Use accept answer to solve a question'')) (\<lambda>_.
          bindE (guardE (staff u)
                   (Forbidden ''Only moderators can close or reopen discussions'')) (\<lambda>_.
          bindE (lockPost i s) (\<lambda>post.
          Inr ((), save_discussion
                     (post\<lparr>d_status :=
                        (if status = Open \<and> d_acceptedCommentId post \<noteq> None then Solved else status)\<rparr>)
                     s)))))))"

section \<open>Listing posts\<close>

datatype sort_by = Newest | Oldest | MostVotes | MostComments

record filter_discussion_dto =
  fd_page :: "nat option"
  fd_limit :: "nat option"
  fd_roomId :: "uuid option"
  fd_postType :: "post_type option"
  fd_status :: "post_status option"
  fd_tag :: "string option"
  fd_authorId :: "uuid option"
  fd_sort :: "sort_by option"
  fd_search :: "string option"

record 'a page =
  pg_data :: "'a list"
  pg_page :: nat
  pg_limit :: nat
  pg_totalItems :: nat
  pg_totalPages :: nat

definition tag_slugs :: "string \<Rightarrow> string list" where
  "tag_slugs tag = filter (\<lambda>w. w \<noteq> '''') (map trim (split_on CHR '','' tag))"

text \<open>A stable sort with the greatest key first.\<close>

definition sort_desc :: "('a \<Rightarrow> 'k::linorder) \<Rightarrow> 'a list \<Rightarrow> 'a list" where
  "sort_desc f xs = rev (sort_key f (rev xs))"

definition paginate :: "nat \<Rightarrow> nat \<Rightarrow> 'a list \<Rightarrow> 'a list" where
  "paginate page limit xs = take limit (drop ((page - 1) * limit) xs)"

definition page_count :: "nat \<Rightarrow> nat \<Rightarrow> nat" where
  "page_count n limit = (n + limit - 1) div limit"

text \<open>The two access conditions of the query.\<close>

definition listed_to :: "gateway_user \<Rightarrow> db \<Rightarrow> discussion \<Rightarrow> bool" where
  "listed_to u s d =
     (staff u \<or>
      ((approved (d_moderationStatus d) (d_visibility d) \<or> Some (d_authorId d) = uid u) \<and>
       (d_roomId d = None \<or> Some (d_authorId d) = uid u \<or>
        \<not> exists_where (\<lambda>r. Some (r_id r) = d_roomId d \<and> r_visibility r = PRIVATE) (rooms s) \<or>
        exists_where (\<lambda>m. Some (m_roomId m) = d_roomId d \<and> Some (m_userId m) = uid u \<and>
          m_status m = Active) (memberships s))))"

text \<open>\<open>ilike\<close> is the pattern match of the database on the title.\<close>

definition matches_filter ::
  "(string \<Rightarrow> string \<Rightarrow> bool) \<Rightarrow> filter_discussion_dto \<Rightarrow> db \<Rightarrow> discussion \<Rightarrow> bool" where
  "matches_filter ilike flt s d =
     ((fd_postType flt = None \<or> fd_postType flt = Some (d_postType d)) \<and>
      (truthy (fd_roomId flt) = None \<or> fd_roomId flt = d_roomId d) \<and>
      (fd_status flt = None \<or> fd_status flt = Some (d_status d)) \<and>
      (truthy (fd_authorId flt) = None \<or> (fd_authorId flt = Some (d_authorId d) \<and> \<not> d_isAnonymous d)) \<and>
      (case truthy (fd_search flt) of None \<Rightarrow> True | Some q \<Rightarrow> ilike (d_title d) (''%'' @ q @ ''%'')) \<and>
      (case truthy (fd_tag flt) of
         None \<Rightarrow> True
       | Some tag \<Rightarrow>
           tag_slugs tag = [] \<or>
           exists_where (\<lambda>t. (d_id d, t_id t) \<in> set (discussionTags s) \<and> t_slug t \<in> set (tag_slugs tag))
             (tags s)))"

definition order_posts :: "sort_by option \<Rightarrow> discussion list \<Rightarrow> discussion list" where
  "order_posts sortBy ds =
     (let byId = sort_desc d_id ds;
          byTime = (if sortBy = Some Oldest then sort_key d_createdAt byId else sort_desc d_createdAt byId)
      in case sortBy of
          Some MostVotes \<Rightarrow> sort_desc (\<lambda>d. d_upvoteCount d - d_downvoteCount d) byTime
        | Some MostComments \<Rightarrow> sort_desc d_commentCount byTime
        | _ \<Rightarrow> byTime)"

definition findAll ::
  "env \<Rightarrow> (string \<Rightarrow> string \<Rightarrow> bool) \<Rightarrow> filter_discussion_dto \<Rightarrow> gateway_user \<Rightarrow> db \<Rightarrow>
   post_body presented page" where
  "findAll e ilike flt u s =
     (let page = or_else (fd_page flt) 1;
          limit = or_else (fd_limit flt) 20;
          found = order_posts (fd_sort flt)
            (filter (\<lambda>d. d_live d \<and> listed_to u s d \<and> matches_filter ilike flt s d) (discussions s)) in
      \<lparr>pg_data = present_many e OnDiscussion u s (map (post_item s) (paginate page limit found)),
       pg_page = page, pg_limit = limit, pg_totalItems = length found,
       pg_totalPages = page_count (length found) limit\<rparr>)"

end
