(* ===== verification/Answers.thy ===== *)
theory Answers
  imports Discussions
begin

text \<open>
  \<open>answers/answers.service.ts\<close>: answers to questions, their revisions, and the accepted answer of
  a question, recorded both in the question and in the history of acceptances.
\<close>

record create_answer_dto =
  na_content :: string
  na_isAnonymous :: "bool option"

record update_answer_dto =
  ua_content :: string
  ua_expectedVersion :: nat
  ua_revisionType :: revision_type

record accept_answer_dto =
  aa_answerId :: uuid
  aa_expectedQuestionVersion :: nat
  aa_expectedAnswerVersion :: nat

section \<open>Helpers of the service\<close>

definition canAccept :: "discussion \<Rightarrow> gateway_user \<Rightarrow> bool" where
  "canAccept question u =
     (truthy (uid u) \<noteq> None \<and> (Some (d_authorId question) = uid u \<or> admin u))"

text \<open>Returns the question as it is after the revocation.\<close>

definition revokeAcceptance ::
  "env \<Rightarrow> discussion \<Rightarrow> uuid \<Rightarrow> string \<Rightarrow> db \<Rightarrow> discussion \<times> db" where
  "revokeAcceptance e question actor reason s =
     (if d_acceptedAnswerId question = None then (question, s)
      else
        (let question' = question\<lparr>d_acceptedAnswerId := None, d_status := Open\<rparr> in
         (question', save_discussion question' (revoke_acceptances e (d_id question) actor reason s))))"

definition lockAnswerAndQuestion :: "uuid \<Rightarrow> db \<Rightarrow> exn + answer \<times> discussion" where
  "lockAnswerAndQuestion i s =
     bindE (someE (find_answer i s) (NotFound ''Answer not found'')) (\<lambda>existing.
     bindE (lockPost (a_discussionId existing) s) (\<lambda>question.
     bindE (someE (find_answer i s) (NotFound ''Answer not found'')) (\<lambda>a.
     Inr (a, question))))"

definition ar_key :: "answer_revision \<Rightarrow> uuid \<times> nat" where
  "ar_key r = (ar_answerId r, ar_contentVersion r)"

definition insert_answer_revision :: "answer_revision \<Rightarrow> db \<Rightarrow> exn + db" where
  "insert_answer_revision r s =
     bindE (insert_row ar_key ''answer_revisions_answer_id_content_version_key'' r
              (answerRevisions s)) (\<lambda>rs.
     Inr (s\<lparr>answerRevisions := rs\<rparr>))"

text \<open>The partial unique index \<open>one_active_answer_acceptance\<close>.\<close>

definition insert_acceptance :: "answer_acceptance \<Rightarrow> db \<Rightarrow> exn + db" where
  "insert_acceptance x s =
     (if exists_where (ac_active (ac_discussionId x)) (answerAcceptances s)
      then Inl (UniqueViolation ''one_active_answer_acceptance'')
      else Inr (s\<lparr>answerAcceptances := answerAcceptances s @ [x]\<rparr>))"

definition find_answer_one :: "uuid \<Rightarrow> db \<Rightarrow> exn + answer" where
  "find_answer_one i s = someE (find_answer i s) (NotFound ''Answer not found'')"

section \<open>Answering\<close>

definition new_answer :: "env \<Rightarrow> uuid \<Rightarrow> uuid \<Rightarrow> create_answer_dto \<Rightarrow> answer" where
  "new_answer e discussionId authorId dto =
     \<lparr>a_id = fresh e 0, a_discussionId = discussionId, a_authorId = authorId,
      a_content = na_content dto, a_isAnonymous = or_else (na_isAnonymous dto) False,
      a_contentVersion = 1, a_moderationStatus = Approved, a_visibility = Visible,
      a_upvoteCount = 0, a_downvoteCount = 0, a_createdAt = now e, a_deletedAt = None\<rparr>"

definition first_answer_revision :: "answer \<Rightarrow> uuid \<Rightarrow> answer_revision" where
  "first_answer_revision a author =
     \<lparr>ar_answerId = a_id a, ar_contentVersion = 1, ar_content = a_content a,
      ar_revisionType = Semantic, ar_editedBy = author\<rparr>"

definition answer_created_payload :: "discussion \<Rightarrow> answer \<Rightarrow> (string \<times> json) list" where
  "answer_created_payload question a =
     [(''recipientId'', JStr (d_authorId question)),
      (''actorId'', if a_isAnonymous a then JNull else JStr (a_authorId a)),
      (''answerId'', JStr (a_id a)), (''discussionId'', JStr (a_discussionId a)),
      (''discussionTitle'', JStr (d_title question))]"

definition create_answer_body ::
  "env \<Rightarrow> uuid \<Rightarrow> create_answer_dto \<Rightarrow> uuid \<Rightarrow> discussion \<Rightarrow> posting_context option \<Rightarrow> db \<Rightarrow>
   exn + uuid \<times> db" where
  "create_answer_body e discussionId dto authorId question policy s =
     (let a = new_answer e discussionId authorId dto in
      bindE (insert_row a_id ''answers_pkey'' a (answers s)) (\<lambda>as.
      bindE (insert_answer_revision (first_answer_revision a authorId) (s\<lparr>answers := as\<rparr>)) (\<lambda>s.
      let question' = question\<lparr>d_answerCount := d_answerCount question + 1\<rparr>;
          s = save_discussion question' s in
      bindE (if d_authorId question \<noteq> authorId
             then event e 1 ''answer.created'' (answer_created_payload question a) s
             else Inr s) (\<lambda>s.
      bindE (emit_mentions e 2 (a_content a) authorId
               \<lparr>mc_entityType = ''answer'', mc_entityId = a_id a, mc_discussionId = discussionId,
                mc_discussionTitle = d_title question\<rparr> s) (\<lambda>s.
      Inr (a_id a, s))))))"

definition create_answer ::
  "env \<Rightarrow> uuid \<Rightarrow> create_answer_dto \<Rightarrow> gateway_user \<Rightarrow> db \<Rightarrow> (exn + answer) \<times> db" where
  "create_answer e discussionId dto u s =
     (case (case bindE (authenticated u) (\<lambda>authorId.
                 bindE (lockPost discussionId s) (\<lambda>question.
                 bindE (requireOpen question) (\<lambda>_.
                 bindE (requireApproved question) (\<lambda>_.
                 bindE (guardE (d_postType question = Question)
                          (BadRequest ''Only questions accept answers'')) (\<lambda>_.
                 Inr (authorId, question)))))) of
              Inl ex \<Rightarrow> (Inl ex, s)
            | Inr (authorId, question) \<Rightarrow>
                with_gate e (d_roomId question) u
                  (create_answer_body e discussionId dto authorId question) s) of
        (Inl ex, t) \<Rightarrow> (Inl ex, t)
      | (Inr i, t) \<Rightarrow> (find_answer_one i t, t))"

definition list_answers ::
  "env \<Rightarrow> uuid \<Rightarrow> gateway_user \<Rightarrow> db \<Rightarrow> exn + (reply_body presented \<times> bool) list" where
  "list_answers e discussionId u s =
     bindE (someE (find_discussion discussionId s) (NotFound ''Question not found'')) (\<lambda>question.
     bindE (requireReadable question u) (\<lambda>_.
     bindE (case d_roomId question of
              None \<Rightarrow> Inr () | Some r \<Rightarrow> bindE (findOne_room r u s) (\<lambda>_. Inr ())) (\<lambda>_.
     let found = sort_key a_createdAt
           (filter (\<lambda>a. a_live a \<and> a_discussionId a = discussionId) (answers s)) in
     Inr (map (\<lambda>a. (a, canAccept question u))
       (present_many e OnAnswer u s (map answer_item found))))))"

section \<open>Editing and deleting an answer\<close>

definition next_answer :: "update_answer_dto \<Rightarrow> answer \<Rightarrow> answer" where
  "next_answer dto a =
     a\<lparr>a_content := ua_content dto, a_contentVersion := a_contentVersion a + 1,
       a_moderationStatus := Approved, a_visibility := Visible\<rparr>"

definition next_answer_revision :: "update_answer_dto \<Rightarrow> answer \<Rightarrow> uuid \<Rightarrow> answer_revision" where
  "next_answer_revision dto a editor =
     \<lparr>ar_answerId = a_id a, ar_contentVersion = a_contentVersion a + 1, ar_content = ua_content dto,
      ar_revisionType = ua_revisionType dto, ar_editedBy = editor\<rparr>"

definition update_answer_body ::
  "env \<Rightarrow> uuid \<Rightarrow> update_answer_dto \<Rightarrow> gateway_user \<Rightarrow> db \<Rightarrow> exn + unit \<times> db" where
  "update_answer_body e i dto u s =
     bindE (authenticated u) (\<lambda>actor.
     bindE (lockAnswerAndQuestion i s) (\<lambda>(a, question).
     bindE (requireManager (a_authorId a) u) (\<lambda>_.
     bindE (requireOpen question) (\<lambda>_.
     bindE (guardE (a_contentVersion a = ua_expectedVersion dto)
              (Conflict ''Answer changed; reload'')) (\<lambda>_.
     if a_content a = ua_content dto then Inr ((), s)
     else
       bindE (insert_answer_revision (next_answer_revision dto a actor)
                (save_answer (next_answer dto a) s)) (\<lambda>s.
       Inr ((), if ua_revisionType dto = Semantic \<and> d_acceptedAnswerId question = Some (a_id a)
                then snd (revokeAcceptance e question actor ''answer_edited'' s) else s)))))))"

definition update_answer ::
  "env \<Rightarrow> uuid \<Rightarrow> update_answer_dto \<Rightarrow> gateway_user \<Rightarrow> db \<Rightarrow> (exn + answer) \<times> db" where
  "update_answer e i dto u s =
     (case transaction s (update_answer_body e i dto u s) of
        (Inl ex, t) \<Rightarrow> (Inl ex, t)
      | (Inr _, t) \<Rightarrow> (find_answer_one i t, t))"

definition removed_answer :: "env \<Rightarrow> answer \<Rightarrow> discussion \<Rightarrow> uuid \<Rightarrow> db \<Rightarrow> db" where
  "removed_answer e a question actor s =
     (let (question1, s1) =
           (if d_acceptedAnswerId question = Some (a_id a)
            then revokeAcceptance e question actor ''answer_deleted'' s else (question, s)) in
      save_discussion (question1\<lparr>d_answerCount := max 0 (d_answerCount question1 - 1)\<rparr>)
        (save_answer (a\<lparr>a_deletedAt := Some (now e)\<rparr>) s1))"

definition remove_answer_body ::
  "env \<Rightarrow> uuid \<Rightarrow> gateway_user \<Rightarrow> db \<Rightarrow> exn + unit \<times> db" where
  "remove_answer_body e i u s =
     bindE (authenticated u) (\<lambda>actor.
     bindE (lockAnswerAndQuestion i s) (\<lambda>(a, question).
     bindE (requireManager (a_authorId a) u) (\<lambda>_.
     bindE (requireOpen question) (\<lambda>_.
     bindE (event e 0 ''content.deleted''
              [(''entityType'', JStr ''answer''), (''entityId'', JStr i),
               (''discussionId'', JStr (d_id question))]
              (removed_answer e a question actor s)) (\<lambda>s.
     Inr ((), s))))))"

definition remove_answer :: "env \<Rightarrow> uuid \<Rightarrow> gateway_user \<Rightarrow> db \<Rightarrow> (exn + unit) \<times> db" where
  "remove_answer e i u s = transaction s (remove_answer_body e i u s)"

section \<open>Accepting an answer\<close>

definition new_acceptance :: "discussion \<Rightarrow> answer \<Rightarrow> uuid \<Rightarrow> answer_acceptance" where
  "new_acceptance q a actor =
     \<lparr>ac_discussionId = d_id q, ac_answerId = a_id a,
      ac_questionVersion = d_contentVersion q, ac_answerVersion = a_contentVersion a,
      ac_acceptedBy = actor, ac_revokedAt = None, ac_revokedBy = None, ac_revokeReason = None\<rparr>"

definition accept_answer_body ::
  "env \<Rightarrow> uuid \<Rightarrow> accept_answer_dto \<Rightarrow> gateway_user \<Rightarrow> db \<Rightarrow> exn + unit \<times> db" where
  "accept_answer_body e discussionId dto u s =
     bindE (authenticated u) (\<lambda>actor.
     bindE (lockPost discussionId s) (\<lambda>question.
     bindE (requireOpen question) (\<lambda>_.
     bindE (guardE (d_postType question = Question)
              (BadRequest ''Only questions can have an accepted answer'')) (\<lambda>_.
     bindE (guardE (canAccept question u)
              (Forbidden ''Only the question author or an admin can accept an answer'')) (\<lambda>_.
     bindE (requireApproved question) (\<lambda>_.
     bindE (someE (find_answer (aa_answerId dto) s)
              (BadRequest ''Answer does not belong to this question'')) (\<lambda>a.
     bindE (guardE (a_discussionId a = d_id question)
              (BadRequest ''Answer does not belong to this question'')) (\<lambda>_.
     bindE (guardE (a_authorId a \<noteq> actor) (BadRequest ''You cannot accept your own answer'')) (\<lambda>_.
     bindE (guardE (d_contentVersion question = aa_expectedQuestionVersion dto \<and>
                    a_contentVersion a = aa_expectedAnswerVersion dto)
              (Conflict ''Question or answer changed; reload'')) (\<lambda>_.
     let revoked = revokeAcceptance e question actor ''replaced'' s in
     bindE (insert_acceptance (new_acceptance question a actor) (snd revoked)) (\<lambda>s.
     bindE (event e 0 ''answer.accepted''
              [(''discussionId'', JStr (d_id question)), (''answerId'', JStr (a_id a)),
               (''answerVersion'', JNum (int (a_contentVersion a))),
               (''recipientId'', JStr (a_authorId a)), (''actorId'', JStr actor),
               (''discussionTitle'', JStr (d_title question))]
              (save_discussion
                 ((fst revoked)\<lparr>d_acceptedAnswerId := Some (a_id a), d_acceptedCommentId := None,
                                d_status := Solved\<rparr>) s)) (\<lambda>s.
     Inr ((), s)))))))))))))"

definition accept_answer ::
  "env \<Rightarrow> uuid \<Rightarrow> accept_answer_dto \<Rightarrow> gateway_user \<Rightarrow> db \<Rightarrow> (exn + answer) \<times> db" where
  "accept_answer e discussionId dto u s =
     (case transaction s (accept_answer_body e discussionId dto u s) of
        (Inl ex, t) \<Rightarrow> (Inl ex, t)
      | (Inr _, t) \<Rightarrow> (find_answer_one (aa_answerId dto) t, t))"

definition remove_acceptance :: "env \<Rightarrow> uuid \<Rightarrow> gateway_user \<Rightarrow> db \<Rightarrow> (exn + unit) \<times> db" where
  "remove_acceptance e discussionId u s =
     transaction s
       (bindE (authenticated u) (\<lambda>actor.
        bindE (lockPost discussionId s) (\<lambda>question.
        bindE (guardE (canAccept question u)
                 (Forbidden ''Only the question author or an admin can revoke acceptance'')) (\<lambda>_.
        Inr ((), snd (revokeAcceptance e question actor ''author_revoked'' s))))))"

end
