(* ===== verification/Comments.thy ===== *)
theory Comments
  imports Discussions
begin

text \<open>
  \<open>comments/comments.service.ts\<close>: threaded comments, with the counter of the post and the comment
  accepted by the author of a question.
\<close>

record create_comment_dto =
  nc_content :: string
  nc_parentCommentId :: "uuid option"
  nc_isAnonymous :: "bool option"

record update_comment_dto =
  uc_content :: "string option"
  uc_isAnonymous :: "bool option"

definition present_comment :: "env \<Rightarrow> gateway_user \<Rightarrow> db \<Rightarrow> comment \<Rightarrow> reply_body presented" where
  "present_comment e u s c = hd (present_many e OnComment u s [comment_item c])"

section \<open>Commenting\<close>

text \<open>\<open>content.replace(/\s+/g, ' ').slice(0, 180)\<close>\<close>

fun squeeze :: "bool \<Rightarrow> string \<Rightarrow> string" where
  "squeeze inSpace [] = []"
| "squeeze inSpace (c # cs) =
     (if is_space c then (if inSpace then squeeze True cs else CHR '' '' # squeeze True cs)
      else c # squeeze False cs)"

definition comment_preview :: "string \<Rightarrow> string" where
  "comment_preview content = take 180 (squeeze False content)"

definition new_comment ::
  "env \<Rightarrow> uuid \<Rightarrow> uuid \<Rightarrow> uuid option \<Rightarrow> create_comment_dto \<Rightarrow> comment" where
  "new_comment e discussionId authorId parentId dto =
     \<lparr>c_id = fresh e 0, c_discussionId = discussionId, c_authorId = authorId,
      c_content = nc_content dto, c_parentCommentId = parentId,
      c_isAnonymous = or_else (nc_isAnonymous dto) False, c_upvoteCount = 0, c_downvoteCount = 0,
      c_moderationStatus = Approved, c_visibility = Visible, c_createdAt = now e,
      c_deletedAt = None\<rparr>"

definition find_parent :: "create_comment_dto \<Rightarrow> uuid \<Rightarrow> db \<Rightarrow> exn + comment option" where
  "find_parent dto discussionId s =
     (case nc_parentCommentId dto of
        None \<Rightarrow> Inr None
      | Some p \<Rightarrow>
          (case find_comment p s of
             None \<Rightarrow> Inl (BadRequest ''Parent comment must exist in this discussion'')
           | Some c \<Rightarrow>
               if c_discussionId c \<noteq> discussionId
               then Inl (BadRequest ''Parent comment must exist in this discussion'')
               else Inr (Some c)))"

definition comment_created_payload :: "discussion \<Rightarrow> comment \<Rightarrow> uuid \<Rightarrow> (string \<times> json) list" where
  "comment_created_payload post c recipientId =
     [(''commentId'', JStr (c_id c)), (''discussionId'', JStr (c_discussionId c)),
      (''discussionTitle'', JStr (d_title post)), (''recipientId'', JStr recipientId),
      (''actorId'', if c_isAnonymous c then JNull else JStr (c_authorId c)),
      (''isAnonymous'', JBool (c_isAnonymous c)),
      (''commentPreview'', JStr (comment_preview (c_content c)))]"

definition create_comment_body ::
  "env \<Rightarrow> uuid \<Rightarrow> create_comment_dto \<Rightarrow> uuid \<Rightarrow> discussion \<Rightarrow> posting_context option \<Rightarrow> db \<Rightarrow>
   exn + comment \<times> db" where
  "create_comment_body e discussionId dto authorId post policy s =
     bindE (find_parent dto discussionId s) (\<lambda>parent.
     let c = new_comment e discussionId authorId (map_option c_id parent) dto;
         recipientId = or_else (map_option c_authorId parent) (d_authorId post) in
     bindE (insert_row c_id ''comments_pkey'' c (comments s)) (\<lambda>cs.
     let s = s\<lparr>comments := cs,
               discussions := update_where (\<lambda>d. d_id d = discussionId)
                 (\<lambda>d. d\<lparr>d_commentCount := d_commentCount d + 1\<rparr>) (discussions s)\<rparr> in
     bindE (if recipientId \<noteq> authorId
            then event e 1 ''comment.created'' (comment_created_payload post c recipientId) s
            else Inr s) (\<lambda>s.
     bindE (emit_mentions e 2 (c_content c) authorId
              \<lparr>mc_entityType = ''comment'', mc_entityId = c_id c, mc_discussionId = discussionId,
               mc_discussionTitle = d_title post\<rparr> s) (\<lambda>s.
     Inr (c, s)))))"

definition create_comment ::
  "env \<Rightarrow> uuid \<Rightarrow> gateway_user \<Rightarrow> create_comment_dto \<Rightarrow> db \<Rightarrow> (exn + reply_body presented) \<times> db" where
  "create_comment e discussionId u dto s =
     (case (case bindE (authenticated u) (\<lambda>authorId.
                 bindE (lockPost discussionId s) (\<lambda>post.
                 bindE (requireOpen post) (\<lambda>_.
                 bindE (requireApproved post) (\<lambda>_.
                 Inr (authorId, post))))) of
              Inl ex \<Rightarrow> (Inl ex, s)
            | Inr (authorId, post) \<Rightarrow>
                with_gate e (d_roomId post) u (create_comment_body e discussionId dto authorId post) s) of
        (Inl ex, t) \<Rightarrow> (Inl ex, t)
      | (Inr c, t) \<Rightarrow> (Inr (present_comment e u t c), t))"

section \<open>Listing comments\<close>

record filter_comment_dto =
  fc_page :: "nat option"
  fc_limit :: "nat option"
  fc_parentCommentId :: "uuid option"
  fc_sort :: "sort_by option"

datatype comment_kind = ReplyKind | AnswerKind | CommentKind

record comment_view =
  cv_item :: "reply_body presented"
  cv_kind :: comment_kind
  cv_replyCount :: nat
  cv_canAccept :: bool
  cv_canVote :: bool
  cv_canManage :: bool

definition comment_view_of ::
  "gateway_user \<Rightarrow> discussion \<Rightarrow> db \<Rightarrow> comment \<Rightarrow> reply_body presented \<Rightarrow> comment_view" where
  "comment_view_of u post s c p =
     \<lparr>cv_item = p,
      cv_kind = (if c_parentCommentId c \<noteq> None then ReplyKind
                 else if d_postType post = Question then AnswerKind else CommentKind),
      cv_replyCount = count_where (\<lambda>child. c_parentCommentId child = Some (c_id c)) (comments s),
      cv_canAccept =
        (c_deletedAt c = None \<and> c_parentCommentId c = None \<and> d_postType post = Question \<and>
         d_status post \<noteq> Closed \<and> uid u = Some (d_authorId post) \<and> Some (c_authorId c) \<noteq> uid u),
      cv_canVote = (p_canVote p \<and> d_status post \<noteq> Closed),
      cv_canManage = (p_canManage p \<and> d_status post \<noteq> Closed)\<rparr>"

definition order_comments :: "sort_by option \<Rightarrow> comment list \<Rightarrow> comment list" where
  "order_comments sortBy cs =
     (let byId = sort_desc c_id cs;
          byTime = (if sortBy = Some Oldest then sort_key c_createdAt byId else sort_desc c_createdAt byId)
      in if sortBy = Some MostVotes then sort_desc (\<lambda>c. c_upvoteCount c - c_downvoteCount c) byTime
         else byTime)"

definition thread :: "uuid \<Rightarrow> uuid option \<Rightarrow> db \<Rightarrow> comment list" where
  "thread discussionId parentId s =
     filter (\<lambda>c. c_discussionId c = discussionId \<and> c_parentCommentId c = parentId \<and>
                 (c_deletedAt c = None \<or>
                  exists_where (\<lambda>child. c_parentCommentId child = Some (c_id c)) (comments s)))
       (comments s)"

definition findAllByDiscussion ::
  "env \<Rightarrow> uuid \<Rightarrow> filter_comment_dto \<Rightarrow> gateway_user \<Rightarrow> db \<Rightarrow> exn + comment_view page" where
  "findAllByDiscussion e discussionId flt u s =
     bindE (readable_post discussionId u s) (\<lambda>post.
     let page = or_else (fc_page flt) 1;
         limit = or_else (fc_limit flt) 20;
         parentId = truthy (fc_parentCommentId flt) in
     bindE (guardE (case parentId of None \<Rightarrow> True
                    | Some p \<Rightarrow> exists_where (\<lambda>c. c_id c = p \<and> c_discussionId c = discussionId) (comments s))
              (NotFound ''Parent comment not found'')) (\<lambda>_.
     let found = order_comments (fc_sort flt) (thread discussionId parentId s);
         shown = paginate page limit found in
     Inr \<lparr>pg_data = map2 (comment_view_of u post s) shown
            (present_many e OnComment u s (map comment_item shown)),
          pg_page = page, pg_limit = limit, pg_totalItems = length found,
          pg_totalPages = page_count (length found) limit\<rparr>))"

section \<open>Editing and deleting a comment\<close>

definition clear_accepted_comment :: "uuid \<Rightarrow> discussion \<Rightarrow> discussion" where
  "clear_accepted_comment i post =
     (if d_acceptedCommentId post = Some i
      then post\<lparr>d_acceptedCommentId := None, d_status := Open\<rparr> else post)"

definition update_comment_body ::
  "env \<Rightarrow> uuid \<Rightarrow> gateway_user \<Rightarrow> update_comment_dto \<Rightarrow> db \<Rightarrow> exn + comment \<times> db" where
  "update_comment_body e i u dto s =
     bindE (authenticated u) (\<lambda>_.
     bindE (lockCommentPost i s) (\<lambda>(post, c).
     bindE (requireOpen post) (\<lambda>_.
     bindE (requireManager (c_authorId c) u) (\<lambda>_.
     let changed = (uc_content dto \<noteq> None \<and> uc_content dto \<noteq> Some (c_content c));
         c1 = (if changed
               then c\<lparr>c_content := or_else (uc_content dto) '''', c_moderationStatus := Approved,
                      c_visibility := Visible\<rparr> else c);
         s1 = (if changed then save_discussion (clear_accepted_comment i post) s else s);
         c2 = c1\<lparr>c_isAnonymous := or_else (uc_isAnonymous dto) (c_isAnonymous c1)\<rparr> in
     Inr (c2, save_comment c2 s1)))))"

definition update_comment ::
  "env \<Rightarrow> uuid \<Rightarrow> gateway_user \<Rightarrow> update_comment_dto \<Rightarrow> db \<Rightarrow> (exn + reply_body presented) \<times> db" where
  "update_comment e i u dto s =
     (case transaction s (update_comment_body e i u dto s) of
        (Inl ex, t) \<Rightarrow> (Inl ex, t)
      | (Inr c, t) \<Rightarrow> (Inr (present_comment e u t c), t))"

definition remove_comment :: "env \<Rightarrow> uuid \<Rightarrow> gateway_user \<Rightarrow> db \<Rightarrow> (exn + unit) \<times> db" where
  "remove_comment e i u s =
     transaction s
       (bindE (authenticated u) (\<lambda>_.
        bindE (lockCommentPost i s) (\<lambda>(post, c).
        bindE (requireOpen post) (\<lambda>_.
        bindE (requireManager (c_authorId c) u) (\<lambda>_.
        Inr ((),
             save_discussion
               (clear_accepted_comment i (post\<lparr>d_commentCount := max 0 (d_commentCount post - 1)\<rparr>))
               (save_comment (c\<lparr>c_deletedAt := Some (now e)\<rparr>) s)))))))"

end
