(* ===== verification/Votes.thy ===== *)
theory Votes
  imports Answers Comments
begin

text \<open>
  \<open>votes/votes.service.ts\<close>: one vote per user and target, with the counters of the target
  recomputed from the votes in the same transaction.
\<close>

record vote_result =
  vr_voteType :: "vote_type option"
  vr_upvoteCount :: int
  vr_downvoteCount :: int

definition v_key :: "vote \<Rightarrow> uuid \<times> target_type \<times> uuid" where
  "v_key v = (v_userId v, v_targetType v, v_targetId v)"

text \<open>The post that is locked and the author of the target.\<close>

definition lock_target :: "target_type \<Rightarrow> uuid \<Rightarrow> db \<Rightarrow> exn + discussion \<times> uuid" where
  "lock_target ty i s =
     (case ty of
        OnDiscussion \<Rightarrow> bindE (lockPost i s) (\<lambda>post. Inr (post, d_authorId post))
      | OnComment \<Rightarrow> bindE (lockCommentPost i s) (\<lambda>(post, c). Inr (post, c_authorId c))
      | OnAnswer \<Rightarrow>
          bindE (someE (find_answer i s) (BadRequest ''Answer not found'')) (\<lambda>found.
          bindE (lockPost (a_discussionId found) s) (\<lambda>post.
          bindE (someE (find_answer i s) (BadRequest ''Answer not found'')) (\<lambda>locked.
          Inr (post, a_authorId locked)))))"

definition count_votes :: "vote_type \<Rightarrow> target_type \<Rightarrow> uuid \<Rightarrow> vote list \<Rightarrow> int" where
  "count_votes vt ty i vs =
     int (count_where (\<lambda>v. v_targetType v = ty \<and> v_targetId v = i \<and> v_voteType v = vt) vs)"

text \<open>\<open>save({...existing, ...key, voteType})\<close> or \<open>delete(key)\<close>.\<close>

definition write_vote :: "uuid \<Rightarrow> target_type \<Rightarrow> uuid \<Rightarrow> vote_type option \<Rightarrow> vote list \<Rightarrow> vote list" where
  "write_vote userId ty i voteType vs =
     (case voteType of
        None \<Rightarrow> delete_where (\<lambda>v. v_key v = (userId, ty, i)) vs
      | Some vt \<Rightarrow>
          let v = \<lparr>v_userId = userId, v_targetType = ty, v_targetId = i, v_voteType = vt\<rparr> in
          if exists_where (\<lambda>v. v_key v = (userId, ty, i)) vs then put v_key v vs else vs @ [v])"

definition set_counters :: "target_type \<Rightarrow> uuid \<Rightarrow> int \<Rightarrow> int \<Rightarrow> db \<Rightarrow> db" where
  "set_counters ty i up down s =
     (case ty of
        OnDiscussion \<Rightarrow> s\<lparr>discussions := update_where (\<lambda>d. d_id d = i)
            (\<lambda>d. d\<lparr>d_upvoteCount := up, d_downvoteCount := down\<rparr>) (discussions s)\<rparr>
      | OnComment \<Rightarrow> s\<lparr>comments := update_where (\<lambda>c. c_id c = i)
            (\<lambda>c. c\<lparr>c_upvoteCount := up, c_downvoteCount := down\<rparr>) (comments s)\<rparr>
      | OnAnswer \<Rightarrow> s\<lparr>answers := update_where (\<lambda>a. a_id a = i)
            (\<lambda>a. a\<lparr>a_upvoteCount := up, a_downvoteCount := down\<rparr>) (answers s)\<rparr>)"

definition set_vote_body ::
  "target_type \<Rightarrow> uuid \<Rightarrow> gateway_user \<Rightarrow> vote_type option \<Rightarrow> db \<Rightarrow> exn + vote_result \<times> db" where
  "set_vote_body ty i u voteType s =
     bindE (authenticated u) (\<lambda>userId.
     bindE (lock_target ty i s) (\<lambda>(post, authorId).
     bindE (requireOpen post) (\<lambda>_.
     bindE (requireApproved post) (\<lambda>_.
     bindE (case d_roomId post of
              None \<Rightarrow> Inr () | Some r \<Rightarrow> bindE (findOne_room r u s) (\<lambda>_. Inr ())) (\<lambda>_.
     bindE (guardE (authorId \<noteq> userId) (BadRequest ''You cannot vote on your own content'')) (\<lambda>_.
     let vs = write_vote userId ty i voteType (votes s);
         up = count_votes Upvote ty i vs;
         down = count_votes Downvote ty i vs in
     Inr (\<lparr>vr_voteType = voteType, vr_upvoteCount = up, vr_downvoteCount = down\<rparr>,
          set_counters ty i up down (s\<lparr>votes := vs\<rparr>))))))))"

definition set_vote ::
  "target_type \<Rightarrow> uuid \<Rightarrow> gateway_user \<Rightarrow> vote_type option \<Rightarrow> db \<Rightarrow> (exn + vote_result) \<times> db" where
  "set_vote ty i u voteType s = transaction s (set_vote_body ty i u voteType s)"

definition cast_vote ::
  "target_type \<Rightarrow> uuid \<Rightarrow> gateway_user \<Rightarrow> vote_type \<Rightarrow> db \<Rightarrow> (exn + vote_result) \<times> db" where
  "cast_vote ty i u voteType s = set_vote ty i u (Some voteType) s"

definition remove_vote ::
  "target_type \<Rightarrow> uuid \<Rightarrow> gateway_user \<Rightarrow> db \<Rightarrow> (exn + vote_result) \<times> db" where
  "remove_vote ty i u s = set_vote ty i u None s"

end
