(* ===== verification/Moderation.thy ===== *)
theory Moderation
  imports Discussions
begin

text \<open>
  \<open>moderation/moderation.service.ts\<close>: the queue of posts that await approval and the review that
  publishes, rejects or hides a post or the pending revision of a published post.
\<close>

record review_dto =
  rd_decision :: decision
  rd_expectedModerationStatus :: "moderation_status option"
  rd_expectedVersion :: nat
  rd_expectedContent :: string
  rd_note :: "string option"

section \<open>Scope\<close>

text \<open>The rooms a reviewer may review, or None when there is no restriction.\<close>

definition review_scope :: "env \<Rightarrow> gateway_user \<Rightarrow> db \<Rightarrow> exn + uuid list option" where
  "review_scope e u s =
     bindE (authenticated u) (\<lambda>_.
     if staff u then Inr None
     else bindE (managedRoomIds e u s) (\<lambda>ids.
       if ids = [] then Inl (Forbidden ''Room manager role required'') else Inr (Some ids)))"

definition in_scope :: "uuid list option \<Rightarrow> uuid option \<Rightarrow> bool" where
  "in_scope scope roomId =
     (case scope of None \<Rightarrow> True
      | Some ids \<Rightarrow> (case roomId of None \<Rightarrow> False | Some r \<Rightarrow> r \<in> set ids))"

section \<open>The queue\<close>

record queue_entry =
  qe_id :: uuid
  qe_title :: string
  qe_content :: string
  qe_contentVersion :: nat
  qe_author :: "profile option"
  qe_authorId :: "uuid option"
  qe_isAnonymous :: bool
  qe_roomId :: "uuid option"
  qe_roomName :: string
  qe_moderationStatus :: moderation_status
  qe_visibility :: visibility
  qe_isRevision :: bool
  qe_moderationNote :: string
  qe_mediaIds :: "uuid list"
  qe_reviews :: "moderation_review list"

text \<open>The text under review: the pending revision of a post that awaits approval.\<close>

definition reviewed_title :: "discussion \<Rightarrow> string" where
  "reviewed_title post =
     (if d_moderationStatus post = Pending
      then or_else (map_option pr_title (d_pendingRevision post)) (d_title post) else d_title post)"

definition reviewed_content :: "discussion \<Rightarrow> string" where
  "reviewed_content post =
     (if d_moderationStatus post = Pending
      then or_else (map_option pr_content (d_pendingRevision post)) (d_content post)
      else d_content post)"

definition queue_entry_of :: "db \<Rightarrow> discussion \<Rightarrow> post_body presented \<Rightarrow> queue_entry" where
  "queue_entry_of s post p =
     \<lparr>qe_id = d_id post, qe_title = reviewed_title post, qe_content = reviewed_content post,
      qe_contentVersion = d_contentVersion post, qe_author = p_author p,
      qe_authorId = (if d_isAnonymous post then None else Some (d_authorId post)),
      qe_isAnonymous = d_isAnonymous post, qe_roomId = d_roomId post,
      qe_roomName =
        or_else (map_option r_name (find_by (\<lambda>r. Some (r_id r) = d_roomId post) (rooms s))) ''Room cu'',
      qe_moderationStatus = d_moderationStatus post, qe_visibility = d_visibility post,
      qe_isRevision = (d_moderationStatus post = Pending \<and> d_pendingRevision post \<noteq> None),
      qe_moderationNote = d_moderationNote post,
      qe_mediaIds =
        (case (d_moderationStatus post, d_pendingRevision post) of
           (Pending, Some draft) \<Rightarrow> pr_mediaIds draft
         | _ \<Rightarrow> map dm_mediaId (media_of (d_id post) s)),
      qe_reviews =
        sort_desc mr_createdAt (filter (\<lambda>r. mr_entityId r = d_id post) (moderationReviews s))\<rparr>"

text \<open>
  \<open>ilike\<close> is the match of the search on title, proposed title and author; the order is that of the
  update time stamps, the argument \<open>order\<close> (they are not modelled).
\<close>

definition in_queue ::
  "(discussion \<Rightarrow> bool) \<Rightarrow> uuid list option \<Rightarrow> uuid option \<Rightarrow> discussion \<Rightarrow> bool" where
  "in_queue found scope roomId post =
     (d_live post \<and> in_scope scope (d_roomId post) \<and>
      (truthy roomId = None \<or> d_roomId post = roomId) \<and> found post)"

definition queue_of ::
  "env \<Rightarrow> (string \<Rightarrow> discussion \<Rightarrow> bool) \<Rightarrow> (moderation_status \<Rightarrow> discussion list \<Rightarrow> discussion list) \<Rightarrow>
   gateway_user \<Rightarrow> moderation_status \<Rightarrow> nat \<Rightarrow> uuid option \<Rightarrow> string \<Rightarrow> db \<Rightarrow>
   exn + queue_entry page \<times> (moderation_status \<Rightarrow> nat)" where
  "queue_of e ilike order u status page roomId search s =
     bindE (review_scope e u s) (\<lambda>scope.
     let q = trim search;
         found = (\<lambda>post. q = '''' \<or> ilike (''%'' @ take 200 q @ ''%'') post);
         counts = (\<lambda>st. count_where (\<lambda>d. in_queue found scope roomId d \<and> d_moderationStatus d = st)
                     (discussions s));
         selected = order status
           (filter (\<lambda>d. in_queue found scope roomId d \<and> d_moderationStatus d = status) (discussions s));
         posts = paginate page 30 selected in
     Inr (\<lparr>pg_data = map2 (queue_entry_of s) posts
             (present_many e OnDiscussion u s (map (post_item s) posts)),
           pg_page = page, pg_limit = 30, pg_totalItems = length selected,
           pg_totalPages = page_count (length selected) 30\<rparr>, counts))"

section \<open>The review\<close>

definition requires_note :: "review_dto \<Rightarrow> exn + unit" where
  "requires_note dto =
     guardE (rd_decision dto = Allow \<or> trim (or_else (rd_note dto) '''') \<noteq> '''')
       (BadRequest ''Vui long nhap ly do xu ly'')"

text \<open>The proposal a review decides on.\<close>

definition draft_of :: "discussion \<Rightarrow> pending_revision option" where
  "draft_of post = (if d_moderationStatus post = Pending then d_pendingRevision post else None)"

definition unchanged_since :: "review_dto \<Rightarrow> discussion \<Rightarrow> bool" where
  "unchanged_since dto post =
     (d_moderationStatus post = or_else (rd_expectedModerationStatus dto) Pending \<and>
      d_contentVersion post = rd_expectedVersion dto \<and>
      reviewed_content post = rd_expectedContent dto)"

text \<open>Counts follow the change of tags, one tag at a time.\<close>

definition retag_counts :: "uuid list \<Rightarrow> uuid list \<Rightarrow> db \<Rightarrow> db" where
  "retag_counts old newIds s =
     s\<lparr>tags :=
         fold (\<lambda>t ts.
             let delta = of_bool (t \<in> set newIds) - of_bool (t \<in> set old) :: int in
             if delta \<noteq> 0 then bump_usage delta t ts else ts)
           (sort (new_set (old @ newIds))) (tags s)\<rparr>"

definition publish_draft :: "discussion \<Rightarrow> pending_revision \<Rightarrow> db \<Rightarrow> exn + discussion \<times> db" where
  "publish_draft post draft s =
     (let found = filter (\<lambda>t. t_id t \<in> set (pr_tagIds draft)) (tags s) in
      bindE (guardE (length found = length (pr_tagIds draft) \<and> \<not> list_ex (\<lambda>t. t_status t \<noteq> TagActive) found)
               (BadRequest ''The chu de khong con kha dung'')) (\<lambda>_.
      let old = map t_id (tags_of (d_id post) s) in
      Inr (post\<lparr>d_title := pr_title draft, d_content := pr_content draft,
                d_isAnonymous := pr_isAnonymous draft, d_pendingRevision := None\<rparr>,
           attach (d_id post) (pr_mediaIds draft)
             (replace_tags (d_id post) (map t_id found) (retag_counts old (pr_tagIds draft) s)))))"

definition decide :: "env \<Rightarrow> review_dto \<Rightarrow> discussion \<Rightarrow> db \<Rightarrow> exn + discussion \<times> db" where
  "decide e dto post s =
     (let draft = draft_of post in
      if rd_decision dto = Allow
      then
        bindE (validate_media e
                 (case draft of None \<Rightarrow> map dm_mediaId (media_of (d_id post) s)
                  | Some d \<Rightarrow> pr_mediaIds d) None) (\<lambda>_.
        bindE (case draft of None \<Rightarrow> Inr (post, s) | Some d \<Rightarrow> publish_draft post d s) (\<lambda>(post, s).
        Inr (post\<lparr>d_moderationStatus := Approved, d_visibility := Visible\<rparr>, s)))
      else if draft \<noteq> None \<and> d_visibility post = Visible
      then Inr (post\<lparr>d_moderationStatus := Approved\<rparr>, s)
      else Inr (post\<lparr>d_moderationStatus := Hidden, d_visibility := Concealed\<rparr>, s))"

text \<open>A change of the published text or hiding the post revokes what was accepted.\<close>

definition revoke_on_review ::
  "env \<Rightarrow> review_dto \<Rightarrow> uuid \<Rightarrow> bool \<Rightarrow> discussion \<Rightarrow> db \<Rightarrow> discussion \<times> db" where
  "revoke_on_review e dto actor hasDraft post s =
     (if (rd_decision dto = Allow \<and> hasDraft) \<or> d_visibility post = Concealed
      then (post\<lparr>d_acceptedAnswerId := None, d_acceptedCommentId := None,
                 d_status := (if d_status post = Solved then Open else d_status post)\<rparr>,
            revoke_acceptances e (d_id post) actor
              (if hasDraft then ''question_edited'' else ''moderation_hidden'') s)
      else (post, s))"

definition review_body ::
  "env \<Rightarrow> uuid \<Rightarrow> review_dto \<Rightarrow> uuid \<Rightarrow> uuid list option \<Rightarrow> db \<Rightarrow> exn + moderation_status \<times> db" where
  "review_body e i dto actor scope s =
     bindE (lockPost i s) (\<lambda>post.
     bindE (guardE (in_scope scope (d_roomId post)) (Forbidden ''Room manager role required'')) (\<lambda>_.
     bindE (guardE (unchanged_since dto post) (Conflict ''Content changed; reload before reviewing'')) (\<lambda>_.
     bindE (decide e dto post s) (\<lambda>(post1, s1).
     let revoked = revoke_on_review e dto actor (draft_of post \<noteq> None) post1 s1;
         note = trim (or_else (rd_note dto) '''');
         post' = (fst revoked)\<lparr>d_moderationNote := note\<rparr>;
         row = \<lparr>mr_entityId = i, mr_contentVersion = d_contentVersion post',
                mr_decision = rd_decision dto, mr_note = note, mr_reviewerId = actor,
                mr_createdAt = now e\<rparr>;
         s' = save_discussion post' (snd revoked) in
     Inr (d_moderationStatus post', s'\<lparr>moderationReviews := moderationReviews s' @ [row]\<rparr>)))))"

text \<open>\<open>type\<close> is the path parameter; only posts are reviewed.\<close>

definition review ::
  "env \<Rightarrow> string \<Rightarrow> uuid \<Rightarrow> review_dto \<Rightarrow> gateway_user \<Rightarrow> db \<Rightarrow> (exn + moderation_status) \<times> db" where
  "review e type i dto u s =
     (case bindE (authenticated u) (\<lambda>actor.
           bindE (review_scope e u s) (\<lambda>scope.
           bindE (guardE (type = ''discussion'') (BadRequest ''Only posts require approval'')) (\<lambda>_.
           bindE (requires_note dto) (\<lambda>_.
           Inr (actor, scope))))) of
        Inl ex \<Rightarrow> (Inl ex, s)
      | Inr (actor, scope) \<Rightarrow> transaction s (review_body e i dto actor scope s))"

end
