(* ===== verification/Tags.thy ===== *)
theory Tags
  imports Discussions
begin

text \<open>
  \<open>tags/tags.service.ts\<close>: the tags of posts, their slugs, status and merging. Text is Latin-1 here,
  so the accents that \<open>normalize('NFD')\<close> splits off are those of Latin-1.
\<close>

record create_tag_dto =
  ct_name :: string
  ct_slug :: "string option"
  ct_description :: "string option"

record update_tag_dto =
  ut_name :: "string option"
  ut_slug :: "string option"
  ut_description :: "string option"

section \<open>Slugs\<close>

definition slug_char :: "char \<Rightarrow> bool" where
  "slug_char c = (let n = (of_char c :: nat) in (97 \<le> n \<and> n \<le> 122) \<or> (48 \<le> n \<and> n \<le> 57))"

text \<open>\<open>/^[a-z0-9]+(?:-[a-z0-9]+)*$/\<close>: words of slug characters, separated by single dashes.\<close>

definition slug_ok :: "string \<Rightarrow> bool" where
  "slug_ok s = list_all (\<lambda>w. w \<noteq> '''' \<and> list_all slug_char w) (split_on CHR ''-'' s)"

text \<open>The base letter of a decomposed lower case letter of Latin-1.\<close>

definition base_letter :: "char \<Rightarrow> char" where
  "base_letter c =
     (let n = (of_char c :: nat) in
      if 224 \<le> n \<and> n \<le> 229 then CHR ''a'' else if n = 231 then CHR ''c''
      else if 232 \<le> n \<and> n \<le> 235 then CHR ''e'' else if 236 \<le> n \<and> n \<le> 239 then CHR ''i''
      else if n = 241 then CHR ''n'' else if 242 \<le> n \<and> n \<le> 246 then CHR ''o''
      else if 249 \<le> n \<and> n \<le> 252 then CHR ''u'' else if n = 253 \<or> n = 255 then CHR ''y'' else c)"

definition spell_out :: "char \<Rightarrow> string" where
  "spell_out c = (if c = CHR ''+'' then ''p'' else if c = CHR ''#'' then ''sharp'' else [c])"

text \<open>\<open>replace(/[^a-z0-9]+/g, '-')\<close>\<close>

fun dash_runs :: "bool \<Rightarrow> string \<Rightarrow> string" where
  "dash_runs inRun [] = []"
| "dash_runs inRun (c # cs) =
     (if slug_char c then c # dash_runs False cs
      else if inRun then dash_runs True cs else CHR ''-'' # dash_runs True cs)"

definition strip_dashes :: "string \<Rightarrow> string" where
  "strip_dashes s = rev (dropWhile (\<lambda>c. c = CHR ''-'') (rev (dropWhile (\<lambda>c. c = CHR ''-'') s)))"

definition generateSlug :: "string \<Rightarrow> string" where
  "generateSlug text =
     strip_dashes (dash_runs False (map base_letter (concat (map spell_out (to_lower text)))))"

section \<open>Operations\<close>

definition duplicate_of :: "exn \<Rightarrow> exn" where
  "duplicate_of ex =
     (case ex of UniqueViolation _ \<Rightarrow> Conflict ''Tag name or slug already exists'' | _ \<Rightarrow> ex)"

definition map_error :: "(exn \<Rightarrow> exn) \<Rightarrow> (exn + 'a) \<times> db \<Rightarrow> (exn + 'a) \<times> db" where
  "map_error f r = (case r of (Inl ex, s) \<Rightarrow> (Inl (f ex), s) | (Inr a, s) \<Rightarrow> (Inr a, s))"

definition create_tag :: "env \<Rightarrow> create_tag_dto \<Rightarrow> db \<Rightarrow> (exn + tag) \<times> db" where
  "create_tag e dto s =
     map_error duplicate_of (transaction s
       (let slug = or_else (truthy (ct_slug dto)) (generateSlug (ct_name dto));
            t = \<lparr>t_id = fresh e 0, t_name = ct_name dto, t_slug = slug,
                 t_description = ct_description dto, t_usageCount = 0, t_status = TagActive,
                 t_mergedIntoTagId = None, t_createdAt = now e, t_updatedAt = now e\<rparr> in
        bindE (guardE (slug_ok slug) (BadRequest ''Tag name must produce a valid slug'')) (\<lambda>_.
        bindE (insert_row t_id ''tags_pkey'' t (tags s)) (\<lambda>_.
        bindE (insert_row t_name ''tags_name_key'' t (tags s)) (\<lambda>_.
        bindE (insert_row t_slug ''tags_slug_key'' t (tags s)) (\<lambda>ts.
        Inr (t, s\<lparr>tags := ts\<rparr>)))))))"

definition find_tags ::
  "(string \<Rightarrow> string \<Rightarrow> bool) \<Rightarrow> nat option \<Rightarrow> nat option \<Rightarrow> string option \<Rightarrow> bool \<Rightarrow> db \<Rightarrow> tag page" where
  "find_tags ilike pageNo pageSize search includeInactive s =
     (let page = or_else pageNo 1;
          limit = or_else pageSize 20;
          found = sort_desc t_usageCount (sort_desc t_createdAt
            (filter (\<lambda>t. (case truthy search of None \<Rightarrow> True
                          | Some q \<Rightarrow> ilike (t_name t) (''%'' @ q @ ''%'')) \<and>
                         (includeInactive \<or> t_status t = TagActive)) (tags s))) in
      \<lparr>pg_data = paginate page limit found, pg_page = page, pg_limit = limit,
       pg_totalItems = length found, pg_totalPages = page_count (length found) limit\<rparr>)"

definition find_tag_one :: "uuid \<Rightarrow> db \<Rightarrow> exn + tag" where
  "find_tag_one i s = someE (find_tag i s) (NotFound ''Tag not found'')"

definition update_tag :: "env \<Rightarrow> uuid \<Rightarrow> update_tag_dto \<Rightarrow> db \<Rightarrow> (exn + tag) \<times> db" where
  "update_tag e i dto s =
     map_error duplicate_of (transaction s
       (bindE (find_tag_one i s) (\<lambda>t.
        bindE (guardE (ut_slug dto = None \<or> ut_slug dto = Some (t_slug t))
                 (BadRequest ''Tag slugs cannot be changed'')) (\<lambda>_.
        let t' = t\<lparr>t_name := or_else (ut_name dto) (t_name t),
                   t_description := or_opt (ut_description dto) (t_description t)\<rparr> in
        bindE (guardE (\<not> exists_where (\<lambda>x. t_id x \<noteq> i \<and> t_name x = t_name t') (tags s))
                 (UniqueViolation ''tags_name_key'')) (\<lambda>_.
        Inr (t', save_tag t' s))))))"

definition tag_in_use :: "uuid \<Rightarrow> db \<Rightarrow> bool" where
  "tag_in_use i s =
     exists_where (\<lambda>(d, t). t = i \<and> exists_where (\<lambda>x. d_id x = d \<and> d_live x) (discussions s))
       (discussionTags s)"

definition remove_tag :: "uuid \<Rightarrow> db \<Rightarrow> (exn + unit) \<times> db" where
  "remove_tag i s = transaction s
     (bindE (find_tag_one i s) (\<lambda>_.
      bindE (guardE (\<not> tag_in_use i s) (BadRequest ''Cannot delete tag that is currently in use'')) (\<lambda>_.
      Inr ((), s\<lparr>discussionTags := delete_where (\<lambda>(d, t). t = i) (discussionTags s),
                  tags := delete_where (\<lambda>t. t_id t = i) (tags s)\<rparr>))))"

definition set_tag_status :: "env \<Rightarrow> uuid \<Rightarrow> tag_status \<Rightarrow> db \<Rightarrow> (exn + tag) \<times> db" where
  "set_tag_status e i status s = transaction s
     (bindE (find_tag_one i s) (\<lambda>t.
      bindE (guardE (t_status t \<noteq> TagMerged) (BadRequest ''Merged tags cannot be reactivated'')) (\<lambda>_.
      let t' = t\<lparr>t_status := status, t_updatedAt := now e\<rparr> in
      Inr (t', save_tag t' s))))"

text \<open>The join table after the source's posts were moved to the target.\<close>

definition move_links :: "uuid \<Rightarrow> uuid \<Rightarrow> (uuid \<times> uuid) list \<Rightarrow> (uuid \<times> uuid) list" where
  "move_links sourceId targetId links =
     (let copied = map (\<lambda>(d, t). (d, targetId)) (filter (\<lambda>(d, t). t = sourceId) links) in
      delete_where (\<lambda>(d, t). t = sourceId)
        (links @ filter (\<lambda>p. p \<notin> set links) (new_set copied)))"

definition merge_tags :: "env \<Rightarrow> uuid \<Rightarrow> uuid \<Rightarrow> db \<Rightarrow> (exn + tag \<times> tag) \<times> db" where
  "merge_tags e sourceId targetId s = transaction s
     (bindE (guardE (sourceId \<noteq> targetId) (BadRequest ''Cannot merge a tag into itself'')) (\<lambda>_.
      bindE (someE (find_tag sourceId s) (NotFound ''Source or target tag not found'')) (\<lambda>source.
      bindE (someE (find_tag targetId s) (NotFound ''Source or target tag not found'')) (\<lambda>target.
      bindE (guardE (t_status source \<noteq> TagMerged \<and> t_status target = TagActive)
               (BadRequest ''Source must not be merged and target must be active'')) (\<lambda>_.
      let links = move_links sourceId targetId (discussionTags s);
          source' = source\<lparr>t_status := TagMerged, t_mergedIntoTagId := Some targetId,
                           t_usageCount := 0, t_updatedAt := now e\<rparr>;
          target' = target\<lparr>t_usageCount := int (count_where (\<lambda>(d, t). t = targetId) links),
                           t_updatedAt := now e\<rparr> in
      Inr ((source', target'),
           save_tag target' (save_tag source' (s\<lparr>discussionTags := links\<rparr>))))))))"

section \<open>Generated slugs\<close>

text \<open>
  The regular expression as an automaton whose state says whether a word must start: at the
  beginning and after a dash. Without the requirement on the last state it accepts the prefixes.
\<close>

fun accepts :: "bool \<Rightarrow> string \<Rightarrow> bool" where
  "accepts start [] = (\<not> start)"
| "accepts start (c # cs) =
     (if slug_char c then accepts False cs else c = CHR ''-'' \<and> \<not> start \<and> accepts True cs)"

fun accepts_prefix :: "bool \<Rightarrow> string \<Rightarrow> bool" where
  "accepts_prefix start [] = True"
| "accepts_prefix start (c # cs) =
     (if slug_char c then accepts_prefix False cs
      else c = CHR ''-'' \<and> \<not> start \<and> accepts_prefix True cs)"

lemma dash_not_slug [simp]: "\<not> slug_char (CHR ''-'')"
  by (simp add: slug_char_def)

lemma accepts_split:
  "accepts True s \<longleftrightarrow> list_all (\<lambda>w. w \<noteq> '''' \<and> list_all slug_char w) (split_on CHR ''-'' s)"
  "accepts False s \<longleftrightarrow> list_all slug_char (hd (split_on CHR ''-'' s)) \<and>
     list_all (\<lambda>w. w \<noteq> '''' \<and> list_all slug_char w) (tl (split_on CHR ''-'' s))"
proof (induction s)
  case Nil
  {
    case 1 then show ?case by simp
  next
    case 2 then show ?case by simp
  }
next
  case (Cons c cs)
  {
    case 1 then show ?case
      using Cons by (cases "split_on CHR ''-'' cs") auto
  next
    case 2 then show ?case
      using Cons by (cases "split_on CHR ''-'' cs") auto
  }
qed

lemma slug_ok_accepts: "slug_ok s \<longleftrightarrow> accepts True s"
  by (simp add: slug_ok_def accepts_split)

lemma dash_runs_prefix: "accepts_prefix b (dash_runs b s)"
  by (induction b s rule: dash_runs.induct) auto

lemma accepts_prefix_append: "accepts_prefix b (xs @ ys) \<Longrightarrow> accepts_prefix b xs"
  by (induction b xs rule: accepts_prefix.induct) (auto split: if_splits)

lemma accepts_of_prefix:
  "accepts_prefix b xs \<Longrightarrow> xs \<noteq> [] \<Longrightarrow> last xs \<noteq> CHR ''-'' \<Longrightarrow> accepts b xs"
  by (induction b xs rule: accepts_prefix.induct) (auto split: if_splits)

lemma accepts_prefix_start:
  "accepts_prefix b xs \<Longrightarrow> accepts_prefix True (dropWhile (\<lambda>c. c = CHR ''-'') xs)"
proof (induction xs arbitrary: b)
  case (Cons c cs)
  then show ?case by (cases "c = CHR ''-''") (auto split: if_splits)
qed simp

lemma strip_dashes_slug:
  assumes "accepts_prefix b xs" "strip_dashes xs \<noteq> ''''"
  shows "slug_ok (strip_dashes xs)"
proof -
  let ?d = "\<lambda>c. c = CHR ''-''"
  let ?xs = "dropWhile ?d xs"
  have split: "rev (dropWhile ?d (rev ?xs)) @ rev (takeWhile ?d (rev ?xs)) = ?xs"
    unfolding rev_append [symmetric] takeWhile_dropWhile_id by simp
  have "accepts_prefix True (rev (dropWhile ?d (rev ?xs)))"
    by (rule accepts_prefix_append [where ys = "rev (takeWhile ?d (rev ?xs))"])
      (unfold split, rule accepts_prefix_start [OF assms(1)])
  then have "accepts_prefix True (strip_dashes xs)"
    by (simp add: strip_dashes_def)
  moreover have "last (strip_dashes xs) \<noteq> CHR ''-''"
    using assms(2) hd_dropWhile [of ?d "rev ?xs"] by (simp add: strip_dashes_def last_rev)
  ultimately show ?thesis
    using assms(2) by (simp add: slug_ok_accepts accepts_of_prefix)
qed

text \<open>A generated slug is well formed or empty, so only a name without letters and digits is refused.\<close>

lemma generateSlug_ok: "generateSlug name = '''' \<or> slug_ok (generateSlug name)"
  using strip_dashes_slug [OF dash_runs_prefix] by (auto simp: generateSlug_def)

end
