(* ===== verification/Controllers.thy ===== *)
theory Controllers
  imports Votes Moderation Tags
begin

text \<open>
  The controllers of the discussion service and the validation of their requests. A route runs its
  guards, then the pipes (uuid parameters, the DTO of the body), then the service. The enumerations
  of a DTO are types here, so a value outside of them is not a request; an absent and a null optional
  field are both \<open>None\<close>.
\<close>

type_synonym headers = "string \<Rightarrow> string option"

section \<open>Routes\<close>

definition route ::
  "exn + unit \<Rightarrow> (db \<Rightarrow> (exn + 'a) \<times> db) \<Rightarrow> db \<Rightarrow> (exn + 'a) \<times> db" where
  "route admission service s =
     (case admission of Inl ex \<Rightarrow> (Inl ex, s) | Inr _ \<Rightarrow> service s)"

definition all_of :: "(exn + unit) list \<Rightarrow> exn + unit" where
  "all_of checks = foldr (\<lambda>c rest. bindE c (\<lambda>_. rest)) checks (Inr ())"

definition uuid_param :: "env \<Rightarrow> string \<Rightarrow> exn + unit" where
  "uuid_param e i = guardE (valid_uuid e i) (BadRequest ''Validation failed (uuid is expected)'')"

definition body_pipe :: "bool \<Rightarrow> exn + unit" where
  "body_pipe ok = guardE ok (BadRequest ''Validation failed'')"

definition staff_guards :: "headers \<Rightarrow> (exn + unit) list" where
  "staff_guards h = [gateway_auth_guard h, roles_guard [''admin'', ''moderator''] h]"

definition respond :: "('a \<Rightarrow> 'b) \<Rightarrow> (exn + 'a) \<times> db \<Rightarrow> (exn + 'b) \<times> db" where
  "respond f r = (case r of (Inl ex, s) \<Rightarrow> (Inl ex, s) | (Inr a, s) \<Rightarrow> (Inr (f a), s))"

definition read_only :: "(db \<Rightarrow> exn + 'a) \<Rightarrow> db \<Rightarrow> (exn + 'a) \<times> db" where
  "read_only q s = (q s, s)"

section \<open>Validation\<close>

text \<open>\<open>@ValidateIf((_, v) => v !== undefined)\<close> or \<open>@IsOptional()\<close> in front of a condition.\<close>

definition if_present :: "('a \<Rightarrow> bool) \<Rightarrow> 'a option \<Rightarrow> bool" where
  "if_present p x = (case x of None \<Rightarrow> True | Some y \<Rightarrow> p y)"

definition length_within :: "nat \<Rightarrow> nat \<Rightarrow> string \<Rightarrow> bool" where
  "length_within lo hi t = (lo \<le> length t \<and> length t \<le> hi)"

text \<open>\<open>@ArrayMinSize @ArrayMaxSize @ArrayUnique @IsUUID(each)\<close>\<close>

definition uuid_list :: "env \<Rightarrow> nat \<Rightarrow> nat \<Rightarrow> uuid list \<Rightarrow> bool" where
  "uuid_list e lo hi ids =
     (lo \<le> length ids \<and> length ids \<le> hi \<and> distinct ids \<and> list_all (valid_uuid e) ids)"

definition page_ok :: "nat option \<Rightarrow> nat option \<Rightarrow> bool" where
  "page_ok page limit = (if_present (\<lambda>n. 1 \<le> n) page \<and> if_present (\<lambda>n. 1 \<le> n \<and> n \<le> 100) limit)"

definition transform_create_discussion :: "create_discussion_dto \<Rightarrow> create_discussion_dto" where
  "transform_create_discussion dto =
     dto\<lparr>cd_title := trim (cd_title dto), cd_content := trim (cd_content dto)\<rparr>"

definition valid_create_discussion :: "env \<Rightarrow> create_discussion_dto \<Rightarrow> bool" where
  "valid_create_discussion e dto =
     (valid_uuid e (cd_roomId dto) \<and> if_present (valid_uuid e) (cd_curriculumCourseId dto) \<and>
      length_within 10 300 (cd_title dto) \<and> length_within 20 100000 (cd_content dto) \<and>
      if_present (uuid_list e 0 5) (cd_tagIds dto) \<and> if_present (uuid_list e 0 10) (cd_mediaIds dto))"

definition transform_update_discussion :: "update_discussion_dto \<Rightarrow> update_discussion_dto" where
  "transform_update_discussion dto =
     dto\<lparr>ud_title := map_option trim (ud_title dto), ud_content := map_option trim (ud_content dto)\<rparr>"

definition valid_update_discussion :: "env \<Rightarrow> update_discussion_dto \<Rightarrow> bool" where
  "valid_update_discussion e dto =
     (if_present (\<lambda>n. 1 \<le> n) (ud_expectedVersion dto) \<and>
      if_present (length_within 10 300) (ud_title dto) \<and>
      if_present (length_within 20 100000) (ud_content dto) \<and>
      if_present (uuid_list e 1 5) (ud_tagIds dto) \<and> if_present (uuid_list e 0 10) (ud_mediaIds dto))"

definition valid_filter_discussion :: "env \<Rightarrow> filter_discussion_dto \<Rightarrow> bool" where
  "valid_filter_discussion e flt =
     (page_ok (fd_page flt) (fd_limit flt) \<and> if_present (valid_uuid e) (fd_roomId flt) \<and>
      if_present (valid_uuid e) (fd_authorId flt))"

definition valid_status :: "post_status \<Rightarrow> bool" where
  "valid_status st = (st \<in> set [Open, Closed])"

definition transform_create_answer :: "create_answer_dto \<Rightarrow> create_answer_dto" where
  "transform_create_answer dto = dto\<lparr>na_content := trim (na_content dto)\<rparr>"

definition valid_create_answer :: "create_answer_dto \<Rightarrow> bool" where
  "valid_create_answer dto = length_within 20 100000 (na_content dto)"

definition transform_update_answer :: "update_answer_dto \<Rightarrow> update_answer_dto" where
  "transform_update_answer dto = dto\<lparr>ua_content := trim (ua_content dto)\<rparr>"

definition valid_update_answer :: "update_answer_dto \<Rightarrow> bool" where
  "valid_update_answer dto =
     (length_within 20 100000 (ua_content dto) \<and> 1 \<le> ua_expectedVersion dto)"

definition valid_accept_answer :: "env \<Rightarrow> accept_answer_dto \<Rightarrow> bool" where
  "valid_accept_answer e dto =
     (valid_uuid e (aa_answerId dto) \<and> 1 \<le> aa_expectedQuestionVersion dto \<and>
      1 \<le> aa_expectedAnswerVersion dto)"

definition transform_create_comment :: "create_comment_dto \<Rightarrow> create_comment_dto" where
  "transform_create_comment dto = dto\<lparr>nc_content := trim (nc_content dto)\<rparr>"

definition valid_create_comment :: "env \<Rightarrow> create_comment_dto \<Rightarrow> bool" where
  "valid_create_comment e dto =
     (length_within 1 20000 (nc_content dto) \<and> if_present (valid_uuid e) (nc_parentCommentId dto))"

definition transform_update_comment :: "update_comment_dto \<Rightarrow> update_comment_dto" where
  "transform_update_comment dto = dto\<lparr>uc_content := map_option trim (uc_content dto)\<rparr>"

definition valid_update_comment :: "update_comment_dto \<Rightarrow> bool" where
  "valid_update_comment dto = if_present (length_within 1 20000) (uc_content dto)"

definition valid_filter_comment :: "env \<Rightarrow> filter_comment_dto \<Rightarrow> bool" where
  "valid_filter_comment e flt =
     (page_ok (fc_page flt) (fc_limit flt) \<and> if_present (valid_uuid e) (fc_parentCommentId flt) \<and>
      fc_sort flt \<noteq> Some MostComments)"

definition valid_review :: "review_dto \<Rightarrow> bool" where
  "valid_review dto =
     (1 \<le> rd_expectedVersion dto \<and> if_present (\<lambda>n. length n \<le> 2000) (rd_note dto))"

text \<open>
  \<open>toUpperCase\<close> on Latin-1. The capitals of the micro sign and of y with diaeresis lie outside
  Latin-1; both are refused by the pattern of a code either way and stay as they are here.
\<close>

definition upper_char :: "char \<Rightarrow> string" where
  "upper_char c =
     (let n = (of_char c :: nat) in
      if n = 223 then ''SS''
      else if (97 \<le> n \<and> n \<le> 122) \<or> (224 \<le> n \<and> n \<le> 254 \<and> n \<noteq> 247) then [char_of (n - 32)] else [c])"

definition to_upper :: "string \<Rightarrow> string" where
  "to_upper t = concat (map upper_char t)"

definition code_char :: "char \<Rightarrow> bool" where
  "code_char c =
     (let n = (of_char c :: nat) in (65 \<le> n \<and> n \<le> 90) \<or> (48 \<le> n \<and> n \<le> 57) \<or> n = 95 \<or> n = 45)"

definition transform_create_room :: "create_room_dto \<Rightarrow> create_room_dto" where
  "transform_create_room dto =
     dto\<lparr>cr_slug := to_lower (trim (cr_slug dto)), cr_name := trim (cr_name dto)\<rparr>"

definition valid_create_room :: "env \<Rightarrow> create_room_dto \<Rightarrow> bool" where
  "valid_create_room e dto =
     (length_within 3 100 (cr_slug dto) \<and> slug_ok (cr_slug dto) \<and> length_within 3 200 (cr_name dto) \<and>
      if_present (length_within 0 10000) (cr_description dto) \<and>
      if_present (valid_uuid e) (cr_parentRoomId dto) \<and> if_present (valid_uuid e) (cr_majorId dto) \<and>
      if_present (valid_uuid e) (cr_curriculumCourseId dto))"

definition transform_create_rule :: "create_rule_dto \<Rightarrow> create_rule_dto" where
  "transform_create_rule dto = dto\<lparr>ur_ruleCode := to_upper (trim (ur_ruleCode dto))\<rparr>"

definition valid_create_rule :: "create_rule_dto \<Rightarrow> bool" where
  "valid_create_rule dto =
     (length_within 2 40 (ur_ruleCode dto) \<and> list_all code_char (ur_ruleCode dto) \<and>
      length_within 3 160 (ur_title dto) \<and> length_within 10 5000 (ur_description dto))"

definition valid_room_status :: "room_status \<Rightarrow> bool" where
  "valid_room_status st = (st \<in> set [ACTIVE, READ_ONLY, ARCHIVED])"

definition transform_create_tag :: "create_tag_dto \<Rightarrow> create_tag_dto" where
  "transform_create_tag dto = dto\<lparr>ct_name := trim (ct_name dto)\<rparr>"

definition valid_create_tag :: "create_tag_dto \<Rightarrow> bool" where
  "valid_create_tag dto =
     (length_within 1 100 (ct_name dto) \<and>
      if_present (\<lambda>t. length_within 1 120 t \<and> slug_ok t) (ct_slug dto) \<and>
      if_present (length_within 0 2000) (ct_description dto))"

definition transform_update_tag :: "update_tag_dto \<Rightarrow> update_tag_dto" where
  "transform_update_tag dto = dto\<lparr>ut_name := map_option trim (ut_name dto)\<rparr>"

definition valid_update_tag :: "update_tag_dto \<Rightarrow> bool" where
  "valid_update_tag dto =
     (if_present (length_within 1 100) (ut_name dto) \<and>
      if_present (\<lambda>t. length_within 1 120 t \<and> slug_ok t) (ut_slug dto) \<and>
      if_present (length_within 0 2000) (ut_description dto))"

definition valid_reason :: "string \<Rightarrow> bool" where
  "valid_reason = length_within 5 500"

definition valid_merge_tag :: "env \<Rightarrow> uuid \<Rightarrow> string \<Rightarrow> bool" where
  "valid_merge_tag e targetTagId reason = (valid_uuid e targetTagId \<and> length_within 5 500 reason)"

section \<open>The controllers\<close>

text \<open>\<open>discussions.controller.ts\<close>\<close>

datatype discussion_call =
    PatchStatus uuid post_status
  | PostDiscussion create_discussion_dto
  | GetDiscussions filter_discussion_dto
  | GetDiscussion uuid
  | PatchDiscussion uuid update_discussion_dto
  | DeleteDiscussion uuid
  | PatchAccept uuid uuid
  | DeleteAccept uuid

datatype discussion_reply = APost post_view | APage "post_body presented page" | NoPost

definition discussions_controller ::
  "env \<Rightarrow> (string \<Rightarrow> string \<Rightarrow> bool) \<Rightarrow> headers \<Rightarrow> discussion_call \<Rightarrow> db \<Rightarrow>
   (exn + discussion_reply) \<times> db" where
  "discussions_controller e ilike h call =
     (let u = current_user h; login = gateway_auth_guard h in
      case call of
        PatchStatus i st \<Rightarrow>
          route (all_of [login, uuid_param e i, body_pipe (valid_status st)])
            (\<lambda>s. respond APost (set_status e i u st s))
      | PostDiscussion raw \<Rightarrow>
          let dto = transform_create_discussion raw in
          route (all_of [login, body_pipe (valid_create_discussion e dto)])
            (\<lambda>s. respond APost (create_discussion e u dto s))
      | GetDiscussions flt \<Rightarrow>
          route (body_pipe (valid_filter_discussion e flt))
            (read_only (\<lambda>s. Inr (APage (findAll e ilike flt u s))))
      | GetDiscussion i \<Rightarrow>
          route (uuid_param e i) (\<lambda>s. respond APost (findOne e i u True s))
      | PatchDiscussion i raw \<Rightarrow>
          let dto = transform_update_discussion raw in
          route (all_of [login, uuid_param e i, body_pipe (valid_update_discussion e dto)])
            (\<lambda>s. respond APost (update_discussion e i u dto s))
      | DeleteDiscussion i \<Rightarrow>
          route (all_of [login, uuid_param e i]) (\<lambda>s. respond (\<lambda>_. NoPost) (remove_discussion e i u s))
      | PatchAccept i commentId \<Rightarrow>
          route (all_of [login, uuid_param e i, body_pipe (valid_uuid e commentId)])
            (\<lambda>s. respond APost (accept_comment e i u commentId s))
      | DeleteAccept i \<Rightarrow>
          route (all_of [login, uuid_param e i]) (\<lambda>s. respond APost (remove_accepted_comment e i u s)))"

text \<open>\<open>answers.controller.ts\<close>\<close>

datatype answer_call =
    GetAnswers uuid
  | PostAnswer uuid create_answer_dto
  | PatchAnswer uuid update_answer_dto
  | DeleteAnswer uuid
  | PatchAcceptedAnswer uuid accept_answer_dto
  | DeleteAcceptedAnswer uuid

datatype answer_reply = AnAnswer answer | AnswerList "(reply_body presented \<times> bool) list" | NoAnswer

definition answers_controller ::
  "env \<Rightarrow> headers \<Rightarrow> answer_call \<Rightarrow> db \<Rightarrow> (exn + answer_reply) \<times> db" where
  "answers_controller e h call =
     (let u = current_user h; login = gateway_auth_guard h in
      case call of
        GetAnswers i \<Rightarrow> route (uuid_param e i) (\<lambda>s. respond AnswerList (read_only (list_answers e i u) s))
      | PostAnswer i raw \<Rightarrow>
          let dto = transform_create_answer raw in
          route (all_of [login, uuid_param e i, body_pipe (valid_create_answer dto)])
            (\<lambda>s. respond AnAnswer (create_answer e i dto u s))
      | PatchAnswer i raw \<Rightarrow>
          let dto = transform_update_answer raw in
          route (all_of [login, uuid_param e i, body_pipe (valid_update_answer dto)])
            (\<lambda>s. respond AnAnswer (update_answer e i dto u s))
      | DeleteAnswer i \<Rightarrow>
          route (all_of [login, uuid_param e i]) (\<lambda>s. respond (\<lambda>_. NoAnswer) (remove_answer e i u s))
      | PatchAcceptedAnswer i dto \<Rightarrow>
          route (all_of [login, uuid_param e i, body_pipe (valid_accept_answer e dto)])
            (\<lambda>s. respond AnAnswer (accept_answer e i dto u s))
      | DeleteAcceptedAnswer i \<Rightarrow>
          route (all_of [login, uuid_param e i])
            (\<lambda>s. respond (\<lambda>_. NoAnswer) (remove_acceptance e i u s)))"

text \<open>\<open>comments.controller.ts\<close>\<close>

datatype comment_call =
    PostComment uuid create_comment_dto
  | GetComments uuid filter_comment_dto
  | PatchComment uuid update_comment_dto
  | DeleteComment uuid

datatype comment_reply = AComment "reply_body presented" | CommentPage "comment_view page" | NoComment

definition comments_controller ::
  "env \<Rightarrow> headers \<Rightarrow> comment_call \<Rightarrow> db \<Rightarrow> (exn + comment_reply) \<times> db" where
  "comments_controller e h call =
     (let u = current_user h; login = gateway_auth_guard h in
      case call of
        PostComment i raw \<Rightarrow>
          let dto = transform_create_comment raw in
          route (all_of [login, uuid_param e i, body_pipe (valid_create_comment e dto)])
            (\<lambda>s. respond AComment (create_comment e i u dto s))
      | GetComments i flt \<Rightarrow>
          route (all_of [uuid_param e i, body_pipe (valid_filter_comment e flt)])
            (\<lambda>s. respond CommentPage (read_only (findAllByDiscussion e i flt u) s))
      | PatchComment i raw \<Rightarrow>
          let dto = transform_update_comment raw in
          route (all_of [login, uuid_param e i, body_pipe (valid_update_comment dto)])
            (\<lambda>s. respond AComment (update_comment e i u dto s))
      | DeleteComment i \<Rightarrow>
          route (all_of [login, uuid_param e i]) (\<lambda>s. respond (\<lambda>_. NoComment) (remove_comment e i u s)))"

text \<open>\<open>votes.controller.ts\<close>: the same two routes for posts, comments and answers.\<close>

datatype vote_call = PostVote target_type uuid vote_type | DeleteVote target_type uuid

definition votes_controller ::
  "env \<Rightarrow> headers \<Rightarrow> vote_call \<Rightarrow> db \<Rightarrow> (exn + vote_result) \<times> db" where
  "votes_controller e h call =
     (let u = current_user h; login = gateway_auth_guard h in
      case call of
        PostVote ty i v \<Rightarrow> route (all_of [login, uuid_param e i]) (cast_vote ty i u v)
      | DeleteVote ty i \<Rightarrow> route (all_of [login, uuid_param e i]) (remove_vote ty i u))"

text \<open>\<open>moderation.controller.ts\<close>: the guard stands in front of the whole controller.\<close>

datatype moderation_call =
    GetPending moderation_status int "uuid option" string
  | PatchReview string uuid review_dto

datatype moderation_reply =
    AQueue "queue_entry page" "moderation_status \<Rightarrow> nat"
  | Reviewed moderation_status

definition moderation_controller ::
  "env \<Rightarrow> (string \<Rightarrow> discussion \<Rightarrow> bool) \<Rightarrow> (moderation_status \<Rightarrow> discussion list \<Rightarrow> discussion list) \<Rightarrow>
   headers \<Rightarrow> moderation_call \<Rightarrow> db \<Rightarrow> (exn + moderation_reply) \<times> db" where
  "moderation_controller e ilike order h call =
     (let u = current_user h; login = gateway_auth_guard h in
      case call of
        GetPending status page roomId search \<Rightarrow>
          route (all_of [login, guardE (1 \<le> page \<and> page \<le> 100000) (BadRequest ''Invalid page'')])
            (\<lambda>s. respond (\<lambda>(entries, counts). AQueue entries counts)
               (read_only (queue_of e ilike order u status (nat page) roomId search) s))
      | PatchReview type i dto \<Rightarrow>
          route (all_of [login, uuid_param e i, body_pipe (valid_review dto)])
            (\<lambda>s. respond Reviewed (review e type i dto u s)))"

text \<open>\<open>rooms.controller.ts\<close>\<close>

datatype room_call =
    GetRooms "room_type option" "uuid option"
  | GetRoom string
  | PostRoom create_room_dto
  | PostJoin uuid
  | PostRule uuid create_rule_dto
  | PatchMember uuid uuid update_membership_dto
  | GetMembers uuid
  | GetPolicyHistory uuid
  | PatchPolicy uuid update_policy_dto
  | PatchRoomStatus uuid room_status

datatype room_reply =
    RoomList "room_view list"
  | ARoom room "room_academic_binding option"
  | AMembership room_membership
  | ARule room_rule
  | MemberList "(room_membership \<times> string option) list"
  | History "policy_audit list"
  | SavedRoom room

definition rooms_controller ::
  "env \<Rightarrow> (string \<Rightarrow> string) \<Rightarrow> headers \<Rightarrow> room_call \<Rightarrow> db \<Rightarrow> (exn + room_reply) \<times> db" where
  "rooms_controller e collate h call =
     (let u = current_user h; login = gateway_auth_guard h in
      case call of
        GetRooms type parent \<Rightarrow>
          (\<lambda>s. respond RoomList (read_only (list_rooms e collate type parent u) s))
      | GetRoom i \<Rightarrow> (\<lambda>s. respond (\<lambda>(r, b). ARoom r b) (read_only (findOne_room i u) s))
      | PostRoom raw \<Rightarrow>
          let dto = transform_create_room raw in
          route (all_of [login, body_pipe (valid_create_room e dto)])
            (\<lambda>s. respond (\<lambda>(r, b). ARoom r b) (create_room e dto u s))
      | PostJoin i \<Rightarrow>
          route (all_of [login, uuid_param e i]) (\<lambda>s. respond AMembership (join_room e i u s))
      | PostRule i raw \<Rightarrow>
          let dto = transform_create_rule raw in
          route (all_of [login, uuid_param e i, body_pipe (valid_create_rule dto)])
            (\<lambda>s. respond ARule (add_rule e i dto u s))
      | PatchMember i j dto \<Rightarrow>
          route (all_of [login, uuid_param e i, uuid_param e j])
            (\<lambda>s. respond AMembership (update_membership e i j dto u s))
      | GetMembers i \<Rightarrow>
          route (all_of [login, uuid_param e i])
            (\<lambda>s. respond MemberList (read_only (members e i u) s))
      | GetPolicyHistory i \<Rightarrow>
          route (all_of [login, uuid_param e i])
            (\<lambda>s. respond History (read_only (policyHistory e i u) s))
      | PatchPolicy i dto \<Rightarrow>
          route (all_of [login, uuid_param e i]) (\<lambda>s. respond SavedRoom (update_policy e i dto u s))
      | PatchRoomStatus i st \<Rightarrow>
          route (all_of [login, uuid_param e i, body_pipe (valid_room_status st)])
            (\<lambda>s. respond SavedRoom (update_room_status e i st u s)))"

text \<open>\<open>tags.controller.ts\<close>\<close>

datatype tag_call =
    PostTag create_tag_dto
  | GetTags "nat option" "nat option" "string option" bool
  | GetTag uuid
  | PatchTag uuid update_tag_dto
  | DeleteTag uuid
  | PatchDisable uuid string
  | PatchEnable uuid string
  | PostMerge uuid uuid string

datatype tag_reply = ATag tag | TagPage "tag page" | MergedTags tag tag | NoTag

definition tags_controller ::
  "env \<Rightarrow> (string \<Rightarrow> string \<Rightarrow> bool) \<Rightarrow> headers \<Rightarrow> tag_call \<Rightarrow> db \<Rightarrow> (exn + tag_reply) \<times> db" where
  "tags_controller e ilike h call =
     (case call of
        PostTag raw \<Rightarrow>
          let dto = transform_create_tag raw in
          route (all_of (staff_guards h @ [body_pipe (valid_create_tag dto)]))
            (\<lambda>s. respond ATag (create_tag e dto s))
      | GetTags page limit search includeInactive \<Rightarrow>
          route (body_pipe (page_ok page limit))
            (read_only (\<lambda>s. Inr (TagPage (find_tags ilike page limit search includeInactive s))))
      | GetTag i \<Rightarrow> route (uuid_param e i) (\<lambda>s. respond ATag (read_only (find_tag_one i) s))
      | PatchTag i raw \<Rightarrow>
          let dto = transform_update_tag raw in
          route (all_of (staff_guards h @ [uuid_param e i, body_pipe (valid_update_tag dto)]))
            (\<lambda>s. respond ATag (update_tag e i dto s))
      | DeleteTag i \<Rightarrow>
          route (all_of (staff_guards h @ [uuid_param e i])) (\<lambda>s. respond (\<lambda>_. NoTag) (remove_tag i s))
      | PatchDisable i reason \<Rightarrow>
          route (all_of (staff_guards h @ [uuid_param e i, body_pipe (valid_reason reason)]))
            (\<lambda>s. respond ATag (set_tag_status e i TagInactive s))
      | PatchEnable i reason \<Rightarrow>
          route (all_of (staff_guards h @ [uuid_param e i, body_pipe (valid_reason reason)]))
            (\<lambda>s. respond ATag (set_tag_status e i TagActive s))
      | PostMerge i targetTagId reason \<Rightarrow>
          route (all_of (staff_guards h @ [uuid_param e i, body_pipe (valid_merge_tag e targetTagId reason)]))
            (\<lambda>s. respond (\<lambda>(a, b). MergedTags a b) (merge_tags e i targetTagId s)))"

text \<open>\<open>internal-attachments.controller.ts\<close>: how often a file is used, asked by the media service.\<close>

definition attachment_usage :: "uuid \<Rightarrow> db \<Rightarrow> nat" where
  "attachment_usage i s =
     count_where (\<lambda>m. dm_mediaId m = i \<and>
         exists_where (\<lambda>d. d_id d = dm_discussionId m \<and> d_live d) (discussions s)) (discussionMedia s) +
     count_where (\<lambda>d. d_live d \<and>
         (case d_pendingRevision d of None \<Rightarrow> False | Some p \<Rightarrow> i \<in> set (pr_mediaIds p))) (discussions s)"

definition attachments_controller ::
  "env \<Rightarrow> string option \<Rightarrow> headers \<Rightarrow> uuid \<Rightarrow> db \<Rightarrow> (exn + nat) \<times> db" where
  "attachments_controller e expected h i =
     route (uuid_param e i)
       (read_only (\<lambda>s. bindE (internal_token_guard expected (h ''x-internal-token''))
          (\<lambda>_. Inr (attachment_usage i s))))"

end
