(* ===== verification/Effects.thy ===== *)
theory Effects
  imports Votes Moderation Tags
begin

text \<open>
  What every operation on posts, answers, comments, votes and tags does to the database when it
  succeeds, up to the outbox and the memberships: the rows it writes as one explicit update. When
  it fails nothing but a membership is written.
\<close>

section \<open>The content of the database\<close>

definition content_eq :: "db \<Rightarrow> db \<Rightarrow> bool" where
  "content_eq s s' \<longleftrightarrow>
     s'\<lparr>outbox := [], memberships := []\<rparr> = s\<lparr>outbox := [], memberships := []\<rparr>"

lemma content_eq_refl [simp]: "content_eq s s"
  by (simp add: content_eq_def)

lemma content_eq_trans [trans]: "content_eq s t \<Longrightarrow> content_eq t u \<Longrightarrow> content_eq s u"
  by (simp add: content_eq_def)

lemma content_eq_tables:
  assumes "content_eq s s'"
  shows "rooms s' = rooms s" "bindings s' = bindings s"
    "roomRules s' = roomRules s" "policyAudits s' = policyAudits s"
    "discussions s' = discussions s" "discussionTags s' = discussionTags s"
    "discussionMedia s' = discussionMedia s" "discussionRevisions s' = discussionRevisions s"
    "tags s' = tags s" "comments s' = comments s" "answers s' = answers s"
    "answerRevisions s' = answerRevisions s" "answerAcceptances s' = answerAcceptances s"
    "votes s' = votes s" "moderationReviews s' = moderationReviews s"
  using assms by (cases s; cases s'; simp add: content_eq_def)+

lemma same_content_content_eq: "same_content s s' \<Longrightarrow> content_eq s s'"
  by (cases s; cases s'; simp add: content_eq_def same_content_def)

lemma only_memberships_content_eq: "only_memberships s s' \<Longrightarrow> content_eq s s'"
  by (cases s; cases s'; simp add: content_eq_def only_memberships_def)

lemma content_eq_sym: "content_eq s s' \<Longrightarrow> content_eq s' s"
  by (simp add: content_eq_def)

lemmas save_defs = save_discussion_def save_comment_def save_answer_def save_tag_def

text \<open>An update computed from equal content gives equal content.\<close>

lemma content_eq_updates:
  assumes "content_eq s t"
  shows "content_eq (save_discussion d s) (save_discussion d t)"
    "content_eq (save_comment c s) (save_comment c t)"
    "content_eq (save_answer a s) (save_answer a t)"
    "content_eq (revoke_acceptances e i x r s) (revoke_acceptances e i x r t)"
    "content_eq (s\<lparr>discussions := ds\<rparr>) (t\<lparr>discussions := ds\<rparr>)"
    "content_eq (s\<lparr>comments := cs\<rparr>) (t\<lparr>comments := cs\<rparr>)"
    "content_eq (s\<lparr>answers := as\<rparr>) (t\<lparr>answers := as\<rparr>)"
    "content_eq (s\<lparr>discussionRevisions := rs\<rparr>) (t\<lparr>discussionRevisions := rs\<rparr>)"
    "content_eq (s\<lparr>answerRevisions := ars\<rparr>) (t\<lparr>answerRevisions := ars\<rparr>)"
    "content_eq (s\<lparr>answerAcceptances := acs\<rparr>) (t\<lparr>answerAcceptances := acs\<rparr>)"
  using assms
  by (cases s; cases t; simp add: content_eq_def save_defs revoke_acceptances_def)+

lemma content_eq_find:
  assumes "content_eq s t"
  shows "find_discussion i t = find_discussion i s" "find_comment i t = find_comment i s"
    "find_answer i t = find_answer i s" "find_tag i t = find_tag i s" "tags_of i t = tags_of i s"
    "media_of i t = media_of i s" "active_tags ids t = active_tags ids s"
  using content_eq_tables [OF assms]
  by (simp_all add: find_discussion_def find_comment_def find_answer_def find_tag_def tags_of_def
      media_of_def active_tags_def)

section \<open>Gates and reads\<close>

lemma then_find_snd [simp]: "snd (then_find e i u r) = snd r"
  by (cases r; cases "fst r") (auto simp: then_find_def findOne_def split: sum.splits)

lemma with_gate_cases:
  obtains (failed) ex t where "with_gate e r u body s = (Inl ex, t)" "only_memberships s t"
  | (ran) pc t a s' where "only_memberships s t" "body pc t = Inr (a, s')"
      "with_gate e r u body s = (Inr a, s')" "pc = None \<longleftrightarrow> r = None"
      "\<And>x. pc = Some x \<Longrightarrow> fst (assertCanPost e (the r) u s) = Inr x"
proof (cases r)
  case None
  show ?thesis
  proof (cases "body None s")
    case (Inl ex)
    then show ?thesis using None failed by (simp add: with_gate_def)
  next
    case (Inr p)
    then show ?thesis using None ran [of s None] by (cases p) (simp add: with_gate_def)
  qed
next
  case (Some x)
  obtain res t where g: "assertCanPost e x u s = (res, t)" by (cases "assertCanPost e x u s")
  have t: "only_memberships s t" using assertCanPost_only [of s e x u] g by simp
  show ?thesis
  proof (cases res)
    case (Inl ex)
    then show ?thesis using Some g t failed by (simp add: with_gate_def)
  next
    case (Inr pc)
    show ?thesis
    proof (cases "body (Some pc) t")
      case (Inl ex)
      then show ?thesis using Some g t Inr failed by (simp add: with_gate_def)
    next
      case (Inr p)
      with \<open>res = Inr pc\<close> show ?thesis
        using Some g t ran [of t "Some pc"] by (cases p) (simp add: with_gate_def)
    qed
  qed
qed

lemma transaction_cases_snd:
  obtains (failed) ex where "r = Inl ex" "snd (transaction s r) = s"
  | (returned) a s' where "r = Inr (a, s')" "snd (transaction s r) = s'"
  by (cases r) auto

section \<open>Creating a post\<close>

definition created_post ::
  "discussion \<Rightarrow> uuid list \<Rightarrow> uuid list \<Rightarrow> uuid list \<Rightarrow> uuid \<Rightarrow> db \<Rightarrow> db" where
  "created_post post tagIds links mediaIds authorId s =
     (let s1 = tagCounts tagIds 1 (attach (d_id post) mediaIds
           (s\<lparr>discussions := discussions s @ [post],
              discussionTags := discussionTags s @ map (Pair (d_id post)) links\<rparr>)) in
      s1\<lparr>discussionRevisions := discussionRevisions s @
           [\<lparr>dr_discussionId = d_id post, dr_contentVersion = 1, dr_title = d_title post,
             dr_content = d_content post, dr_revisionType = Semantic, dr_editedBy = authorId\<rparr>]\<rparr>)"

lemma create_discussion_body_Inr:
  assumes "create_discussion_body e dto author selected pc t = Inr (i, s')"
  obtains ts where
    "i = fresh e 0" "i \<notin> d_id ` set (discussions t)"
    "active_tags (new_set (or_else (cd_tagIds dto) [])) t = Inr ts"
    "\<And>x. x \<in> set ts \<Longrightarrow> (i, t_id x) \<notin> set (discussionTags t)"
    "(i, 1) \<notin> dr_key ` set (discussionRevisions t)"
    "content_eq (created_post (new_discussion e dto author selected pc)
       (new_set (or_else (cd_tagIds dto) [])) (map t_id ts) (or_else (cd_mediaIds dto) []) author t) s'"
proof -
  let ?post = "new_discussion e dto author selected pc"
  have id: "d_id ?post = fresh e 0" by (simp add: new_discussion_def)
  from assms obtain ts s1 s2 where *:
    "active_tags (new_set (or_else (cd_tagIds dto) [])) t = Inr ts"
    "fresh e 0 \<notin> d_id ` set (discussions t)" "i = fresh e 0"
    "link_tags (fresh e 0) (map t_id ts) (t\<lparr>discussions := discussions t @ [?post]\<rparr>) = Inr s1"
    "insert_revision
               \<lparr>dr_discussionId = fresh e 0, dr_contentVersion = 1, dr_title = d_title ?post,
                dr_content = d_content ?post, dr_revisionType = Semantic, dr_editedBy = author\<rparr>
               (tagCounts (new_set (or_else (cd_tagIds dto) [])) 1
                  (attach (fresh e 0) (or_else (cd_mediaIds dto) []) s1)) = Inr s2"
    "event e 1 ''discussion.created''
               [(''discussionId'', JStr (fresh e 0)), (''title'', JStr (d_title ?post)),
                (''recipientId'', JStr author)] s2 = Inr s'"
    unfolding create_discussion_body_def Let_def returns id by blast
  from *(4) have links: "\<forall>x \<in> set ts. (fresh e 0, t_id x) \<notin> set (discussionTags t)"
    and s1: "s1 = t\<lparr>discussions := discussions t @ [?post],
        discussionTags := discussionTags t @ map (Pair (fresh e 0)) (map t_id ts)\<rparr>"
    by (auto simp: link_tags_def list_ex_iff split: if_splits)
  from *(5) have "(fresh e 0, 1) \<notin> dr_key ` set (discussionRevisions t)"
    and "s2 = created_post ?post (new_set (or_else (cd_tagIds dto) [])) (map t_id ts)
        (or_else (cd_mediaIds dto) []) author t"
    by (auto simp: insert_revision_def returns s1 tagCounts_def attach_def dr_key_def
        created_post_def id Let_def)
  with *(1-3,6) links that show thesis
    by (auto dest!: event_same_content same_content_content_eq)
qed

lemma create_discussion_cases:
  obtains (failed) "content_eq s (snd (create_discussion e u dto s))"
  | (created) author selected pc ts where
      "uid u = Some author" "author \<noteq> ''''"
      "fst (assertCanPost e (cd_roomId dto) u s) = Inr pc"
      "fresh e 0 \<notin> d_id ` set (discussions s)"
      "active_tags (new_set (or_else (cd_tagIds dto) [])) s = Inr ts"
      "\<And>x. x \<in> set ts \<Longrightarrow> (fresh e 0, t_id x) \<notin> set (discussionTags s)"
      "(fresh e 0, 1) \<notin> dr_key ` set (discussionRevisions s)"
      "content_eq (created_post (new_discussion e dto author selected pc)
         (new_set (or_else (cd_tagIds dto) [])) (map t_id ts) (or_else (cd_mediaIds dto) []) author s)
         (snd (create_discussion e u dto s))"
proof (cases "bindE (authenticated u) (\<lambda>authorId.
           bindE (validate_media e (or_else (cd_mediaIds dto) []) (Some authorId)) (\<lambda>_.
           bindE (case cd_curriculumCourseId dto of
                    None \<Rightarrow> Inr None
                  | Some cc \<Rightarrow> bindE (academic_context e cc) (\<lambda>c. Inr (Some c))) (\<lambda>selected.
           Inr (authorId, selected))))")
  case (Inl ex)
  then show ?thesis by (intro failed) (simp add: create_discussion_def)
next
  case (Inr q)
  then obtain author selected where q: "q = (author, selected)" "uid u = Some author" "author \<noteq> ''''"
    by (cases q) (auto simp: returns)
  obtain res t where g: "assertCanPost e (cd_roomId dto) u s = (res, t)"
    by (cases "assertCanPost e (cd_roomId dto) u s")
  have t: "content_eq s t"
    using assertCanPost_only [of s e "cd_roomId dto" u] g only_memberships_content_eq by simp
  show ?thesis
  proof (cases res)
    case (Inl ex)
    then show ?thesis using \<open>_ = Inr q\<close> g t by (intro failed) (simp add: create_discussion_def q(1))
  next
    case (Inr pc)
    note res = this
    show ?thesis
    proof (cases "create_discussion_body e dto author selected pc t")
      case (Inl ex)
      then show ?thesis using \<open>_ = Inr q\<close> g t res by (intro failed) (simp add: create_discussion_def q(1))
    next
      case (Inr p)
      obtain i s' where p: "p = (i, s')" by (cases p)
      have snd: "snd (create_discussion e u dto s) = s'"
        using \<open>_ = Inr q\<close> g res Inr p
        by (auto simp: create_discussion_def q(1) findOne_def split: sum.splits)
      from Inr [unfolded p] obtain ts where body: "i = fresh e 0" "i \<notin> d_id ` set (discussions t)"
        "active_tags (new_set (or_else (cd_tagIds dto) [])) t = Inr ts"
        "\<And>x. x \<in> set ts \<Longrightarrow> (i, t_id x) \<notin> set (discussionTags t)"
        "(i, 1) \<notin> dr_key ` set (discussionRevisions t)"
        "content_eq (created_post (new_discussion e dto author selected pc)
           (new_set (or_else (cd_tagIds dto) [])) (map t_id ts) (or_else (cd_mediaIds dto) []) author t) s'"
        by (rule create_discussion_body_Inr) blast
      have "content_eq (created_post post tagIds links mediaIds author s)
          (created_post post tagIds links mediaIds author t)" for post tagIds links mediaIds
        using t by (cases s; cases t)
          (simp add: content_eq_def created_post_def tagCounts_def attach_def Let_def)
      then have "content_eq (created_post (new_discussion e dto author selected pc)
           (new_set (or_else (cd_tagIds dto) [])) (map t_id ts) (or_else (cd_mediaIds dto) []) author s) s'"
        using body(6) by (rule content_eq_trans)
      then show ?thesis
        using q g res snd body(1-5)
        by (intro created [of author pc ts selected])
          (auto simp: content_eq_tables [OF t] content_eq_find [OF t])
    qed
  qed
qed

section \<open>Editing and deleting a post\<close>

definition drafted_post :: "update_discussion_dto \<Rightarrow> discussion \<Rightarrow> db \<Rightarrow> discussion" where
  "drafted_post dto post s =
     post\<lparr>d_pendingRevision := Some (next_draft dto post s),
          d_contentVersion := d_contentVersion post + 1,
          d_moderationStatus := Pending, d_moderationNote := ''''\<rparr>"

definition draft_revision :: "update_discussion_dto \<Rightarrow> uuid \<Rightarrow> discussion \<Rightarrow> db \<Rightarrow> discussion_revision" where
  "draft_revision dto editor post s =
     revision_row dto (drafted_post dto post s) (pr_title (next_draft dto post s))
       (pr_content (next_draft dto post s)) editor"

definition direct_post :: "update_discussion_dto \<Rightarrow> bool \<Rightarrow> discussion \<Rightarrow> discussion" where
  "direct_post dto req post =
     (if content_changed post dto then new_version req (edited_fields dto post)
      else edited_fields dto post)"

definition direct_revisions ::
  "update_discussion_dto \<Rightarrow> uuid \<Rightarrow> bool \<Rightarrow> discussion \<Rightarrow> discussion_revision list" where
  "direct_revisions dto editor req post =
     (let post' = direct_post dto req post in
      if content_changed post dto
      then [revision_row dto post' (d_title post') (d_content post') editor] else [])"

definition edit_acceptances ::
  "env \<Rightarrow> update_discussion_dto \<Rightarrow> uuid \<Rightarrow> discussion \<Rightarrow> db \<Rightarrow> db" where
  "edit_acceptances e dto editor post s =
     (if content_changed post dto \<and> d_acceptedAnswerId post \<noteq> None
      then revoke_acceptances e (d_id post) editor ''question_edited'' s else s)"

lemma update_draft_Inr:
  assumes "update_draft dto editor post t = Inr (x, s')"
  shows "(d_id post, d_contentVersion post + 1) \<notin> dr_key ` set (discussionRevisions t)"
    "s' = save_discussion (drafted_post dto post t)
       (t\<lparr>discussionRevisions := discussionRevisions t @ [draft_revision dto editor post t]\<rparr>)"
  using assms
  by (auto simp: update_draft_def returns Let_def insert_revision_def save_discussion_def
      drafted_post_def draft_revision_def revision_row_def dr_key_def split: option.splits)

lemma change_tags_None [simp]: "change_tags None post s = Inr s"
  by (simp add: change_tags_def)

lemma change_tags_Inr:
  assumes "change_tags ids post s = Inr s1"
  shows "s1 = s\<lparr>tags := tags s1, discussionTags := discussionTags s1\<rparr>"
  using assms
  by (auto simp: change_tags_def returns Let_def tagCounts_def replace_tags_def split: option.splits)

lemma update_direct_Inr:
  assumes "update_direct e dto editor req post t = Inr (x, s')"
  obtains t1 ms where "change_tags (map_option new_set (ud_tagIds dto)) post t = Inr t1"
    "content_changed post dto \<Longrightarrow>
       (d_id post, d_contentVersion post + 1) \<notin> dr_key ` set (discussionRevisions t)"
    "s' = (save_discussion (direct_post dto req post)
       (edit_acceptances e dto editor post
         (t1\<lparr>discussionRevisions := discussionRevisions t @ direct_revisions dto editor req post\<rparr>)))
       \<lparr>discussionMedia := ms\<rparr>"
proof -
  from assms obtain t1 where t1: "change_tags (map_option new_set (ud_tagIds dto)) post t = Inr t1"
    by (auto simp: update_direct_def returns)
  note eq = change_tags_Inr [OF t1]
  then have revs: "discussionRevisions t1 = discussionRevisions t"
    by (metis db.select_convs(9) db.surjective db.update_convs(7,10))
  show thesis
  proof (cases "content_changed post dto")
    case True
    then show thesis
      using assms t1 revs
      by (intro that [OF t1, of "discussionMedia s'"])
        (auto simp: update_direct_def returns Let_def insert_revision_def revision_row_def dr_key_def
          new_version_def edited_fields_def direct_post_def direct_revisions_def edit_acceptances_def
          save_discussion_def revoke_acceptances_def attach_def split: option.splits)
  next
    case False
    then show thesis
      using assms t1 revs
      by (intro that [OF t1, of "discussionMedia s'"])
        (auto simp: update_direct_def returns Let_def direct_post_def direct_revisions_def
          edit_acceptances_def save_discussion_def attach_def split: option.splits)
  qed
qed

lemma update_discussion_body_Inr:
  assumes "update_discussion_body e dto editor post pc t = Inr (x, s')"
    and "req = (case pc of None \<Rightarrow> False | Some pc \<Rightarrow> pc_requiresApproval pc)"
  shows "d_pendingRevision post = None \<or> ud_expectedVersion dto \<noteq> None"
    "ud_expectedVersion dto = None \<or> ud_expectedVersion dto = Some (d_contentVersion post)"
    "(if content_changed post dto \<and> (req \<or> d_pendingRevision post \<noteq> None) \<and> d_visibility post = Visible
      then update_draft dto editor post t else update_direct e dto editor req post t) = Inr (x, s')"
  using assms(1) unfolding update_discussion_body_def Let_def returns assms(2) [symmetric] by blast+

lemma update_discussion_cases:
  obtains (failed) "content_eq s (snd (update_discussion e i u dto s))"
  | (drafted) t post editor where "content_eq s t" "uid u = Some editor" "find_discussion i t = Some post"
      "d_authorId post = editor \<or> staff u" "d_status post \<noteq> Closed"
      "d_visibility post = Visible" "content_changed post dto"
      "(d_id post, d_contentVersion post + 1) \<notin> dr_key ` set (discussionRevisions t)"
      "content_eq (save_discussion (drafted_post dto post t)
         (t\<lparr>discussionRevisions := discussionRevisions t @ [draft_revision dto editor post t]\<rparr>))
         (snd (update_discussion e i u dto s))"
  | (direct) t post editor req t1 where "content_eq s t" "uid u = Some editor"
      "find_discussion i t = Some post" "d_authorId post = editor \<or> staff u" "d_status post \<noteq> Closed"
      "content_changed post dto \<Longrightarrow> d_visibility post = Visible \<Longrightarrow>
         \<not> req \<and> d_pendingRevision post = None"
      "content_changed post dto \<Longrightarrow>
         (d_id post, d_contentVersion post + 1) \<notin> dr_key ` set (discussionRevisions t)"
      "change_tags (map_option new_set (ud_tagIds dto)) post t = Inr t1"
      "\<exists>ms. content_eq ((save_discussion (direct_post dto req post)
         (edit_acceptances e dto editor post
           (t1\<lparr>discussionRevisions := discussionRevisions t @ direct_revisions dto editor req post\<rparr>)))
         \<lparr>discussionMedia := ms\<rparr>)
         (snd (update_discussion e i u dto s))"
proof (cases "bindE (authenticated u) (\<lambda>editor.
             bindE (validate_media e (or_else (ud_mediaIds dto) []) (uid u)) (\<lambda>_.
             bindE (lockPost i s) (\<lambda>post.
             bindE (requireManager (d_authorId post) u) (\<lambda>_.
             bindE (requireOpen post) (\<lambda>_.
             Inr (editor, post))))))")
  case (Inl ex)
  then show ?thesis by (intro failed) (simp add: update_discussion_def)
next
  case (Inr q)
  obtain editor post where q: "q = (editor, post)" by (cases q)
  from Inr have g: "uid u = Some editor" "find_discussion i s = Some post"
    "d_authorId post = editor \<or> staff u" "d_status post \<noteq> Closed"
    by (auto simp: returns q)
  let ?g = "with_gate e (d_roomId post) \<lparr>uid = Some (d_authorId post), urole = urole u\<rparr>
              (update_discussion_body e dto editor post) s"
  have snd: "snd (update_discussion e i u dto s) = snd ?g"
    using Inr by (simp add: update_discussion_def q)
  show ?thesis
  proof (rule with_gate_cases [of e "d_roomId post"
        "\<lparr>uid = Some (d_authorId post), urole = urole u\<rparr>" "update_discussion_body e dto editor post" s])
    fix ex t assume "?g = (Inl ex, t)" "only_memberships s t"
    then show ?thesis using snd by (intro failed) (simp add: only_memberships_content_eq)
  next
    fix pc t x s'
    assume t: "only_memberships s t" and body: "update_discussion_body e dto editor post pc t = Inr (x, s')"
      and res: "?g = (Inr x, s')"
    have st: "content_eq s t" using t by (rule only_memberships_content_eq)
    define req where "req = (case pc of None \<Rightarrow> False | Some pc \<Rightarrow> pc_requiresApproval pc)"
    note b = update_discussion_body_Inr(3) [OF body req_def]
    show ?thesis
    proof (cases "content_changed post dto \<and> (req \<or> d_pendingRevision post \<noteq> None) \<and>
         d_visibility post = Visible")
      case True
      with b have "update_draft dto editor post t = Inr (x, s')" by simp
      then show ?thesis
        using True g st snd res content_eq_find(1) [OF st] update_draft_Inr [of dto editor post t x s']
        by (intro drafted [of t editor post]) auto
    next
      case False
      with b have "update_direct e dto editor req post t = Inr (x, s')" by (simp split: if_splits)
      then obtain t1 ms where d: "change_tags (map_option new_set (ud_tagIds dto)) post t = Inr t1"
        "content_changed post dto \<Longrightarrow>
           (d_id post, d_contentVersion post + 1) \<notin> dr_key ` set (discussionRevisions t)"
        "s' = (save_discussion (direct_post dto req post)
           (edit_acceptances e dto editor post
             (t1\<lparr>discussionRevisions := discussionRevisions t @ direct_revisions dto editor req post\<rparr>)))
           \<lparr>discussionMedia := ms\<rparr>"
        by (rule update_direct_Inr) blast
      show ?thesis
      proof (rule direct [OF st g(1) _ g(3,4) _ _ d(1)])
        show "find_discussion i t = Some post" using g(2) content_eq_find(1) [OF st] by simp
        show "\<exists>ms. content_eq ((save_discussion (direct_post dto req post)
           (edit_acceptances e dto editor post
             (t1\<lparr>discussionRevisions := discussionRevisions t @ direct_revisions dto editor req post\<rparr>)))
           \<lparr>discussionMedia := ms\<rparr>) (snd (update_discussion e i u dto s))"
          using snd res d(3) by (intro exI [of _ ms]) simp
      qed (use False d(2) in auto)
    qed
  qed
qed

lemma remove_discussion_cases:
  obtains (failed) "content_eq s (snd (remove_discussion e i u s))"
  | (removed) post where "find_discussion i s = Some post" "requireManager (d_authorId post) u = Inr ()"
      "content_eq (tagCounts (map t_id (tags_of i s)) (-1)
         (save_discussion (post\<lparr>d_deletedAt := Some (now e)\<rparr>) s)) (snd (remove_discussion e i u s))"
proof -
  let ?r = "bindE (authenticated u) (\<lambda>_.
        bindE (lockPost i s) (\<lambda>post.
        bindE (requireManager (d_authorId post) u) (\<lambda>_.
        let ts = map t_id (tags_of i s) in
        bindE (event e 0 ''content.deleted''
                 [(''entityType'', JStr ''discussion''), (''entityId'', JStr i),
                  (''roomId'', case d_roomId post of None \<Rightarrow> JNull | Some r \<Rightarrow> JStr r)]
                 (save_discussion (post\<lparr>d_deletedAt := Some (now e)\<rparr>) s)) (\<lambda>s.
        Inr ((), tagCounts ts (-1) s)))))"
  have def: "remove_discussion e i u s = transaction s ?r" by (simp add: remove_discussion_def)
  show thesis
  proof (rule transaction_cases_snd [of ?r s])
    fix ex assume "snd (transaction s ?r) = s"
    then show thesis using failed def by simp
  next
    fix a s' assume r: "?r = Inr (a, s')" and s': "snd (transaction s ?r) = s'"
    from r obtain post s1 where *: "find_discussion i s = Some post"
      "requireManager (d_authorId post) u = Inr ()"
      "same_content (save_discussion (post\<lparr>d_deletedAt := Some (now e)\<rparr>) s) s1"
      "s' = tagCounts (map t_id (tags_of i s)) (-1) s1"
      by (auto simp: bindE_Inr lockPost_Inr Let_def dest!: event_same_content)
    then have "content_eq (tagCounts (map t_id (tags_of i s)) (-1)
         (save_discussion (post\<lparr>d_deletedAt := Some (now e)\<rparr>) s)) s'"
      by (cases s; cases s1) (auto simp: content_eq_def same_content_def tagCounts_def save_discussion_def)
    then show thesis using removed *(1,2) def s' by simp
  qed
qed

section \<open>Accepted comments, status and views\<close>

lemma accept_comment_cases:
  obtains (same) "content_eq s (snd (accept_comment e i u cid s))"
  | (accepted) post c where "find_discussion i s = Some post" "d_postType post = Question"
      "Some (d_authorId post) = uid u" "d_status post \<noteq> Closed"
      "approved (d_moderationStatus post) (d_visibility post)"
      "find_comment cid s = Some c" "c_discussionId c = i" "c_parentCommentId c = None"
      "c_authorId c \<noteq> d_authorId post"
      "content_eq (save_discussion (post\<lparr>d_acceptedCommentId := Some (c_id c), d_status := Solved\<rparr>) s)
         (snd (accept_comment e i u cid s))"
proof (cases "accept_comment_body e i u cid s")
  case (Inl ex)
  then show ?thesis by (intro same) (simp add: accept_comment_def)
next
  case (Inr q)
  obtain s' where s': "accept_comment_body e i u cid s = Inr ((), s')"
    using Inr by (cases q) auto
  then have snd: "snd (accept_comment e i u cid s) = s'" by (simp add: accept_comment_def)
  from s' obtain post c where *: "find_discussion i s = Some post" "d_postType post = Question"
      "Some (d_authorId post) = uid u" "d_status post \<noteq> Closed"
      "approved (d_moderationStatus post) (d_visibility post)"
      "find_comment cid s = Some c" "c_discussionId c = i" "c_parentCommentId c = None"
      "c_authorId c \<noteq> d_authorId post"
      "(if d_acceptedCommentId post = Some (c_id c) then Inr ((), s)
        else
       bindE (event e 0 ''answer.accepted''
                [(''discussionId'', JStr i), (''commentId'', JStr (c_id c)),
                 (''recipientId'', JStr (c_authorId c))]
                (save_discussion (post\<lparr>d_acceptedCommentId := Some (c_id c), d_status := Solved\<rparr>) s)) (\<lambda>s.
       Inr ((), s))) = Inr ((), s')"
    unfolding accept_comment_body_def requireQuestionOwner_def returns by blast
  show ?thesis
  proof (cases "d_acceptedCommentId post = Some (c_id c)")
    case True
    then show ?thesis using *(10) snd by (intro same) simp
  next
    case False
    then have "content_eq (save_discussion (post\<lparr>d_acceptedCommentId := Some (c_id c), d_status := Solved\<rparr>) s) s'"
      using *(10) by (auto simp: bindE_Inr dest!: event_same_content same_content_content_eq)
    then show ?thesis using accepted * snd by metis
  qed
qed

lemma remove_accepted_comment_cases:
  obtains (failed) "content_eq s (snd (remove_accepted_comment e i u s))"
  | (removed) post where "find_discussion i s = Some post" "d_postType post = Question"
      "Some (d_authorId post) = uid u" "d_status post \<noteq> Closed"
      "snd (remove_accepted_comment e i u s) =
         save_discussion (post\<lparr>d_acceptedCommentId := None, d_status := Open\<rparr>) s"
proof -
  let ?r = "bindE (authenticated u) (\<lambda>_.
          bindE (lockPost i s) (\<lambda>post.
          bindE (requireQuestionOwner post u) (\<lambda>_.
          bindE (requireOpen post) (\<lambda>_.
          Inr ((), save_discussion (post\<lparr>d_acceptedCommentId := None, d_status := Open\<rparr>) s)))))"
  have def: "snd (remove_accepted_comment e i u s) = snd (transaction s ?r)"
    by (simp add: remove_accepted_comment_def)
  show thesis
  proof (rule transaction_cases_snd [of ?r s])
    fix ex assume "snd (transaction s ?r) = s"
    then show thesis using failed def by simp
  next
    fix a s' assume "?r = Inr (a, s')" "snd (transaction s ?r) = s'"
    then show thesis using removed unfolding def requireQuestionOwner_def returns by blast
  qed
qed

lemma set_status_cases:
  obtains (failed) "content_eq s (snd (set_status e i u st s))"
  | (set) post where "find_discussion i s = Some post" "staff u" "st = Open \<or> st = Closed"
      "snd (set_status e i u st s) = save_discussion
         (post\<lparr>d_status := (if st = Open \<and> d_acceptedCommentId post \<noteq> None then Solved else st)\<rparr>) s"
proof -
  let ?r = "bindE (authenticated u) (\<lambda>_.
          bindE (guardE (st \<in> set [Open, Closed])
                   (BadRequest ''Use accept answer to solve a question'')) (\<lambda>_.
          bindE (guardE (staff u)
                   (Forbidden ''Only moderators can close or reopen discussions'')) (\<lambda>_.
          bindE (lockPost i s) (\<lambda>post.
          Inr ((), save_discussion
                     (post\<lparr>d_status :=
                        (if st = Open \<and> d_acceptedCommentId post \<noteq> None then Solved else st)\<rparr>)
                     s)))))"
  have def: "snd (set_status e i u st s) = snd (transaction s ?r)" by (simp add: set_status_def)
  show thesis
  proof (rule transaction_cases_snd [of ?r s])
    fix ex assume "snd (transaction s ?r) = s"
    then show thesis using failed def by simp
  next
    fix a s' assume "?r = Inr (a, s')" "snd (transaction s ?r) = s'"
    then show thesis using set unfolding def returns by auto
  qed
qed

definition viewed :: "uuid \<Rightarrow> discussion \<Rightarrow> discussion" where
  "viewed i d = (if d_id d = i then d\<lparr>d_viewCount := d_viewCount d + 1\<rparr> else d)"

lemma findOne_cases:
  obtains (same) "snd (findOne e i u c s) = s"
  | (viewed) "snd (findOne e i u c s) = s\<lparr>discussions := map (viewed i) (discussions s)\<rparr>"
  by (cases "readable_post i u s"; cases c)
    (simp_all add: findOne_def update_where_def viewed_def)

section \<open>Answers\<close>

lemma lockAnswerAndQuestion_Inr [returns]:
  "lockAnswerAndQuestion i s = Inr (a, q) \<longleftrightarrow>
     find_answer i s = Some a \<and> find_discussion (a_discussionId a) s = Some q"
  by (auto simp: lockAnswerAndQuestion_def returns)

lemma insert_answer_revision_Inr [returns]:
  "insert_answer_revision r s = Inr s' \<longleftrightarrow>
     ar_key r \<notin> ar_key ` set (answerRevisions s) \<and> s' = s\<lparr>answerRevisions := answerRevisions s @ [r]\<rparr>"
  by (auto simp: insert_answer_revision_def returns)

lemma create_answer_body_Inr:
  assumes "create_answer_body e di dto author q pc t = Inr (i, s')"
  shows "i = fresh e 0" "i \<notin> a_id ` set (answers t)" "(i, 1) \<notin> ar_key ` set (answerRevisions t)"
    "content_eq (save_discussion (q\<lparr>d_answerCount := d_answerCount q + 1\<rparr>)
       (t\<lparr>answers := answers t @ [new_answer e di author dto],
          answerRevisions := answerRevisions t @
            [first_answer_revision (new_answer e di author dto) author]\<rparr>)) s'"
proof -
  let ?a = "new_answer e di author dto"
  have id: "a_id ?a = fresh e 0" by (simp add: new_answer_def)
  have first: "ar_key (first_answer_revision ?a author) = (fresh e 0, 1)"
    by (simp add: ar_key_def first_answer_revision_def id)
  let ?s = "save_discussion (q\<lparr>d_answerCount := d_answerCount q + 1\<rparr>)
       (t\<lparr>answers := answers t @ [?a],
          answerRevisions := answerRevisions t @ [first_answer_revision ?a author]\<rparr>)"
  from assms obtain s1 where *: "i = fresh e 0" "fresh e 0 \<notin> a_id ` set (answers t)"
    "(fresh e 0, 1) \<notin> ar_key ` set (answerRevisions t)"
    "(if d_authorId q \<noteq> author then event e 1 ''answer.created'' (answer_created_payload q ?a) ?s
      else Inr ?s) = Inr s1"
    "emit_mentions e 2 (a_content ?a) author
        \<lparr>mc_entityType = ''answer'', mc_entityId = fresh e 0, mc_discussionId = di,
         mc_discussionTitle = d_title q\<rparr> s1 = Inr s'"
    unfolding create_answer_body_def Let_def returns id first by auto
  have "content_eq ?s s1"
    using *(4) by (auto split: if_splits dest!: event_same_content same_content_content_eq)
  moreover have "content_eq s1 s'"
    using emit_mentions_same_content [OF *(5)] by (rule same_content_content_eq)
  ultimately show "content_eq ?s s'" by (rule content_eq_trans)
  show "i = fresh e 0" "i \<notin> a_id ` set (answers t)" "(i, 1) \<notin> ar_key ` set (answerRevisions t)"
    using * by simp_all
qed

lemma create_answer_cases:
  obtains (failed) "content_eq s (snd (create_answer e di dto u s))"
  | (created) t author q where "content_eq s t" "uid u = Some author" "find_discussion di t = Some q"
      "d_status q \<noteq> Closed" "approved (d_moderationStatus q) (d_visibility q)" "d_postType q = Question"
      "fresh e 0 \<notin> a_id ` set (answers t)" "(fresh e 0, 1) \<notin> ar_key ` set (answerRevisions t)"
      "content_eq (save_discussion (q\<lparr>d_answerCount := d_answerCount q + 1\<rparr>)
         (t\<lparr>answers := answers t @ [new_answer e di author dto],
            answerRevisions := answerRevisions t @
              [first_answer_revision (new_answer e di author dto) author]\<rparr>))
         (snd (create_answer e di dto u s))"
proof (cases "bindE (authenticated u) (\<lambda>authorId.
                 bindE (lockPost di s) (\<lambda>question.
                 bindE (requireOpen question) (\<lambda>_.
                 bindE (requireApproved question) (\<lambda>_.
                 bindE (guardE (d_postType question = Question)
                          (BadRequest ''Only questions accept answers'')) (\<lambda>_.
                 Inr (authorId, question))))))")
  case (Inl ex)
  then show ?thesis by (intro failed) (simp add: create_answer_def)
next
  case (Inr p)
  obtain author q where p: "p = (author, q)" by (cases p)
  from Inr have g: "uid u = Some author" "find_discussion di s = Some q" "d_status q \<noteq> Closed"
    "approved (d_moderationStatus q) (d_visibility q)" "d_postType q = Question"
    by (auto simp: returns p)
  let ?g = "with_gate e (d_roomId q) u (create_answer_body e di dto author q) s"
  have snd: "snd (create_answer e di dto u s) = snd ?g"
    using Inr by (simp add: create_answer_def p split: prod.splits sum.splits)
  show ?thesis
  proof (rule with_gate_cases [of e "d_roomId q" u "create_answer_body e di dto author q" s])
    fix ex t assume "?g = (Inl ex, t)" "only_memberships s t"
    then show ?thesis using snd by (intro failed) (simp add: only_memberships_content_eq)
  next
    fix pc t i s'
    assume t: "only_memberships s t" and body: "create_answer_body e di dto author q pc t = Inr (i, s')"
      and res: "?g = (Inr i, s')"
    have st: "content_eq s t" using t by (rule only_memberships_content_eq)
    show ?thesis
      using g st snd res content_eq_find(1) [OF st] create_answer_body_Inr [OF body]
      by (intro created [of t author q]) auto
  qed
qed

lemma update_answer_cases:
  obtains (same) "content_eq s (snd (update_answer e i dto u s))"
  | (updated) a q editor where "uid u = Some editor" "find_answer i s = Some a"
      "find_discussion (a_discussionId a) s = Some q" "a_authorId a = editor \<or> staff u"
      "d_status q \<noteq> Closed" "a_contentVersion a = ua_expectedVersion dto"
      "(i, a_contentVersion a + 1) \<notin> ar_key ` set (answerRevisions s)"
      "snd (update_answer e i dto u s) =
         (let s1 = (save_answer (next_answer dto a) s)\<lparr>answerRevisions := answerRevisions s @
              [next_answer_revision dto a editor]\<rparr> in
          if ua_revisionType dto = Semantic \<and> d_acceptedAnswerId q = Some i
          then snd (revokeAcceptance e q editor ''answer_edited'' s1) else s1)"
proof (cases "update_answer_body e i dto u s")
  case (Inl ex)
  then show ?thesis by (intro same) (simp add: update_answer_def)
next
  case (Inr p)
  then obtain s' where s': "update_answer_body e i dto u s = Inr ((), s')" by (cases p) auto
  then have snd: "snd (update_answer e i dto u s) = s'" by (simp add: update_answer_def)
  from s' obtain a q editor where *: "uid u = Some editor" "find_answer i s = Some a"
      "find_discussion (a_discussionId a) s = Some q" "requireManager (a_authorId a) u = Inr ()"
      "d_status q \<noteq> Closed" "a_contentVersion a = ua_expectedVersion dto"
      "(if a_content a = ua_content dto then Inr ((), s)
        else bindE (insert_answer_revision (next_answer_revision dto a editor) (save_answer (next_answer dto a) s)) (\<lambda>s.
          Inr ((), if ua_revisionType dto = Semantic \<and> d_acceptedAnswerId q = Some (a_id a)
                 then snd (revokeAcceptance e q editor ''answer_edited'' s) else s))) = Inr ((), s')"
    unfolding update_answer_body_def
    by (auto simp: bindE_Inr authenticated_Inr lockAnswerAndQuestion_Inr requireOpen_Inr guardE_Inr)
  have id: "a_id a = i" using *(2) answer_repo.found by blast
  show ?thesis
  proof (cases "a_content a = ua_content dto")
    case True
    then show ?thesis using *(7) snd by (intro same) simp
  next
    case False
    then have "(i, a_contentVersion a + 1) \<notin> ar_key ` set (answerRevisions s)"
      and "s' = (let s1 = (save_answer (next_answer dto a) s)\<lparr>answerRevisions := answerRevisions s @
              [next_answer_revision dto a editor]\<rparr> in
          if ua_revisionType dto = Semantic \<and> d_acceptedAnswerId q = Some i
          then snd (revokeAcceptance e q editor ''answer_edited'' s1) else s1)"
      using *(7) by (simp_all add: returns id ar_key_def next_answer_revision_def save_answer_def Let_def)
    then show ?thesis
      using * snd updated [of editor a q] by (auto simp: requireManager_Inr)
  qed
qed

lemma remove_answer_cases:
  obtains (failed) "content_eq s (snd (remove_answer e i u s))"
  | (removed) a q actor where "uid u = Some actor" "find_answer i s = Some a"
      "find_discussion (a_discussionId a) s = Some q" "requireManager (a_authorId a) u = Inr ()"
      "d_status q \<noteq> Closed" "content_eq (removed_answer e a q actor s) (snd (remove_answer e i u s))"
proof (cases "remove_answer_body e i u s")
  case (Inl ex)
  then show ?thesis by (intro failed) (simp add: remove_answer_def)
next
  case (Inr p)
  then obtain s' where s': "remove_answer_body e i u s = Inr ((), s')" by (cases p) auto
  then have snd: "snd (remove_answer e i u s) = s'" by (simp add: remove_answer_def)
  from s' obtain a q actor where "uid u = Some actor" "find_answer i s = Some a"
      "find_discussion (a_discussionId a) s = Some q" "requireManager (a_authorId a) u = Inr ()"
      "d_status q \<noteq> Closed" "content_eq (removed_answer e a q actor s) s'"
    unfolding remove_answer_body_def
    by (auto simp: bindE_Inr authenticated_Inr lockAnswerAndQuestion_Inr requireOpen_Inr
        split: prod.splits dest!: event_same_content same_content_content_eq)
  then show ?thesis using snd removed by metis
qed

definition accepted_answer :: "env \<Rightarrow> answer \<Rightarrow> discussion \<Rightarrow> uuid \<Rightarrow> db \<Rightarrow> db" where
  "accepted_answer e a q actor s =
     (let revoked = revokeAcceptance e q actor ''replaced'' s; s1 = snd revoked in
      save_discussion ((fst revoked)\<lparr>d_acceptedAnswerId := Some (a_id a), d_acceptedCommentId := None,
                                     d_status := Solved\<rparr>)
        (s1\<lparr>answerAcceptances := answerAcceptances s1 @ [new_acceptance q a actor]\<rparr>))"

text \<open>The guards of acceptance, up to the writes.\<close>

definition may_accept :: "uuid \<Rightarrow> accept_answer_dto \<Rightarrow> gateway_user \<Rightarrow> uuid \<Rightarrow> answer \<Rightarrow> discussion \<Rightarrow> db \<Rightarrow> bool" where
  "may_accept di dto u actor a q s \<longleftrightarrow>
     uid u = Some actor \<and> find_discussion di s = Some q \<and> d_status q \<noteq> Closed \<and>
     d_postType q = Question \<and> canAccept q u \<and> approved (d_moderationStatus q) (d_visibility q) \<and>
     find_answer (aa_answerId dto) s = Some a \<and> a_discussionId a = d_id q \<and> a_authorId a \<noteq> actor \<and>
     d_contentVersion q = aa_expectedQuestionVersion dto \<and>
     a_contentVersion a = aa_expectedAnswerVersion dto"

lemma accept_answer_body_Inr:
  assumes "accept_answer_body e di dto u s = Inr (x, s')"
  obtains a q actor where "may_accept di dto u actor a q s"
    "\<not> exists_where (ac_active (d_id q)) (answerAcceptances (snd (revokeAcceptance e q actor ''replaced'' s)))"
    "content_eq (accepted_answer e a q actor s) s'"
proof -
  let ?payload = "\<lambda>a q actor. [(''discussionId'', JStr (d_id q)), (''answerId'', JStr (a_id a)),
               (''answerVersion'', JNum (int (a_contentVersion a))),
               (''recipientId'', JStr (a_authorId a)), (''actorId'', JStr actor),
               (''discussionTitle'', JStr (d_title q))]"
  from assms obtain a q actor s1 where *: "may_accept di dto u actor a q s"
    "insert_acceptance (new_acceptance q a actor) (snd (revokeAcceptance e q actor ''replaced'' s)) = Inr s1"
    "event e 0 ''answer.accepted'' (?payload a q actor) (save_discussion
         ((fst (revokeAcceptance e q actor ''replaced'' s))
            \<lparr>d_acceptedAnswerId := Some (a_id a), d_acceptedCommentId := None, d_status := Solved\<rparr>) s1)
       = Inr s'"
    unfolding accept_answer_body_def Let_def may_accept_def returns by blast
  from *(2) have "\<not> exists_where (ac_active (d_id q))
        (answerAcceptances (snd (revokeAcceptance e q actor ''replaced'' s)))"
    and s1: "s1 = (snd (revokeAcceptance e q actor ''replaced'' s))
      \<lparr>answerAcceptances := answerAcceptances (snd (revokeAcceptance e q actor ''replaced'' s)) @
        [new_acceptance q a actor]\<rparr>"
    by (auto simp: insert_acceptance_def new_acceptance_def split: if_splits)
  moreover have "content_eq (accepted_answer e a q actor s) s'"
    using event_same_content [OF *(3)] s1 same_content_content_eq
    by (simp add: accepted_answer_def Let_def)
  ultimately show thesis using *(1) that by blast
qed

lemma accept_answer_cases:
  obtains (failed) "content_eq s (snd (accept_answer e di dto u s))"
  | (accepted) a q actor where "may_accept di dto u actor a q s"
      "content_eq (accepted_answer e a q actor s) (snd (accept_answer e di dto u s))"
proof (cases "accept_answer_body e di dto u s")
  case (Inl ex)
  then show ?thesis by (intro failed) (simp add: accept_answer_def)
next
  case (Inr p)
  then obtain x s' where s': "accept_answer_body e di dto u s = Inr (x, s')" by (cases p) auto
  then have snd: "snd (accept_answer e di dto u s) = s'" by (simp add: accept_answer_def)
  from s' show ?thesis
  proof (rule accept_answer_body_Inr)
    fix a q actor assume "may_accept di dto u actor a q s" "content_eq (accepted_answer e a q actor s) s'"
    then show ?thesis using accepted snd by simp
  qed
qed

lemma remove_acceptance_cases:
  obtains (failed) "snd (remove_acceptance e di u s) = s"
  | (removed) q actor where "uid u = Some actor" "find_discussion di s = Some q" "canAccept q u"
      "snd (remove_acceptance e di u s) = snd (revokeAcceptance e q actor ''author_revoked'' s)"
proof -
  let ?r = "bindE (authenticated u) (\<lambda>actor.
        bindE (lockPost di s) (\<lambda>question.
        bindE (guardE (canAccept question u)
                 (Forbidden ''Only the question author or an admin can revoke acceptance'')) (\<lambda>_.
        Inr ((), snd (revokeAcceptance e question actor ''author_revoked'' s)))))"
  have def: "remove_acceptance e di u s = transaction s ?r" by (simp add: remove_acceptance_def)
  show thesis
  proof (rule transaction_cases_snd [of ?r s])
    fix ex assume "snd (transaction s ?r) = s"
    then show thesis using failed def by simp
  next
    fix a s' assume "?r = Inr (a, s')" "snd (transaction s ?r) = s'"
    then show thesis using removed unfolding def returns by auto
  qed
qed

section \<open>Comments\<close>

definition commented :: "uuid \<Rightarrow> discussion \<Rightarrow> discussion" where
  "commented i d = (if d_id d = i then d\<lparr>d_commentCount := d_commentCount d + 1\<rparr> else d)"

lemma create_comment_body_Inr:
  assumes "create_comment_body e di dto author post pc t = Inr (c, s')"
  obtains parent where "find_parent dto di t = Inr parent"
    "c = new_comment e di author (map_option c_id parent) dto"
    "fresh e 0 \<notin> c_id ` set (comments t)"
    "content_eq (t\<lparr>comments := comments t @ [c], discussions := map (commented di) (discussions t)\<rparr>) s'"
proof -
  have upd: "update_where (\<lambda>d. d_id d = di) (\<lambda>d. d\<lparr>d_commentCount := d_commentCount d + 1\<rparr>) ds =
      map (commented di) ds" for ds
    by (simp add: update_where_def commented_def)
  from assms obtain parent where parent: "find_parent dto di t = Inr parent"
    unfolding create_comment_body_def by (auto simp: bindE_Inr)
  define c' where "c' = new_comment e di author (map_option c_id parent) dto"
  let ?s = "t\<lparr>comments := comments t @ [c'], discussions := map (commented di) (discussions t)\<rparr>"
  let ?r = "or_else (map_option c_authorId parent) (d_authorId post)"
  have id: "c_id c' = fresh e 0" by (simp add: c'_def new_comment_def)
  from assms obtain s1 where *: "c = c'" "fresh e 0 \<notin> c_id ` set (comments t)"
    "(if ?r \<noteq> author then event e 1 ''comment.created'' (comment_created_payload post c' ?r) ?s
      else Inr ?s) = Inr s1"
    "emit_mentions e 2 (c_content c') author
        \<lparr>mc_entityType = ''comment'', mc_entityId = c_id c', mc_discussionId = di,
         mc_discussionTitle = d_title post\<rparr> s1 = Inr s'"
    unfolding create_comment_body_def Let_def parent bindE_simps c'_def [symmetric] upd returns id
    by auto
  have "content_eq ?s s1"
    using *(3) by (auto split: if_splits dest!: event_same_content same_content_content_eq)
  then have "content_eq ?s s'"
    using same_content_content_eq [OF emit_mentions_same_content [OF *(4)]] by (rule content_eq_trans)
  with * parent that show thesis by (simp add: c'_def)
qed

lemma find_parent_Inr:
  "find_parent dto di s = Inr (Some c) \<Longrightarrow> find_comment (c_id c) s = Some c \<and> c_discussionId c = di"
  using comment_repo.found by (fastforce simp: find_parent_def split: option.splits if_splits)

lemma create_comment_cases:
  obtains (failed) "content_eq s (snd (create_comment e di u dto s))"
  | (created) t author post pid where "content_eq s t" "uid u = Some author"
      "find_discussion di t = Some post" "d_status post \<noteq> Closed"
      "approved (d_moderationStatus post) (d_visibility post)"
      "pid \<noteq> None \<Longrightarrow> \<exists>c. find_comment (the pid) t = Some c \<and> c_discussionId c = di"
      "fresh e 0 \<notin> c_id ` set (comments t)"
      "content_eq (t\<lparr>comments := comments t @ [new_comment e di author pid dto],
                     discussions := map (commented di) (discussions t)\<rparr>)
         (snd (create_comment e di u dto s))"
proof (cases "bindE (authenticated u) (\<lambda>authorId.
                 bindE (lockPost di s) (\<lambda>post.
                 bindE (requireOpen post) (\<lambda>_.
                 bindE (requireApproved post) (\<lambda>_.
                 Inr (authorId, post)))))")
  case (Inl ex)
  then show ?thesis by (intro failed) (simp add: create_comment_def)
next
  case (Inr p)
  obtain author post where p: "p = (author, post)" by (cases p)
  from Inr have g: "uid u = Some author" "find_discussion di s = Some post" "d_status post \<noteq> Closed"
    "approved (d_moderationStatus post) (d_visibility post)"
    by (auto simp: returns p)
  let ?g = "with_gate e (d_roomId post) u (create_comment_body e di dto author post) s"
  have snd: "snd (create_comment e di u dto s) = snd ?g"
    using Inr by (simp add: create_comment_def p split: prod.splits sum.splits)
  show ?thesis
  proof (rule with_gate_cases [of e "d_roomId post" u "create_comment_body e di dto author post" s])
    fix ex t assume "?g = (Inl ex, t)" "only_memberships s t"
    then show ?thesis using snd by (intro failed) (simp add: only_memberships_content_eq)
  next
    fix pc t c s'
    assume t: "only_memberships s t" and body: "create_comment_body e di dto author post pc t = Inr (c, s')"
      and res: "?g = (Inr c, s')"
    have st: "content_eq s t" using t by (rule only_memberships_content_eq)
    from body obtain parent where parent: "find_parent dto di t = Inr parent"
      and c: "c = new_comment e di author (map_option c_id parent) dto"
      and rest: "fresh e 0 \<notin> c_id ` set (comments t)"
        "content_eq (t\<lparr>comments := comments t @ [c], discussions := map (commented di) (discussions t)\<rparr>) s'"
      by (rule create_comment_body_Inr)
    have "\<exists>x. find_comment (the (map_option c_id parent)) t = Some x \<and> c_discussionId x = di"
      if "map_option c_id parent \<noteq> None"
      using that parent find_parent_Inr by (cases parent) auto
    then show ?thesis
      using g st snd res content_eq_find(1) [OF st] rest c
      by (intro created [of t author post "map_option c_id parent"]) auto
  qed
qed

definition edited_comment :: "update_comment_dto \<Rightarrow> comment \<Rightarrow> comment" where
  "edited_comment dto c =
     (let c1 = (if uc_content dto \<noteq> None \<and> uc_content dto \<noteq> Some (c_content c)
        then c\<lparr>c_content := or_else (uc_content dto) '''', c_moderationStatus := Approved,
               c_visibility := Visible\<rparr> else c) in
      c1\<lparr>c_isAnonymous := or_else (uc_isAnonymous dto) (c_isAnonymous c1)\<rparr>)"

lemma update_comment_cases:
  obtains (failed) "snd (update_comment e i u dto s) = s"
  | (updated) post c where "find_comment i s = Some c" "find_discussion (c_discussionId c) s = Some post"
      "requireManager (c_authorId c) u = Inr ()" "d_status post \<noteq> Closed"
      "snd (update_comment e i u dto s) = save_comment (edited_comment dto c)
         (if uc_content dto \<noteq> None \<and> uc_content dto \<noteq> Some (c_content c)
          then save_discussion (clear_accepted_comment i post) s else s)"
proof (cases "update_comment_body e i u dto s")
  case (Inl ex)
  then show ?thesis by (intro failed) (simp add: update_comment_def)
next
  case (Inr p)
  then obtain c' s' where s': "update_comment_body e i u dto s = Inr (c', s')" by (cases p) auto
  then have snd: "snd (update_comment e i u dto s) = s'" by (simp add: update_comment_def)
  from s' obtain post c where "find_comment i s = Some c" "find_discussion (c_discussionId c) s = Some post"
      "requireManager (c_authorId c) u = Inr ()" "d_status post \<noteq> Closed"
      "s' = save_comment (edited_comment dto c)
         (if uc_content dto \<noteq> None \<and> uc_content dto \<noteq> Some (c_content c)
          then save_discussion (clear_accepted_comment i post) s else s)"
    unfolding update_comment_body_def edited_comment_def Let_def
    by (auto simp: bindE_Inr lockCommentPost_Inr requireOpen_Inr split: prod.splits)
  then show ?thesis using snd updated by metis
qed

lemma remove_comment_cases:
  obtains (failed) "snd (remove_comment e i u s) = s"
  | (removed) post c where "find_comment i s = Some c" "find_discussion (c_discussionId c) s = Some post"
      "requireManager (c_authorId c) u = Inr ()" "d_status post \<noteq> Closed"
      "snd (remove_comment e i u s) = save_discussion
         (clear_accepted_comment i (post\<lparr>d_commentCount := max 0 (d_commentCount post - 1)\<rparr>))
         (save_comment (c\<lparr>c_deletedAt := Some (now e)\<rparr>) s)"
proof -
  let ?r = "bindE (authenticated u) (\<lambda>_.
        bindE (lockCommentPost i s) (\<lambda>(post, c).
        bindE (requireOpen post) (\<lambda>_.
        bindE (requireManager (c_authorId c) u) (\<lambda>_.
        Inr ((),
             save_discussion
               (clear_accepted_comment i (post\<lparr>d_commentCount := max 0 (d_commentCount post - 1)\<rparr>))
               (save_comment (c\<lparr>c_deletedAt := Some (now e)\<rparr>) s))))))"
  have def: "remove_comment e i u s = transaction s ?r" by (simp add: remove_comment_def)
  show thesis
  proof (rule transaction_cases_snd [of ?r s])
    fix ex assume "snd (transaction s ?r) = s"
    then show thesis using failed def by simp
  next
    fix a s' assume "?r = Inr (a, s')" "snd (transaction s ?r) = s'"
    then show thesis
      using removed unfolding def
      by (auto simp: bindE_Inr lockCommentPost_Inr requireOpen_Inr split: prod.splits)
  qed
qed

section \<open>Votes\<close>

definition voted :: "target_type \<Rightarrow> uuid \<Rightarrow> uuid \<Rightarrow> vote_type option \<Rightarrow> db \<Rightarrow> db" where
  "voted ty i userId voteType s =
     (let vs = write_vote userId ty i voteType (votes s) in
      set_counters ty i (count_votes Upvote ty i vs) (count_votes Downvote ty i vs) (s\<lparr>votes := vs\<rparr>))"

lemma set_vote_cases:
  obtains (failed) ex where "set_vote ty i u v s = (Inl ex, s)"
  | (voted) userId post author where "uid u = Some userId" "lock_target ty i s = Inr (post, author)"
      "author \<noteq> userId" "d_status post \<noteq> Closed" "approved (d_moderationStatus post) (d_visibility post)"
      "snd (set_vote ty i u v s) = voted ty i userId v s"
      "fst (set_vote ty i u v s) = Inr
         \<lparr>vr_voteType = v,
          vr_upvoteCount = count_votes Upvote ty i (write_vote userId ty i v (votes s)),
          vr_downvoteCount = count_votes Downvote ty i (write_vote userId ty i v (votes s))\<rparr>"
proof (cases "set_vote_body ty i u v s")
  case (Inl ex)
  then show ?thesis using failed by (simp add: set_vote_def)
next
  case (Inr p)
  then obtain x s' where s': "set_vote_body ty i u v s = Inr (x, s')" by (cases p) auto
  then have eq: "set_vote ty i u v s = (Inr x, s')" by (simp add: set_vote_def)
  from s' show ?thesis
    using voted unfolding set_vote_body_def Let_def eq
    by (auto simp: bindE_Inr authenticated_Inr requireOpen_Inr requireApproved_Inr guardE_Inr voted_def
        Let_def split: prod.splits)
qed

section \<open>Reviews\<close>

lemma decide_cases:
  assumes "decide e dto post s = Inr (post1, s1)"
  obtains (approved) "rd_decision dto = Allow" "draft_of post = None"
      "post1 = post\<lparr>d_moderationStatus := Approved, d_visibility := Visible\<rparr>" "s1 = s"
  | (published) draft where "rd_decision dto = Allow" "draft_of post = Some draft"
      "post1 = post\<lparr>d_title := pr_title draft, d_content := pr_content draft,
                d_isAnonymous := pr_isAnonymous draft, d_pendingRevision := None,
                d_moderationStatus := Approved, d_visibility := Visible\<rparr>"
      "length (filter (\<lambda>t. t_id t \<in> set (pr_tagIds draft)) (tags s)) = length (pr_tagIds draft)"
      "s1 = attach (d_id post) (pr_mediaIds draft)
              (replace_tags (d_id post) (map t_id (filter (\<lambda>t. t_id t \<in> set (pr_tagIds draft)) (tags s)))
                (retag_counts (map t_id (tags_of (d_id post) s)) (pr_tagIds draft) s))"
  | (kept) "rd_decision dto \<noteq> Allow" "draft_of post \<noteq> None" "d_visibility post = Visible"
      "post1 = post\<lparr>d_moderationStatus := Approved\<rparr>" "s1 = s"
  | (hidden) "rd_decision dto \<noteq> Allow" "draft_of post = None \<or> d_visibility post \<noteq> Visible"
      "post1 = post\<lparr>d_moderationStatus := Hidden, d_visibility := Concealed\<rparr>" "s1 = s"
proof (cases "rd_decision dto = Allow")
  case True
  show thesis
  proof (cases "draft_of post")
    case None
    then show thesis
      using assms True by (intro approved) (auto simp: decide_def Let_def returns)
  next
    case (Some d)
    then show thesis
      using assms True by (intro published [of d])
        (auto simp: decide_def Let_def returns publish_draft_def)
  qed
next
  case False
  show thesis
  proof (cases "draft_of post \<noteq> None \<and> d_visibility post = Visible")
    case True
    then show thesis using assms False by (intro kept) (auto simp: decide_def Let_def)
  next
    case no: False
    then show thesis using assms False by (intro hidden) (auto simp: decide_def Let_def)
  qed
qed

definition reviewed_post :: "env \<Rightarrow> review_dto \<Rightarrow> uuid \<Rightarrow> discussion \<Rightarrow> discussion \<Rightarrow> db \<Rightarrow> discussion" where
  "reviewed_post e dto actor post post1 s1 =
     (fst (revoke_on_review e dto actor (draft_of post \<noteq> None) post1 s1))
       \<lparr>d_moderationNote := trim (or_else (rd_note dto) '''')\<rparr>"

lemma review_cases:
  obtains (failed) "snd (review e ty i dto u s) = s"
  | (reviewed) actor scope post post1 s1 rs where "uid u = Some actor" "review_scope e u s = Inr scope"
      "find_discussion i s = Some post" "in_scope scope (d_roomId post)" "unchanged_since dto post"
      "rd_decision dto = Allow \<or> trim (or_else (rd_note dto) '''') \<noteq> ''''"
      "decide e dto post s = Inr (post1, s1)"
      "snd (review e ty i dto u s) =
        (save_discussion (reviewed_post e dto actor post post1 s1)
          (snd (revoke_on_review e dto actor (draft_of post \<noteq> None) post1 s1)))\<lparr>moderationReviews := rs\<rparr>"
proof (cases "bindE (authenticated u) (\<lambda>actor.
           bindE (review_scope e u s) (\<lambda>scope.
           bindE (guardE (ty = ''discussion'') (BadRequest ''Only posts require approval'')) (\<lambda>_.
           bindE (requires_note dto) (\<lambda>_.
           Inr (actor, scope)))))")
  case (Inl ex)
  then show ?thesis using failed by (simp add: review_def)
next
  case (Inr p)
  obtain actor scope where p: "p = (actor, scope)" by (cases p)
  from Inr have g: "uid u = Some actor" "review_scope e u s = Inr scope"
    "rd_decision dto = Allow \<or> trim (or_else (rd_note dto) '''') \<noteq> ''''"
    by (auto simp: returns p requires_note_def)
  have def: "review e ty i dto u s = transaction s (review_body e i dto actor scope s)"
    using Inr by (simp add: review_def p)
  show ?thesis
  proof (rule transaction_cases_snd [of "review_body e i dto actor scope s" s])
    fix ex assume "snd (transaction s (review_body e i dto actor scope s)) = s"
    then show thesis using failed def by simp
  next
    fix a s' assume b: "review_body e i dto actor scope s = Inr (a, s')"
      and s': "snd (transaction s (review_body e i dto actor scope s)) = s'"
    from b obtain post post1 s1 where *: "find_discussion i s = Some post" "in_scope scope (d_roomId post)"
      "unchanged_since dto post" "decide e dto post s = Inr (post1, s1)"
      "\<exists>rs. s' = (save_discussion (reviewed_post e dto actor post post1 s1)
          (snd (revoke_on_review e dto actor (draft_of post \<noteq> None) post1 s1)))\<lparr>moderationReviews := rs\<rparr>"
      unfolding review_body_def Let_def reviewed_post_def
      by (auto simp: bindE_Inr lockPost_Inr guardE_Inr split: prod.splits)
    then show thesis using reviewed g def s' by metis
  qed
qed

end
