(* ===== verification/Locality.thy ===== *)
theory Locality
  imports Effects
begin

text \<open>
  Every operation on content belongs to one post: what belongs to the other posts is left as it
  was. An invariant that is stated post by post is therefore kept as soon as the operation keeps
  it for the post it belongs to. This is the interface of the invariants to the operations.
\<close>

section \<open>What belongs to a post\<close>

definition answers_of :: "uuid \<Rightarrow> db \<Rightarrow> answer list" where
  "answers_of k s = filter (\<lambda>a. a_discussionId a = k) (answers s)"

definition comments_of :: "uuid \<Rightarrow> db \<Rightarrow> comment list" where
  "comments_of k s = filter (\<lambda>c. c_discussionId c = k) (comments s)"

definition acceptances_of :: "uuid \<Rightarrow> db \<Rightarrow> answer_acceptance list" where
  "acceptances_of k s = filter (\<lambda>x. ac_discussionId x = k) (answerAcceptances s)"

definition revisions_of :: "uuid \<Rightarrow> db \<Rightarrow> discussion_revision list" where
  "revisions_of k s = filter (\<lambda>r. dr_discussionId r = k) (discussionRevisions s)"

definition elsewhere :: "uuid \<Rightarrow> db \<Rightarrow> db \<Rightarrow> bool" where
  "elsewhere k s s' \<longleftrightarrow>
     filter (\<lambda>d. d_id d \<noteq> k) (discussions s') = filter (\<lambda>d. d_id d \<noteq> k) (discussions s) \<and>
     (\<forall>j. j \<noteq> k \<longrightarrow> answers_of j s' = answers_of j s \<and> comments_of j s' = comments_of j s \<and>
        acceptances_of j s' = acceptances_of j s \<and> revisions_of j s' = revisions_of j s)"

lemma elsewhere_refl [simp]: "elsewhere k s s"
  by (simp add: elsewhere_def)

lemma elsewhere_trans [trans]: "elsewhere k s t \<Longrightarrow> elsewhere k t u \<Longrightarrow> elsewhere k s u"
  by (simp add: elsewhere_def)

lemmas of_defs = answers_of_def comments_of_def acceptances_of_def revisions_of_def

lemma content_eq_of:
  assumes "content_eq s s'"
  shows "answers_of k s' = answers_of k s" "comments_of k s' = comments_of k s"
    "acceptances_of k s' = acceptances_of k s" "revisions_of k s' = revisions_of k s"
  using content_eq_tables [OF assms] by (simp_all add: of_defs)

lemma content_eq_elsewhere: "content_eq s s' \<Longrightarrow> elsewhere k s s'"
  by (simp add: elsewhere_def content_eq_of content_eq_tables(5))

section \<open>Invariants stated row by row\<close>

locale row_invariant =
  fixes rows :: "'s \<Rightarrow> 'r list"
    and key :: "'r \<Rightarrow> 'k"
    and ok :: "'s \<Rightarrow> 'r \<Rightarrow> bool"
    and frame :: "'k \<Rightarrow> 's \<Rightarrow> 's \<Rightarrow> bool"
  assumes frame_row: "frame k s s' \<Longrightarrow> r \<in> set (rows s') \<Longrightarrow> key r \<noteq> k \<Longrightarrow> r \<in> set (rows s)"
    and frame_ok: "frame k s s' \<Longrightarrow> key r \<noteq> k \<Longrightarrow> ok s r \<Longrightarrow> ok s' r"
begin

lemma preserved:
  assumes "\<forall>r \<in> set (rows s). ok s r" "frame k s s'"
    and "\<And>r. r \<in> set (rows s') \<Longrightarrow> key r = k \<Longrightarrow> ok s' r"
  shows "\<forall>r \<in> set (rows s'). ok s' r"
  using assms frame_row frame_ok by blast

end

lemma elsewhere_rows:
  assumes "elsewhere k s s'" "d \<in> set (discussions s')" "d_id d \<noteq> k"
  shows "d \<in> set (discussions s)"
proof -
  have eq: "filter (\<lambda>d. d_id d \<noteq> k) (discussions s') = filter (\<lambda>d. d_id d \<noteq> k) (discussions s)"
    using assms(1) unfolding elsewhere_def by (rule conjunct1)
  have "d \<in> set (filter (\<lambda>d. d_id d \<noteq> k) (discussions s'))" using assms by simp
  then show ?thesis unfolding eq by simp
qed

section \<open>Updates of one post\<close>

lemma filter_put_group:
  "(\<And>r. r \<in> set t \<Longrightarrow> key r = key x \<Longrightarrow> P r = P x) \<Longrightarrow> filter P (put key x t) = put key x (filter P t)"
  by (induction t) (auto simp: put_def update_where_def)

lemma save_discussion_of [simp]:
  "answers_of k (save_discussion d s) = answers_of k s"
  "comments_of k (save_discussion d s) = comments_of k s"
  "acceptances_of k (save_discussion d s) = acceptances_of k s"
  "revisions_of k (save_discussion d s) = revisions_of k s"
  by (simp_all add: of_defs save_discussion_def)

lemma elsewhere_save_discussion: "d_id d = k \<Longrightarrow> elsewhere k s (save_discussion d s)"
  by (simp add: elsewhere_def) (simp add: save_discussion_def filter_put_other)

lemma saved_discussion:
  "d \<in> set (discussions (save_discussion p s)) \<Longrightarrow> d_id d = d_id p \<Longrightarrow> d = p"
  by (auto simp: save_discussion_def put_def set_update_where split: if_splits)

lemma elsewhere_revoke: "elsewhere k s (revoke_acceptances e k x r s)"
proof -
  have "filter (\<lambda>a. ac_discussionId a = j) (update_where (ac_active k) f t) =
        filter (\<lambda>a. ac_discussionId a = j) t"
    if "j \<noteq> k" "\<And>a. ac_discussionId (f a) = ac_discussionId a" for j f and t :: "answer_acceptance list"
    using that by (intro filter_update_where_other) (auto simp: ac_active_def)
  then show ?thesis
    by (simp add: elsewhere_def of_defs revoke_acceptances_def)
qed

lemma revoke_of [simp]:
  "answers_of j (revoke_acceptances e k x r s) = answers_of j s"
  "comments_of j (revoke_acceptances e k x r s) = comments_of j s"
  "revisions_of j (revoke_acceptances e k x r s) = revisions_of j s"
  "discussions (revoke_acceptances e k x r s) = discussions s"
  "answers (revoke_acceptances e k x r s) = answers s"
  "comments (revoke_acceptances e k x r s) = comments s"
  by (simp_all add: of_defs revoke_acceptances_def)

lemma filter_active_update:
  "filter (ac_active k) (update_where (ac_active k) (\<lambda>a. a\<lparr>ac_revokedAt := Some n, ac_revokedBy := b,
     ac_revokeReason := r\<rparr>) t) = []"
  by (induction t) (auto simp: update_where_def ac_active_def)

text \<open>The answers accepted now, according to the history of acceptances.\<close>

definition active_answers :: "uuid \<Rightarrow> db \<Rightarrow> uuid list" where
  "active_answers k s = map ac_answerId (filter (ac_active k) (acceptances_of k s))"

lemma active_answers_eq: "active_answers k s = map ac_answerId (filter (ac_active k) (answerAcceptances s))"
  by (simp add: active_answers_def acceptances_of_def ac_active_def [abs_def] conj_commute cong: conj_cong)

lemma active_answers_revoked [simp]: "active_answers k (revoke_acceptances e k x r s) = []"
  by (simp add: active_answers_eq revoke_acceptances_def filter_active_update)

lemma active_answers_save [simp]: "active_answers k (save_discussion d s) = active_answers k s"
  by (simp add: active_answers_eq save_discussion_def)

lemma elsewhere_answers:
  assumes "discussions s' = discussions s" "comments s' = comments s"
    "answerAcceptances s' = answerAcceptances s" "discussionRevisions s' = discussionRevisions s"
    and "\<And>j. j \<noteq> k \<Longrightarrow> filter (\<lambda>a. a_discussionId a = j) (answers s') =
           filter (\<lambda>a. a_discussionId a = j) (answers s)"
  shows "elsewhere k s s'"
  using assms by (simp add: elsewhere_def of_defs)

lemma elsewhere_comments:
  assumes "discussions s' = discussions s" "answers s' = answers s"
    "answerAcceptances s' = answerAcceptances s" "discussionRevisions s' = discussionRevisions s"
    and "\<And>j. j \<noteq> k \<Longrightarrow> filter (\<lambda>c. c_discussionId c = j) (comments s') =
           filter (\<lambda>c. c_discussionId c = j) (comments s)"
  shows "elsewhere k s s'"
  using assms by (simp add: elsewhere_def of_defs)

lemma elsewhere_save_answer:
  assumes "distinct (map a_id (answers s))" "a \<in> set (answers s)" "a_id a' = a_id a"
    "a_discussionId a' = a_discussionId a" "a_discussionId a = k"
  shows "elsewhere k s (save_answer a' s)" "answers_of k (save_answer a' s) = put a_id a' (answers_of k s)"
proof -
  have same: "r = a" if "r \<in> set (answers s)" "a_id r = a_id a'" for r
    using assms(1-3) that by (metis distinct_map inj_onD)
  then have "filter (\<lambda>a. a_discussionId a = j) (put a_id a' (answers s)) =
      put a_id a' (filter (\<lambda>a. a_discussionId a = j) (answers s))" for j
    using assms(4) by (intro filter_put_group) auto
  moreover have "put a_id a' (filter (\<lambda>a. a_discussionId a = j) (answers s)) =
      filter (\<lambda>a. a_discussionId a = j) (answers s)" if "j \<noteq> k" for j
    unfolding put_def update_where_def using same assms(5) that by (intro map_idI) auto
  ultimately show "elsewhere k s (save_answer a' s)"
    and "answers_of k (save_answer a' s) = put a_id a' (answers_of k s)"
    by (auto intro!: elsewhere_answers simp: save_answer_def answers_of_def)
qed

lemma elsewhere_save_comment:
  assumes "distinct (map c_id (comments s))" "c \<in> set (comments s)" "c_id c' = c_id c"
    "c_discussionId c' = c_discussionId c" "c_discussionId c = k"
  shows "elsewhere k s (save_comment c' s)" "comments_of k (save_comment c' s) = put c_id c' (comments_of k s)"
proof -
  have same: "r = c" if "r \<in> set (comments s)" "c_id r = c_id c'" for r
    using assms(1-3) that by (metis distinct_map inj_onD)
  then have "filter (\<lambda>a. c_discussionId a = j) (put c_id c' (comments s)) =
      put c_id c' (filter (\<lambda>a. c_discussionId a = j) (comments s))" for j
    using assms(4) by (intro filter_put_group) auto
  moreover have "put c_id c' (filter (\<lambda>a. c_discussionId a = j) (comments s)) =
      filter (\<lambda>a. c_discussionId a = j) (comments s)" if "j \<noteq> k" for j
    unfolding put_def update_where_def using same assms(5) that by (intro map_idI) auto
  ultimately show "elsewhere k s (save_comment c' s)"
    and "comments_of k (save_comment c' s) = put c_id c' (comments_of k s)"
    by (auto intro!: elsewhere_comments simp: save_comment_def comments_of_def)
qed

end
