(* ===== verification/Post_Invariants.thy ===== *)
theory Post_Invariants
  imports Locality
begin

text \<open>
  What always holds of a post: its accepted answer is the one active row of the acceptance history
  and a live answer to this question, its accepted comment is a live root comment of somebody else,
  it is solved only when something is accepted, its counters are the numbers of live answers and
  comments, its revisions are numbered without gaps and the last one is the text it shows or
  proposes, and its visibility fits its moderation status. Every operation keeps it.
\<close>

section \<open>The invariant of a post\<close>

definition accept_ok :: "db \<Rightarrow> discussion \<Rightarrow> bool" where
  "accept_ok s d \<longleftrightarrow>
     active_answers (d_id d) s = (case d_acceptedAnswerId d of None \<Rightarrow> [] | Some a \<Rightarrow> [a])"

definition answer_ok :: "db \<Rightarrow> discussion \<Rightarrow> bool" where
  "answer_ok s d \<longleftrightarrow>
     (\<forall>a. d_acceptedAnswerId d = Some a \<longrightarrow> d_postType d = Question \<and>
        (\<exists>x \<in> set (answers_of (d_id d) s). a_id x = a \<and> a_live x))"

definition comment_ok :: "db \<Rightarrow> discussion \<Rightarrow> bool" where
  "comment_ok s d \<longleftrightarrow>
     (\<forall>c. d_acceptedCommentId d = Some c \<longrightarrow>
        (\<exists>x \<in> set (comments_of (d_id d) s). c_id x = c \<and> c_live x \<and> c_parentCommentId x = None \<and>
           c_authorId x \<noteq> d_authorId d))"

definition solved_ok :: "discussion \<Rightarrow> bool" where
  "solved_ok d \<longleftrightarrow>
     (d_status d = Solved \<longrightarrow> d_acceptedAnswerId d \<noteq> None \<or> d_acceptedCommentId d \<noteq> None)"

definition counts_ok :: "db \<Rightarrow> discussion \<Rightarrow> bool" where
  "counts_ok s d \<longleftrightarrow>
     d_answerCount d = int (count_where a_live (answers_of (d_id d) s)) \<and>
     d_commentCount d = int (count_where c_live (comments_of (d_id d) s))"

text \<open>The text of the newest version: the proposed one, if there is a proposal.\<close>

definition newest_text :: "discussion \<Rightarrow> string \<times> string" where
  "newest_text d =
     or_else (map_option (\<lambda>p. (pr_title p, pr_content p)) (d_pendingRevision d)) (d_title d, d_content d)"

definition revisions_ok :: "db \<Rightarrow> discussion \<Rightarrow> bool" where
  "revisions_ok s d \<longleftrightarrow>
     1 \<le> d_contentVersion d \<and>
     map dr_contentVersion (revisions_of (d_id d) s) = [1..<Suc (d_contentVersion d)] \<and>
     (dr_title (last (revisions_of (d_id d) s)), dr_content (last (revisions_of (d_id d) s))) = newest_text d"

definition published_ok :: "discussion \<Rightarrow> bool" where
  "published_ok d \<longleftrightarrow>
     (d_moderationStatus d = Approved \<longrightarrow> d_visibility d = Visible) \<and>
     (d_moderationStatus d = Hidden \<longrightarrow> d_visibility d = Concealed) \<and>
     (d_moderationStatus d = Pending \<longrightarrow> d_visibility d \<noteq> Concealed) \<and>
     (d_visibility d = Held \<longrightarrow> d_pendingRevision d = None)"

definition post_ok :: "db \<Rightarrow> discussion \<Rightarrow> bool" where
  "post_ok s d \<longleftrightarrow>
     accept_ok s d \<and> answer_ok s d \<and> comment_ok s d \<and> solved_ok d \<and> counts_ok s d \<and>
     revisions_ok s d \<and> published_ok d"

lemmas ok_defs = accept_ok_def answer_ok_def comment_ok_def solved_ok_def counts_ok_def
  revisions_ok_def published_ok_def newest_text_def

lemma post_okI:
  "accept_ok s d \<Longrightarrow> answer_ok s d \<Longrightarrow> comment_ok s d \<Longrightarrow> solved_ok d \<Longrightarrow> counts_ok s d \<Longrightarrow>
   revisions_ok s d \<Longrightarrow> published_ok d \<Longrightarrow> post_ok s d"
  by (simp add: post_ok_def)

lemma post_okD:
  assumes "post_ok s d"
  shows "accept_ok s d" "answer_ok s d" "comment_ok s d" "solved_ok d" "counts_ok s d"
    "revisions_ok s d" "published_ok d"
  using assms by (simp_all add: post_ok_def)

section \<open>The invariant of the database\<close>

definition keyed :: "db \<Rightarrow> bool" where
  "keyed s \<longleftrightarrow>
     distinct (map d_id (discussions s)) \<and> distinct (map a_id (answers s)) \<and>
     distinct (map c_id (comments s))"

text \<open>Nothing belongs to a post that does not exist.\<close>

definition known :: "db \<Rightarrow> bool" where
  "known s \<longleftrightarrow>
     (\<forall>k. k \<notin> set (map d_id (discussions s)) \<longrightarrow>
        answers_of k s = [] \<and> comments_of k s = [] \<and> acceptances_of k s = [] \<and> revisions_of k s = [])"

definition post_inv :: "db \<Rightarrow> bool" where
  "post_inv s \<longleftrightarrow> keyed s \<and> known s \<and> (\<forall>d \<in> set (discussions s). post_ok s d)"

lemma post_ok_elsewhere:
  assumes "elsewhere k s s'" "d_id d \<noteq> k" "post_ok s d"
  shows "post_ok s' d"
proof -
  from assms(1,2) have eq: "answers_of (d_id d) s' = answers_of (d_id d) s"
    "comments_of (d_id d) s' = comments_of (d_id d) s"
    "acceptances_of (d_id d) s' = acceptances_of (d_id d) s"
    "revisions_of (d_id d) s' = revisions_of (d_id d) s"
    by (auto simp: elsewhere_def)
  then have "active_answers (d_id d) s' = active_answers (d_id d) s"
    by (simp add: active_answers_def)
  with assms(3) eq show ?thesis by (simp add: post_ok_def ok_defs)
qed

interpretation post_rows: row_invariant discussions d_id post_ok elsewhere
  by unfold_locales (fact elsewhere_rows, fact post_ok_elsewhere)

lemma known_elsewhere:
  assumes "known s" "elsewhere k s s'" "k \<in> set (map d_id (discussions s'))"
    "set (map d_id (discussions s)) \<subseteq> set (map d_id (discussions s'))"
  shows "known s'"
  unfolding known_def
proof (intro allI impI)
  fix j assume "j \<notin> set (map d_id (discussions s'))"
  with assms(3,4) have "j \<noteq> k" "j \<notin> set (map d_id (discussions s))" by auto
  then show "answers_of j s' = [] \<and> comments_of j s' = [] \<and> acceptances_of j s' = [] \<and> revisions_of j s' = []"
    using assms(1,2) unfolding known_def elsewhere_def by metis
qed

lemma post_inv_step:
  assumes "post_inv s" "elsewhere k s s'" "keyed s'" "k \<in> set (map d_id (discussions s'))"
    "set (map d_id (discussions s)) \<subseteq> set (map d_id (discussions s'))"
    and "\<And>d. d \<in> set (discussions s') \<Longrightarrow> d_id d = k \<Longrightarrow> post_ok s' d"
  shows "post_inv s'"
  using assms known_elsewhere [OF _ assms(2,4,5)] post_rows.preserved [OF _ assms(2)]
  by (auto simp: post_inv_def)

text \<open>An operation that overwrites the row of one post.\<close>

lemma post_inv_put:
  assumes inv: "post_inv s" and p: "find_discussion i s = Some p" and p': "d_id p' = i"
    and ds: "discussions s' = put d_id p' (discussions s)"
    and e: "elsewhere i s s'"
    and keys: "distinct (map a_id (answers s'))" "distinct (map c_id (comments s'))"
    and ok: "post_ok s' p'"
  shows "post_inv s'"
proof (rule post_inv_step [OF inv e])
  have ids: "map d_id (discussions s') = map d_id (discussions s)"
    unfolding ds by (rule put_keys)
  then show "keyed s'" using inv keys by (simp add: post_inv_def keyed_def)
  show "i \<in> set (map d_id (discussions s'))"
    using discussion_repo.found [OF p] ids by (metis imageI set_map)
  show "set (map d_id (discussions s)) \<subseteq> set (map d_id (discussions s'))" using ids by simp
  fix d assume "d \<in> set (discussions s')" "d_id d = i"
  then have "d = p'" unfolding ds by (elim in_put_cases) (simp_all add: p')
  then show "post_ok s' d" using ok by simp
qed

lemma post_inv_cong:
  assumes "discussions s' = discussions s" "answers s' = answers s" "comments s' = comments s"
    "answerAcceptances s' = answerAcceptances s" "discussionRevisions s' = discussionRevisions s"
  shows "post_inv s' = post_inv s"
  using assms by (simp add: post_inv_def keyed_def known_def of_defs post_ok_def ok_defs active_answers_eq)

lemma post_inv_content_eq: "content_eq s s' \<Longrightarrow> post_inv s' = post_inv s"
  by (rule post_inv_cong) (simp_all add: content_eq_tables)

lemma post_invD:
  assumes "post_inv s" "find_discussion i s = Some p"
  shows "post_ok s p" "d_id p = i" "d_live p" "p \<in> set (discussions s)"
  using assms discussion_repo.found [OF assms(2)] by (simp_all add: post_inv_def)

lemma post_inv_keys:
  assumes "post_inv s"
  shows "distinct (map d_id (discussions s))" "distinct (map a_id (answers s))"
    "distinct (map c_id (comments s))"
  using assms by (simp_all add: post_inv_def keyed_def)

section \<open>Operations on the post itself\<close>

lemma post_inv_save:
  assumes "post_inv s" "find_discussion i s = Some p" "d_id p' = i" "post_ok (save_discussion p' s) p'"
  shows "post_inv (save_discussion p' s)"
  using assms post_inv_keys [OF assms(1)]
  by (intro post_inv_put [OF assms(1,2,3)] elsewhere_save_discussion) (simp_all add: save_discussion_def)

lemma post_ok_save_iff: "post_ok (save_discussion p s) d = post_ok s d"
  by (simp add: post_ok_def ok_defs)

lemma post_inv_accept_comment:
  assumes "post_inv s" shows "post_inv (snd (accept_comment e i u cid s))"
proof (rule accept_comment_cases [of s e i u cid])
  assume "content_eq s (snd (accept_comment e i u cid s))"
  then show ?thesis using assms post_inv_content_eq by simp
next
  fix post c
  assume *: "find_discussion i s = Some post" "find_comment cid s = Some c" "c_discussionId c = i"
    "c_parentCommentId c = None" "c_authorId c \<noteq> d_authorId post"
    and s': "content_eq (save_discussion (post\<lparr>d_acceptedCommentId := Some (c_id c), d_status := Solved\<rparr>) s)
         (snd (accept_comment e i u cid s))"
  note p = post_invD [OF assms *(1)]
  have "c \<in> set (comments_of i s)" "c_live c"
    using comment_repo.found [OF *(2)] *(3) by (simp_all add: comments_of_def)
  then have "post_ok s (post\<lparr>d_acceptedCommentId := Some (c_id c), d_status := Solved\<rparr>)"
    using p *(4,5) by (auto simp: post_ok_def ok_defs)
  then show ?thesis
    using p(2) s' post_inv_content_eq
    by (simp add: post_inv_save [OF assms *(1)] post_ok_save_iff)
qed

lemma post_inv_remove_accepted_comment:
  assumes "post_inv s" shows "post_inv (snd (remove_accepted_comment e i u s))"
proof (rule remove_accepted_comment_cases [of s e i u])
  fix post
  assume *: "find_discussion i s = Some post"
    "snd (remove_accepted_comment e i u s) =
       save_discussion (post\<lparr>d_acceptedCommentId := None, d_status := Open\<rparr>) s"
  note p = post_invD [OF assms *(1)]
  have "post_ok s (post\<lparr>d_acceptedCommentId := None, d_status := Open\<rparr>)"
    using p(1) by (auto simp: post_ok_def ok_defs)
  then show ?thesis
    using p(2) *(2) by (simp add: post_inv_save [OF assms *(1)] post_ok_save_iff)
qed (use assms post_inv_content_eq in simp)

lemma post_inv_set_status:
  assumes "post_inv s" shows "post_inv (snd (set_status e i u st s))"
proof (rule set_status_cases [of s e i u st])
  fix post
  assume *: "find_discussion i s = Some post" "st = Open \<or> st = Closed"
    and s': "snd (set_status e i u st s) = save_discussion
         (post\<lparr>d_status := (if st = Open \<and> d_acceptedCommentId post \<noteq> None then Solved else st)\<rparr>) s"
  note p = post_invD [OF assms *(1)]
  have "post_ok s (post\<lparr>d_status := (if st = Open \<and> d_acceptedCommentId post \<noteq> None then Solved else st)\<rparr>)"
    using p(1) *(2) by (auto simp: post_ok_def ok_defs)
  then show ?thesis
    using p(2) s' by (simp add: post_inv_save [OF assms *(1)] post_ok_save_iff)
qed (use assms post_inv_content_eq in simp)

text \<open>A change of fields the invariant does not mention, in any number of rows.\<close>

lemma post_inv_map:
  assumes inv: "post_inv s" and s': "discussions s' = map f (discussions s)" "answers s' = answers s"
      "comments s' = comments s" "answerAcceptances s' = answerAcceptances s"
      "discussionRevisions s' = discussionRevisions s"
    and f: "\<And>d. d_id (f d) = d_id d" "\<And>d. d \<in> set (discussions s) \<Longrightarrow> post_ok s d \<Longrightarrow> post_ok s (f d)"
  shows "post_inv s'"
proof -
  have ids: "map d_id (discussions s') = map d_id (discussions s)" using s'(1) f(1) by simp
  have ok: "post_ok s' d = post_ok s d" for d
    using s'(2-5) by (simp add: post_ok_def ok_defs of_defs active_answers_eq)
  have "known s'" using inv ids s'(2-5) by (simp add: post_inv_def known_def of_defs)
  moreover have "keyed s'" using inv ids s'(2,3) by (simp add: post_inv_def keyed_def)
  moreover have "\<forall>d \<in> set (discussions s'). post_ok s' d"
    using inv f(2) by (simp add: post_inv_def s'(1) ok)
  ultimately show ?thesis by (simp add: post_inv_def)
qed

lemma post_inv_findOne: "post_inv s \<Longrightarrow> post_inv (snd (findOne e i u c s))"
  by (rule findOne_cases [of e i u c s])
    (auto intro!: post_inv_map [of s _ "viewed i"] simp: viewed_def post_ok_def ok_defs)

lemma post_inv_remove_discussion:
  assumes "post_inv s" shows "post_inv (snd (remove_discussion e i u s))"
proof (rule remove_discussion_cases [of s e i u])
  fix post
  assume *: "find_discussion i s = Some post" and s': "content_eq (tagCounts (map t_id (tags_of i s)) (-1)
         (save_discussion (post\<lparr>d_deletedAt := Some (now e)\<rparr>) s)) (snd (remove_discussion e i u s))"
  note p = post_invD [OF assms *]
  have "post_ok s (post\<lparr>d_deletedAt := Some (now e)\<rparr>)"
    using p(1) by (simp add: post_ok_def ok_defs)
  then have "post_inv (save_discussion (post\<lparr>d_deletedAt := Some (now e)\<rparr>) s)"
    using p(2) by (simp add: post_inv_save [OF assms *] post_ok_save_iff)
  moreover have "post_inv (tagCounts ids x t) = post_inv t" for ids x t
    by (rule post_inv_cong) (simp_all add: tagCounts_def)
  ultimately show ?thesis using s' post_inv_content_eq by simp
qed (use assms post_inv_content_eq in simp)

end
