(* ===== verification/Post_Steps.thy ===== *)
theory Post_Steps
  imports Post_Invariants
begin

text \<open>
  The invariant of posts is kept by the operations that write, edit, answer, accept, comment,
  vote and review: one lemma for each operation of the services.
\<close>

lemma post_ok_cong:
  assumes "answers_of (d_id d) s' = answers_of (d_id d) s" "comments_of (d_id d) s' = comments_of (d_id d) s"
    "active_answers (d_id d) s' = active_answers (d_id d) s"
    "revisions_of (d_id d) s' = revisions_of (d_id d) s"
  shows "post_ok s' d = post_ok s d"
  using assms by (simp add: post_ok_def ok_defs)

lemma post_inv_tagCounts [simp]: "post_inv (tagCounts ids x t) = post_inv t"
  by (rule post_inv_cong) (simp_all add: tagCounts_def)

lemma post_inv_attach [simp]: "post_inv (attach i ids t) = post_inv t"
  by (rule post_inv_cong) (simp_all add: attach_def)

lemma active_of_none: "acceptances_of k s = [] \<Longrightarrow> active_answers k s = []"
  by (simp add: active_answers_def)

section \<open>Creating and editing a post\<close>

lemma post_inv_created:
  assumes inv: "post_inv s" and id: "d_id post = i" "i \<notin> d_id ` set (discussions s)"
    and new: "d_acceptedAnswerId post = None" "d_acceptedCommentId post = None" "d_status post = Open"
      "d_answerCount post = 0" "d_commentCount post = 0" "d_contentVersion post = 1"
      "d_pendingRevision post = None" "d_moderationStatus post = Pending" "d_visibility post \<noteq> Concealed"
    and s': "discussions s' = discussions s @ [post]" "answers s' = answers s" "comments s' = comments s"
      "answerAcceptances s' = answerAcceptances s"
      "discussionRevisions s' = discussionRevisions s @
         [\<lparr>dr_discussionId = i, dr_contentVersion = 1, dr_title = d_title post,
           dr_content = d_content post, dr_revisionType = ty, dr_editedBy = by\<rparr>]"
  shows "post_inv s'"
proof (rule post_inv_step [OF inv])
  have none: "answers_of i s = []" "comments_of i s = []" "acceptances_of i s = []" "revisions_of i s = []"
    using inv id(2) by (simp_all add: post_inv_def known_def)
  show "elsewhere i s s'" using id s' by (simp add: elsewhere_def of_defs)
  show "keyed s'" using inv id s' by (auto simp: post_inv_def keyed_def)
  show "i \<in> set (map d_id (discussions s'))" using id s' by simp
  show "set (map d_id (discussions s)) \<subseteq> set (map d_id (discussions s'))" using s' by auto
  fix d assume "d \<in> set (discussions s')" "d_id d = i"
  then have d: "d = post" using id s' by auto
  have of: "answers_of i s' = []" "comments_of i s' = []" "active_answers i s' = []"
    "revisions_of i s' = [\<lparr>dr_discussionId = i, dr_contentVersion = 1, dr_title = d_title post,
           dr_content = d_content post, dr_revisionType = ty, dr_editedBy = by\<rparr>]"
    using none s' by (simp_all add: of_defs active_answers_def)
  show "post_ok s' d"
    unfolding d using new id(1) of by (simp add: post_ok_def ok_defs)
qed

lemma post_inv_create_discussion:
  assumes "post_inv s" shows "post_inv (snd (create_discussion e u dto s))"
proof (rule create_discussion_cases [of s e u dto])
  assume "content_eq s (snd (create_discussion e u dto s))"
  then show ?thesis using assms post_inv_content_eq by simp
next
  fix author selected pc ts
  let ?post = "new_discussion e dto author selected pc"
  let ?s = "created_post ?post (new_set (or_else (cd_tagIds dto) [])) (map t_id ts)
      (or_else (cd_mediaIds dto) []) author s"
  assume fresh: "fresh e 0 \<notin> d_id ` set (discussions s)"
    and s': "content_eq ?s (snd (create_discussion e u dto s))"
  have "post_inv ?s"
    by (rule post_inv_created [OF assms _ fresh, of ?post])
      (simp_all add: new_discussion_def created_post_def tagCounts_def attach_def Let_def)
  then show ?thesis using s' post_inv_content_eq by simp
qed

lemma upt_Suc_snoc: "1 \<le> n \<Longrightarrow> [1..<Suc (n + 1)] = [1..<Suc n] @ [n + 1]"
  by simp

lemma revisions_snoc:
  assumes "revisions_ok s d" "revisions_of (d_id d) s' = revisions_of (d_id d) s @ [r]"
    and "d_id d' = d_id d" "d_contentVersion d' = d_contentVersion d + 1"
    "dr_contentVersion r = d_contentVersion d + 1" "(dr_title r, dr_content r) = newest_text d'"
  shows "revisions_ok s' d'"
  using assms by (simp add: revisions_ok_def)

lemma post_inv_drafted:
  assumes inv: "post_inv s" and post: "find_discussion i s = Some post" and vis: "d_visibility post = Visible"
  shows "post_inv (save_discussion (drafted_post dto post s)
         (s\<lparr>discussionRevisions := discussionRevisions s @ [draft_revision dto editor post s]\<rparr>))"
    (is "post_inv (save_discussion ?p ?t)")
proof -
  note p = post_invD [OF inv post]
  have id: "d_id ?p = i" using p(2) by (simp add: drafted_post_def)
  have r: "dr_discussionId (draft_revision dto editor post s) = i"
    using id by (simp add: draft_revision_def revision_row_def)
  have rev: "revisions_of (d_id post) (save_discussion ?p ?t) =
      revisions_of (d_id post) s @ [draft_revision dto editor post s]"
    using r p(2) by (simp add: revisions_of_def save_discussion_def)
  have "revisions_ok (save_discussion ?p ?t) ?p"
    by (rule revisions_snoc [OF post_okD(6) [OF p(1)] rev])
      (simp_all add: drafted_post_def draft_revision_def revision_row_def newest_text_def)
  moreover have "accept_ok (save_discussion ?p ?t) ?p \<and> answer_ok (save_discussion ?p ?t) ?p \<and>
      comment_ok (save_discussion ?p ?t) ?p \<and> solved_ok ?p \<and> counts_ok (save_discussion ?p ?t) ?p \<and>
      published_ok ?p"
    using p(1) vis
    by (simp add: post_ok_def ok_defs drafted_post_def of_defs active_answers_eq save_discussion_def)
  ultimately have ok: "post_ok (save_discussion ?p ?t) ?p" by (simp add: post_ok_def)
  show ?thesis
  proof (rule post_inv_put [OF inv post id _ _ _ _ ok])
    show "elsewhere i s (save_discussion ?p ?t)"
      using r id by (simp add: elsewhere_def of_defs) (simp add: save_discussion_def filter_put_other)
  qed (use post_inv_keys [OF inv] in \<open>simp_all add: save_discussion_def\<close>)
qed

lemma edit_acceptances_tables [simp]:
  "discussions (edit_acceptances e dto editor post s) = discussions s"
  "answers (edit_acceptances e dto editor post s) = answers s"
  "comments (edit_acceptances e dto editor post s) = comments s"
  "discussionRevisions (edit_acceptances e dto editor post s) = discussionRevisions s"
  by (simp_all add: edit_acceptances_def revoke_acceptances_def)

lemma active_edit_acceptances:
  "active_answers (d_id post) (edit_acceptances e dto editor post s) =
     (if content_changed post dto \<and> d_acceptedAnswerId post \<noteq> None then []
      else active_answers (d_id post) s)"
  by (auto simp: edit_acceptances_def)

lemma elsewhere_edit_acceptances: "elsewhere (d_id post) s (edit_acceptances e dto editor post s)"
  by (simp add: edit_acceptances_def elsewhere_revoke)

lemma unchanged_fields:
  assumes "\<not> content_changed post dto"
  shows "edited_fields dto post = post"
  using assms
  by (cases post; cases "ud_title dto"; cases "ud_content dto"; cases "ud_isAnonymous dto")
    (auto simp: content_changed_def edited_fields_def)

lemma direct_post_id [simp]: "d_id (direct_post dto req post) = d_id post"
  by (simp add: direct_post_def new_version_def edited_fields_def)

lemma direct_post_fields:
  assumes "content_changed post dto"
  shows "d_acceptedAnswerId (direct_post dto req post) = None"
    "d_acceptedCommentId (direct_post dto req post) = None"
    "d_contentVersion (direct_post dto req post) = d_contentVersion post + 1"
    "d_pendingRevision (direct_post dto req post) = None"
    "d_moderationStatus (direct_post dto req post) = Pending"
    "d_visibility (direct_post dto req post) \<noteq> Concealed"
    "d_answerCount (direct_post dto req post) = d_answerCount post"
    "d_commentCount (direct_post dto req post) = d_commentCount post"
    "d_status (direct_post dto req post) = (if d_acceptedAnswerId post \<noteq> None \<or>
        d_acceptedCommentId post \<noteq> None then Open else d_status post)"
  using assms by (simp_all add: direct_post_def new_version_def edited_fields_def)

lemma post_ok_direct:
  assumes ok: "post_ok s post" and changed: "content_changed post dto"
    and of: "answers_of (d_id post) s' = answers_of (d_id post) s"
      "comments_of (d_id post) s' = comments_of (d_id post) s"
      "active_answers (d_id post) s' =
         (if d_acceptedAnswerId post \<noteq> None then [] else active_answers (d_id post) s)"
      "revisions_of (d_id post) s' = revisions_of (d_id post) s @ direct_revisions dto editor req post"
  shows "post_ok s' (direct_post dto req post)"
proof (rule post_okI)
  let ?p = "direct_post dto req post"
  note f = direct_post_fields [OF changed, of req] and okd = post_okD [OF ok]
  show "accept_ok s' ?p" using okd(1) of(3) f(1) by (simp add: accept_ok_def)
  show "answer_ok s' ?p" "comment_ok s' ?p" using f(1,2) by (simp_all add: answer_ok_def comment_ok_def)
  show "solved_ok ?p" using okd(4) f(9) by (auto simp: solved_ok_def)
  show "counts_ok s' ?p" using okd(5) of f(7,8) by (simp add: counts_ok_def)
  show "published_ok ?p" using f by (simp add: published_ok_def)
  have "direct_revisions dto editor req post = [revision_row dto ?p (d_title ?p) (d_content ?p) editor]"
    using changed by (simp add: direct_revisions_def Let_def)
  then show "revisions_ok s' ?p"
    using of(4) f(3,4)
    by (intro revisions_snoc [OF okd(6), of _ "revision_row dto ?p (d_title ?p) (d_content ?p) editor"])
      (simp_all add: revision_row_def newest_text_def)
qed

lemma post_inv_direct:
  assumes inv: "post_inv s" and post: "find_discussion i s = Some post"
    and s1: "discussions s1 = discussions s" "answers s1 = answers s" "comments s1 = comments s"
      "answerAcceptances s1 = answerAcceptances s"
      "discussionRevisions s1 = discussionRevisions s @ direct_revisions dto editor req post"
  shows "post_inv (save_discussion (direct_post dto req post) (edit_acceptances e dto editor post s1))"
    (is "post_inv ?s'")
proof -
  note p = post_invD [OF inv post]
  have rs: "\<forall>r \<in> set (direct_revisions dto editor req post). dr_discussionId r = i"
    using p(2) by (simp add: direct_revisions_def Let_def revision_row_def)
  have of: "answers_of j ?s' = answers_of j s" "comments_of j ?s' = comments_of j s" for j
    using s1 by (simp_all add: of_defs save_discussion_def)
  have act: "active_answers (d_id post) ?s' = (if content_changed post dto \<and> d_acceptedAnswerId post \<noteq> None
      then [] else active_answers (d_id post) s)"
    using s1(4) active_edit_acceptances [of post e dto editor s1]
    by (auto simp: active_answers_eq [of _ s] active_answers_eq [of _ s1])
  have rev: "revisions_of (d_id post) ?s' =
      revisions_of (d_id post) s @ direct_revisions dto editor req post"
    using s1 rs p(2) by (simp add: revisions_of_def save_discussion_def)
  have ok: "post_ok ?s' (direct_post dto req post)"
  proof (cases "content_changed post dto")
    case True
    then show ?thesis using p(1) of act rev by (intro post_ok_direct) simp_all
  next
    case False
    then have same: "direct_post dto req post = post" "direct_revisions dto editor req post = []"
      by (simp_all add: direct_post_def unchanged_fields direct_revisions_def)
    show ?thesis
      unfolding same(1) using p(1) of act rev same False post_ok_cong [of post ?s' s] by simp
  qed
  have "elsewhere i s s1"
    using s1 rs by (auto simp: elsewhere_def of_defs intro: filter_False)
  also have "elsewhere i s1 (edit_acceptances e dto editor post s1)"
    using elsewhere_edit_acceptances [of post s1] p(2) by simp
  also have "elsewhere i \<dots> ?s'"
    using p(2) by (intro elsewhere_save_discussion) simp
  finally have e: "elsewhere i s ?s'" .
  show ?thesis
    by (rule post_inv_put [OF inv post _ _ e _ _ ok])
      (use p(2) post_inv_keys [OF inv] s1 in \<open>simp_all add: save_discussion_def\<close>)
qed

lemma post_inv_update_discussion:
  assumes "post_inv s" shows "post_inv (snd (update_discussion e i u dto s))"
proof (rule update_discussion_cases [of s e i u dto])
  assume "content_eq s (snd (update_discussion e i u dto s))"
  then show ?thesis using assms post_inv_content_eq by simp
next
  fix t post editor
  assume t: "content_eq s t" "find_discussion i t = Some post" "d_visibility post = Visible"
    and s': "content_eq (save_discussion (drafted_post dto post t)
         (t\<lparr>discussionRevisions := discussionRevisions t @ [draft_revision dto editor post t]\<rparr>))
         (snd (update_discussion e i u dto s))"
  have "post_inv t" using assms t(1) post_inv_content_eq by simp
  from post_inv_drafted [OF this t(2,3)] s' show ?thesis using post_inv_content_eq by simp
next
  fix t post editor req t1
  assume t: "content_eq s t" "find_discussion i t = Some post"
    "change_tags (map_option new_set (ud_tagIds dto)) post t = Inr t1"
    and s': "\<exists>ms. content_eq ((save_discussion (direct_post dto req post)
         (edit_acceptances e dto editor post
           (t1\<lparr>discussionRevisions := discussionRevisions t @ direct_revisions dto editor req post\<rparr>)))
         \<lparr>discussionMedia := ms\<rparr>) (snd (update_discussion e i u dto s))"
  have inv: "post_inv t" using assms t(1) post_inv_content_eq by simp
  have t1: "discussions t1 = discussions t" "answers t1 = answers t" "comments t1 = comments t"
    "answerAcceptances t1 = answerAcceptances t"
    using change_tags_Inr [OF t(3)] by (cases t; cases t1; simp)+
  obtain ms where ms: "content_eq ((save_discussion (direct_post dto req post)
         (edit_acceptances e dto editor post
           (t1\<lparr>discussionRevisions := discussionRevisions t @ direct_revisions dto editor req post\<rparr>)))
         \<lparr>discussionMedia := ms\<rparr>) (snd (update_discussion e i u dto s))"
    (is "content_eq (?s\<lparr>discussionMedia := ms\<rparr>) _") using s' by blast
  have "post_inv ?s" by (rule post_inv_direct [OF inv t(2)]) (use t1 in simp_all)
  then have "post_inv (?s\<lparr>discussionMedia := ms\<rparr>)" by (subst post_inv_cong [of _ ?s]) simp_all
  then show ?thesis using ms post_inv_content_eq by simp
qed

section \<open>Reviews\<close>

lemma decide_tables:
  assumes "decide e dto post s = Inr (post1, s1)"
  shows "discussions s1 = discussions s" "answers s1 = answers s" "comments s1 = comments s"
    "answerAcceptances s1 = answerAcceptances s" "discussionRevisions s1 = discussionRevisions s"
  by (rule decide_cases [OF assms];
      simp add: attach_def replace_tags_def retag_counts_def)+

lemma decide_post:
  assumes "decide e dto post s = Inr (post1, s1)"
  shows "d_id post1 = d_id post" "d_acceptedAnswerId post1 = d_acceptedAnswerId post"
    "d_acceptedCommentId post1 = d_acceptedCommentId post" "d_status post1 = d_status post"
    "d_answerCount post1 = d_answerCount post" "d_commentCount post1 = d_commentCount post"
    "d_contentVersion post1 = d_contentVersion post" "d_postType post1 = d_postType post"
    "d_authorId post1 = d_authorId post" "d_createdAt post1 = d_createdAt post"
    "d_deletedAt post1 = d_deletedAt post" "d_upvoteCount post1 = d_upvoteCount post"
    "d_downvoteCount post1 = d_downvoteCount post" "newest_text post1 = newest_text post"
  by (rule decide_cases [OF assms]; auto simp: newest_text_def draft_of_def split: if_splits)+

lemma decide_published:
  assumes "decide e dto post s = Inr (post1, s1)" "published_ok post"
  shows "published_ok post1"
  by (rule decide_cases [OF assms(1)])
    (use assms(2) in \<open>auto simp: published_ok_def draft_of_def split: if_splits\<close>)

lemma revoke_on_review_fst:
  "fst (revoke_on_review e dto actor h post s) =
     (if (rd_decision dto = Allow \<and> h) \<or> d_visibility post = Concealed
      then post\<lparr>d_acceptedAnswerId := None, d_acceptedCommentId := None,
                d_status := (if d_status post = Solved then Open else d_status post)\<rparr> else post)"
  by (simp add: revoke_on_review_def)

lemma revoke_on_review_snd:
  "snd (revoke_on_review e dto actor h post s) =
     (if (rd_decision dto = Allow \<and> h) \<or> d_visibility post = Concealed
      then revoke_acceptances e (d_id post) actor
              (if h then ''question_edited'' else ''moderation_hidden'') s else s)"
  by (simp add: revoke_on_review_def)

lemma post_inv_review:
  assumes inv: "post_inv s" shows "post_inv (snd (review e ty i dto u s))"
proof (rule review_cases [of e ty i dto u s])
  assume "snd (review e ty i dto u s) = s"
  then show ?thesis using inv by simp
next
  fix actor scope post post1 s1 rs
  assume post: "find_discussion i s = Some post" and d: "decide e dto post s = Inr (post1, s1)"
    and s': "snd (review e ty i dto u s) =
        (save_discussion (reviewed_post e dto actor post post1 s1)
          (snd (revoke_on_review e dto actor (draft_of post \<noteq> None) post1 s1)))\<lparr>moderationReviews := rs\<rparr>"
  let ?p = "reviewed_post e dto actor post post1 s1"
  let ?r = "snd (revoke_on_review e dto actor (draft_of post \<noteq> None) post1 s1)"
  note p = post_invD [OF inv post] and t = decide_tables [OF d] and f = decide_post [OF d]
  have "elsewhere i s s1" using t by (simp add: elsewhere_def of_defs)
  also have "elsewhere i s1 ?r" using elsewhere_revoke p(2) f(1) by (simp add: revoke_on_review_snd)
  finally have e: "elsewhere i s ?r" .
  have id: "d_id ?p = i"
    using f(1) p(2) by (simp add: reviewed_post_def revoke_on_review_fst)
  have of: "answers_of i ?r = answers_of i s" "comments_of i ?r = comments_of i s"
    "revisions_of i ?r = revisions_of i s"
    using t by (simp_all add: revoke_on_review_snd revoke_acceptances_def of_defs)
  have act: "active_answers i s1 = active_answers i s" using t by (simp add: active_answers_eq)
  have okd: "accept_ok s post1" "answer_ok s post1" "comment_ok s post1" "solved_ok post1"
    "counts_ok s post1" "revisions_ok s post1"
    using post_okD [OF p(1)] f
    by (simp_all add: accept_ok_def answer_ok_def comment_ok_def solved_ok_def counts_ok_def revisions_ok_def)
  have "published_ok ?p"
    using decide_published [OF d post_okD(7) [OF p(1)]]
    by (simp add: reviewed_post_def revoke_on_review_fst published_ok_def)
  moreover have "accept_ok ?r ?p \<and> answer_ok ?r ?p \<and> comment_ok ?r ?p \<and> solved_ok ?p"
  proof (cases "(rd_decision dto = Allow \<and> draft_of post \<noteq> None) \<or> d_visibility post1 = Concealed")
    case True
    then show ?thesis
      using p(2) f(1)
      by (simp add: reviewed_post_def revoke_on_review_fst revoke_on_review_snd accept_ok_def
          answer_ok_def comment_ok_def solved_ok_def)
  next
    case False
    then have r: "?r = s1" and n: "?p = post1\<lparr>d_moderationNote := trim (or_else (rd_note dto) '''')\<rparr>"
      by (auto simp: reviewed_post_def revoke_on_review_fst revoke_on_review_snd)
    show ?thesis
      using okd(1-4) of act p(2) f(1)
      unfolding n r by (simp add: accept_ok_def answer_ok_def comment_ok_def solved_ok_def)
  qed
  moreover have "counts_ok ?r ?p" "revisions_ok ?r ?p"
    using okd(5,6) of p(2) f(1)
    by (simp_all add: counts_ok_def revisions_ok_def newest_text_def reviewed_post_def revoke_on_review_fst)
  ultimately have "post_ok ?r ?p" by (simp add: post_ok_def)
  then have ok: "post_ok (save_discussion ?p ?r) ?p" by (simp add: post_ok_save_iff)
  have "post_inv (save_discussion ?p ?r)"
    by (rule post_inv_put [OF inv post id _ elsewhere_trans [OF e elsewhere_save_discussion [OF id]] _ _ ok])
      (use t post_inv_keys [OF inv] in \<open>simp_all add: save_discussion_def revoke_on_review_snd revoke_acceptances_def\<close>)
  moreover have "post_inv (save_discussion ?p ?r) = post_inv (snd (review e ty i dto u s))"
    unfolding s' by (rule post_inv_cong) simp_all
  ultimately show ?thesis by simp
qed

section \<open>Votes and tags\<close>

lemma post_inv_rows:
  assumes inv: "post_inv s"
    and s': "discussions s' = map f (discussions s)" "answers s' = map g (answers s)"
      "comments s' = map h (comments s)" "answerAcceptances s' = answerAcceptances s"
      "discussionRevisions s' = discussionRevisions s"
    and f: "\<And>d. d_id (f d) = d_id d" "\<And>d. post_ok s (f d) = post_ok s d"
    and g: "\<And>a. a_id (g a) = a_id a" "\<And>a. a_live (g a) = a_live a"
      "\<And>a. a_discussionId (g a) = a_discussionId a"
    and h: "\<And>c. c_id (h c) = c_id c" "\<And>c. c_live (h c) = c_live c"
      "\<And>c. c_discussionId (h c) = c_discussionId c" "\<And>c. c_authorId (h c) = c_authorId c"
      "\<And>c. c_parentCommentId (h c) = c_parentCommentId c"
  shows "post_inv s'"
proof -
  have ids: "map d_id (discussions s') = map d_id (discussions s)" "map a_id (answers s') = map a_id (answers s)"
    "map c_id (comments s') = map c_id (comments s)"
    using s' f(1) g(1) h(1) by simp_all
  have of: "answers_of k s' = map g (answers_of k s)" "comments_of k s' = map h (comments_of k s)"
    "acceptances_of k s' = acceptances_of k s" "revisions_of k s' = revisions_of k s"
    "active_answers k s' = active_answers k s" for k
    using s' g(3) h(3) by (simp_all add: of_defs active_answers_eq filter_map comp_def)
  have cw: "count_where a_live (map g xs) = count_where a_live xs"
    "count_where c_live (map h ys) = count_where c_live ys" for xs ys
    using g(2) h(2) by (simp_all add: count_where_def filter_map comp_def)
  have ok: "post_ok s' d = post_ok s d" for d
    using of g h by (simp add: post_ok_def accept_ok_def answer_ok_def comment_ok_def counts_ok_def
        revisions_ok_def cw)
  have "keyed s'" using inv ids by (simp add: post_inv_def keyed_def)
  moreover have "known s'" using inv ids of by (simp add: post_inv_def known_def)
  moreover have "\<forall>d \<in> set (discussions s'). post_ok s' d"
    using inv f(2) by (simp add: post_inv_def s'(1) ok)
  ultimately show ?thesis by (simp add: post_inv_def)
qed

lemma post_inv_set_counters:
  assumes "post_inv s" shows "post_inv (set_counters ty i up down s)"
proof (cases ty)
  case OnDiscussion
  then show ?thesis
    by (intro post_inv_rows [OF assms, of _
          "\<lambda>d. if d_id d = i then d\<lparr>d_upvoteCount := up, d_downvoteCount := down\<rparr> else d" id id])
      (simp_all add: set_counters_def update_where_def post_ok_def ok_defs)
next
  case OnComment
  then show ?thesis
    by (intro post_inv_rows [OF assms, of _ id id
          "\<lambda>c. if c_id c = i then c\<lparr>c_upvoteCount := up, c_downvoteCount := down\<rparr> else c"])
      (simp_all add: set_counters_def update_where_def c_live_def)
next
  case OnAnswer
  then show ?thesis
    by (intro post_inv_rows [OF assms, of _ id
          "\<lambda>a. if a_id a = i then a\<lparr>a_upvoteCount := up, a_downvoteCount := down\<rparr> else a" id])
      (simp_all add: set_counters_def update_where_def a_live_def)
qed

lemma post_inv_set_vote:
  assumes "post_inv s" shows "post_inv (snd (set_vote ty i u v s))"
proof (rule set_vote_cases [of ty i u v s])
  fix ex assume "set_vote ty i u v s = (Inl ex, s)"
  then show ?thesis using assms by simp
next
  fix userId assume s': "snd (set_vote ty i u v s) = voted ty i userId v s"
  have "post_inv (s\<lparr>votes := write_vote userId ty i v (votes s)\<rparr>)"
    using assms by (subst post_inv_cong [of _ s]) simp_all
  then show ?thesis unfolding s' voted_def Let_def by (rule post_inv_set_counters)
qed

section \<open>Answers\<close>

lemma save_discussion_tables [simp]:
  "answers (save_discussion d s) = answers s" "comments (save_discussion d s) = comments s"
  by (simp_all add: save_discussion_def)

lemma save_discussion_same:
  assumes "post_inv s" "find_discussion i s = Some q"
  shows "save_discussion q s = s"
proof -
  have "put d_id q (discussions s) = discussions s"
    unfolding put_def update_where_def
    using post_inv_keys(1) [OF assms(1)] post_invD(4) [OF assms]
    by (intro map_idI) (metis distinct_map inj_onD)
  then show ?thesis by (simp add: save_discussion_def)
qed

lemma revoked:
  assumes inv: "post_inv s" and q: "find_discussion i s = Some q"
  shows "post_inv (snd (revokeAcceptance e q actor r s))"
    and "find_discussion i (snd (revokeAcceptance e q actor r s)) = Some (fst (revokeAcceptance e q actor r s))"
    and "d_acceptedAnswerId (fst (revokeAcceptance e q actor r s)) = None"
    and "answers (snd (revokeAcceptance e q actor r s)) = answers s"
    and "comments (snd (revokeAcceptance e q actor r s)) = comments s"
    and "active_answers i (snd (revokeAcceptance e q actor r s)) = []"
    and "d_postType (fst (revokeAcceptance e q actor r s)) = d_postType q"
    and "d_answerCount (fst (revokeAcceptance e q actor r s)) = d_answerCount q"
proof -
  note p = post_invD [OF inv q]
  let ?q = "q\<lparr>d_acceptedAnswerId := None, d_status := Open\<rparr>"
  let ?s = "save_discussion ?q (revoke_acceptances e (d_id q) actor r s)"
  have none: "active_answers i s = []" if "d_acceptedAnswerId q = None"
    using post_okD(1) [OF p(1)] that p(2) by (simp add: accept_ok_def)
  have "post_ok ?s ?q"
    using p(1) by (simp add: post_ok_save_iff) (simp add: post_ok_def ok_defs)
  moreover have "elsewhere i s ?s"
    using elsewhere_trans [OF elsewhere_revoke elsewhere_save_discussion [of ?q "d_id q"]] p(2) by simp
  ultimately have "post_inv ?s"
    using p(2) post_inv_keys [OF inv]
    by (intro post_inv_put [OF inv q]) (simp_all add: save_discussion_def revoke_acceptances_def)
  moreover have "find_discussion (d_id ?q) ?s = Some ?q"
  proof (rule discussion_repo.lookup_save_same)
    show "distinct (map d_id (discussions (revoke_acceptances e (d_id q) actor r s)))"
      using post_inv_keys(1) [OF inv] by simp
    show "find_discussion (d_id ?q) (revoke_acceptances e (d_id q) actor r s) = Some q"
      using q p(2) by (simp add: find_discussion_def)
    show "d_live ?q" using p(3) by (simp add: d_live_def)
  qed
  ultimately show "post_inv (snd (revokeAcceptance e q actor r s))"
    "find_discussion i (snd (revokeAcceptance e q actor r s)) = Some (fst (revokeAcceptance e q actor r s))"
    "d_acceptedAnswerId (fst (revokeAcceptance e q actor r s)) = None"
    "answers (snd (revokeAcceptance e q actor r s)) = answers s"
    "comments (snd (revokeAcceptance e q actor r s)) = comments s"
    "active_answers i (snd (revokeAcceptance e q actor r s)) = []"
    "d_postType (fst (revokeAcceptance e q actor r s)) = d_postType q"
    "d_answerCount (fst (revokeAcceptance e q actor r s)) = d_answerCount q"
    using assms p(2) none by (simp_all add: revokeAcceptance_def Let_def)
qed

lemma elsewhere_add:
  assumes "d_id q = k" "\<forall>a \<in> set xs. a_discussionId a = k" "\<forall>c \<in> set ys. c_discussionId c = k"
    and "\<forall>x \<in> set zs. ac_discussionId x = k"
  shows "elsewhere k s (save_discussion q (s\<lparr>answers := answers s @ xs, comments := comments s @ ys,
    answerAcceptances := answerAcceptances s @ zs\<rparr>))"
  using assms
  by (simp add: elsewhere_def of_defs) (auto simp: save_discussion_def filter_put_other intro!: filter_False)

lemma post_inv_create_answer:
  assumes inv: "post_inv s" shows "post_inv (snd (create_answer e di dto u s))"
proof (rule create_answer_cases [of s e di dto u])
  assume "content_eq s (snd (create_answer e di dto u s))"
  then show ?thesis using inv post_inv_content_eq by simp
next
  fix t author and q :: discussion
  let ?a = "new_answer e di author dto"
  let ?q = "q\<lparr>d_answerCount := d_answerCount q + 1\<rparr>"
  let ?s = "save_discussion ?q (t\<lparr>answers := answers t @ [?a]\<rparr>)"
  assume st: "content_eq s t" and q: "find_discussion di t = Some q"
    and fresh: "fresh e 0 \<notin> a_id ` set (answers t)"
    and s': "content_eq (save_discussion ?q (t\<lparr>answers := answers t @ [?a],
            answerRevisions := answerRevisions t @ [first_answer_revision ?a author]\<rparr>))
         (snd (create_answer e di dto u s))"
  have t: "post_inv t" using inv st post_inv_content_eq by simp
  note p = post_invD [OF t q]
  have a: "a_id ?a = fresh e 0" "a_discussionId ?a = di" "a_live ?a"
    by (simp_all add: new_answer_def a_live_def)
  have "post_ok ?s ?q"
    using p(1,2) a
    by (auto simp: post_ok_def ok_defs answers_of_def comments_of_def revisions_of_def active_answers_eq
        save_discussion_def count_where_append)
  moreover have "elsewhere di t ?s"
    using elsewhere_add [of ?q di "[?a]" "[]" "[]" t] p(2) a by simp
  ultimately have "post_inv ?s"
    using p(2) post_inv_keys [OF t] fresh a(1)
    by (intro post_inv_put [OF t q]) (simp_all add: save_discussion_def)
  then have "post_inv (save_discussion ?q (t\<lparr>answers := answers t @ [?a],
            answerRevisions := answerRevisions t @ [first_answer_revision ?a author]\<rparr>))"
    by (subst post_inv_cong [of _ ?s]) (simp_all add: save_discussion_def)
  then show ?thesis using s' post_inv_content_eq by simp
qed

text \<open>An answer is edited or deleted, with the counter of its question.\<close>

lemma post_inv_answer_row:
  assumes inv: "post_inv s" and q: "find_discussion k s = Some q"
    and a: "a \<in> set (answers s)" "a_live a" "a_discussionId a = k"
    and a': "a_id a' = a_id a" "a_discussionId a' = k" "a_live a' \<or> d_acceptedAnswerId q \<noteq> Some (a_id a)"
  shows "post_inv (save_discussion (q\<lparr>d_answerCount := d_answerCount q - of_bool (\<not> a_live a')\<rparr>)
    (save_answer a' s))" (is "post_inv (save_discussion ?q ?t)")
proof -
  note p = post_invD [OF inv q] and keys = post_inv_keys [OF inv]
  have sa: "elsewhere k s ?t" "answers_of k ?t = put a_id a' (answers_of k s)"
    using elsewhere_save_answer [OF keys(2) a(1) a'(1)] a(3) a'(2) by simp_all
  have dist: "distinct (map a_id (answers_of k s))" "a \<in> set (answers_of k s)"
    using keys(2) a by (simp_all add: answers_of_def distinct_map_filter)
  have cnt: "int (count_where a_live (answers_of k ?t)) =
      int (count_where a_live (answers_of k s)) - of_bool (\<not> a_live a')"
    unfolding sa(2) using count_put [OF dist, of a' a_live] a(2) a'(1) by simp
  have row: "\<exists>x \<in> set (answers_of k ?t). a_id x = i \<and> a_live x"
    if "d_acceptedAnswerId q = Some i" "\<exists>x \<in> set (answers_of k s). a_id x = i \<and> a_live x" for i
  proof (cases "i = a_id a")
    case True
    then show ?thesis
      unfolding sa(2) set_put [of a "answers_of k s" a_id a', OF dist(2) a'(1) [symmetric]]
      using that(1) a' by auto
  next
    case False
    then show ?thesis
      unfolding sa(2) set_put [of a "answers_of k s" a_id a', OF dist(2) a'(1) [symmetric]]
      using that(2) a'(1) by auto
  qed
  have of: "comments_of k ?t = comments_of k s" "active_answers k ?t = active_answers k s"
    "revisions_of k ?t = revisions_of k s"
    by (simp_all add: of_defs active_answers_eq save_answer_def)
  have "post_ok ?t ?q"
    using p(1,2) of cnt row by (auto simp: post_ok_def ok_defs)
  then have ok: "post_ok (save_discussion ?q ?t) ?q" by (simp add: post_ok_save_iff)
  show ?thesis
    using p(2) keys elsewhere_trans [OF sa(1) elsewhere_save_discussion [of ?q k]]
    by (intro post_inv_put [OF inv q _ _ _ _ _ ok])
      (simp_all add: save_discussion_def save_answer_def put_keys)
qed

lemma post_inv_edited_answer:
  assumes inv: "post_inv s" and q: "find_discussion k s = Some q"
    and a: "a \<in> set (answers s)" "a_live a" "a_discussionId a = k"
    and a': "a_id a' = a_id a" "a_discussionId a' = k" "a_live a'"
  shows "post_inv (save_answer a' s)"
proof -
  have "save_discussion q (save_answer a' s) = save_answer a' (save_discussion q s)"
    by (simp add: save_discussion_def save_answer_def)
  then show ?thesis
    using post_inv_answer_row [OF inv q a a'(1,2)] a'(3) save_discussion_same [OF inv q] by simp
qed

lemma live_counted:
  assumes "post_ok s q" "a \<in> set (answers s)" "a_live a" "a_discussionId a = d_id q"
  shows "1 \<le> d_answerCount q"
proof -
  have "count_where a_live (answers_of (d_id q) s) \<noteq> 0"
    using assms(2-4) by (auto simp: count_where_zero answers_of_def)
  then show ?thesis using post_okD(5) [OF assms(1)] by (simp add: counts_ok_def)
qed

lemma post_inv_remove_answer:
  assumes inv: "post_inv s" shows "post_inv (snd (remove_answer e i u s))"
proof (rule remove_answer_cases [of s e i u])
  assume "content_eq s (snd (remove_answer e i u s))"
  then show ?thesis using inv post_inv_content_eq by simp
next
  fix a q actor
  assume a: "find_answer i s = Some a" and q: "find_discussion (a_discussionId a) s = Some q"
    and s': "content_eq (removed_answer e a q actor s) (snd (remove_answer e i u s))"
  define q1 where "q1 = (if d_acceptedAnswerId q = Some (a_id a)
      then fst (revokeAcceptance e q actor ''answer_deleted'' s) else q)"
  define s1 where "s1 = (if d_acceptedAnswerId q = Some (a_id a)
      then snd (revokeAcceptance e q actor ''answer_deleted'' s) else s)"
  note r = revoked [OF inv q, of e actor "''answer_deleted''"] and f = answer_repo.found [OF a]
  have s1: "post_inv s1" "find_discussion (a_discussionId a) s1 = Some q1" "answers s1 = answers s"
    "d_acceptedAnswerId q1 \<noteq> Some (a_id a)"
    using inv q r by (simp_all add: s1_def q1_def)
  have "1 \<le> d_answerCount q1"
    by (rule live_counted [of s1 q1 a]) (use f s1 post_invD [OF s1(1,2)] in simp_all)
  then have "removed_answer e a q actor s = save_discussion
      (q1\<lparr>d_answerCount := d_answerCount q1 - of_bool (\<not> a_live (a\<lparr>a_deletedAt := Some (now e)\<rparr>))\<rparr>)
      (save_answer (a\<lparr>a_deletedAt := Some (now e)\<rparr>) s1)"
    by (cases "revokeAcceptance e q actor ''answer_deleted'' s")
      (auto simp: removed_answer_def q1_def s1_def a_live_def)
  moreover have "post_inv \<dots>"
    by (rule post_inv_answer_row [OF s1(1,2)]) (use f s1 in auto)
  ultimately show ?thesis using s' post_inv_content_eq by simp
qed

lemma post_inv_update_answer:
  assumes inv: "post_inv s" shows "post_inv (snd (update_answer e i dto u s))"
proof (rule update_answer_cases [of s e i dto u])
  assume "content_eq s (snd (update_answer e i dto u s))"
  then show ?thesis using inv post_inv_content_eq by simp
next
  fix a q editor
  let ?s = "(save_answer (next_answer dto a) s)\<lparr>answerRevisions := answerRevisions s @
              [next_answer_revision dto a editor]\<rparr>"
  assume a: "find_answer i s = Some a" and q: "find_discussion (a_discussionId a) s = Some q"
    and s': "snd (update_answer e i dto u s) = (let s1 = ?s in
          if ua_revisionType dto = Semantic \<and> d_acceptedAnswerId q = Some i
          then snd (revokeAcceptance e q editor ''answer_edited'' s1) else s1)"
  note f = answer_repo.found [OF a]
  have "post_inv (save_answer (next_answer dto a) s)"
    by (rule post_inv_edited_answer [OF inv q]) (use f in \<open>auto simp: next_answer_def a_live_def\<close>)
  then have s1: "post_inv ?s" by (subst post_inv_cong [of _ "save_answer (next_answer dto a) s"]) simp_all
  moreover have "find_discussion (a_discussionId a) ?s = Some q"
    using q by (simp add: find_discussion_def save_answer_def)
  ultimately show ?thesis using revoked(1) [OF s1] by (simp add: s' Let_def)
qed

lemma post_inv_accept_answer:
  assumes inv: "post_inv s" shows "post_inv (snd (accept_answer e di dto u s))"
proof (rule accept_answer_cases [of s e di dto u])
  assume "content_eq s (snd (accept_answer e di dto u s))"
  then show ?thesis using inv post_inv_content_eq by simp
next
  fix a q actor
  assume may: "may_accept di dto u actor a q s"
    and s': "content_eq (accepted_answer e a q actor s) (snd (accept_answer e di dto u s))"
  let ?q = "fst (revokeAcceptance e q actor ''replaced'' s)"
  let ?s = "snd (revokeAcceptance e q actor ''replaced'' s)"
  let ?p = "?q\<lparr>d_acceptedAnswerId := Some (a_id a), d_acceptedCommentId := None, d_status := Solved\<rparr>"
  let ?t = "?s\<lparr>answerAcceptances := answerAcceptances ?s @ [new_acceptance q a actor]\<rparr>"
  from may have q: "find_discussion di s = Some q" "d_postType q = Question"
    and a: "find_answer (aa_answerId dto) s = Some a" "a_discussionId a = d_id q"
    by (simp_all add: may_accept_def)
  note r = revoked [OF inv q(1), of e actor "''replaced''"] and f = answer_repo.found [OF a(1)]
  note p = post_invD [OF r(1,2)]
  have id: "d_id q = di" "d_id ?p = di" using post_invD(2) [OF inv q(1)] p(2) by simp_all
  have "active_answers di ?t = [a_id a]"
    using r(6) id(1) by (simp add: active_answers_eq new_acceptance_def ac_active_def)
  moreover have "answers_of di ?t = answers_of di ?s" "comments_of di ?t = comments_of di ?s"
    "revisions_of di ?t = revisions_of di ?s" "a \<in> set (answers_of di ?s)" "a_live a"
    using f r(4) a(2) id(1) by (simp_all add: of_defs)
  ultimately have "post_ok ?t ?p"
    using p(1,2) r(7) q(2) by (auto simp: post_ok_def ok_defs)
  then have ok: "post_ok (save_discussion ?p ?t) ?p" by (simp add: post_ok_save_iff)
  have "elsewhere di ?s (save_discussion ?p ?t)"
    using elsewhere_add [OF id(2), of "[]" "[]" "[new_acceptance q a actor]" ?s] id(1)
    by (simp add: new_acceptance_def)
  then have "post_inv (save_discussion ?p ?t)"
    using post_inv_keys [OF r(1)] id(2)
    by (intro post_inv_put [OF r(1,2) _ _ _ _ _ ok]) (simp_all add: save_discussion_def)
  then show ?thesis
    using s' post_inv_content_eq by (simp add: accepted_answer_def Let_def)
qed

lemma post_inv_remove_acceptance:
  "post_inv s \<Longrightarrow> post_inv (snd (remove_acceptance e di u s))"
  by (rule remove_acceptance_cases [of e di u s]) (simp_all add: revoked(1))

section \<open>Comments\<close>

lemma commented_rows:
  assumes "post_inv s" "find_discussion di s = Some p"
  shows "map (commented di) (discussions s) =
    put d_id (p\<lparr>d_commentCount := d_commentCount p + 1\<rparr>) (discussions s)"
proof -
  have "commented di d = (if d_id d = di then p\<lparr>d_commentCount := d_commentCount p + 1\<rparr> else d)"
    if "d \<in> set (discussions s)" for d
    using that post_inv_keys(1) [OF assms(1)] post_invD(2,4) [OF assms]
    by (auto simp: commented_def distinct_map dest: inj_onD)
  then show ?thesis
    using post_invD(2) [OF assms] by (simp add: put_def update_where_def)
qed

lemma post_inv_create_comment:
  assumes inv: "post_inv s" shows "post_inv (snd (create_comment e di u dto s))"
proof (rule create_comment_cases [of s e di u dto])
  assume "content_eq s (snd (create_comment e di u dto s))"
  then show ?thesis using inv post_inv_content_eq by simp
next
  fix t author p pid
  let ?c = "new_comment e di author pid dto"
  let ?p = "p\<lparr>d_commentCount := d_commentCount p + 1\<rparr> :: discussion"
  let ?s = "save_discussion ?p (t\<lparr>comments := comments t @ [?c]\<rparr>)"
  assume st: "content_eq s t" and q: "find_discussion di t = Some p"
    and fresh: "fresh e 0 \<notin> c_id ` set (comments t)"
    and s': "content_eq (t\<lparr>comments := comments t @ [?c], discussions := map (commented di) (discussions t)\<rparr>)
         (snd (create_comment e di u dto s))"
  have t: "post_inv t" using inv st post_inv_content_eq by simp
  note p = post_invD [OF t q]
  have c: "c_id ?c = fresh e 0" "c_discussionId ?c = di" "c_live ?c"
    by (simp_all add: new_comment_def c_live_def)
  have "post_ok ?s ?p"
    using p(1,2) c
    by (auto simp: post_ok_def ok_defs answers_of_def comments_of_def revisions_of_def active_answers_eq
        save_discussion_def count_where_append)
  moreover have "elsewhere di t ?s"
    using elsewhere_add [of ?p di "[]" "[?c]" "[]" t] p(2) c by simp
  ultimately have "post_inv ?s"
    using p(2) post_inv_keys [OF t] fresh c(1)
    by (intro post_inv_put [OF t q]) (simp_all add: save_discussion_def)
  moreover have "?s = t\<lparr>comments := comments t @ [?c], discussions := map (commented di) (discussions t)\<rparr>"
    using commented_rows [OF t q] by (simp add: save_discussion_def)
  ultimately show ?thesis using s' post_inv_content_eq by simp
qed

lemma post_inv_comment_row:
  assumes inv: "post_inv s" and q: "find_discussion k s = Some q"
    and c: "c \<in> set (comments s)" "c_live c" "c_discussionId c = k"
    and c': "c_id c' = c_id c" "c_discussionId c' = k" "c_authorId c' = c_authorId c"
      "c_parentCommentId c' = c_parentCommentId c"
    and q': "c_live c' \<or> d_acceptedCommentId q' \<noteq> Some (c_id c)"
      "d_id q' = k" "post_ok s (q'\<lparr>d_commentCount := d_commentCount q\<rparr>)"
      "d_commentCount q' = d_commentCount q - of_bool (\<not> c_live c')"
  shows "post_inv (save_discussion q' (save_comment c' s))" (is "post_inv (save_discussion _ ?t)")
proof -
  note p = post_invD [OF inv q] and keys = post_inv_keys [OF inv]
  have sa: "elsewhere k s ?t" "comments_of k ?t = put c_id c' (comments_of k s)"
    using elsewhere_save_comment [OF keys(3) c(1) c'(1)] c(3) c'(2) by simp_all
  have dist: "distinct (map c_id (comments_of k s))" "c \<in> set (comments_of k s)"
    using keys(3) c by (simp_all add: comments_of_def distinct_map_filter)
  have same: "x = c" if "x \<in> set (comments_of k s)" "c_id x = c_id c" for x
    using dist that by (metis distinct_map inj_onD)
  have cnt: "int (count_where c_live (comments_of k ?t)) =
      int (count_where c_live (comments_of k s)) - of_bool (\<not> c_live c')"
    unfolding sa(2) using count_put [OF dist, of c' c_live] c(2) c'(1) by simp
  have row: "\<exists>x \<in> set (comments_of k ?t). c_id x = i \<and> c_live x \<and> c_parentCommentId x = None \<and> c_authorId x \<noteq> b"
    if acc: "d_acceptedCommentId q' = Some i"
      and old: "\<exists>x \<in> set (comments_of k s). c_id x = i \<and> c_live x \<and> c_parentCommentId x = None \<and> c_authorId x \<noteq> b"
    for i b
  proof (cases "i = c_id c")
    case True
    with old same have "c_parentCommentId c = None \<and> c_authorId c \<noteq> b" by blast
    then show ?thesis
      unfolding sa(2) set_put [of c "comments_of k s" c_id c', OF dist(2) c'(1) [symmetric]]
      using True acc q'(1) c' by auto
  next
    case False
    then show ?thesis
      unfolding sa(2) set_put [of c "comments_of k s" c_id c', OF dist(2) c'(1) [symmetric]]
      using old c'(1) by auto
  qed
  have of: "answers_of k ?t = answers_of k s" "active_answers k ?t = active_answers k s"
    "revisions_of k ?t = revisions_of k s"
    by (simp_all add: of_defs active_answers_eq save_comment_def)
  have "post_ok ?t q'"
    using p(1,2) q'(2,3,4) of cnt row by (auto simp: post_ok_def ok_defs)
  then have ok: "post_ok (save_discussion q' ?t) q'" by (simp add: post_ok_save_iff)
  show ?thesis
    using q'(2) keys elsewhere_trans [OF sa(1) elsewhere_save_discussion [of q' k]]
    by (intro post_inv_put [OF inv q _ _ _ _ _ ok])
      (simp_all add: save_discussion_def save_comment_def put_keys)
qed

lemma clear_accepted_comment_fields:
  "d_id (clear_accepted_comment i p) = d_id p"
  "d_commentCount (clear_accepted_comment i p) = d_commentCount p"
  "d_acceptedCommentId (clear_accepted_comment i p) \<noteq> Some i"
  "(clear_accepted_comment i p)\<lparr>d_commentCount := n\<rparr> = clear_accepted_comment i (p\<lparr>d_commentCount := n\<rparr>)"
  by (simp_all add: clear_accepted_comment_def)

lemma post_ok_clear_accepted_comment: "post_ok s p \<Longrightarrow> post_ok s (clear_accepted_comment i p)"
  by (auto simp: post_ok_def ok_defs clear_accepted_comment_def)

lemma edited_comment_fields:
  "c_id (edited_comment dto c) = c_id c" "c_discussionId (edited_comment dto c) = c_discussionId c"
  "c_authorId (edited_comment dto c) = c_authorId c" "c_live (edited_comment dto c) = c_live c"
  "c_parentCommentId (edited_comment dto c) = c_parentCommentId c"
  by (simp_all add: edited_comment_def Let_def c_live_def)

lemma save_swap: "save_discussion p (save_comment c s) = save_comment c (save_discussion p s)"
  by (simp add: save_discussion_def save_comment_def)

lemma post_inv_update_comment:
  assumes inv: "post_inv s" shows "post_inv (snd (update_comment e i u dto s))"
proof (rule update_comment_cases [of e i u dto s])
  assume "snd (update_comment e i u dto s) = s"
  then show ?thesis using inv by simp
next
  fix post c
  assume c: "find_comment i s = Some c" and q: "find_discussion (c_discussionId c) s = Some post"
    and s': "snd (update_comment e i u dto s) = save_comment (edited_comment dto c)
         (if uc_content dto \<noteq> None \<and> uc_content dto \<noteq> Some (c_content c)
          then save_discussion (clear_accepted_comment i post) s else s)"
  note f = comment_repo.found [OF c] and p = post_invD [OF inv q]
  have "post_inv (save_discussion q' (save_comment (edited_comment dto c) s))"
    if "q' = post \<or> q' = clear_accepted_comment i post" for q'
    using that p f post_ok_clear_accepted_comment [OF p(1), of i]
    by (intro post_inv_comment_row [OF inv q, of c])
      (auto simp: edited_comment_fields clear_accepted_comment_fields)
  then show ?thesis
    using save_discussion_same [OF inv q] unfolding s' save_swap by (metis (full_types))
qed

lemma post_inv_remove_comment:
  assumes inv: "post_inv s" shows "post_inv (snd (remove_comment e i u s))"
proof (rule remove_comment_cases [of e i u s])
  assume "snd (remove_comment e i u s) = s"
  then show ?thesis using inv by simp
next
  fix post c
  let ?c = "c\<lparr>c_deletedAt := Some (now e)\<rparr> :: comment"
  let ?p = "post\<lparr>d_commentCount := max 0 (d_commentCount post - 1)\<rparr> :: discussion"
  assume c: "find_comment i s = Some c" and q: "find_discussion (c_discussionId c) s = Some post"
    and s': "snd (remove_comment e i u s) = save_discussion (clear_accepted_comment i ?p) (save_comment ?c s)"
  note f = comment_repo.found [OF c] and p = post_invD [OF inv q]
  have "count_where c_live (comments_of (d_id post) s) \<noteq> 0"
    using f p(2) by (auto simp: count_where_zero comments_of_def)
  then have pos: "1 \<le> d_commentCount post" using post_okD(5) [OF p(1)] by (simp add: counts_ok_def)
  show ?thesis
    unfolding s'
    using p f pos post_ok_clear_accepted_comment [OF p(1), of i]
    by (intro post_inv_comment_row [OF inv q, of c])
      (auto simp: clear_accepted_comment_fields c_live_def)
qed

end
