(* ===== verification/Room_Frame.thy ===== *)
theory Room_Frame
  imports Effects
begin

text \<open>
  What content operations may do to the rooms: nothing but the membership the posting gate creates
  when it lets its caller in.
\<close>

type_synonym room_tables =
  "room list \<times> room_academic_binding list \<times> room_membership list \<times> room_rule list \<times> policy_audit list"

definition room_part :: "db \<Rightarrow> room_tables" where
  "room_part s = (rooms s, bindings s, memberships s, roomRules s, policyAudits s)"

lemma room_part_updates [simp]:
  "room_part (save_discussion d s) = room_part s" "room_part (save_comment c s) = room_part s"
  "room_part (save_answer a s) = room_part s" "room_part (save_tag t s) = room_part s"
  "room_part (revoke_acceptances e i x r s) = room_part s" "room_part (tagCounts ids n s) = room_part s"
  "room_part (attach i ids s) = room_part s" "room_part (replace_tags i ids s) = room_part s"
  "room_part (retag_counts ids ids' s) = room_part s" "room_part (set_counters ty i up down s) = room_part s"
  "room_part (s\<lparr>discussions := v1\<rparr>) = room_part s" "room_part (s\<lparr>discussionTags := v2\<rparr>) = room_part s"
  "room_part (s\<lparr>discussionMedia := v3\<rparr>) = room_part s" "room_part (s\<lparr>discussionRevisions := v4\<rparr>) = room_part s"
  "room_part (s\<lparr>tags := v5\<rparr>) = room_part s" "room_part (s\<lparr>comments := v6\<rparr>) = room_part s"
  "room_part (s\<lparr>answers := v7\<rparr>) = room_part s" "room_part (s\<lparr>answerRevisions := v8\<rparr>) = room_part s"
  "room_part (s\<lparr>answerAcceptances := v9\<rparr>) = room_part s" "room_part (s\<lparr>votes := v10\<rparr>) = room_part s"
  "room_part (s\<lparr>moderationReviews := v11\<rparr>) = room_part s" "room_part (s\<lparr>outbox := v12\<rparr>) = room_part s"
  by (simp_all add: room_part_def save_defs revoke_acceptances_def tagCounts_def attach_def
      replace_tags_def retag_counts_def set_counters_def split: target_type.splits)

lemma room_part_revokeAcceptance [simp]: "room_part (snd (revokeAcceptance e q a r s)) = room_part s"
  by (simp add: revokeAcceptance_def Let_def)

lemma room_part_same_content: "same_content s s' \<Longrightarrow> room_part s' = room_part s"
  by (simp add: room_part_def same_content_tables)

lemma room_part_event: "event e k ty data s = Inr s' \<Longrightarrow> room_part s' = room_part s"
  by (drule event_same_content) (rule room_part_same_content)

lemma room_part_mentions: "emit_mentions e k c a ctx s = Inr s' \<Longrightarrow> room_part s' = room_part s"
  by (drule emit_mentions_same_content) (rule room_part_same_content)

lemmas room_part_calls = room_part_event room_part_mentions

section \<open>Operations without the gate\<close>

definition rooms_kept :: "db \<Rightarrow> db \<Rightarrow> bool" where
  "rooms_kept s s' \<longleftrightarrow> room_part s' = room_part s"

lemma rooms_kept_transaction:
  assumes "\<And>a s'. r = Inr (a, s') \<Longrightarrow> room_part s' = room_part s"
  shows "rooms_kept s (snd (transaction s r))"
  using assms by (cases r) (auto simp: rooms_kept_def)

lemma rooms_kept_remove_discussion: "rooms_kept s (snd (remove_discussion e i u s))"
  unfolding remove_discussion_def
  by (rule rooms_kept_transaction) (auto simp: bindE_Inr Let_def dest!: room_part_calls)

lemma rooms_kept_accept_comment: "rooms_kept s (snd (accept_comment e i u c s))"
  unfolding accept_comment_def then_find_snd
  by (rule rooms_kept_transaction)
    (auto simp: accept_comment_body_def bindE_Inr dest!: room_part_calls split: if_splits)

lemma rooms_kept_remove_accepted_comment: "rooms_kept s (snd (remove_accepted_comment e i u s))"
  unfolding remove_accepted_comment_def then_find_snd
  by (rule rooms_kept_transaction) (auto simp: bindE_Inr)

lemma rooms_kept_set_status: "rooms_kept s (snd (set_status e i u st s))"
  unfolding set_status_def then_find_snd
  by (rule rooms_kept_transaction) (auto simp: bindE_Inr)

lemma rooms_kept_findOne: "rooms_kept s (snd (findOne e i u c s))"
  by (rule findOne_cases [of e i u c s]) (simp_all add: rooms_kept_def)

lemma snd_then_lookup:
  "snd (case r of (Inl ex, t) \<Rightarrow> (Inl ex, t) | (Inr x, t) \<Rightarrow> (f x t, t)) = snd r"
  by (cases r; cases "fst r") auto

lemma rooms_kept_update_answer: "rooms_kept s (snd (update_answer e i dto u s))"
  unfolding update_answer_def snd_then_lookup
  by (rule rooms_kept_transaction)
    (auto simp: update_answer_body_def bindE_Inr insert_answer_revision_Inr split: if_splits prod.splits)

lemma room_part_removed_answer [simp]: "room_part (removed_answer e a q actor s) = room_part s"
proof -
  have "room_part s1 = room_part s" if "revokeAcceptance e q actor ''answer_deleted'' s = (q1, s1)" for q1 s1
    using that room_part_revokeAcceptance [of e q actor "''answer_deleted''" s] by simp
  then show ?thesis by (auto simp: removed_answer_def split: prod.splits if_splits)
qed

lemma rooms_kept_remove_answer: "rooms_kept s (snd (remove_answer e i u s))"
  unfolding remove_answer_def
  by (rule rooms_kept_transaction) (auto simp: remove_answer_body_def bindE_Inr dest!: room_part_calls)

lemma room_part_insert_acceptance: "insert_acceptance x s = Inr s' \<Longrightarrow> room_part s' = room_part s"
  by (auto simp: insert_acceptance_def split: if_splits)

lemma rooms_kept_accept_answer: "rooms_kept s (snd (accept_answer e di dto u s))"
  unfolding accept_answer_def snd_then_lookup
  by (rule rooms_kept_transaction)
    (auto simp: accept_answer_body_def bindE_Inr Let_def dest!: room_part_calls room_part_insert_acceptance)

lemma rooms_kept_remove_acceptance: "rooms_kept s (snd (remove_acceptance e di u s))"
  unfolding remove_acceptance_def
  by (rule rooms_kept_transaction) (auto simp: bindE_Inr)

lemma rooms_kept_update_comment: "rooms_kept s (snd (update_comment e i u dto s))"
  by (rule update_comment_cases [of e i u dto s]) (simp_all add: rooms_kept_def)

lemma rooms_kept_remove_comment: "rooms_kept s (snd (remove_comment e i u s))"
  by (rule remove_comment_cases [of e i u s]) (simp_all add: rooms_kept_def)

lemma rooms_kept_set_vote: "rooms_kept s (snd (set_vote ty i u v s))"
  by (rule set_vote_cases [of ty i u v s]) (simp_all add: rooms_kept_def voted_def Let_def)

lemma rooms_kept_review: "rooms_kept s (snd (review e ty i dto u s))"
proof (rule review_cases [of e ty i dto u s])
  fix actor scope post post1 s1 rs
  assume d: "decide e dto post s = Inr (post1, s1)"
    and s': "snd (review e ty i dto u s) =
        (save_discussion (reviewed_post e dto actor post post1 s1)
          (snd (revoke_on_review e dto actor (draft_of post \<noteq> None) post1 s1)))\<lparr>moderationReviews := rs\<rparr>"
  have "room_part s1 = room_part s" by (rule decide_cases [OF d]) simp_all
  then show ?thesis unfolding s' by (simp add: rooms_kept_def revoke_on_review_def)
qed (simp add: rooms_kept_def)

lemma snd_map_error [simp]: "snd (map_error f r) = snd r"
  by (cases r; cases "fst r") (auto simp: map_error_def)

lemma rooms_kept_tags:
  "rooms_kept s (snd (create_tag e cdto s))" "rooms_kept s (snd (update_tag e i udto s))"
  "rooms_kept s (snd (remove_tag i s))" "rooms_kept s (snd (set_tag_status e i st s))"
  "rooms_kept s (snd (merge_tags e i j s))"
  unfolding create_tag_def update_tag_def remove_tag_def set_tag_status_def merge_tags_def snd_map_error
  by (rule rooms_kept_transaction; auto simp: bindE_Inr Let_def)+

section \<open>Operations behind the gate\<close>

definition rooms_gated :: "db \<Rightarrow> db \<Rightarrow> bool" where
  "rooms_gated s s' \<longleftrightarrow>
     room_part s' = room_part s \<or> (\<exists>e r u. room_part s' = room_part (snd (assertCanPost e r u s)))"

lemma rooms_kept_gated: "rooms_kept s s' \<Longrightarrow> rooms_gated s s'"
  by (simp add: rooms_kept_def rooms_gated_def)

lemma rooms_gated_with_gate:
  assumes "\<And>pc t a s'. body pc t = Inr (a, s') \<Longrightarrow> room_part s' = room_part t"
  shows "rooms_gated s (snd (with_gate e r u body s))"
proof (cases r)
  case None
  then show ?thesis
    using rooms_kept_transaction [of "body None s" s] assms
    by (simp add: with_gate_def rooms_kept_gated)
next
  case (Some x)
  have "room_part (snd (transaction t (body pc t))) = room_part t" for pc t
    using rooms_kept_transaction [of "body pc t" t] assms by (simp add: rooms_kept_def)
  then have "room_part (snd (with_gate e r u body s)) = room_part (snd (assertCanPost e x u s))"
    using Some by (auto simp: with_gate_def split: prod.splits sum.splits)
  then show ?thesis by (auto simp: rooms_gated_def)
qed

lemma rooms_gated_update_discussion: "rooms_gated s (snd (update_discussion e i u dto s))"
proof -
  have *: "room_part s' = room_part t"
    if "update_discussion_body e dto editor post pc t = Inr (a, s')" for editor post pc t a s'
  proof -
    have d: "update_draft dto editor post t = Inr (a, s') \<Longrightarrow> room_part s' = room_part t"
      using update_draft_Inr(2) [of dto editor post t a s'] by simp
    have r: "change_tags ids post t = Inr t1 \<Longrightarrow> room_part t1 = room_part t" for ids t1
      by (drule change_tags_Inr) (cases t; cases t1; simp add: room_part_def)
    have "update_direct e dto editor req post t = Inr (a, s') \<Longrightarrow> room_part s' = room_part t" for req
      by (erule update_direct_Inr) (auto simp: edit_acceptances_def dest!: r)
    then show ?thesis
      using d update_discussion_body_Inr(3) [OF that refl] by (auto split: if_splits)
  qed
  show ?thesis
    unfolding update_discussion_def then_find_snd
    using rooms_gated_with_gate [of "update_discussion_body e dto _ _", OF *]
    by (auto split: sum.splits simp: rooms_gated_def [of s s])
qed

lemma rooms_gated_create_answer: "rooms_gated s (snd (create_answer e di dto u s))"
proof -
  have *: "room_part s' = room_part t"
    if "create_answer_body e di dto author q pc t = Inr (a, s')" for author q pc t a s'
    using that unfolding create_answer_body_def Let_def returns insert_answer_revision_Inr
    by (auto split: if_splits dest!: room_part_calls)
  show ?thesis
    unfolding create_answer_def snd_then_lookup
    using rooms_gated_with_gate [of "create_answer_body e di dto _ _", OF *]
    by (auto split: sum.splits simp: rooms_gated_def [of s s])
qed

lemma rooms_gated_create_comment: "rooms_gated s (snd (create_comment e di u dto s))"
proof -
  have *: "room_part s' = room_part t"
    if "create_comment_body e di dto author q pc t = Inr (a, s')" for author q pc t a s'
    using that unfolding create_comment_body_def Let_def returns
    by (auto split: if_splits dest!: room_part_calls)
  show ?thesis
    unfolding create_comment_def snd_then_lookup
    using rooms_gated_with_gate [of "create_comment_body e di dto _ _", OF *]
    by (auto split: sum.splits simp: rooms_gated_def [of s s])
qed

lemma rooms_gated_create_discussion: "rooms_gated s (snd (create_discussion e u dto s))"
proof -
  have *: "room_part s' = room_part t"
    if "create_discussion_body e dto author sel pc t = Inr (a, s')" for author sel pc t a s'
    using that unfolding create_discussion_body_def Let_def returns
    by (auto simp: link_tags_def insert_revision_def returns split: if_splits dest!: room_part_calls)
  have gated: "rooms_gated s (snd (transaction t (create_discussion_body e dto author sel pc t)))"
    if "assertCanPost e r u s = (x, t)" for author sel pc r x t
    using rooms_kept_transaction [of "create_discussion_body e dto author sel pc t" t] * that
    unfolding rooms_kept_def rooms_gated_def by (metis snd_conv)
  have here: "rooms_gated s t" if "assertCanPost e r u s = (x, t)" for r x t
    using that unfolding rooms_gated_def by (metis snd_conv)
  show ?thesis
    unfolding create_discussion_def
    using gated here
    by (auto split: sum.splits prod.splits simp: rooms_gated_def [of s s] findOne_def) (metis snd_conv)+
qed

lemma rooms_inv_gated:
  assumes "rooms_inv s" "rooms_gated s s'" shows "rooms_inv s'"
proof -
  have eq: "rooms_inv s' = rooms_inv t" if "room_part s' = room_part t" for t
    using that by (intro rooms_inv_cong) (simp_all add: room_part_def)
  show ?thesis
    using assms eq rooms_inv_assertCanPost [OF assms(1)] unfolding rooms_gated_def by metis
qed

end
