(* ===== verification/Room_Steps.thy ===== *)
theory Room_Steps
  imports Room_Frame
begin

text \<open>
  Every operation on rooms keeps the invariant of the rooms (each room has an active owner, keys are
  unique, rule versions are numbered, a major has one canonical room) and touches no content.
\<close>

section \<open>Room operations keep the rooms well formed\<close>

lemma rooms_invI: "rooms_ok s \<Longrightarrow> rules_versioned s \<Longrightarrow> majors_unique s \<Longrightarrow> rooms_inv s"
  by (simp add: rooms_inv_def)

lemma rooms_invD:
  assumes "rooms_inv s" shows "rooms_ok s" "rules_versioned s" "majors_unique s"
  using assms by (simp_all add: rooms_inv_def)

lemma update_membership_rules: "roomRules (snd (update_membership e r j dto u s)) = roomRules s"
proof (cases "update_membership e r j dto u s")
  case (Pair res s')
  then show ?thesis
    by (cases res)
      (auto dest: update_membership_error elim!: update_membership_Inr simp: save_membership_def)
qed

lemma update_room_status_rules: "roomRules (snd (update_room_status e r st u s)) = roomRules s"
proof (cases "update_room_status e r st u s")
  case (Pair res s')
  then show ?thesis
    by (cases res)
      (auto dest: update_room_status_error elim!: update_room_status_Inr simp: save_room_def)
qed

lemma update_policy_rules: "roomRules (snd (update_policy e r dto u s)) = roomRules s"
proof (cases "update_policy e r dto u s")
  case (Pair res s')
  then show ?thesis
    by (cases res) (auto dest: update_policy_error elim!: update_policy_Inr simp: save_room_def)
qed

lemma rooms_inv_room_steps:
  assumes "rooms_inv s"
  shows "rooms_inv (snd (create_room e cdto u s))" "rooms_inv (snd (join_room e i u s))"
    "rooms_inv (snd (add_rule e i rdto u s))" "rooms_inv (snd (update_membership e i j mdto u s))"
    "rooms_inv (snd (update_room_status e i st u s))" "rooms_inv (snd (update_policy e i pdto u s))"
proof -
  note a = rooms_invD [OF assms]
  note rules = rules_versioned_cong [OF create_room_rules] rules_versioned_cong [OF join_room_rules]
    rules_versioned_cong [OF update_membership_rules] rules_versioned_cong [OF update_room_status_rules]
    rules_versioned_cong [OF update_policy_rules]
  show "rooms_inv (snd (create_room e cdto u s))"
    using a by (intro rooms_invI rooms_ok_create_room majors_unique_create_room) (simp_all add: rules)
  show "rooms_inv (snd (join_room e i u s))"
    using a by (intro rooms_invI rooms_ok_join majors_unique_join) (simp_all add: rules)
  show "rooms_inv (snd (add_rule e i rdto u s))"
    using a by (intro rooms_invI rooms_ok_add_rule majors_unique_add_rule rules_versioned_add_rule)
  show "rooms_inv (snd (update_membership e i j mdto u s))"
    using a by (intro rooms_invI rooms_ok_update_membership majors_unique_update_membership)
      (simp_all add: rules)
  show "rooms_inv (snd (update_room_status e i st u s))"
    using a by (intro rooms_invI rooms_ok_update_room_status majors_unique_update_room_status)
      (simp_all add: rules)
  show "rooms_inv (snd (update_policy e i pdto u s))"
    using a by (intro rooms_invI rooms_ok_update_policy majors_unique_update_policy)
      (simp_all add: rules)
qed

lemma rooms_inv_kept: "rooms_inv s \<Longrightarrow> rooms_kept s s' \<Longrightarrow> rooms_inv s'"
  by (erule rooms_inv_gated) (rule rooms_kept_gated)

lemma rooms_inv_init: "rooms_inv init_db"
  by (auto simp: rooms_inv_def rooms_ok_def rooms_keyed_def owned_def seeded_def rules_versioned_def
      majors_unique_def init_db_def seeded_room_def general_id_def off_topic_id_def)

section \<open>Room operations touch no content\<close>

text \<open>All the tables that do not belong to rooms, except the outbox.\<close>

definition content_kept :: "db \<Rightarrow> db \<Rightarrow> bool" where
  "content_kept s s' \<longleftrightarrow>
     s'\<lparr>rooms := [], bindings := [], memberships := [], roomRules := [], policyAudits := [], outbox := []\<rparr>
     = s\<lparr>rooms := [], bindings := [], memberships := [], roomRules := [], policyAudits := [], outbox := []\<rparr>"

lemma content_kept_refl [simp]: "content_kept s s"
  by (simp add: content_kept_def)

lemma content_kept_tables:
  assumes "content_kept s s'"
  shows "discussions s' = discussions s" "discussionTags s' = discussionTags s"
    "discussionMedia s' = discussionMedia s" "discussionRevisions s' = discussionRevisions s"
    "tags s' = tags s" "comments s' = comments s" "answers s' = answers s"
    "answerRevisions s' = answerRevisions s" "answerAcceptances s' = answerAcceptances s"
    "votes s' = votes s" "moderationReviews s' = moderationReviews s"
  using assms by (cases s; cases s'; simp add: content_kept_def)+

lemma content_kept_simps:
  "content_kept s (s\<lparr>memberships := ms\<rparr>)" "content_kept s (save_membership m s)"
  "content_kept s (save_membership m (s\<lparr>policyAudits := as\<rparr>))" "content_kept s (save_room r s)"
  "content_kept s (save_room r (s\<lparr>policyAudits := as\<rparr>))"
  by (simp_all add: content_kept_def save_membership_def save_room_def)

lemma content_kept_same_content:
  "same_content (s\<lparr>rooms := rs, bindings := bs, memberships := ms\<rparr>) s' \<Longrightarrow> content_kept s s'"
  "same_content (save_room r (s\<lparr>roomRules := rus\<rparr>)) s' \<Longrightarrow> content_kept s s'"
  by (cases s; cases s'; simp add: content_kept_def same_content_def save_room_def)+

lemma content_kept_create_room: "content_kept s (snd (create_room e dto u s))"
proof (rule create_room_cases [of e dto u s])
  fix actor parent ctx i s'
  assume "create_body e dto actor parent ctx s = Inr (i, s')"
    and res: "create_room e dto u s = (findOne_room i u s', s')"
  from this(1) have "content_kept s s'" by (rule create_body_Inr) (erule content_kept_same_content)
  then show ?thesis using res by simp
qed simp

lemma content_kept_join_room: "content_kept s (snd (join_room e i u s))"
  by (rule join_room_cases [of e i u s]) (simp_all add: content_kept_simps)

lemma content_kept_update_membership: "content_kept s (snd (update_membership e r j dto u s))"
proof (cases "update_membership e r j dto u s")
  case (Pair res s')
  then show ?thesis
    by (cases res)
      (auto dest: update_membership_error elim!: update_membership_Inr simp: content_kept_simps)
qed

lemma content_kept_update_room_status: "content_kept s (snd (update_room_status e r st u s))"
proof (cases "update_room_status e r st u s")
  case (Pair res s')
  then show ?thesis
    by (cases res)
      (auto dest: update_room_status_error elim!: update_room_status_Inr simp: content_kept_simps)
qed

lemma content_kept_update_policy: "content_kept s (snd (update_policy e r dto u s))"
proof (cases "update_policy e r dto u s")
  case (Pair res s')
  then show ?thesis
    by (cases res)
      (auto dest: update_policy_error elim!: update_policy_Inr simp: content_kept_simps)
qed

lemma content_kept_add_rule: "content_kept s (snd (add_rule e r dto u s))"
proof (cases "add_rule e r dto u s")
  case (Pair res s')
  then show ?thesis
    by (cases res) (auto dest: add_rule_error elim!: add_rule_Inr intro: content_kept_same_content)
qed

lemmas content_kept_room_steps = content_kept_create_room content_kept_join_room
  content_kept_update_membership content_kept_update_room_status content_kept_update_policy
  content_kept_add_rule

end
