(* ===== verification/Tally.thy ===== *)
theory Tally
  imports Post_Steps Room_Steps
begin

text \<open>
  What always holds of votes: a user has at most one vote on a target and none on his own content,
  every vote is on something that exists, and the counters shown with a post, a comment or an answer
  are the numbers of its votes. Operations other than votes keep the tally: author and counters of
  every row.
\<close>

section \<open>The tally\<close>

type_synonym tally_row = "uuid \<times> uuid \<times> int \<times> int"

definition d_tally :: "discussion \<Rightarrow> tally_row" where
  "d_tally d = (d_id d, d_authorId d, d_upvoteCount d, d_downvoteCount d)"

definition c_tally :: "comment \<Rightarrow> tally_row" where
  "c_tally c = (c_id c, c_authorId c, c_upvoteCount c, c_downvoteCount c)"

definition a_tally :: "answer \<Rightarrow> tally_row" where
  "a_tally a = (a_id a, a_authorId a, a_upvoteCount a, a_downvoteCount a)"

definition tally :: "target_type \<Rightarrow> db \<Rightarrow> tally_row list" where
  "tally ty s =
     (case ty of OnDiscussion \<Rightarrow> map d_tally (discussions s) | OnComment \<Rightarrow> map c_tally (comments s)
      | OnAnswer \<Rightarrow> map a_tally (answers s))"

definition counted :: "target_type \<Rightarrow> vote list \<Rightarrow> tally_row \<Rightarrow> bool" where
  "counted ty vs row \<longleftrightarrow>
     (case row of (i, author, up, down) \<Rightarrow>
        up = count_votes Upvote ty i vs \<and> down = count_votes Downvote ty i vs \<and>
        (\<forall>v \<in> set vs. v_targetType v = ty \<and> v_targetId v = i \<longrightarrow> v_userId v \<noteq> author))"

definition votes_inv :: "db \<Rightarrow> bool" where
  "votes_inv s \<longleftrightarrow>
     distinct (map v_key (votes s)) \<and>
     (\<forall>ty. \<forall>row \<in> set (tally ty s). counted ty (votes s) row) \<and>
     (\<forall>v \<in> set (votes s). v_targetId v \<in> fst ` set (tally (v_targetType v) s))"

lemma map_put:
  assumes "distinct (map key t)" "y \<in> set t" "key x = key y" "f x = f y"
  shows "map f (put key x t) = map f t"
proof -
  have "f (if key r = key x then x else r) = f r" if "r \<in> set t" for r
    using assms that by (auto simp: distinct_map dest: inj_onD)
  then show ?thesis by (simp add: put_def update_where_def)
qed

definition tally_eq :: "db \<Rightarrow> db \<Rightarrow> bool" where
  "tally_eq s s' \<longleftrightarrow> votes s' = votes s \<and> (\<forall>ty. tally ty s' = tally ty s)"

lemma tally_eqI:
  "votes s' = votes s \<Longrightarrow> map d_tally (discussions s') = map d_tally (discussions s) \<Longrightarrow>
   map c_tally (comments s') = map c_tally (comments s) \<Longrightarrow>
   map a_tally (answers s') = map a_tally (answers s) \<Longrightarrow> tally_eq s s'"
  by (simp add: tally_eq_def tally_def split: target_type.splits)

lemma tally_eq_refl [simp]: "tally_eq s s"
  by (simp add: tally_eq_def)

lemma tally_eq_trans [trans]: "tally_eq s t \<Longrightarrow> tally_eq t u \<Longrightarrow> tally_eq s u"
  by (simp add: tally_eq_def)

lemma tally_eq_content: "content_eq s s' \<Longrightarrow> tally_eq s s'"
  by (rule tally_eqI) (simp_all add: content_eq_tables)

lemma tally_eq_kept: "content_kept s s' \<Longrightarrow> tally_eq s s'"
  by (rule tally_eqI) (simp_all add: content_kept_tables)

lemma votes_inv_eq: "votes_inv s \<Longrightarrow> tally_eq s s' \<Longrightarrow> votes_inv s'"
  by (simp add: votes_inv_def tally_eq_def)

lemma tally_eq_save_discussion:
  assumes "post_inv s" "find_discussion i s = Some p" "d_tally p' = d_tally p"
  shows "tally_eq s (save_discussion p' s)"
  using assms map_put [OF post_inv_keys(1) [OF assms(1)] post_invD(4) [OF assms(1,2)], of p' d_tally]
  by (intro tally_eqI) (simp_all add: save_discussion_def d_tally_def)

lemma tally_eq_save_comment:
  assumes "post_inv s" "find_comment i s = Some c" "c_tally c' = c_tally c"
  shows "tally_eq s (save_comment c' s)"
  using assms map_put [OF post_inv_keys(3) [OF assms(1)], of c c' c_tally] comment_repo.found [OF assms(2)]
  by (intro tally_eqI) (simp_all add: save_comment_def c_tally_def)

lemma tally_eq_save_answer:
  assumes "post_inv s" "find_answer i s = Some a" "a_tally a' = a_tally a"
  shows "tally_eq s (save_answer a' s)"
  using assms map_put [OF post_inv_keys(2) [OF assms(1)], of a a' a_tally] answer_repo.found [OF assms(2)]
  by (intro tally_eqI) (simp_all add: save_answer_def a_tally_def)

text \<open>New content: nobody has voted on it.\<close>

definition tally_grown :: "target_type \<Rightarrow> db \<Rightarrow> db \<Rightarrow> bool" where
  "tally_grown ty s s' \<longleftrightarrow>
     votes s' = votes s \<and>
     (\<exists>i author. i \<notin> fst ` set (tally ty s) \<and> tally ty s' = tally ty s @ [(i, author, 0, 0)]) \<and>
     (\<forall>ty'. ty' \<noteq> ty \<longrightarrow> tally ty' s' = tally ty' s)"

lemma votes_inv_grown:
  assumes inv: "votes_inv s" and g: "tally_grown ty s s'" shows "votes_inv s'"
proof -
  obtain i author where i: "i \<notin> fst ` set (tally ty s)" "tally ty s' = tally ty s @ [(i, author, 0, 0)]"
    and vs: "votes s' = votes s" and other: "\<And>ty'. ty' \<noteq> ty \<Longrightarrow> tally ty' s' = tally ty' s"
    using g by (auto simp: tally_grown_def)
  have none: "\<not> (v_targetType v = ty \<and> v_targetId v = i)" if "v \<in> set (votes s)" for v
    using inv i(1) that by (auto simp: votes_inv_def)
  then have "counted ty (votes s) (i, author, 0, 0)"
    by (auto simp: counted_def count_votes_def count_where_zero)
  then have "counted ty' (votes s') row" if "row \<in> set (tally ty' s')" for ty' row
    using that inv i(2) vs other by (cases "ty' = ty") (auto simp: votes_inv_def)
  moreover have "v_targetId v \<in> fst ` set (tally (v_targetType v) s')" if "v \<in> set (votes s)" for v
    using inv i(2) other that by (cases "v_targetType v = ty") (auto simp: votes_inv_def)
  ultimately show ?thesis using inv vs by (simp add: votes_inv_def)
qed

section \<open>Casting and removing votes\<close>

lemma distinct_write_vote:
  "distinct (map v_key vs) \<Longrightarrow> distinct (map v_key (write_vote u ty i v vs))"
  by (auto simp: write_vote_def Let_def put_keys distinct_map_delete_where exists_where_iff v_key_def
      split: option.splits)

lemma write_vote_other:
  assumes "ty' \<noteq> ty \<or> j \<noteq> i"
  shows "filter (\<lambda>v. v_targetType v = ty' \<and> v_targetId v = j \<and> P v) (write_vote u ty i v vs) =
    filter (\<lambda>v. v_targetType v = ty' \<and> v_targetId v = j \<and> P v) vs"
proof (cases v)
  case None
  have *: "filter Q (delete_where R ws) = filter Q ws" if "\<And>v. Q v \<Longrightarrow> \<not> R v" for Q R and ws :: "vote list"
    using that by (induction ws) (auto simp: delete_where_def)
  show ?thesis
    unfolding None write_vote_def option.case by (rule *) (use assms in \<open>auto simp: v_key_def\<close>)
next
  case (Some x)
  have "filter (\<lambda>v. v_targetType v = ty' \<and> v_targetId v = j \<and> P v)
      (put v_key \<lparr>v_userId = u, v_targetType = ty, v_targetId = i, v_voteType = x\<rparr> vs) =
    filter (\<lambda>v. v_targetType v = ty' \<and> v_targetId v = j \<and> P v) vs"
    by (rule filter_put_other) (use assms in \<open>auto simp: v_key_def\<close>)
  then show ?thesis using assms Some by (auto simp: write_vote_def Let_def)
qed

lemma in_write_vote:
  assumes "w \<in> set (write_vote u ty i v vs)"
  shows "w \<in> set vs \<or> v_key w = (u, ty, i)"
  using assms
  by (auto simp: write_vote_def Let_def row_simps v_key_def split: option.splits if_splits elim!: in_put_cases)

lemma counted_write_vote:
  assumes "counted ty' vs row" "ty' \<noteq> ty \<or> fst row \<noteq> i"
  shows "counted ty' (write_vote u ty i v vs) row"
proof -
  obtain j author up down where row: "row = (j, author, up, down)" by (cases row)
  have "count_votes vt ty' j (write_vote u ty i v vs) = count_votes vt ty' j vs" for vt
    using write_vote_other [of ty' ty j i] assms(2) row by (simp add: count_votes_def count_where_def)
  then show ?thesis
    using assms in_write_vote [of _ u ty i v vs] by (fastforce simp: counted_def row v_key_def)
qed

text \<open>The row of the target after its counters were recomputed.\<close>

lemma tally_set_counters:
  "tally ty (set_counters ty i up down s) =
     map (\<lambda>(j, b, x, y). if j = i then (j, b, up, down) else (j, b, x, y)) (tally ty s)"
  "ty' \<noteq> ty \<Longrightarrow> tally ty' (set_counters ty i up down s) = tally ty' s"
  by (auto simp: tally_def set_counters_def update_where_def d_tally_def c_tally_def a_tally_def
      split: target_type.splits)

lemma lock_target_author:
  assumes "post_inv s" "lock_target ty i s = Inr (post, author)"
  shows "\<exists>up down. (i, author, up, down) \<in> set (tally ty s)"
    and "(i, author', up, down) \<in> set (tally ty s) \<Longrightarrow> author' = author"
proof -
  have "\<exists>up down. (i, author, up, down) \<in> set (tally ty s)"
    using assms(2)
    by (auto simp: lock_target_def tally_def bindE_Inr lockPost_Inr lockCommentPost_Inr someE_Inr
        d_tally_def c_tally_def a_tally_def image_iff split: target_type.splits prod.splits
        dest!: discussion_repo.found comment_repo.found answer_repo.found) metis+
  moreover have "distinct (map fst (tally ty s))"
    using post_inv_keys [OF assms(1)]
    by (simp add: tally_def d_tally_def c_tally_def a_tally_def comp_def split: target_type.splits)
  ultimately show "\<exists>up down. (i, author, up, down) \<in> set (tally ty s)"
    and "(i, author', up, down) \<in> set (tally ty s) \<Longrightarrow> author' = author"
    by (auto dest: eq_key_imp_eq_value)
qed

lemma votes_inv_set_vote:
  assumes inv: "votes_inv s" and p: "post_inv s" shows "votes_inv (snd (set_vote ty i u v s))"
proof (rule set_vote_cases [of ty i u v s])
  fix ex assume "set_vote ty i u v s = (Inl ex, s)"
  then show ?thesis using inv by simp
next
  fix userId post author
  assume lock: "lock_target ty i s = Inr (post, author)" and self: "author \<noteq> userId"
    and s': "snd (set_vote ty i u v s) = voted ty i userId v s"
  let ?vs = "write_vote userId ty i v (votes s)"
  let ?t = "s\<lparr>votes := ?vs\<rparr>" and ?up = "count_votes Upvote ty i ?vs" and ?down = "count_votes Downvote ty i ?vs"
  note author = lock_target_author [OF p lock]
  have t: "tally ty' ?t = tally ty' s" for ty' by (simp add: tally_def split: target_type.splits)
  have vs': "votes (set_counters ty i x y ?t) = ?vs" for x y
    by (simp add: set_counters_def split: target_type.splits)
  have row: "counted ty' ?vs row" if "row \<in> set (tally ty' (set_counters ty i ?up ?down ?t))" for ty' row
  proof (cases "ty' = ty \<and> fst row = i")
    case True
    then have "row \<in> (\<lambda>(j, b, x, y). if j = i then (j, b, ?up, ?down) else (j, b, x, y)) ` set (tally ty s)"
      using that by (simp add: tally_set_counters(1) t)
    then obtain b where b: "row = (i, b, ?up, ?down)" "\<exists>x y. (i, b, x, y) \<in> set (tally ty s)"
      using True by (fastforce split: if_splits)
    then have "b = author" using author(2) by blast
    have "v_userId w \<noteq> author" if "w \<in> set ?vs" "v_targetType w = ty" "v_targetId w = i" for w
      using in_write_vote [OF that(1)] that inv author(1) self
      by (fastforce simp: votes_inv_def counted_def v_key_def)
    then show ?thesis using True \<open>b = author\<close> by (auto simp: counted_def b(1))
  next
    case False
    then have "row \<in> set (tally ty' s)"
      using that by (cases "ty' = ty") (auto simp: tally_set_counters t split: if_splits)
    then show ?thesis
      using inv False by (intro counted_write_vote) (auto simp: votes_inv_def)
  qed
  have ids: "fst ` set (tally ty' (set_counters ty i x y ?t)) = fst ` set (tally ty' s)" for ty' x y
    by (cases "ty' = ty") (force simp: tally_set_counters t image_iff)+
  have "v_targetId w \<in> fst ` set (tally (v_targetType w) s)" if "w \<in> set ?vs" for w
    using in_write_vote [OF that] inv author(1) by (force simp: votes_inv_def v_key_def)
  then show ?thesis
    unfolding s' using row ids distinct_write_vote inv
    by (simp add: voted_def Let_def votes_inv_def vs')
qed

section \<open>The other operations keep the tally\<close>

lemma tally_eq_cong:
  "discussions s' = discussions s \<Longrightarrow> comments s' = comments s \<Longrightarrow> answers s' = answers s \<Longrightarrow>
   votes s' = votes s \<Longrightarrow> tally_eq s s'"
  by (rule tally_eqI) simp_all

lemma tally_eq_tags:
  "tally_eq s (tagCounts ids n s)" "tally_eq s (s\<lparr>discussionMedia := ms\<rparr>)"
  "tally_eq s (edit_acceptances e dto editor post s)" "tally_eq s (revoke_acceptances e i x r s)"
  by (rule tally_eq_cong;
      simp add: tagCounts_def edit_acceptances_def revoke_acceptances_def)+

lemma tally_eq_sequence: "tally_eq s t \<Longrightarrow> content_eq t s' \<Longrightarrow> tally_eq s s'"
  by (erule tally_eq_trans) (rule tally_eq_content)

lemma tally_grown_create_discussion:
  "tally_eq s (snd (create_discussion e u dto s)) \<or>
   tally_grown OnDiscussion s (snd (create_discussion e u dto s))"
proof (rule create_discussion_cases [of s e u dto])
  assume "content_eq s (snd (create_discussion e u dto s))"
  then show ?thesis by (simp add: tally_eq_content)
next
  fix author selected pc ts
  let ?post = "new_discussion e dto author selected pc"
  assume fresh: "fresh e 0 \<notin> d_id ` set (discussions s)"
    and s': "content_eq (created_post ?post (new_set (or_else (cd_tagIds dto) [])) (map t_id ts)
      (or_else (cd_mediaIds dto) []) author s) (snd (create_discussion e u dto s))"
  have "discussions (snd (create_discussion e u dto s)) = discussions s @ [?post]"
    "comments (snd (create_discussion e u dto s)) = comments s"
    "answers (snd (create_discussion e u dto s)) = answers s"
    "votes (snd (create_discussion e u dto s)) = votes s"
    using content_eq_tables [OF s'] by (simp_all add: created_post_def tagCounts_def attach_def Let_def)
  then show ?thesis
    using fresh
    by (auto simp: tally_grown_def tally_def d_tally_def new_discussion_def image_image
        split: target_type.splits)
qed

lemma tally_eq_drafted:
  assumes "post_inv t" "find_discussion i t = Some post"
  shows "tally_eq t (save_discussion (drafted_post dto post t) (t\<lparr>discussionRevisions := rs\<rparr>))"
proof -
  have "tally_eq t (save_discussion (drafted_post dto post t) t)"
    using assms by (rule tally_eq_save_discussion) (simp add: drafted_post_def d_tally_def)
  also have "tally_eq \<dots> (save_discussion (drafted_post dto post t) (t\<lparr>discussionRevisions := rs\<rparr>))"
    by (rule tally_eq_cong) (simp_all add: save_discussion_def)
  finally show ?thesis .
qed

lemma tally_eq_direct:
  assumes "post_inv t" "find_discussion i t = Some post"
    and t1: "discussions t1 = discussions t" "comments t1 = comments t" "answers t1 = answers t"
      "votes t1 = votes t"
  shows "tally_eq t (save_discussion (direct_post dto req post) (edit_acceptances e dto editor post t1)
    \<lparr>discussionMedia := ms\<rparr>)"
proof -
  have "tally_eq t (save_discussion (direct_post dto req post) t)"
    using assms(1,2) by (rule tally_eq_save_discussion)
      (simp add: direct_post_def new_version_def edited_fields_def d_tally_def)
  also have "tally_eq \<dots> (save_discussion (direct_post dto req post) (edit_acceptances e dto editor post t1)
      \<lparr>discussionMedia := ms\<rparr>)"
    using t1 by (intro tally_eq_cong)
      (simp_all add: save_discussion_def edit_acceptances_def revoke_acceptances_def)
  finally show ?thesis .
qed

lemma tally_eq_update_discussion:
  assumes "post_inv s" shows "tally_eq s (snd (update_discussion e i u dto s))"
proof (rule update_discussion_cases [of s e i u dto])
  fix t post editor
  assume t: "content_eq s t" "find_discussion i t = Some post"
    and s': "content_eq (save_discussion (drafted_post dto post t)
         (t\<lparr>discussionRevisions := discussionRevisions t @ [draft_revision dto editor post t]\<rparr>))
         (snd (update_discussion e i u dto s))"
  have "post_inv t" using assms t(1) post_inv_content_eq by simp
  from tally_eq_drafted [OF this t(2)] s' show ?thesis
    by (meson tally_eq_content t(1) tally_eq_trans)
next
  fix t post editor req t1
  assume t: "content_eq s t" "find_discussion i t = Some post"
    "change_tags (map_option new_set (ud_tagIds dto)) post t = Inr t1"
    and s': "\<exists>ms. content_eq ((save_discussion (direct_post dto req post)
         (edit_acceptances e dto editor post
           (t1\<lparr>discussionRevisions := discussionRevisions t @ direct_revisions dto editor req post\<rparr>)))
         \<lparr>discussionMedia := ms\<rparr>) (snd (update_discussion e i u dto s))"
  have inv: "post_inv t" using assms t(1) post_inv_content_eq by simp
  have t1: "discussions t1 = discussions t" "comments t1 = comments t" "answers t1 = answers t"
    "votes t1 = votes t"
    using change_tags_Inr [OF t(3)] by (cases t; cases t1; simp)+
  let ?t = "t1\<lparr>discussionRevisions := discussionRevisions t @ direct_revisions dto editor req post\<rparr>"
  obtain ms where ms: "content_eq (save_discussion (direct_post dto req post)
      (edit_acceptances e dto editor post ?t)\<lparr>discussionMedia := ms\<rparr>) (snd (update_discussion e i u dto s))"
    using s' by blast
  have "tally_eq t (save_discussion (direct_post dto req post)
      (edit_acceptances e dto editor post ?t)\<lparr>discussionMedia := ms\<rparr>)"
    by (rule tally_eq_direct [OF inv t(2)]) (simp_all add: t1)
  then show ?thesis
    using ms tally_eq_content [OF t(1)] by (meson tally_eq_sequence tally_eq_trans)
qed (rule tally_eq_content)

lemma tally_eq_post_steps:
  assumes "post_inv s"
  shows "tally_eq s (snd (remove_discussion e i u s))" "tally_eq s (snd (accept_comment e i u cid s))"
    "tally_eq s (snd (remove_accepted_comment e i u s))" "tally_eq s (snd (set_status e i u st s))"
    "tally_eq s (snd (findOne e i u c s))"
proof -
  show "tally_eq s (snd (remove_discussion e i u s))"
  proof (rule remove_discussion_cases [of s e i u])
    fix post assume p: "find_discussion i s = Some post" and s': "content_eq (tagCounts (map t_id (tags_of i s)) (-1)
         (save_discussion (post\<lparr>d_deletedAt := Some (now e)\<rparr>) s)) (snd (remove_discussion e i u s))"
    have "tally_eq s (save_discussion (post\<lparr>d_deletedAt := Some (now e)\<rparr>) s)"
      using assms p by (rule tally_eq_save_discussion) (simp add: d_tally_def)
    then show ?thesis using s' by (meson tally_eq_tags(1) tally_eq_sequence tally_eq_trans)
  qed (rule tally_eq_content)
  show "tally_eq s (snd (accept_comment e i u cid s))"
  proof (rule accept_comment_cases [of s e i u cid])
    fix post c
    assume p: "find_discussion i s = Some post" and s': "content_eq (save_discussion
        (post\<lparr>d_acceptedCommentId := Some (c_id c), d_status := Solved\<rparr>) s) (snd (accept_comment e i u cid s))"
    have "tally_eq s (save_discussion (post\<lparr>d_acceptedCommentId := Some (c_id c), d_status := Solved\<rparr>) s)"
      using assms p by (rule tally_eq_save_discussion) (simp add: d_tally_def)
    then show ?thesis using s' by (rule tally_eq_sequence)
  qed (rule tally_eq_content)
  show "tally_eq s (snd (remove_accepted_comment e i u s))"
    by (rule remove_accepted_comment_cases [of s e i u])
      (auto intro: tally_eq_content tally_eq_save_discussion [OF assms] simp: d_tally_def)
  show "tally_eq s (snd (set_status e i u st s))"
    by (rule set_status_cases [of s e i u st])
      (simp_all add: tally_eq_content tally_eq_save_discussion [OF assms] d_tally_def)
  show "tally_eq s (snd (findOne e i u c s))"
    by (rule findOne_cases [of e i u c s])
      (auto intro!: tally_eqI simp: viewed_def d_tally_def)
qed

end
