(* ===== verification/Tally_Steps.thy ===== *)
theory Tally_Steps
  imports Tally
begin

text \<open>
  Answers, comments, reviews and tags keep the tally, so the invariant of votes is kept by every
  operation. The second part is the history of answers: their revisions are numbered without gaps
  and the last one is the answer as it is shown.
\<close>

section \<open>Answers\<close>

lemma tally_eq_revoked:
  assumes "post_inv s" "find_discussion i s = Some q"
  shows "tally_eq s (snd (revokeAcceptance e q actor r s))"
    and "d_tally (fst (revokeAcceptance e q actor r s)) = d_tally q"
proof -
  let ?q = "q\<lparr>d_acceptedAnswerId := None, d_status := Open\<rparr>"
  have "tally_eq s (save_discussion ?q s)"
    using assms by (rule tally_eq_save_discussion) (simp add: d_tally_def)
  also have "tally_eq \<dots> (save_discussion ?q (revoke_acceptances e (d_id q) actor r s))"
    by (rule tally_eq_cong) (simp_all add: save_discussion_def revoke_acceptances_def)
  finally show "tally_eq s (snd (revokeAcceptance e q actor r s))"
    by (simp add: revokeAcceptance_def Let_def)
  show "d_tally (fst (revokeAcceptance e q actor r s)) = d_tally q"
    by (simp add: revokeAcceptance_def Let_def d_tally_def)
qed

lemma tally_create_answer:
  assumes "post_inv s"
  shows "tally_eq s (snd (create_answer e di dto u s)) \<or> tally_grown OnAnswer s (snd (create_answer e di dto u s))"
proof (rule create_answer_cases [of s e di dto u])
  assume "content_eq s (snd (create_answer e di dto u s))"
  then show ?thesis by (simp add: tally_eq_content)
next
  fix t author and q :: discussion
  let ?a = "new_answer e di author dto" and ?q = "q\<lparr>d_answerCount := d_answerCount q + 1\<rparr>"
  assume t: "content_eq s t" "find_discussion di t = Some q" and fresh: "fresh e 0 \<notin> a_id ` set (answers t)"
    and s': "content_eq (save_discussion ?q (t\<lparr>answers := answers t @ [?a],
            answerRevisions := answerRevisions t @ [first_answer_revision ?a author]\<rparr>))
         (snd (create_answer e di dto u s))"
  have inv: "post_inv t" using assms t(1) post_inv_content_eq by simp
  have "map d_tally (discussions (save_discussion ?q t)) = map d_tally (discussions t)"
    using tally_eq_save_discussion [OF inv t(2), of ?q]
    by (auto simp: tally_eq_def tally_def d_tally_def dest: spec [of _ OnDiscussion])
  then have "map d_tally (discussions (snd (create_answer e di dto u s))) = map d_tally (discussions s)"
    "comments (snd (create_answer e di dto u s)) = comments s" "votes (snd (create_answer e di dto u s)) = votes s"
    "answers (snd (create_answer e di dto u s)) = answers s @ [?a]"
    using content_eq_tables [OF s'] content_eq_tables [OF t(1)] by (simp_all add: save_discussion_def)
  then show ?thesis
    using fresh content_eq_tables(11) [OF t(1)]
    by (auto simp: tally_grown_def tally_def a_tally_def new_answer_def image_image
        split: target_type.splits)
qed

lemma tally_eq_update_answer:
  assumes "post_inv s" shows "tally_eq s (snd (update_answer e i dto u s))"
proof (rule update_answer_cases [of s e i dto u])
  fix a q editor
  let ?s = "(save_answer (next_answer dto a) s)\<lparr>answerRevisions := answerRevisions s @
              [next_answer_revision dto a editor]\<rparr>"
  assume a: "find_answer i s = Some a" and q: "find_discussion (a_discussionId a) s = Some q"
    and s': "snd (update_answer e i dto u s) = (let s1 = ?s in
          if ua_revisionType dto = Semantic \<and> d_acceptedAnswerId q = Some i
          then snd (revokeAcceptance e q editor ''answer_edited'' s1) else s1)"
  have "tally_eq s (save_answer (next_answer dto a) s)"
    using assms a by (rule tally_eq_save_answer) (simp add: next_answer_def a_tally_def)
  also have "tally_eq \<dots> ?s" by (rule tally_eq_cong) simp_all
  finally have s1: "tally_eq s ?s" .
  have "post_inv (save_answer (next_answer dto a) s)"
    by (rule post_inv_edited_answer [OF assms q])
      (use answer_repo.found [OF a] in \<open>auto simp: next_answer_def a_live_def\<close>)
  then have "post_inv ?s" by (subst post_inv_cong [of _ "save_answer (next_answer dto a) s"]) simp_all
  moreover have "find_discussion (a_discussionId a) ?s = Some q"
    using q by (simp add: find_discussion_def save_answer_def)
  ultimately have "tally_eq ?s (snd (revokeAcceptance e q editor ''answer_edited'' ?s))"
    by (rule tally_eq_revoked)
  then show ?thesis using s1 tally_eq_trans by (auto simp: s' Let_def)
qed (rule tally_eq_content)

lemma tally_eq_remove_answer:
  assumes "post_inv s" shows "tally_eq s (snd (remove_answer e i u s))"
proof (rule remove_answer_cases [of s e i u])
  fix a q actor
  assume a: "find_answer i s = Some a" and q: "find_discussion (a_discussionId a) s = Some q"
    and s': "content_eq (removed_answer e a q actor s) (snd (remove_answer e i u s))"
  define q1 where "q1 = (if d_acceptedAnswerId q = Some (a_id a)
      then fst (revokeAcceptance e q actor ''answer_deleted'' s) else q)"
  define s1 where "s1 = (if d_acceptedAnswerId q = Some (a_id a)
      then snd (revokeAcceptance e q actor ''answer_deleted'' s) else s)"
  let ?a = "a\<lparr>a_deletedAt := Some (now e)\<rparr>" and ?q = "q1\<lparr>d_answerCount := max 0 (d_answerCount q1 - 1)\<rparr>"
  note r = revoked [OF assms q, of e actor "''answer_deleted''"]
  have s1: "post_inv s1" "find_discussion (a_discussionId a) s1 = Some q1" "find_answer i s1 = Some a"
    "tally_eq s s1"
    using assms q a r(1,2) r(4) tally_eq_revoked(1) [OF assms q]
    by (simp_all add: s1_def q1_def find_answer_def)
  have eq: "removed_answer e a q actor s = save_discussion ?q (save_answer ?a s1)"
    by (cases "revokeAcceptance e q actor ''answer_deleted'' s")
      (auto simp: removed_answer_def q1_def s1_def)
  have "tally_eq s1 (save_answer ?a s1)"
    using s1(1,3) by (rule tally_eq_save_answer) (simp add: a_tally_def)
  moreover have "tally_eq s1 (save_discussion ?q s1)"
    using s1(1,2) by (rule tally_eq_save_discussion) (simp add: d_tally_def)
  ultimately have "tally_eq s1 (save_discussion ?q (save_answer ?a s1))"
    by (simp add: tally_eq_def tally_def save_discussion_def save_answer_def split: target_type.splits)
  then show ?thesis using s1(4) s' unfolding eq by (meson tally_eq_sequence tally_eq_trans)
qed (rule tally_eq_content)

lemma tally_eq_accept_answer:
  assumes "post_inv s" shows "tally_eq s (snd (accept_answer e di dto u s))"
proof (rule accept_answer_cases [of s e di dto u])
  fix a q actor
  assume may: "may_accept di dto u actor a q s"
    and s': "content_eq (accepted_answer e a q actor s) (snd (accept_answer e di dto u s))"
  let ?q = "fst (revokeAcceptance e q actor ''replaced'' s)"
  let ?s = "snd (revokeAcceptance e q actor ''replaced'' s)"
  let ?p = "?q\<lparr>d_acceptedAnswerId := Some (a_id a), d_acceptedCommentId := None, d_status := Solved\<rparr>"
  have q: "find_discussion di s = Some q" using may by (simp add: may_accept_def)
  note r = revoked(1,2) [OF assms q, of e actor "''replaced''"]
  have "tally_eq ?s (save_discussion ?p ?s)"
    using r by (rule tally_eq_save_discussion) (simp add: d_tally_def)
  also have "tally_eq \<dots> (accepted_answer e a q actor s)"
    by (rule tally_eq_cong) (simp_all add: accepted_answer_def Let_def save_discussion_def)
  finally have "tally_eq ?s (accepted_answer e a q actor s)" .
  then show ?thesis
    using tally_eq_revoked(1) [OF assms q] s' by (meson tally_eq_sequence tally_eq_trans)
qed (rule tally_eq_content)

lemma tally_eq_remove_acceptance:
  assumes "post_inv s" shows "tally_eq s (snd (remove_acceptance e di u s))"
  by (rule remove_acceptance_cases [of e di u s]) (simp_all add: tally_eq_revoked(1) [OF assms])

section \<open>Comments and reviews\<close>

lemma tally_create_comment:
  "tally_eq s (snd (create_comment e di u dto s)) \<or> tally_grown OnComment s (snd (create_comment e di u dto s))"
proof (rule create_comment_cases [of s e di u dto])
  assume "content_eq s (snd (create_comment e di u dto s))"
  then show ?thesis by (simp add: tally_eq_content)
next
  fix t author p pid
  let ?c = "new_comment e di author pid dto"
  assume t: "content_eq s t" and fresh: "fresh e 0 \<notin> c_id ` set (comments t)"
    and s': "content_eq (t\<lparr>comments := comments t @ [?c], discussions := map (commented di) (discussions t)\<rparr>)
         (snd (create_comment e di u dto s))"
  have "map d_tally (discussions (snd (create_comment e di u dto s))) = map d_tally (discussions s)"
    "comments (snd (create_comment e di u dto s)) = comments s @ [?c]"
    "votes (snd (create_comment e di u dto s)) = votes s"
    "answers (snd (create_comment e di u dto s)) = answers s"
    using content_eq_tables [OF s'] content_eq_tables [OF t] by (simp_all add: commented_def d_tally_def)
  then show ?thesis
    using fresh content_eq_tables(10) [OF t]
    by (auto simp: tally_grown_def tally_def c_tally_def new_comment_def image_image
        split: target_type.splits)
qed

lemma tally_eq_update_comment:
  assumes "post_inv s" shows "tally_eq s (snd (update_comment e i u dto s))"
proof (rule update_comment_cases [of e i u dto s])
  fix post c
  assume c: "find_comment i s = Some c" and q: "find_discussion (c_discussionId c) s = Some post"
    and s': "snd (update_comment e i u dto s) = save_comment (edited_comment dto c)
         (if uc_content dto \<noteq> None \<and> uc_content dto \<noteq> Some (c_content c)
          then save_discussion (clear_accepted_comment i post) s else s)"
  have "tally_eq s (save_comment (edited_comment dto c) s)"
    using assms c by (rule tally_eq_save_comment) (simp add: edited_comment_def Let_def c_tally_def)
  moreover have "tally_eq s (save_discussion (clear_accepted_comment i post) s)"
    using assms q by (rule tally_eq_save_discussion) (simp add: clear_accepted_comment_def d_tally_def)
  ultimately show ?thesis
    by (auto simp: s' tally_eq_def tally_def save_discussion_def save_comment_def split: target_type.splits)
qed simp

lemma tally_eq_remove_comment:
  assumes "post_inv s" shows "tally_eq s (snd (remove_comment e i u s))"
proof (rule remove_comment_cases [of e i u s])
  fix post c
  let ?c = "c\<lparr>c_deletedAt := Some (now e)\<rparr> :: comment"
  let ?p = "clear_accepted_comment i (post\<lparr>d_commentCount := max 0 (d_commentCount post - 1)\<rparr>)"
  assume c: "find_comment i s = Some c" and q: "find_discussion (c_discussionId c) s = Some post"
    and s': "snd (remove_comment e i u s) = save_discussion ?p (save_comment ?c s)"
  have "tally_eq s (save_comment ?c s)"
    using assms c by (rule tally_eq_save_comment) (simp add: c_tally_def)
  moreover have "tally_eq s (save_discussion ?p s)"
    using assms q by (rule tally_eq_save_discussion) (simp add: clear_accepted_comment_def d_tally_def)
  ultimately show ?thesis
    by (auto simp: s' tally_eq_def tally_def save_discussion_def save_comment_def split: target_type.splits)
qed simp

lemma tally_eq_review:
  assumes "post_inv s" shows "tally_eq s (snd (review e ty i dto u s))"
proof (rule review_cases [of e ty i dto u s])
  fix actor scope post post1 s1 rs
  assume post: "find_discussion i s = Some post" and d: "decide e dto post s = Inr (post1, s1)"
    and s': "snd (review e ty i dto u s) =
        (save_discussion (reviewed_post e dto actor post post1 s1)
          (snd (revoke_on_review e dto actor (draft_of post \<noteq> None) post1 s1)))\<lparr>moderationReviews := rs\<rparr>"
  let ?p = "reviewed_post e dto actor post post1 s1"
  have "votes s1 = votes s" by (rule decide_cases [OF d]) (simp_all add: attach_def replace_tags_def retag_counts_def)
  moreover have "d_tally ?p = d_tally post"
    using decide_post [OF d] by (simp add: reviewed_post_def revoke_on_review_fst d_tally_def)
  then have "tally_eq s (save_discussion ?p s)" by (rule tally_eq_save_discussion [OF assms post])
  ultimately show ?thesis
    using decide_tables [OF d]
    by (auto simp: s' tally_eq_def tally_def save_discussion_def revoke_on_review_snd revoke_acceptances_def
        split: target_type.splits)
qed simp

section \<open>Tags\<close>

definition only_tags :: "db \<Rightarrow> db \<Rightarrow> bool" where
  "only_tags s s' \<longleftrightarrow> s'\<lparr>tags := [], discussionTags := []\<rparr> = s\<lparr>tags := [], discussionTags := []\<rparr>"

lemma only_tags_transaction:
  "(\<And>a s'. r = Inr (a, s') \<Longrightarrow> only_tags s s') \<Longrightarrow> only_tags s (snd (transaction s r))"
  by (cases r) (auto simp: only_tags_def)

lemma only_tags_steps:
  "only_tags s (snd (create_tag e cdto s))" "only_tags s (snd (update_tag e i udto s))"
  "only_tags s (snd (remove_tag i s))" "only_tags s (snd (set_tag_status e i st s))"
  "only_tags s (snd (merge_tags e i j s))"
  unfolding create_tag_def update_tag_def remove_tag_def set_tag_status_def merge_tags_def snd_map_error
  by (rule only_tags_transaction; auto simp: bindE_Inr Let_def only_tags_def save_tag_def)+

lemma only_tags_tables:
  assumes "only_tags s s'"
  shows "discussions s' = discussions s" "answers s' = answers s" "comments s' = comments s"
    "answerAcceptances s' = answerAcceptances s" "discussionRevisions s' = discussionRevisions s"
    "answerRevisions s' = answerRevisions s" "votes s' = votes s"
  using assms by (cases s; cases s'; simp add: only_tags_def)+

lemma post_inv_only_tags: "only_tags s s' \<Longrightarrow> post_inv s' = post_inv s"
  by (rule post_inv_cong) (simp_all add: only_tags_tables)

lemma tally_eq_only_tags: "only_tags s s' \<Longrightarrow> tally_eq s s'"
  by (rule tally_eq_cong) (simp_all add: only_tags_tables)

lemma post_inv_content_kept: "content_kept s s' \<Longrightarrow> post_inv s' = post_inv s"
  by (rule post_inv_cong) (simp_all add: content_kept_tables)

end
