(* ===== verification/System.thy ===== *)
theory System
  imports Machines Controllers Tally_Steps
begin

text \<open>
  The service as a state machine: its database and the stream its outbox is published to, changed by
  the calls of the controllers and by the rounds of the outbox worker. Reachable states satisfy the
  invariants of posts, rooms and votes.
\<close>

section \<open>The service\<close>

record system =
  database :: db
  stream :: "message list"

definition started_system :: "system \<Rightarrow> bool" where
  "started_system w \<longleftrightarrow> database w = init_db \<and> stream w = []"

text \<open>
  One step of the service: a call to a controller, with any headers, environment and answers of the
  database to pattern matches and sorting, or a round of the worker.
\<close>

inductive service_step :: "system \<Rightarrow> system \<Rightarrow> bool" where
  discussions: "service_step w (w\<lparr>database := snd (discussions_controller e ilike h c1 (database w))\<rparr>)"
| answers: "service_step w (w\<lparr>database := snd (answers_controller e h c2 (database w))\<rparr>)"
| comments: "service_step w (w\<lparr>database := snd (comments_controller e h c3 (database w))\<rparr>)"
| votes: "service_step w (w\<lparr>database := snd (votes_controller e h c4 (database w))\<rparr>)"
| moderation: "service_step w (w\<lparr>database := snd (moderation_controller e ilikeq order h c5 (database w))\<rparr>)"
| rooms: "service_step w (w\<lparr>database := snd (rooms_controller e collate h c6 (database w))\<rparr>)"
| tags: "service_step w (w\<lparr>database := snd (tags_controller e ilike h c7 (database w))\<rparr>)"
| worker: "deliver t connected net (outbox (database w), stream w) = (box, msgs) \<Longrightarrow>
    service_step w (w\<lparr>database := (database w)\<lparr>outbox := box\<rparr>, stream := msgs\<rparr>)"

inductive_cases service_stepE: "service_step w w'"

abbreviation reachable :: "system \<Rightarrow> bool" where
  "reachable w \<equiv> reach started_system service_step w"

section \<open>What a call does to the database\<close>

text \<open>
  A call either leaves the database as it is or runs one operation of a service; a property that
  all operations keep is kept by every step.
\<close>

lemma snd_route [simp]:
  "snd (route adm f s) = (case adm of Inl _ \<Rightarrow> s | Inr _ \<Rightarrow> snd (f s))"
  by (simp add: route_def split: sum.splits)

lemma snd_respond [simp]: "snd (respond f r) = snd r"
  by (cases r; cases "fst r") (auto simp: respond_def)

lemma snd_read_only [simp]: "snd (read_only q s) = s"
  by (simp add: read_only_def)

locale kept_by_operations =
  fixes R :: "db \<Rightarrow> db \<Rightarrow> bool"
  assumes kept [simp]: "R s s"
    "R s (snd (create_discussion e u cd s))" "R s (snd (update_discussion e i u ud s))"
    "R s (snd (remove_discussion e i u s))" "R s (snd (accept_comment e i u j s))"
    "R s (snd (remove_accepted_comment e i u s))" "R s (snd (set_status e i u st s))"
    "R s (snd (findOne e i u b s))" "R s (snd (create_answer e i na u s))"
    "R s (snd (update_answer e i ua u s))" "R s (snd (remove_answer e i u s))"
    "R s (snd (accept_answer e i aa u s))" "R s (snd (remove_acceptance e i u s))"
    "R s (snd (create_comment e i u nc s))" "R s (snd (update_comment e i u uc s))"
    "R s (snd (remove_comment e i u s))" "R s (snd (set_vote ty i u v s))"
    "R s (snd (review e nm i rd u s))" "R s (snd (create_room e cr u s))"
    "R s (snd (join_room e i u s))" "R s (snd (add_rule e i ur u s))"
    "R s (snd (update_membership e i j um u s))" "R s (snd (update_policy e i up u s))"
    "R s (snd (update_room_status e i rs u s))" "R s (snd (create_tag e ct s))"
    "R s (snd (update_tag e i ut s))" "R s (snd (remove_tag i s))"
    "R s (snd (set_tag_status e i ts s))" "R s (snd (merge_tags e i j s))"
begin

lemma discussions_kept: "R s (snd (discussions_controller e ilike h c s))"
  by (cases c) (simp_all add: discussions_controller_def Let_def split: sum.splits)

lemma answers_kept: "R s (snd (answers_controller e h c s))"
  by (cases c) (simp_all add: answers_controller_def Let_def split: sum.splits)

lemma comments_kept: "R s (snd (comments_controller e h c s))"
  by (cases c) (simp_all add: comments_controller_def Let_def split: sum.splits)

lemma votes_kept: "R s (snd (votes_controller e h c s))"
  by (cases c) (simp_all add: votes_controller_def cast_vote_def remove_vote_def Let_def split: sum.splits)

lemma moderation_kept: "R s (snd (moderation_controller e ilike order h c s))"
  by (cases c) (simp_all add: moderation_controller_def Let_def split: sum.splits)

lemma rooms_kept: "R s (snd (rooms_controller e collate h c s))"
  by (cases c) (simp_all add: rooms_controller_def Let_def split: sum.splits)

lemma tags_kept: "R s (snd (tags_controller e ilike h c s))"
  by (cases c) (simp_all add: tags_controller_def Let_def split: sum.splits)

lemma step_kept:
  assumes "service_step w w'" and "\<And>s box. R s (s\<lparr>outbox := box\<rparr>)"
  shows "R (database w) (database w')"
  using assms(1)
  by (cases rule: service_step.cases)
    (simp_all add: discussions_kept answers_kept comments_kept votes_kept moderation_kept rooms_kept
      tags_kept assms(2))

end

section \<open>The invariants of reachable states\<close>

lemma post_inv_outbox [simp]: "post_inv (s\<lparr>outbox := box\<rparr>) = post_inv s"
  by (rule post_inv_cong) simp_all

lemma rooms_inv_outbox [simp]: "rooms_inv (s\<lparr>outbox := box\<rparr>) = rooms_inv s"
  by (rule rooms_inv_cong) simp_all

lemma post_inv_init: "post_inv init_db"
  by (simp add: post_inv_def keyed_def known_def init_db_def of_defs)

lemma votes_inv_init: "votes_inv init_db"
  by (simp add: votes_inv_def tally_def init_db_def split: target_type.splits)

interpretation posts_kept: kept_by_operations "\<lambda>s s'. post_inv s \<longrightarrow> post_inv s'"
  by unfold_locales
    (simp_all add: post_inv_create_discussion post_inv_update_discussion post_inv_remove_discussion
      post_inv_accept_comment post_inv_remove_accepted_comment post_inv_set_status post_inv_findOne
      post_inv_create_answer post_inv_update_answer post_inv_remove_answer post_inv_accept_answer
      post_inv_remove_acceptance post_inv_create_comment post_inv_update_comment post_inv_remove_comment
      post_inv_set_vote post_inv_review post_inv_content_kept [OF content_kept_create_room]
      post_inv_content_kept [OF content_kept_join_room] post_inv_content_kept [OF content_kept_add_rule]
      post_inv_content_kept [OF content_kept_update_membership]
      post_inv_content_kept [OF content_kept_update_policy]
      post_inv_content_kept [OF content_kept_update_room_status]
      post_inv_only_tags [OF only_tags_steps(1)] post_inv_only_tags [OF only_tags_steps(2)]
      post_inv_only_tags [OF only_tags_steps(3)] post_inv_only_tags [OF only_tags_steps(4)]
      post_inv_only_tags [OF only_tags_steps(5)])

interpretation rooms_kept: kept_by_operations "\<lambda>s s'. rooms_inv s \<longrightarrow> rooms_inv s'"
  by unfold_locales
    (auto intro: rooms_inv_gated [OF _ rooms_gated_create_discussion]
      rooms_inv_gated [OF _ rooms_gated_update_discussion] rooms_inv_gated [OF _ rooms_gated_create_answer]
      rooms_inv_gated [OF _ rooms_gated_create_comment]
      rooms_inv_kept [OF _ rooms_kept_remove_discussion] rooms_inv_kept [OF _ rooms_kept_accept_comment]
      rooms_inv_kept [OF _ rooms_kept_remove_accepted_comment] rooms_inv_kept [OF _ rooms_kept_set_status]
      rooms_inv_kept [OF _ rooms_kept_findOne] rooms_inv_kept [OF _ rooms_kept_update_answer]
      rooms_inv_kept [OF _ rooms_kept_remove_answer] rooms_inv_kept [OF _ rooms_kept_accept_answer]
      rooms_inv_kept [OF _ rooms_kept_remove_acceptance] rooms_inv_kept [OF _ rooms_kept_update_comment]
      rooms_inv_kept [OF _ rooms_kept_remove_comment] rooms_inv_kept [OF _ rooms_kept_set_vote]
      rooms_inv_kept [OF _ rooms_kept_review] rooms_inv_kept [OF _ rooms_kept_tags(1)]
      rooms_inv_kept [OF _ rooms_kept_tags(2)] rooms_inv_kept [OF _ rooms_kept_tags(3)]
      rooms_inv_kept [OF _ rooms_kept_tags(4)] rooms_inv_kept [OF _ rooms_kept_tags(5)]
      rooms_inv_room_steps)

lemma votes_inv_or: "votes_inv s \<Longrightarrow> tally_eq s s' \<or> tally_grown ty s s' \<Longrightarrow> votes_inv s'"
  using votes_inv_eq votes_inv_grown by blast

interpretation votes_kept:
  kept_by_operations "\<lambda>s s'. post_inv s \<longrightarrow> votes_inv s \<longrightarrow> votes_inv s'"
  by unfold_locales
    (auto intro: votes_inv_or [OF _ tally_grown_create_discussion] votes_inv_or [OF _ tally_create_answer]
      votes_inv_or [OF _ tally_create_comment] votes_inv_set_vote
      votes_inv_eq [OF _ tally_eq_update_discussion] votes_inv_eq [OF _ tally_eq_post_steps(1)]
      votes_inv_eq [OF _ tally_eq_post_steps(2)] votes_inv_eq [OF _ tally_eq_post_steps(3)]
      votes_inv_eq [OF _ tally_eq_post_steps(4)] votes_inv_eq [OF _ tally_eq_post_steps(5)]
      votes_inv_eq [OF _ tally_eq_update_answer] votes_inv_eq [OF _ tally_eq_remove_answer]
      votes_inv_eq [OF _ tally_eq_accept_answer] votes_inv_eq [OF _ tally_eq_remove_acceptance]
      votes_inv_eq [OF _ tally_eq_update_comment] votes_inv_eq [OF _ tally_eq_remove_comment]
      votes_inv_eq [OF _ tally_eq_review]
      votes_inv_eq [OF _ tally_eq_kept [OF content_kept_create_room]]
      votes_inv_eq [OF _ tally_eq_kept [OF content_kept_join_room]]
      votes_inv_eq [OF _ tally_eq_kept [OF content_kept_add_rule]]
      votes_inv_eq [OF _ tally_eq_kept [OF content_kept_update_membership]]
      votes_inv_eq [OF _ tally_eq_kept [OF content_kept_update_policy]]
      votes_inv_eq [OF _ tally_eq_kept [OF content_kept_update_room_status]]
      votes_inv_eq [OF _ tally_eq_only_tags [OF only_tags_steps(1)]]
      votes_inv_eq [OF _ tally_eq_only_tags [OF only_tags_steps(2)]]
      votes_inv_eq [OF _ tally_eq_only_tags [OF only_tags_steps(3)]]
      votes_inv_eq [OF _ tally_eq_only_tags [OF only_tags_steps(4)]]
      votes_inv_eq [OF _ tally_eq_only_tags [OF only_tags_steps(5)]])

interpretation post_machine:
  inductive_invariant started_system service_step "\<lambda>w. post_inv (database w)"
  by unfold_locales (auto simp: started_system_def post_inv_init dest: posts_kept.step_kept)

interpretation rooms_machine:
  inductive_invariant started_system service_step "\<lambda>w. rooms_inv (database w)"
  by unfold_locales (auto simp: started_system_def rooms_inv_init dest: rooms_kept.step_kept)

lemma votes_inv_outbox [simp]: "votes_inv (s\<lparr>outbox := box\<rparr>) = votes_inv s"
proof -
  have "tally ty (s\<lparr>outbox := box\<rparr>) = tally ty s" for ty by (cases ty) (simp_all add: tally_def)
  then show ?thesis by (simp add: votes_inv_def)
qed

interpretation votes_machine:
  relative_invariant started_system service_step "\<lambda>w. post_inv (database w)" "\<lambda>w. votes_inv (database w)"
  by unfold_locales (auto simp: started_system_def votes_inv_init dest: votes_kept.step_kept)

lemma reachable_post_inv: "reachable w \<Longrightarrow> post_inv (database w)"
  by (rule post_machine.holds)

lemma reachable_rooms_inv: "reachable w \<Longrightarrow> rooms_inv (database w)"
  by (rule rooms_machine.holds)

lemma reachable_votes_inv: "reachable w \<Longrightarrow> votes_inv (database w)"
  using votes_machine.extra_holds by blast

end
