(* ===== verification/Sample.thy ===== *)
theory Sample
  imports System "HOL-Library.Code_Target_Nat"
begin

text \<open>
  A run of the service on concrete data, in which the hypotheses of the properties hold: a student
  asks a question in the seeded room, another one answers it, comments on it and is voted up, and
  the answer is accepted.
\<close>

definition sample_env :: "string \<Rightarrow> nat \<Rightarrow> env" where
  "sample_env name t =
     \<lparr>now = t, fresh = (\<lambda>k. name @ replicate k CHR ''x''), media_info = (\<lambda>_. NetworkError),
      academic_info = (\<lambda>_. NetworkError), major_info = (\<lambda>_. NetworkError),
      display_info = (\<lambda>_. NetworkError), usernames_info = (\<lambda>_. NetworkError),
      valid_uuid = (\<lambda>_. True)\<rparr>"

definition signed_in :: "string \<Rightarrow> string \<Rightarrow> headers" where
  "signed_in name role =
     (\<lambda>header. if header = ''x-user-id'' then Some name
               else if header = ''x-user-role'' then Some role else None)"

definition question_dto :: create_discussion_dto where
  "question_dto =
     \<lparr>cd_roomId = general_id, cd_curriculumCourseId = None, cd_title = ''A sample question'',
      cd_content = ''Where does the invariant hold?'', cd_postType = Question, cd_tagIds = None,
      cd_mediaIds = None, cd_isAnonymous = Some True\<rparr>"

definition answer_dto :: create_answer_dto where
  "answer_dto = \<lparr>na_content = ''In every reachable state.'', na_isAnonymous = None\<rparr>"

definition comment_dto :: create_comment_dto where
  "comment_dto = \<lparr>nc_content = ''Thank you'', nc_parentCommentId = None, nc_isAnonymous = None\<rparr>"

definition accept_dto :: accept_answer_dto where
  "accept_dto = \<lparr>aa_answerId = ''ans'', aa_expectedQuestionVersion = 1, aa_expectedAnswerVersion = 1\<rparr>"

definition anything :: "string \<Rightarrow> string \<Rightarrow> bool" where
  "anything pattern text = True"

definition world0 :: system where
  "world0 = \<lparr>database = init_db, stream = []\<rparr>"

definition world1 :: system where
  "world1 = world0\<lparr>database := snd (discussions_controller (sample_env ''post'' 1) anything
     (signed_in ''ann'' ''student'') (PostDiscussion question_dto) (database world0))\<rparr>"

definition world2 :: system where
  "world2 = world1\<lparr>database := snd (answers_controller (sample_env ''ans'' 2)
     (signed_in ''bob'' ''student'') (PostAnswer ''post'' answer_dto) (database world1))\<rparr>"

definition world3 :: system where
  "world3 = world2\<lparr>database := snd (comments_controller (sample_env ''com'' 3)
     (signed_in ''bob'' ''student'') (PostComment ''post'' comment_dto) (database world2))\<rparr>"

definition world4 :: system where
  "world4 = world3\<lparr>database := snd (votes_controller (sample_env ''vote'' 4)
     (signed_in ''ann'' ''student'') (PostVote OnAnswer ''ans'' Upvote) (database world3))\<rparr>"

definition world5 :: system where
  "world5 = world4\<lparr>database := snd (answers_controller (sample_env ''acc'' 5)
     (signed_in ''ann'' ''student'') (PatchAcceptedAnswer ''post'' accept_dto) (database world4))\<rparr>"

lemma reachable_worlds [simp]:
  "reachable world0" "reachable world1" "reachable world2" "reachable world3" "reachable world4"
  "reachable world5"
proof -
  show w0: "reachable world0" by (rule started) (simp add: started_system_def world0_def)
  show w1: "reachable world1" unfolding world1_def by (rule stepped [OF w0]) (rule service_step.intros)
  show w2: "reachable world2" unfolding world2_def by (rule stepped [OF w1]) (rule service_step.intros)
  show w3: "reachable world3" unfolding world3_def by (rule stepped [OF w2]) (rule service_step.intros)
  show w4: "reachable world4" unfolding world4_def by (rule stepped [OF w3]) (rule service_step.intros)
  show w5: "reachable world5" unfolding world5_def by (rule stepped [OF w4]) (rule service_step.intros)
qed

text \<open>The rows of the states, and the states one after the other.\<close>

definition sample_post :: discussion where
  "sample_post =
     \<lparr>d_id = ''post'', d_title = ''A sample question'', d_content = ''Where does the invariant hold?'',
      d_postType = Question, d_status = Solved, d_authorId = ''ann'', d_isAnonymous = True,
      d_upvoteCount = 0, d_downvoteCount = 0, d_commentCount = 1, d_answerCount = 1, d_viewCount = 0,
      d_acceptedCommentId = None, d_acceptedAnswerId = Some ''ans'', d_contentVersion = 1,
      d_moderationStatus = Pending, d_visibility = Visible, d_pendingRevision = None,
      d_moderationNote = '''', d_roomId = Some general_id, d_majorId = None, d_curriculumId = None,
      d_courseId = None, d_curriculumCourseId = None, d_createdAt = 1, d_deletedAt = None\<rparr>"

definition sample_answer :: answer where
  "sample_answer =
     \<lparr>a_id = ''ans'', a_discussionId = ''post'', a_authorId = ''bob'',
      a_content = ''In every reachable state.'', a_isAnonymous = False, a_contentVersion = 1,
      a_moderationStatus = Approved, a_visibility = Visible, a_upvoteCount = 1, a_downvoteCount = 0,
      a_createdAt = 2, a_deletedAt = None\<rparr>"

definition sample_comment :: comment where
  "sample_comment =
     \<lparr>c_id = ''com'', c_discussionId = ''post'', c_authorId = ''bob'', c_content = ''Thank you'',
      c_parentCommentId = None, c_isAnonymous = False, c_upvoteCount = 0, c_downvoteCount = 0,
      c_moderationStatus = Approved, c_visibility = Visible, c_createdAt = 3, c_deletedAt = None\<rparr>"

definition sample_vote :: vote where
  "sample_vote =
     \<lparr>v_userId = ''ann'', v_targetType = OnAnswer, v_targetId = ''ans'', v_voteType = Upvote\<rparr>"

definition pending_event :: "string \<Rightarrow> string \<Rightarrow> (string \<times> json) list \<Rightarrow> time \<Rightarrow> outbox_event" where
  "pending_event i ty payload t =
     \<lparr>o_id = i, o_eventType = ty, o_payload = payload, o_createdAt = t, o_deliveredAt = None,
      o_attempts = 0, o_nextAttemptAt = t\<rparr>"

definition new_post :: discussion where
  "new_post = sample_post
     \<lparr>d_status := Open, d_acceptedAnswerId := None, d_answerCount := 0, d_commentCount := 0\<rparr>"

definition world1_db :: db where
  "world1_db = init_db
     \<lparr>discussions := [new_post],
      discussionRevisions :=
        [\<lparr>dr_discussionId = ''post'', dr_contentVersion = 1, dr_title = ''A sample question'',
          dr_content = ''Where does the invariant hold?'', dr_revisionType = Semantic,
          dr_editedBy = ''ann''\<rparr>],
      outbox :=
        [pending_event ''postx'' ''discussion.created''
           [(''discussionId'', JStr ''post''), (''title'', JStr ''A sample question''),
            (''recipientId'', JStr ''ann'')] 1]\<rparr>"

definition world2_db :: db where
  "world2_db = world1_db
     \<lparr>discussions := [new_post\<lparr>d_answerCount := 1\<rparr>],
      answers := [sample_answer\<lparr>a_upvoteCount := 0\<rparr>],
      answerRevisions :=
        [\<lparr>ar_answerId = ''ans'', ar_contentVersion = 1, ar_content = ''In every reachable state.'',
          ar_revisionType = Semantic, ar_editedBy = ''bob''\<rparr>],
      outbox := outbox world1_db @
        [pending_event ''ansx'' ''answer.created''
           [(''recipientId'', JStr ''ann''), (''actorId'', JStr ''bob''), (''answerId'', JStr ''ans''),
            (''discussionId'', JStr ''post''), (''discussionTitle'', JStr ''A sample question'')] 2]\<rparr>"

definition world3_db :: db where
  "world3_db = world2_db
     \<lparr>discussions := [new_post\<lparr>d_answerCount := 1, d_commentCount := 1\<rparr>],
      comments := [sample_comment],
      outbox := outbox world2_db @
        [pending_event ''comx'' ''comment.created''
           [(''commentId'', JStr ''com''), (''discussionId'', JStr ''post''),
            (''discussionTitle'', JStr ''A sample question''), (''recipientId'', JStr ''ann''),
            (''actorId'', JStr ''bob''), (''isAnonymous'', JBool False),
            (''commentPreview'', JStr ''Thank you'')] 3]\<rparr>"

definition world4_db :: db where
  "world4_db = world3_db\<lparr>answers := [sample_answer], votes := [sample_vote]\<rparr>"

definition world5_db :: db where
  "world5_db = world4_db
     \<lparr>discussions := [sample_post],
      answerAcceptances :=
        [\<lparr>ac_discussionId = ''post'', ac_answerId = ''ans'', ac_questionVersion = 1,
          ac_answerVersion = 1, ac_acceptedBy = ''ann'', ac_revokedAt = None, ac_revokedBy = None,
          ac_revokeReason = None\<rparr>],
      outbox := outbox world4_db @
        [pending_event ''acc'' ''answer.accepted''
           [(''discussionId'', JStr ''post''), (''answerId'', JStr ''ans''), (''answerVersion'', JNum 1),
            (''recipientId'', JStr ''bob''), (''actorId'', JStr ''ann''),
            (''discussionTitle'', JStr ''A sample question'')] 5]\<rparr>"

text \<open>
  Each state is computed once from the one before it; the equations are the code of the states.
\<close>

lemma world1_eq [code]: "world1 = \<lparr>database = world1_db, stream = []\<rparr>"
  by code_simp

lemma world2_eq [code]: "world2 = \<lparr>database = world2_db, stream = []\<rparr>"
  by code_simp

lemma world3_eq [code]: "world3 = \<lparr>database = world3_db, stream = []\<rparr>"
  by code_simp

lemma world4_eq [code]: "world4 = \<lparr>database = world4_db, stream = []\<rparr>"
  by code_simp

lemma world5_eq [code]: "world5 = \<lparr>database = world5_db, stream = []\<rparr>"
  by code_simp

lemmas world_dbs = world1_db_def world2_db_def world3_db_def world4_db_def world5_db_def

lemma world5_tables [simp]:
  "rooms (database world5) = rooms init_db" "bindings (database world5) = []"
  "memberships (database world5) = []" "roomRules (database world5) = []"
  "discussions (database world5) = [sample_post]" "comments (database world5) = [sample_comment]"
  "answers (database world5) = [sample_answer]" "votes (database world5) = [sample_vote]"
  "discussionRevisions (database world5) = discussionRevisions world5_db"
  "answerRevisions (database world5) = answerRevisions world5_db"
  "answerAcceptances (database world5) = answerAcceptances world5_db"
  by (simp_all add: world5_eq world_dbs init_db_def)

section \<open>A room of its own\<close>

text \<open>
  A second run: a student opens a forum, another one joins, the owner writes two versions of a rule
  and turns on the approval of posts; a post of the new member is held, approved and then edited,
  which proposes a revision.
\<close>

definition hall_id :: uuid where
  "hall_id = ''hall''"

definition hall_dto :: create_room_dto where
  "hall_dto =
     \<lparr>cr_slug = ''hall'', cr_name = ''The hall'', cr_description = None, cr_roomType = FORUM,
      cr_parentRoomId = None, cr_majorId = None, cr_curriculumCourseId = None, cr_visibility = None,
      cr_postingPolicy = Some MEMBERS, cr_membershipPolicy = None, cr_reviewPolicy = None,
      cr_startAt = None, cr_endAt = None\<rparr>"

definition rule_dto :: "string \<Rightarrow> create_rule_dto" where
  "rule_dto text =
     \<lparr>ur_ruleCode = ''BE_KIND'', ur_title = ''Be kind'', ur_description = text, ur_severity = Medium\<rparr>"

definition policy_dto :: update_policy_dto where
  "policy_dto = \<lparr>up_reviewPolicy = ApprovalPolicy, up_policyLocked = None\<rparr>"

definition held_dto :: create_discussion_dto where
  "held_dto = question_dto\<lparr>cd_roomId := hall_id, cd_isAnonymous := None\<rparr>"

definition allow_dto :: review_dto where
  "allow_dto =
     \<lparr>rd_decision = Allow, rd_expectedModerationStatus = None, rd_expectedVersion = 1,
      rd_expectedContent = ''Where does the invariant hold?'', rd_note = None\<rparr>"

definition edit_dto :: update_discussion_dto where
  "edit_dto =
     \<lparr>ud_expectedVersion = Some 1, ud_revisionType = None, ud_title = None,
      ud_content = Some ''Where do the invariants hold?'', ud_tagIds = None, ud_mediaIds = None,
      ud_isAnonymous = None\<rparr>"

definition hall1 :: system where
  "hall1 = world0\<lparr>database := snd (rooms_controller (sample_env hall_id 1) id
     (signed_in ''eve'' ''student'') (PostRoom hall_dto) (database world0))\<rparr>"

definition hall2 :: system where
  "hall2 = hall1\<lparr>database := snd (rooms_controller (sample_env ''join'' 2) id
     (signed_in ''bob'' ''student'') (PostJoin hall_id) (database hall1))\<rparr>"

definition hall3 :: system where
  "hall3 = hall2\<lparr>database := snd (rooms_controller (sample_env ''rule1'' 3) id
     (signed_in ''eve'' ''student'') (PostRule hall_id (rule_dto ''Listen before you write.''))
     (database hall2))\<rparr>"

definition hall4 :: system where
  "hall4 = hall3\<lparr>database := snd (rooms_controller (sample_env ''rule2'' 4) id
     (signed_in ''eve'' ''student'') (PostRule hall_id (rule_dto ''Read before you write.''))
     (database hall3))\<rparr>"

definition hall5 :: system where
  "hall5 = hall4\<lparr>database := snd (rooms_controller (sample_env ''policy'' 5) id
     (signed_in ''eve'' ''student'') (PatchPolicy hall_id policy_dto) (database hall4))\<rparr>"

definition hall6 :: system where
  "hall6 = hall5\<lparr>database := snd (discussions_controller (sample_env ''held'' 6) anything
     (signed_in ''bob'' ''student'') (PostDiscussion held_dto) (database hall5))\<rparr>"

definition hall7 :: system where
  "hall7 = hall6\<lparr>database := snd (moderation_controller (sample_env ''review'' 7) (\<lambda>_ _. True) (\<lambda>_ ds. ds)
     (signed_in ''eve'' ''student'') (PatchReview ''discussion'' ''held'' allow_dto) (database hall6))\<rparr>"

definition hall8 :: system where
  "hall8 = hall7\<lparr>database := snd (discussions_controller (sample_env ''edit'' 8) anything
     (signed_in ''bob'' ''student'') (PatchDiscussion ''held'' edit_dto) (database hall7))\<rparr>"

lemma reachable_halls [simp]:
  "reachable hall1" "reachable hall2" "reachable hall3" "reachable hall4" "reachable hall5"
  "reachable hall6" "reachable hall7" "reachable hall8"
proof -
  show h1: "reachable hall1" unfolding hall1_def
    by (rule stepped [OF reachable_worlds(1)]) (rule service_step.intros)
  show h2: "reachable hall2" unfolding hall2_def by (rule stepped [OF h1]) (rule service_step.intros)
  show h3: "reachable hall3" unfolding hall3_def by (rule stepped [OF h2]) (rule service_step.intros)
  show h4: "reachable hall4" unfolding hall4_def by (rule stepped [OF h3]) (rule service_step.intros)
  show h5: "reachable hall5" unfolding hall5_def by (rule stepped [OF h4]) (rule service_step.intros)
  show h6: "reachable hall6" unfolding hall6_def by (rule stepped [OF h5]) (rule service_step.intros)
  show h7: "reachable hall7" unfolding hall7_def by (rule stepped [OF h6]) (rule service_step.intros)
  show h8: "reachable hall8" unfolding hall8_def by (rule stepped [OF h7]) (rule service_step.intros)
qed


text \<open>The rows of the states, and the states one after the other.\<close>

definition hall_post :: discussion where
  "hall_post =
     \<lparr>d_id = ''held'', d_title = ''A sample question'', d_content = ''Where does the invariant hold?'',
      d_postType = Question, d_status = Open, d_authorId = ''bob'', d_isAnonymous = False,
      d_upvoteCount = 0, d_downvoteCount = 0, d_commentCount = 0, d_answerCount = 0, d_viewCount = 0,
      d_acceptedCommentId = None, d_acceptedAnswerId = None, d_contentVersion = 2,
      d_moderationStatus = Pending, d_visibility = Visible,
      d_pendingRevision = Some
        \<lparr>pr_title = ''A sample question'', pr_content = ''Where do the invariants hold?'',
         pr_isAnonymous = False, pr_tagIds = [], pr_mediaIds = []\<rparr>,
      d_moderationNote = '''', d_roomId = Some hall_id, d_majorId = None, d_curriculumId = None,
      d_courseId = None, d_curriculumCourseId = None, d_createdAt = 6, d_deletedAt = None\<rparr>"

definition hall_member :: "string \<Rightarrow> member_role \<Rightarrow> uuid option \<Rightarrow> time \<Rightarrow> room_membership" where
  "hall_member user role by t =
     \<lparr>m_roomId = hall_id, m_userId = user, m_role = role, m_status = Active,
      m_postPermission = Inherit, m_assignedBy = by, m_joinedAt = t, m_expiresAt = None\<rparr>"

definition hall_rule :: "nat \<Rightarrow> string \<Rightarrow> bool \<Rightarrow> room_rule" where
  "hall_rule n text current =
     \<lparr>ru_roomId = hall_id, ru_ruleCode = ''BE_KIND'', ru_title = ''Be kind'', ru_description = text,
      ru_severity = Medium, ru_version = n, ru_active = current\<rparr>"

definition hall_room :: room where
  "hall_room =
     \<lparr>r_id = hall_id, r_slug = ''hall'', r_name = ''The hall'', r_description = '''',
      r_type = FORUM, r_parent = None, r_visibility = PUBLIC, r_membershipPolicy = OpenJoin,
      r_postingPolicy = MEMBERS, r_reviewPolicy = ApprovalPolicy, r_policyLocked = False,
      r_status = ACTIVE, r_createdBy = ''eve'', r_startAt = None, r_endAt = None, r_rulesVersion = 3\<rparr>"

definition held_post :: discussion where
  "held_post = hall_post
     \<lparr>d_contentVersion := 1, d_moderationStatus := Pending, d_visibility := Held, d_pendingRevision := None\<rparr>"

definition hall1_db :: db where
  "hall1_db = init_db
     \<lparr>rooms := rooms init_db @ [hall_room\<lparr>r_reviewPolicy := DirectPolicy, r_rulesVersion := 1\<rparr>],
      memberships := [hall_member ''eve'' Owner (Some ''eve'') 1],
      outbox :=
        [pending_event ''hallx'' ''room.created''
           [(''roomId'', JStr hall_id), (''roomType'', JStr ''forum'')] 1]\<rparr>"

definition hall2_db :: db where
  "hall2_db = hall1_db\<lparr>memberships := memberships hall1_db @ [hall_member ''bob'' Member None 2]\<rparr>"

definition rule_event :: "string \<Rightarrow> int \<Rightarrow> time \<Rightarrow> outbox_event" where
  "rule_event i n t =
     pending_event i ''room.rules.changed'' [(''roomId'', JStr hall_id), (''rulesVersion'', JNum n)] t"

definition hall3_db :: db where
  "hall3_db = hall2_db
     \<lparr>rooms := rooms init_db @ [hall_room\<lparr>r_reviewPolicy := DirectPolicy, r_rulesVersion := 2\<rparr>],
      roomRules := [hall_rule 1 ''Listen before you write.'' True],
      outbox := outbox hall2_db @ [rule_event ''rule1'' 2 3]\<rparr>"

definition hall4_db :: db where
  "hall4_db = hall3_db
     \<lparr>rooms := rooms init_db @ [hall_room\<lparr>r_reviewPolicy := DirectPolicy\<rparr>],
      roomRules := [hall_rule 1 ''Listen before you write.'' False, hall_rule 2 ''Read before you write.'' True],
      outbox := outbox hall3_db @ [rule_event ''rule2'' 3 4]\<rparr>"

definition hall5_db :: db where
  "hall5_db = hall4_db
     \<lparr>rooms := rooms init_db @ [hall_room],
      policyAudits :=
        [\<lparr>pa_roomId = hall_id, pa_actorId = ''eve'', pa_memberId = None,
          pa_before = [(''reviewPolicy'', JStr ''direct''), (''policyLocked'', JBool False)],
          pa_after = [(''reviewPolicy'', JStr ''approval'')], pa_createdAt = 5\<rparr>]\<rparr>"

definition hall6_db :: db where
  "hall6_db = hall5_db
     \<lparr>discussions := [held_post],
      discussionRevisions :=
        [\<lparr>dr_discussionId = ''held'', dr_contentVersion = 1, dr_title = ''A sample question'',
          dr_content = ''Where does the invariant hold?'', dr_revisionType = Semantic,
          dr_editedBy = ''bob''\<rparr>],
      outbox := outbox hall5_db @
        [pending_event ''heldx'' ''discussion.created''
           [(''discussionId'', JStr ''held''), (''title'', JStr ''A sample question''),
            (''recipientId'', JStr ''bob'')] 6]\<rparr>"

definition hall7_db :: db where
  "hall7_db = hall6_db
     \<lparr>discussions := [held_post\<lparr>d_moderationStatus := Approved, d_visibility := Visible\<rparr>],
      moderationReviews :=
        [\<lparr>mr_entityId = ''held'', mr_contentVersion = 1, mr_decision = Allow, mr_note = '''',
          mr_reviewerId = ''eve'', mr_createdAt = 7\<rparr>]\<rparr>"

definition hall8_db :: db where
  "hall8_db = hall7_db
     \<lparr>discussions := [hall_post],
      discussionRevisions := discussionRevisions hall7_db @
        [\<lparr>dr_discussionId = ''held'', dr_contentVersion = 2, dr_title = ''A sample question'',
          dr_content = ''Where do the invariants hold?'', dr_revisionType = Semantic,
          dr_editedBy = ''bob''\<rparr>]\<rparr>"

lemma hall1_eq [code]: "hall1 = \<lparr>database = hall1_db, stream = []\<rparr>"
  by code_simp

lemma hall2_eq [code]: "hall2 = \<lparr>database = hall2_db, stream = []\<rparr>"
  by code_simp

lemma hall3_eq [code]: "hall3 = \<lparr>database = hall3_db, stream = []\<rparr>"
  by code_simp

lemma hall4_eq [code]: "hall4 = \<lparr>database = hall4_db, stream = []\<rparr>"
  by code_simp

lemma hall5_eq [code]: "hall5 = \<lparr>database = hall5_db, stream = []\<rparr>"
  by code_simp

lemma hall6_eq [code]: "hall6 = \<lparr>database = hall6_db, stream = []\<rparr>"
  by code_simp

lemma hall7_eq [code]: "hall7 = \<lparr>database = hall7_db, stream = []\<rparr>"
  by code_simp

lemma hall8_eq [code]: "hall8 = \<lparr>database = hall8_db, stream = []\<rparr>"
  by code_simp

lemmas hall_dbs = hall1_db_def hall2_db_def hall3_db_def hall4_db_def hall5_db_def hall6_db_def
  hall7_db_def hall8_db_def

lemma hall8_tables [simp]:
  "rooms (database hall8) = rooms init_db @ [hall_room]"
  "memberships (database hall8) =
     [hall_member ''eve'' Owner (Some ''eve'') 1, hall_member ''bob'' Member None 2]"
  "roomRules (database hall8) =
     [hall_rule 1 ''Listen before you write.'' False, hall_rule 2 ''Read before you write.'' True]"
  "discussions (database hall8) = [hall_post]"
  by (simp_all add: hall8_eq hall_dbs init_db_def)

end
