(* ===== verification/Sample_Campus.thy ===== *)
theory Sample_Campus
  imports Sample
begin

text \<open>
  Two more runs on concrete data: the canonical room of a major, and a round of the outbox worker.
\<close>

section \<open>A canonical room\<close>

text \<open>An admin opens the room of a major; a second one for the same major is refused.\<close>

definition campus_env :: "string \<Rightarrow> nat \<Rightarrow> env" where
  "campus_env name t = (sample_env name t)\<lparr>major_info := (\<lambda>_. Reply 200 (Some ()))\<rparr>"

definition campus_dto :: "string \<Rightarrow> create_room_dto" where
  "campus_dto slug =
     hall_dto\<lparr>cr_slug := slug, cr_roomType := MAJOR, cr_majorId := Some ''cs'', cr_postingPolicy := None\<rparr>"

definition campus1 :: system where
  "campus1 = world0\<lparr>database := snd (rooms_controller (campus_env ''major-cs'' 1) id
     (signed_in ''root'' ''admin'') (PostRoom (campus_dto ''major-cs'')) (database world0))\<rparr>"

definition campus2 :: system where
  "campus2 = campus1\<lparr>database := snd (rooms_controller (campus_env ''other-cs'' 2) id
     (signed_in ''root'' ''admin'') (PostRoom (campus_dto ''other-cs'')) (database campus1))\<rparr>"

definition campus_room :: room where
  "campus_room = hall_room
     \<lparr>r_id := ''major-cs'', r_slug := ''major-cs'', r_type := MAJOR, r_postingPolicy := ANYONE,
      r_reviewPolicy := DirectPolicy, r_createdBy := ''root'', r_rulesVersion := 1\<rparr>"

definition campus_binding :: room_academic_binding where
  "campus_binding =
     \<lparr>b_roomId = ''major-cs'', b_majorId = ''cs'', b_curriculumId = None, b_courseId = None,
      b_curriculumCourseId = None\<rparr>"

definition campus1_db :: db where
  "campus1_db = init_db
     \<lparr>rooms := rooms init_db @ [campus_room], bindings := [campus_binding],
      memberships := [(hall_member ''root'' Owner (Some ''root'') 1)\<lparr>m_roomId := ''major-cs''\<rparr>],
      outbox :=
        [pending_event ''major-csx'' ''room.created''
           [(''roomId'', JStr ''major-cs''), (''roomType'', JStr ''major'')] 1]\<rparr>"

lemma campus1_eq [code]: "campus1 = \<lparr>database = campus1_db, stream = []\<rparr>"
  by code_simp

lemma campus2_eq [code]: "campus2 = \<lparr>database = campus1_db, stream = []\<rparr>"
  by code_simp

lemma campus2_tables [simp]:
  "rooms (database campus2) = rooms init_db @ [campus_room]"
  "bindings (database campus2) = [campus_binding]"
  by (simp_all add: campus2_eq campus1_db_def)

lemma reachable_campus [simp]: "reachable campus1" "reachable campus2"
proof -
  show c1: "reachable campus1" unfolding campus1_def
    by (rule stepped [OF reachable_worlds(1)]) (rule service_step.intros)
  show c2: "reachable campus2" unfolding campus2_def by (rule stepped [OF c1]) (rule service_step.intros)
qed

section \<open>A round of the worker\<close>

definition sent1 :: system where
  "sent1 =
     (let (box, msgs) = deliver 9 True (\<lambda>_. Acked) (outbox (database world1), stream world1) in
      world1\<lparr>database := (database world1)\<lparr>outbox := box\<rparr>, stream := msgs\<rparr>)"

lemma reachable_sent1 [simp]: "reachable sent1"
  by (cases "deliver 9 True (\<lambda>_. Acked) (outbox (database world1), stream world1)")
    (auto simp: sent1_def intro: stepped [OF reachable_worlds(2)] service_step.worker)

end
