(* ===== verification/Outbox_Frame.thy ===== *)
theory Outbox_Frame
  imports System
begin

text \<open>
  What the operations of the service do to its outbox: they append events that are not delivered yet
  and change nothing that is there. With the rounds of the worker this gives the two halves of the
  transactional outbox: what is marked delivered is in the stream, and the stream holds nothing but
  events of the outbox.
\<close>

section \<open>Growing\<close>

definition log_grows :: "outbox_event list \<Rightarrow> outbox_event list \<Rightarrow> bool" where
  "log_grows box box' \<longleftrightarrow>
     (\<exists>new. box' = box @ new \<and> (\<forall>ev \<in> set new. o_deliveredAt ev = None) \<and>
        (distinct (map o_id box) \<longrightarrow> distinct (map o_id box')))"

lemma log_grows_refl [simp]: "log_grows box box"
  by (simp add: log_grows_def)

lemma log_grows_trans [trans]: "log_grows a b \<Longrightarrow> log_grows b c \<Longrightarrow> log_grows a c"
  unfolding log_grows_def by (elim exE conjE) (rule exI, auto)

lemma log_grows_append [simp]:
  "log_grows box (box @ [ev]) \<longleftrightarrow>
     o_deliveredAt ev = None \<and> (distinct (map o_id box) \<longrightarrow> o_id ev \<notin> o_id ` set box)"
  by (auto simp: log_grows_def)

lemma log_grows_event: "event e k ty data s = Inr s' \<Longrightarrow> log_grows (outbox s) (outbox s')"
  by (auto simp: event_Inr log_grows_def)

lemma log_grows_events: "events e k ty datas s = Inr s' \<Longrightarrow> log_grows (outbox s) (outbox s')"
proof (induction datas arbitrary: k s)
  case (Cons d datas)
  then obtain s1 where "event e k ty d s = Inr s1" "events e (k + 1) ty datas s1 = Inr s'"
    by (auto simp: bindE_Inr)
  then show ?case using Cons.IH log_grows_event log_grows_trans by blast
qed simp

lemma log_grows_mentions: "emit_mentions e k c a ctx s = Inr s' \<Longrightarrow> log_grows (outbox s) (outbox s')"
  by (auto simp: emit_mentions_def returns Let_def log_grows_events split: if_splits reply.splits)

lemma outbox_updates [simp]:
  "outbox (save_discussion d s) = outbox s" "outbox (save_comment c s) = outbox s"
  "outbox (save_answer a s) = outbox s" "outbox (save_tag t s) = outbox s"
  "outbox (save_room r s) = outbox s" "outbox (save_membership m s) = outbox s"
  "outbox (revoke_acceptances e i x why s) = outbox s" "outbox (tagCounts ids n s) = outbox s"
  "outbox (attach i ids s) = outbox s" "outbox (replace_tags i ids s) = outbox s"
  "outbox (retag_counts ids ids' s) = outbox s" "outbox (set_counters ty i up down s) = outbox s"
  by (simp_all add: save_defs save_room_def save_membership_def revoke_acceptances_def tagCounts_def
      attach_def replace_tags_def retag_counts_def set_counters_def split: target_type.splits)

lemma outbox_only_memberships: "only_memberships s t \<Longrightarrow> outbox t = outbox s"
  by (metis only_memberships_eq db.select_convs(17) db.surjective db.update_convs(3))

lemma outbox_gate [simp]: "outbox (snd (assertCanPost e r u s)) = outbox s"
  by (rule outbox_only_memberships [OF assertCanPost_only])

lemma outbox_revokeAcceptance [simp]: "outbox (snd (revokeAcceptance e q a r s)) = outbox s"
  by (simp add: revokeAcceptance_def Let_def)

lemma outbox_removed_answer [simp]: "outbox (removed_answer e a q actor s) = outbox s"
proof -
  have "outbox s1 = outbox s" if "revokeAcceptance e q actor ''answer_deleted'' s = (q1, s1)" for q1 s1
    using that outbox_revokeAcceptance [of e q actor "''answer_deleted''" s] by simp
  then show ?thesis by (auto simp: removed_answer_def split: prod.splits if_splits)
qed

lemma outbox_insert_acceptance: "insert_acceptance x s = Inr s' \<Longrightarrow> outbox s' = outbox s"
  by (auto simp: insert_acceptance_def split: if_splits)

lemmas log_calls = log_grows_event log_grows_mentions

section \<open>Operations\<close>

definition grows :: "db \<Rightarrow> db \<Rightarrow> bool" where
  "grows s s' \<longleftrightarrow> log_grows (outbox s) (outbox s')"

lemma grows_transaction:
  assumes "\<And>a s'. r = Inr (a, s') \<Longrightarrow> log_grows (outbox s) (outbox s')"
  shows "grows s (snd (transaction s r))"
  using assms by (cases r) (auto simp: grows_def)

lemma grows_same: "outbox s' = outbox s \<Longrightarrow> grows s s'"
  by (simp add: grows_def)

lemma grows_remove_discussion: "grows s (snd (remove_discussion e i u s))"
  unfolding remove_discussion_def
  by (rule grows_transaction) (auto simp: bindE_Inr Let_def dest!: log_calls)

lemma grows_accept_comment: "grows s (snd (accept_comment e i u c s))"
  unfolding accept_comment_def then_find_snd
  by (rule grows_transaction)
    (auto simp: accept_comment_body_def bindE_Inr dest!: log_calls split: if_splits)

lemma grows_remove_accepted_comment: "grows s (snd (remove_accepted_comment e i u s))"
  unfolding remove_accepted_comment_def then_find_snd
  by (rule grows_transaction) (auto simp: bindE_Inr)

lemma grows_set_status: "grows s (snd (set_status e i u st s))"
  unfolding set_status_def then_find_snd
  by (rule grows_transaction) (auto simp: bindE_Inr)

lemma grows_findOne: "grows s (snd (findOne e i u c s))"
  by (rule findOne_cases [of e i u c s]) (simp_all add: grows_def)

lemma grows_update_answer: "grows s (snd (update_answer e i dto u s))"
  unfolding update_answer_def snd_then_lookup
  by (rule grows_transaction)
    (auto simp: update_answer_body_def bindE_Inr insert_answer_revision_Inr split: if_splits prod.splits)

lemma grows_remove_answer: "grows s (snd (remove_answer e i u s))"
  unfolding remove_answer_def
  by (rule grows_transaction) (auto simp: remove_answer_body_def bindE_Inr dest!: log_calls)

lemma grows_accept_answer: "grows s (snd (accept_answer e di dto u s))"
  unfolding accept_answer_def snd_then_lookup
  by (rule grows_transaction)
    (auto simp: accept_answer_body_def bindE_Inr Let_def dest!: log_calls outbox_insert_acceptance)

lemma grows_remove_acceptance: "grows s (snd (remove_acceptance e di u s))"
  unfolding remove_acceptance_def
  by (rule grows_transaction) (auto simp: bindE_Inr)

lemma grows_update_comment: "grows s (snd (update_comment e i u dto s))"
  by (rule update_comment_cases [of e i u dto s]) (simp_all add: grows_def)

lemma grows_remove_comment: "grows s (snd (remove_comment e i u s))"
  by (rule remove_comment_cases [of e i u s]) (simp_all add: grows_def)

lemma grows_set_vote: "grows s (snd (set_vote ty i u v s))"
  by (rule set_vote_cases [of ty i u v s]) (simp_all add: grows_def voted_def Let_def)

lemma grows_review: "grows s (snd (review e ty i dto u s))"
proof (rule review_cases [of e ty i dto u s])
  fix actor scope post post1 s1 rs
  assume d: "decide e dto post s = Inr (post1, s1)"
    and s': "snd (review e ty i dto u s) =
        (save_discussion (reviewed_post e dto actor post post1 s1)
          (snd (revoke_on_review e dto actor (draft_of post \<noteq> None) post1 s1)))\<lparr>moderationReviews := rs\<rparr>"
  have "outbox s1 = outbox s" by (rule decide_cases [OF d]) simp_all
  then show ?thesis unfolding s' by (simp add: grows_def revoke_on_review_def)
qed (simp add: grows_def)

lemma grows_tags:
  "grows s (snd (create_tag e cdto s))" "grows s (snd (update_tag e i udto s))"
  "grows s (snd (remove_tag i s))" "grows s (snd (set_tag_status e i st s))"
  "grows s (snd (merge_tags e i j s))"
  unfolding create_tag_def update_tag_def remove_tag_def set_tag_status_def merge_tags_def snd_map_error
  by (rule grows_transaction; auto simp: bindE_Inr Let_def)+

lemma grows_with_gate:
  assumes "\<And>pc t a s'. body pc t = Inr (a, s') \<Longrightarrow> log_grows (outbox t) (outbox s')"
  shows "grows s (snd (with_gate e r u body s))"
proof (cases r)
  case None
  then show ?thesis
    using grows_transaction [of "body None s" s] assms by (simp add: with_gate_def)
next
  case (Some x)
  obtain res t where g: "assertCanPost e x u s = (res, t)" by (cases "assertCanPost e x u s")
  then have t: "outbox t = outbox s" using outbox_gate [of e x u s] by simp
  have "log_grows (outbox s) (outbox (snd (transaction t (body pc t))))" for pc
    using grows_transaction [of "body pc t" t, OF assms] t by (simp add: grows_def)
  then show ?thesis
    using Some g t by (cases res) (auto simp: with_gate_def grows_def)
qed

lemma grows_update_discussion: "grows s (snd (update_discussion e i u dto s))"
proof -
  have *: "log_grows (outbox t) (outbox s')"
    if "update_discussion_body e dto editor post pc t = Inr (a, s')" for editor post pc t a s'
  proof -
    have d: "update_draft dto editor post t = Inr (a, s') \<Longrightarrow> outbox s' = outbox t"
      using update_draft_Inr(2) [of dto editor post t a s'] by simp
    have r: "change_tags ids post t = Inr t1 \<Longrightarrow> outbox t1 = outbox t" for ids t1
      by (drule change_tags_Inr) (cases t; cases t1; simp)
    have "update_direct e dto editor req post t = Inr (a, s') \<Longrightarrow> outbox s' = outbox t" for req
      by (erule update_direct_Inr) (auto simp: edit_acceptances_def dest!: r)
    then show ?thesis
      using d update_discussion_body_Inr(3) [OF that refl] by (auto split: if_splits)
  qed
  show ?thesis
    unfolding update_discussion_def then_find_snd
    using grows_with_gate [of "update_discussion_body e dto _ _", OF *]
    by (auto split: sum.splits simp: grows_def [of s s])
qed

lemma grows_create_answer: "grows s (snd (create_answer e di dto u s))"
proof -
  have *: "log_grows (outbox t) (outbox s')"
    if "create_answer_body e di dto author q pc t = Inr (a, s')" for author q pc t a s'
    using that unfolding create_answer_body_def Let_def returns insert_answer_revision_Inr
    by (auto split: if_splits dest!: log_calls intro: log_grows_trans)
  show ?thesis
    unfolding create_answer_def snd_then_lookup
    using grows_with_gate [of "create_answer_body e di dto _ _", OF *]
    by (auto split: sum.splits simp: grows_def [of s s])
qed

lemma grows_create_comment: "grows s (snd (create_comment e di u dto s))"
proof -
  have *: "log_grows (outbox t) (outbox s')"
    if "create_comment_body e di dto author q pc t = Inr (a, s')" for author q pc t a s'
    using that unfolding create_comment_body_def Let_def returns
    by (auto split: if_splits dest!: log_calls intro: log_grows_trans)
  show ?thesis
    unfolding create_comment_def snd_then_lookup
    using grows_with_gate [of "create_comment_body e di dto _ _", OF *]
    by (auto split: sum.splits simp: grows_def [of s s])
qed

lemma grows_create_discussion: "grows s (snd (create_discussion e u dto s))"
proof -
  have body: "grows t (snd (transaction t (create_discussion_body e dto author sel pc t)))"
    for author sel pc t
    by (rule grows_transaction)
      (auto simp: create_discussion_body_def Let_def returns link_tags_def insert_revision_def
        split: if_splits dest!: log_calls)
  have here: "outbox t = outbox s" if "assertCanPost e r u s = (x, t)" for r x t
    using that outbox_gate [of e r u s] by simp
  show ?thesis
    unfolding create_discussion_def
    using body here
    by (auto split: sum.splits prod.splits simp: grows_def findOne_def) (metis snd_conv)+
qed

lemma grows_room_steps:
  "grows s (snd (create_room e crdto u s))" "grows s (snd (join_room e i u s))"
  "grows s (snd (add_rule e i ur u s))" "grows s (snd (update_membership e i j um u s))"
  "grows s (snd (update_policy e i up u s))" "grows s (snd (update_room_status e i rs u s))"
proof -
  show "grows s (snd (create_room e crdto u s))"
    by (rule create_room_cases [of e crdto u s])
      (auto simp: grows_def create_body_def Let_def returns dest!: log_calls)
  show "grows s (snd (join_room e i u s))"
    by (rule join_room_cases [of e i u s]) (simp_all add: grows_def)
  have "log_grows (outbox s) (outbox s')" if "add_rule_body e i ur s = Inr (a, s')" for a s'
    using that unfolding add_rule_body_eq returns by (auto dest!: log_calls)
  then show "grows s (snd (add_rule e i ur u s))"
    unfolding add_rule_def using grows_transaction [of "add_rule_body e i ur s" s]
    by (auto split: sum.splits simp: grows_def [of s s])
  have "log_grows (outbox s) (outbox s')" if "update_membership_body e i j um u actor s = Inr (a, s')"
    for actor a s'
    using that unfolding update_membership_body_def Let_def returns by auto
  then show "grows s (snd (update_membership e i j um u s))"
    unfolding update_membership_def using grows_transaction [of "update_membership_body e i j um u _ s" s]
    by (auto split: sum.splits simp: grows_def [of s s])
  have "log_grows (outbox s) (outbox s')" if "update_policy_body e i up u actor s = Inr (a, s')"
    for actor a s'
    using that unfolding update_policy_body_def Let_def returns by auto
  then show "grows s (snd (update_policy e i up u s))"
    unfolding update_policy_def using grows_transaction [of "update_policy_body e i up u _ s" s]
    by (auto split: sum.splits simp: grows_def [of s s])
  show "grows s (snd (update_room_status e i rs u s))"
    unfolding update_room_status_def by (rule grows_transaction) (auto simp: bindE_Inr Let_def)
qed

lemmas grows_steps =
  grows_create_discussion grows_update_discussion grows_remove_discussion grows_accept_comment
  grows_remove_accepted_comment grows_set_status grows_findOne grows_create_answer
  grows_update_answer grows_remove_answer grows_accept_answer grows_remove_acceptance
  grows_create_comment grows_update_comment grows_remove_comment grows_set_vote grows_review
  grows_tags grows_room_steps

interpretation log_kept: kept_by_operations grows
  by unfold_locales (simp_all add: grows_steps grows_same)

context kept_by_operations begin

lemma step_or_round:
  assumes "service_step w w'"
  shows "stream w' = stream w \<and> R (database w) (database w') \<or>
    (\<exists>t connected net.
       (outbox (database w'), stream w') = deliver t connected net (outbox (database w), stream w))"
  using assms
proof (cases rule: service_step.cases)
  case (worker t connected net box msgs)
  then show ?thesis
    by (intro disjI2 exI [of _ t] exI [of _ connected] exI [of _ net]) simp
qed (simp_all add: discussions_kept answers_kept comments_kept votes_kept moderation_kept rooms_kept tags_kept)

end

section \<open>The outbox and the stream\<close>

definition queue_inv :: "outbox_event list \<times> message list \<Rightarrow> bool" where
  "queue_inv q \<longleftrightarrow>
     distinct (map o_id (fst q)) \<and>
     (\<forall>ev \<in> set (fst q). o_deliveredAt ev \<noteq> None \<longrightarrow> message_of ev \<in> set (snd q)) \<and>
     set (snd q) \<subseteq> message_of ` set (fst q)"

lemma message_of_delivered_row [simp]: "message_of (delivered_row t c net ev) = message_of ev"
  by (simp add: delivered_row_def message_of_def)

lemma deliver_messages:
  assumes "distinct (map o_id (fst q))"
  shows "map message_of (fst (deliver t c net q)) = map message_of (fst q)"
  using deliver_eq [OF assms, of t c net "snd q"] by simp

lemma deliver_undelivered:
  assumes "distinct (map o_id (fst q))" "ev \<in> set (fst (deliver t True (\<lambda>_. Acked) q))"
    "o_deliveredAt ev = None"
  shows "ev \<in> set (fst q)"
  using assms(2,3) deliver_eq [OF assms(1), of t True "\<lambda>_. Acked" "snd q"]
  by (auto simp: delivered_row_def split: if_splits)

lemma queue_inv_deliver:
  assumes inv: "queue_inv q" shows "queue_inv (deliver t c net q)"
proof -
  let ?b = "batch t (fst q)"
  have d: "distinct (map o_id (fst q))" using inv by (simp add: queue_inv_def)
  have r: "deliver t c net q =
    (map (\<lambda>ev. if o_id ev \<in> o_id ` set ?b then delivered_row t c net ev else ev) (fst q),
     snd q @ map message_of (filter (sent c net) ?b))"
    using deliver_eq [OF d, of t c net "snd q"] by simp
  have "message_of ev' \<in> set (snd (deliver t c net q))"
    if ev': "ev' \<in> set (fst (deliver t c net q))" "o_deliveredAt ev' \<noteq> None" for ev'
  proof -
    obtain ev where ev: "ev \<in> set (fst q)"
      "ev' = (if o_id ev \<in> o_id ` set ?b then delivered_row t c net ev else ev)"
      using ev'(1) r by auto
    show ?thesis
    proof (cases "o_id ev \<in> o_id ` set ?b")
      case True
      then have b: "ev \<in> set ?b" using in_batch_iff [OF d ev(1)] by simp
      then have "o_deliveredAt ev = None" by (auto simp: due_def dest: mem_batch)
      then have "sent c net ev"
        using True ev(2) ev'(2) by (auto simp: delivered_row_def sent_def split: if_splits)
      then show ?thesis using True b ev(2) by (auto simp: r)
    next
      case False
      then have "ev' = ev" using ev(2) by simp
      then show ?thesis using inv ev(1) ev'(2) by (simp add: queue_inv_def r)
    qed
  qed
  moreover have "set (snd (deliver t c net q)) \<subseteq> message_of ` set (fst (deliver t c net q))"
  proof -
    have "message_of ` set (fst (deliver t c net q)) = message_of ` set (fst q)"
      using deliver_messages [OF d, of t c net] by (metis list.set_map)
    moreover have "message_of ` set ?b \<subseteq> message_of ` set (fst q)" using mem_batch by blast
    ultimately show ?thesis using inv by (auto simp: r queue_inv_def)
  qed
  ultimately show ?thesis
    using d keys_deliver [OF d, of t c net "snd q"] by (simp add: queue_inv_def)
qed

definition log_inv :: "system \<Rightarrow> bool" where
  "log_inv w \<longleftrightarrow> queue_inv (outbox (database w), stream w)"

lemma log_inv_grows:
  assumes "log_inv w" "stream w' = stream w" "grows (database w) (database w')"
  shows "log_inv w'"
  using assms by (auto simp: log_inv_def queue_inv_def grows_def log_grows_def)

lemma log_inv_step: "log_inv w \<Longrightarrow> service_step w w' \<Longrightarrow> log_inv w'"
  using log_kept.step_or_round [of w w'] log_inv_grows [of w w'] queue_inv_deliver
  by (auto simp: log_inv_def)

lemma log_inv_start: "started_system w \<Longrightarrow> log_inv w"
  by (simp add: started_system_def init_db_def log_inv_def queue_inv_def)

interpretation log_machine: inductive_invariant started_system service_step log_inv
  by unfold_locales (fact log_inv_start, fact log_inv_step)

lemma reachable_log_inv: "reachable w \<Longrightarrow> queue_inv (outbox (database w), stream w)"
  using log_machine.holds by (simp add: log_inv_def)

text \<open>
  Rounds in which the stream acknowledges everything, iterated at one point of time: what is not
  delivered in the end was there before, and no message changes.
\<close>

lemma queue_inv_keys: "queue_inv q \<Longrightarrow> distinct (map o_id (fst q))"
  by (simp add: queue_inv_def)

lemma rounds:
  assumes "queue_inv q"
  shows "queue_inv ((deliver t True (\<lambda>_. Acked) ^^ n) q)"
    "map message_of (fst ((deliver t True (\<lambda>_. Acked) ^^ n) q)) = map message_of (fst q)"
    "ev \<in> set (fst ((deliver t True (\<lambda>_. Acked) ^^ n) q)) \<Longrightarrow> o_deliveredAt ev = None \<Longrightarrow>
       ev \<in> set (fst q)"
proof (induction n)
  case (Suc n)
  note keys = queue_inv_keys [OF Suc.IH(1)]
  {
    case 1 then show ?case using Suc.IH(1) by (simp add: queue_inv_deliver)
  next
    case 2 then show ?case using Suc.IH(2) deliver_messages [OF keys] by simp
  next
    case 3 then show ?case using Suc.IH(3) deliver_undelivered [OF keys] by simp
  }
qed (use assms in simp_all)

text \<open>Enough rounds publish whatever was due.\<close>

lemma all_due_published:
  assumes inv: "queue_inv q" and n: "backlog t q \<le> n * 20"
    and ev: "ev \<in> set (fst q)" "due t ev"
  shows "message_of ev \<in> set (snd ((deliver t True (\<lambda>_. Acked) ^^ n) q))"
proof -
  let ?q = "(deliver t True (\<lambda>_. Acked) ^^ n) q"
  have "message_of ` set (fst ?q) = message_of ` set (fst q)"
    using arg_cong [OF rounds(2) [OF inv, where t = t and n = n], of set] by simp
  then have "message_of ev \<in> message_of ` set (fst ?q)" using ev(1) by simp
  then obtain ev' where ev': "ev' \<in> set (fst ?q)" "message_of ev' = message_of ev" by auto
  show ?thesis
  proof (cases "o_deliveredAt ev'")
    case (Some x)
    then show ?thesis using rounds(1) [OF inv, where t = t and n = n] ev' by (metis option.distinct(1) queue_inv_def)
  next
    case None
    then have "ev' \<in> set (fst q)" using rounds(3) [OF inv ev'(1)] by simp
    then have "ev' = ev"
      using ev(1) ev'(2) queue_inv_keys [OF inv]
      by (auto simp: message_of_def distinct_map dest: inj_onD)
    have "backlog t ?q = 0"
      using queue_inv_keys [OF inv] n by (intro outbox_worker.drained) (simp_all add: Outbox.keyed_def)
    then have "\<not> due t ev'" using ev'(1) by (simp add: backlog_def count_where_zero)
    then have False using ev(2) \<open>ev' = ev\<close> by simp
    then show ?thesis ..
  qed
qed

end
