(* ===== verification/Room_Access.thy ===== *)
theory Room_Access
  imports Outbox_Frame
begin

text \<open>
  Who may post in a room: the conditions of the posting gate as one predicate on the membership
  before the call, and what follows for the handlers that ask the gate.
\<close>

section \<open>The gate as a predicate\<close>

text \<open>The membership does not keep its owner from posting.\<close>

definition unhindered :: "time \<Rightarrow> room_membership \<Rightarrow> bool" where
  "unhindered t m \<longleftrightarrow>
     m_status m \<noteq> Banned \<and> m_status m \<noteq> Muted \<and> m_postPermission m \<noteq> BlockedPost \<and>
     (case m_expiresAt m of None \<Rightarrow> True | Some x \<Rightarrow> t < x)"

text \<open>What a room asks of somebody who posts in it.\<close>

definition may_post :: "time \<Rightarrow> room \<Rightarrow> room_membership option \<Rightarrow> bool" where
  "may_post t room membership \<longleftrightarrow>
     r_status room = ACTIVE \<and>
     (case membership of
        Some m \<Rightarrow>
          unhindered t m \<and>
          (r_visibility room = PRIVATE \<or> r_postingPolicy room \<noteq> ANYONE \<longrightarrow> m_status m = Active) \<and>
          (r_postingPolicy room = APPROVED \<longrightarrow> m_role m \<noteq> Member)
      | None \<Rightarrow>
          (case r_postingPolicy room of
             ANYONE \<Rightarrow> r_visibility room \<noteq> PRIVATE
           | MEMBERS \<Rightarrow> r_visibility room = PUBLIC \<and> r_membershipPolicy room = OpenJoin
           | APPROVED \<Rightarrow> False))"

lemma find_membership_auto_join:
  assumes "find_room r s = Some room"
  shows "find_membership r i (auto_join e room i s) =
    (case find_membership r i s of
       Some m \<Rightarrow> Some m
     | None \<Rightarrow>
         if r_visibility room = PUBLIC \<and> r_membershipPolicy room = OpenJoin \<and> r_postingPolicy room = MEMBERS
         then Some (new_membership e r i Member Active None) else None)"
proof -
  have id: "r_id room = r" using find_room_Some [OF assms] by simp
  have "find_by (\<lambda>m. m_key m = (r, i)) (xs @ [new_membership e r i Member Active None]) =
      Some (new_membership e r i Member Active None)"
    if "find_by (\<lambda>m. m_key m = (r, i)) xs = None" for xs
    using that by (induction xs) (auto simp: find_by_def m_key_def new_membership_def split: if_splits)
  then show ?thesis
    by (auto simp: auto_join_def id find_membership_def split: option.splits)
qed

lemma unhindered_iff:
  "unhindered (now e) m \<longleftrightarrow>
     \<not> expired (now e) m \<and> m_postPermission m \<noteq> BlockedPost \<and> m_status m \<noteq> Banned \<and> m_status m \<noteq> Muted"
  by (auto simp: unhindered_def expired_def split: option.splits)

lemma new_member_unhindered: "unhindered t (new_membership e r i Member Active None)"
  by (simp add: unhindered_def new_membership_def)

lemma post_gate_may_post:
  assumes "find_room r s = Some room" "r_status room = ACTIVE"
  shows "(\<exists>pc. post_gate e room (find_membership r i (auto_join e room i s)) s' = Inr pc) \<longleftrightarrow>
    may_post (now e) room (find_membership r i s)"
proof (cases "find_membership r i s")
  case None
  let ?new = "new_membership e r i Member Active None"
  have "m_status ?new = Active" "m_role ?new = Member" by (simp_all add: new_membership_def)
  then show ?thesis
    using assms(2) None new_member_unhindered [of "now e" e r i, unfolded unhindered_iff]
    unfolding find_membership_auto_join [OF assms(1)] post_gate_Inr may_post_def
    by (cases "r_postingPolicy room") (auto split: if_splits)
next
  case (Some m)
  then show ?thesis
    using assms(2) unfolding find_membership_auto_join [OF assms(1)] post_gate_Inr may_post_def unhindered_iff
    by (cases "r_postingPolicy room") auto
qed

lemma assertCanPost_Inr:
  "fst (assertCanPost e r u s) = Inr pc \<longleftrightarrow>
     (\<exists>i room. uid u = Some i \<and> i \<noteq> '''' \<and> find_room r s = Some room \<and> r_status room = ACTIVE \<and>
        post_gate e room (find_membership r i (auto_join e room i s)) (auto_join e room i s) = Inr pc)"
  (is "_ \<longleftrightarrow> ?R")
proof (rule assertCanPost_cases [of e r u s])
  fix ex assume *: "assertCanPost e r u s = (Inl ex, s)"
  have "\<not> ?R"
  proof
    assume ?R
    then obtain i room where ir: "uid u = Some i" "i \<noteq> ''''" "find_room r s = Some room"
      "r_status room = ACTIVE"
      "post_gate e room (find_membership r i (auto_join e room i s)) (auto_join e room i s) = Inr pc"
      by blast
    moreover have "r_id room = r" using find_room_Some [OF ir(3)] by simp
    ultimately have "fst (assertCanPost e r u s) = Inr pc"
      by (simp add: assertCanPost_def authenticated_def truthy_def Let_def)
    then show False using * by simp
  qed
  then show ?thesis using * by simp
next
  fix i room
  assume *: "uid u = Some i" "i \<noteq> ''''" "find_room r s = Some room" "r_id room = r" "r_status room = ACTIVE"
    "assertCanPost e r u s =
       (post_gate e room (find_membership r i (auto_join e room i s)) (auto_join e room i s),
        auto_join e room i s)"
  show ?thesis unfolding *(6) fst_conv using *(1-5) by auto
qed

lemma gate_may_post:
  "(\<exists>pc. fst (assertCanPost e r u s) = Inr pc) \<longleftrightarrow>
     (\<exists>i room. uid u = Some i \<and> i \<noteq> '''' \<and> find_room r s = Some room \<and>
        may_post (now e) room (find_membership r i s))"
proof -
  have gate: "r_status room = ACTIVE \<and> (\<exists>pc.
      post_gate e room (find_membership r i (auto_join e room i s)) (auto_join e room i s) = Inr pc) \<longleftrightarrow>
    may_post (now e) room (find_membership r i s)" if "find_room r s = Some room" for i room
    using post_gate_may_post [OF that, of e i "auto_join e room i s"] by (auto simp: may_post_def)
  show ?thesis unfolding assertCanPost_Inr gate [symmetric] by (auto simp flip: gate)
qed

text \<open>Somebody with a membership row does not join again by asking the gate.\<close>

lemma gate_keeps_member:
  assumes "uid u = Some i" "find_membership r i s = Some m"
  shows "snd (assertCanPost e r u s) = s"
proof (rule assertCanPost_cases [of e r u s])
  fix j room
  assume *: "uid u = Some j" "find_room r s = Some room" "r_id room = r"
    "assertCanPost e r u s =
       (post_gate e room (find_membership r j (auto_join e room j s)) (auto_join e room j s),
        auto_join e room j s)"
  have "auto_join e room j s = s" using *(1,3) assms by (simp add: auto_join_def)
  then show ?thesis using *(4) by simp
qed simp

text \<open>A call that is refused and changes nothing.\<close>

definition refused :: "(exn + 'a) \<times> db \<Rightarrow> db \<Rightarrow> bool" where
  "refused r s \<longleftrightarrow> (\<exists>ex. r = (Inl ex, s))"

lemma refusedI: "refused (Inl ex, s) s"
  by (simp add: refused_def)

lemma hindered_gate:
  assumes "uid u = Some i" "find_membership r i s = Some m" "\<not> unhindered (now e) m"
  shows "refused (assertCanPost e r u s) s"
proof -
  have "\<not> may_post (now e) room (find_membership r i s)" for room
    using assms(2,3) by (simp add: may_post_def)
  then have "\<nexists>pc. fst (assertCanPost e r u s) = Inr pc"
    unfolding gate_may_post using assms(1) by auto
  then show ?thesis
    using gate_keeps_member [OF assms(1,2), of e]
    by (cases "assertCanPost e r u s"; cases "fst (assertCanPost e r u s)") (auto simp: refused_def)
qed

section \<open>Handlers behind the gate\<close>

lemma refused_with_gate:
  assumes "refused (assertCanPost e r u s) s"
  shows "refused (with_gate e (Some r) u body s) s"
  using assms by (auto simp: with_gate_def refused_def)

lemma refused_create_discussion:
  assumes "refused (assertCanPost e (cd_roomId dto) u s) s"
  shows "refused (create_discussion e u dto s) s"
proof -
  from assms obtain ex where "assertCanPost e (cd_roomId dto) u s = (Inl ex, s)"
    by (auto simp: refused_def)
  then show ?thesis
    unfolding create_discussion_def by (auto intro: refusedI split: sum.splits prod.splits)
qed

lemma refused_then_lookup:
  "refused r s \<Longrightarrow> refused (case r of (Inl ex, t) \<Rightarrow> (Inl ex, t) | (Inr x, t) \<Rightarrow> (f x t, t)) s"
  by (auto simp: refused_def)

lemma refused_create_answer:
  assumes "find_discussion di s = Some q" "d_roomId q = Some r" "refused (assertCanPost e r u s) s"
  shows "refused (create_answer e di dto u s) s"
  unfolding create_answer_def
proof (rule refused_then_lookup)
  have "refused (with_gate e (d_roomId q) u (create_answer_body e di dto author q) s) s" for author
    using refused_with_gate [OF assms(3)] assms(2) by simp
  then show "refused
    (case bindE (authenticated u) (\<lambda>authorId.
           bindE (lockPost di s) (\<lambda>question.
           bindE (requireOpen question) (\<lambda>_.
           bindE (requireApproved question) (\<lambda>_.
           bindE (guardE (d_postType question = Question)
                    (BadRequest ''Only questions accept answers'')) (\<lambda>_.
           Inr (authorId, question)))))) of
        Inl ex \<Rightarrow> (Inl ex, s)
      | Inr (authorId, question) \<Rightarrow>
          with_gate e (d_roomId question) u (create_answer_body e di dto authorId question) s) s"
    using assms(1) by (auto intro: refusedI simp: returns split: sum.splits)
qed

lemma refused_create_comment:
  assumes "find_discussion di s = Some q" "d_roomId q = Some r" "refused (assertCanPost e r u s) s"
  shows "refused (create_comment e di u dto s) s"
proof -
  have *: "refused (with_gate e (d_roomId q) u (create_comment_body e di dto author q) s) s" for author
    using refused_with_gate [OF assms(3)] assms(2) by simp
  have "refused
    (case bindE (authenticated u) (\<lambda>authorId.
           bindE (lockPost di s) (\<lambda>post.
           bindE (requireOpen post) (\<lambda>_.
           bindE (requireApproved post) (\<lambda>_.
           Inr (authorId, post))))) of
        Inl ex \<Rightarrow> (Inl ex, s)
      | Inr (authorId, post) \<Rightarrow>
          with_gate e (d_roomId post) u (create_comment_body e di dto authorId post) s) s"
    using * assms(1) by (auto intro: refusedI simp: returns split: sum.splits)
  then show ?thesis by (auto simp: create_comment_def refused_def)
qed

section \<open>Joining\<close>

text \<open>What becomes of the membership of somebody who joins, by the membership he has.\<close>

lemma join_room_by_membership:
  assumes "uid u = Some i" "i \<noteq> ''''" "find_room r s = Some room" "r_membershipPolicy room \<noteq> InviteOnly"
  defines "st \<equiv> (if r_membershipPolicy room = ApprovalJoin then Waiting else Active)"
  shows "join_room e r u s =
    (case find_membership r i s of
       None \<Rightarrow>
         let m = new_membership e r i Member st None in
         (Inr m, s\<lparr>memberships := memberships s @ [m]\<rparr>)
     | Some m \<Rightarrow>
         (case m_status m of
            Banned \<Rightarrow> (Inl (Forbidden ''You are banned from this room''), s)
          | Gone \<Rightarrow>
              let m' = m\<lparr>m_role := Member, m_status := st, m_assignedBy := None, m_expiresAt := None\<rparr> in
              (Inr m', save_membership m' s)
          | _ \<Rightarrow> (Inr m, s)))"
proof (cases "find_membership r i s")
  case None
  then have "m_key (new_membership e r i Member st None) \<notin> m_key ` set (memberships s)"
    by (simp add: find_membership_None new_membership_def m_key_def)
  then have "insert_row m_key ''room_memberships_room_id_user_id_key'' (new_membership e r i Member st None)
      (memberships s) = Inr (memberships s @ [new_membership e r i Member st None])"
    by (simp add: returns)
  then show ?thesis
    using None assms by (simp add: join_room_def authenticated_def truthy_def Let_def)
next
  case (Some m)
  then show ?thesis
    using assms by (cases "m_status m") (simp_all add: join_room_def authenticated_def truthy_def Let_def)
qed

section \<open>Rooms a user manages\<close>

lemma managed_rooms:
  assumes "managedRoomIds e u s = Inr ids" "uid u = Some actor" "r \<in> set ids"
    "distinct (map m_key (memberships s))"
  shows "manages e r actor s"
proof -
  from assms(1-3) obtain m where m: "m \<in> set (memberships s)" "m_roomId m = r" "m_userId m = actor"
    "m_status m = Active" "m_role m = Owner \<or> m_role m = Moderator" "\<not> expired (now e) m"
    by (auto simp: managedRoomIds_def returns)
  have "find_active_membership r actor s = Some m"
    unfolding find_active_membership_def using m assms(4)
    by (intro find_by_distinct [where key = m_key]) (auto simp: m_key_def)
  then show ?thesis using m by (simp add: manages_def)
qed

end
