(* ===== verification/Post_Results.thy ===== *)
theory Post_Results
  imports Room_Access
begin

text \<open>
  What calls on posts and answers return and leave behind: an acceptance whose guards hold succeeds,
  an edit of the accepted answer revokes it when it is semantic, a closed post refuses every call,
  an edit under approval leaves the published post alone, and a review decides on what it was shown.
\<close>

section \<open>Accepting\<close>

definition accepted_event :: "env \<Rightarrow> discussion \<Rightarrow> answer \<Rightarrow> uuid \<Rightarrow> outbox_event" where
  "accepted_event e q a actor =
     \<lparr>o_id = fresh e 0, o_eventType = ''answer.accepted'',
      o_payload =
        [(''discussionId'', JStr (d_id q)), (''answerId'', JStr (a_id a)),
         (''answerVersion'', JNum (int (a_contentVersion a))), (''recipientId'', JStr (a_authorId a)),
         (''actorId'', JStr actor), (''discussionTitle'', JStr (d_title q))],
      o_createdAt = now e, o_deliveredAt = None, o_attempts = 0, o_nextAttemptAt = now e\<rparr>"

definition solved_by :: "answer \<Rightarrow> discussion \<Rightarrow> discussion" where
  "solved_by a q =
     q\<lparr>d_acceptedAnswerId := Some (a_id a), d_acceptedCommentId := None, d_status := Solved\<rparr>"

lemma no_active_after_revoke:
  assumes "post_inv s" "find_discussion di s = Some q"
  shows "filter (ac_active (d_id q)) (answerAcceptances (snd (revokeAcceptance e q actor why s))) = []"
  using revoked(6) [OF assms, of e actor why] post_invD(2) [OF assms] by (simp add: active_answers_eq)

lemma revoked_fields:
  "(fst (revokeAcceptance e q actor why s))
     \<lparr>d_acceptedAnswerId := x, d_acceptedCommentId := y, d_status := st\<rparr> =
   q\<lparr>d_acceptedAnswerId := x, d_acceptedCommentId := y, d_status := st\<rparr>"
  by (simp add: revokeAcceptance_def Let_def)

lemma accept_body_eq:
  assumes inv: "post_inv s" and may: "may_accept di dto u actor a q s"
    and fresh: "fresh e 0 \<notin> o_id ` set (outbox s)"
  shows "accept_answer_body e di dto u s = Inr ((), (accepted_answer e a q actor s)
     \<lparr>outbox := outbox s @ [accepted_event e q a actor]\<rparr>)"
proof -
  let ?s1 = "snd (revokeAcceptance e q actor ''replaced'' s)"
  let ?ac = "new_acceptance q a actor"
  from may have m: "find_discussion di s = Some q" "d_status q \<noteq> Closed" "d_postType q = Question"
    "canAccept q u" "approved (d_moderationStatus q) (d_visibility q)"
    "find_answer (aa_answerId dto) s = Some a" "a_discussionId a = d_id q" "a_authorId a \<noteq> actor"
    "d_contentVersion q = aa_expectedQuestionVersion dto"
    "a_contentVersion a = aa_expectedAnswerVersion dto"
    and u: "uid u = Some actor" "actor \<noteq> ''''"
    by (auto simp: may_accept_def canAccept_def truthy_def)
  have "\<not> exists_where (ac_active (ac_discussionId ?ac)) (answerAcceptances ?s1)"
    using no_active_after_revoke [OF inv m(1), of e actor "''replaced''"]
    by (auto simp: exists_where_iff filter_empty_conv new_acceptance_def)
  then have "insert_acceptance ?ac ?s1 = Inr (?s1\<lparr>answerAcceptances := answerAcceptances ?s1 @ [?ac]\<rparr>)"
    by (simp add: insert_acceptance_def)
  moreover have "event e 0 ''answer.accepted'' (o_payload (accepted_event e q a actor)) (accepted_answer e a q actor s)
      = Inr ((accepted_answer e a q actor s)\<lparr>outbox := outbox s @ [accepted_event e q a actor]\<rparr>)"
    using fresh unfolding event_Inr by (simp add: accepted_event_def accepted_answer_def Let_def)
  ultimately show ?thesis
    using m u
    by (simp add: accept_answer_body_def authenticated_def truthy_def lockPost_def requireOpen_def
        requireApproved_def accepted_answer_def accepted_event_def Let_def)
qed

lemma accept_answer_result:
  assumes inv: "post_inv s" and may: "may_accept di dto u actor a q s"
    and fresh: "fresh e 0 \<notin> o_id ` set (outbox s)"
  obtains s' where "accept_answer e di dto u s = (Inr a, s')"
    "find_discussion di s' = Some (solved_by a q)"
    "filter (ac_active di) (answerAcceptances s') = [new_acceptance q a actor]"
    "outbox s' = outbox s @ [accepted_event e q a actor]" "answers s' = answers s" "votes s' = votes s"
proof -
  let ?r = "revokeAcceptance e q actor ''replaced'' s"
  let ?t = "(snd ?r)\<lparr>answerAcceptances := answerAcceptances (snd ?r) @ [new_acceptance q a actor]\<rparr>"
  let ?s' = "(accepted_answer e a q actor s)\<lparr>outbox := outbox s @ [accepted_event e q a actor]\<rparr>"
  from may have q: "find_discussion di s = Some q" and a: "find_answer (aa_answerId dto) s = Some a"
    by (simp_all add: may_accept_def)
  note r = revoked [OF inv q, of e actor "''replaced''"]
  have id: "d_id q = di" using post_invD(2) [OF inv q] .
  have acc: "accepted_answer e a q actor s = save_discussion (solved_by a q) ?t"
    by (simp add: accepted_answer_def Let_def revoked_fields solved_by_def)
  have tables: "answers ?s' = answers s" "votes ?s' = votes s"
    using r(4) by (simp_all add: acc save_discussion_def revokeAcceptance_def revoke_acceptances_def Let_def)
  have call: "accept_answer e di dto u s = (Inr a, ?s')"
    using accept_body_eq [OF assms] a tables(1) by (simp add: accept_answer_def find_answer_one_def find_answer_def)
  have "find_discussion (d_id (solved_by a q)) (save_discussion (solved_by a q) ?t) = Some (solved_by a q)"
  proof (rule discussion_repo.lookup_save_same)
    show "distinct (map d_id (discussions ?t))" using post_inv_keys(1) [OF r(1)] by simp
    show "find_discussion (d_id (solved_by a q)) ?t = Some (fst ?r)"
      using r(2) id by (simp add: find_discussion_def solved_by_def)
    show "d_live (solved_by a q)" using post_invD(3) [OF inv q] by (simp add: d_live_def solved_by_def)
  qed
  then have "find_discussion di ?s' = Some (solved_by a q)"
    using id by (simp add: acc find_discussion_def solved_by_def)
  moreover have "filter (ac_active di) (answerAcceptances ?s') = [new_acceptance q a actor]"
    using no_active_after_revoke [OF inv q, of e actor "''replaced''"] id
    by (simp add: acc save_discussion_def new_acceptance_def ac_active_def)
  ultimately show thesis using that call tables by simp
qed

section \<open>Editing an answer\<close>

lemma update_answer_result:
  assumes inv: "post_inv s" and call: "update_answer e i dto u s = (Inr a', s')"
    and a: "find_answer i s = Some a" "a_content a \<noteq> ua_content dto"
    and q: "find_discussion (a_discussionId a) s = Some q"
  shows "a' = next_answer dto a"
    "\<exists>editor. uid u = Some editor \<and> (a_authorId a = editor \<or> staff u) \<and>
       answerRevisions s' = answerRevisions s @ [next_answer_revision dto a editor]"
    "d_status q \<noteq> Closed" "a_contentVersion a = ua_expectedVersion dto"
    "find_discussion (a_discussionId a) s' = Some
       (if ua_revisionType dto = Semantic \<and> d_acceptedAnswerId q = Some i
        then q\<lparr>d_acceptedAnswerId := None, d_status := Open\<rparr> else q)"
    "ua_revisionType dto = Semantic \<Longrightarrow> d_acceptedAnswerId q = Some i \<Longrightarrow>
       filter (ac_active (d_id q)) (answerAcceptances s') = []"
    "ua_revisionType dto \<noteq> Semantic \<Longrightarrow> answerAcceptances s' = answerAcceptances s"
proof -
  have id: "a_id a = i" "a_live a" "d_id q = a_discussionId a" "d_live q"
    using answer_repo.found [OF a(1)] post_invD(2,3) [OF inv q] by simp_all
  from call have body: "update_answer_body e i dto u s = Inr ((), s')" and a': "find_answer i s' = Some a'"
    by (auto simp: update_answer_def find_answer_one_def transaction_def returns split: sum.splits prod.splits)
  from body a q obtain editor where ed: "uid u = Some editor" "a_authorId a = editor \<or> staff u"
    "d_status q \<noteq> Closed" "a_contentVersion a = ua_expectedVersion dto"
    and s': "s' = (let s1 = (save_answer (next_answer dto a) s)\<lparr>answerRevisions := answerRevisions s @
              [next_answer_revision dto a editor]\<rparr> in
          if ua_revisionType dto = Semantic \<and> d_acceptedAnswerId q = Some i
          then snd (revokeAcceptance e q editor ''answer_edited'' s1) else s1)"
    unfolding update_answer_body_def
    by (auto simp: returns insert_answer_revision_Inr id(1) Let_def save_answer_def split: if_splits)
  let ?s1 = "(save_answer (next_answer dto a) s)\<lparr>answerRevisions := answerRevisions s @
              [next_answer_revision dto a editor]\<rparr>"
  have rev: "answerRevisions (snd (revokeAcceptance e q x r t)) = answerRevisions t"
    "answers (snd (revokeAcceptance e q x r t)) = answers t" for x r t
    by (simp_all add: revokeAcceptance_def Let_def save_discussion_def revoke_acceptances_def)
  have "answers s' = put a_id (next_answer dto a) (answers s)"
    by (simp add: s' Let_def rev save_answer_def)
  moreover have "find_answer i (save_answer (next_answer dto a) s) = Some (next_answer dto a)"
    using answer_repo.lookup_save_same [of s "next_answer dto a" a] post_inv_keys(2) [OF inv] a(1) id(1,2)
    by (simp add: next_answer_def a_live_def)
  ultimately show "a' = next_answer dto a"
    using a' by (simp add: find_answer_def save_answer_def)
  show "\<exists>editor. uid u = Some editor \<and> (a_authorId a = editor \<or> staff u) \<and>
       answerRevisions s' = answerRevisions s @ [next_answer_revision dto a editor]"
    using ed by (simp add: s' Let_def rev)
  show "d_status q \<noteq> Closed" "a_contentVersion a = ua_expectedVersion dto" by fact+
  let ?q = "q\<lparr>d_acceptedAnswerId := None, d_status := Open\<rparr>"
  have "find_discussion (d_id ?q) (save_discussion ?q t) = Some ?q" if "discussions t = discussions s" for t
    using that q id(3,4) post_inv_keys(1) [OF inv]
    by (intro discussion_repo.lookup_save_same [where y = q]) (simp_all add: find_discussion_def d_live_def)
  then show "find_discussion (a_discussionId a) s' = Some
       (if ua_revisionType dto = Semantic \<and> d_acceptedAnswerId q = Some i
        then q\<lparr>d_acceptedAnswerId := None, d_status := Open\<rparr> else q)"
    using q id(3) by (simp add: s' Let_def revokeAcceptance_def save_answer_def find_discussion_def)
  show "filter (ac_active (d_id q)) (answerAcceptances s') = []"
    if "ua_revisionType dto = Semantic" "d_acceptedAnswerId q = Some i"
    using that by (simp add: s' Let_def revokeAcceptance_def save_discussion_def revoke_acceptances_def
        filter_active_update)
  show "answerAcceptances s' = answerAcceptances s" if "ua_revisionType dto \<noteq> Semantic"
    using that by (simp add: s' Let_def save_answer_def)
qed

section \<open>Closed posts\<close>

lemma refused_transaction: "r = Inl ex \<Longrightarrow> refused (transaction s r) s"
  by (simp add: refused_def)

lemma refused_then_find: "refused r s \<Longrightarrow> refused (then_find e i u r) s"
  by (auto simp: refused_def then_find_def)

lemma refused_transaction_none:
  assumes "\<And>x. r \<noteq> Inr x" shows "refused (transaction s r) s"
  using assms by (cases r) (auto simp: refused_def)

lemma closed_refuses_replies:
  assumes "find_discussion di s = Some q" "d_status q = Closed"
  shows "refused (create_answer e di na u s) s" "refused (create_comment e di u nc s) s"
  using assms
  by (auto simp: create_answer_def create_comment_def refused_def lockPost_def requireOpen_def
      authenticated_def truthy_def bindE_def guardE_def someE_def split: sum.splits option.splits)

lemma closed_refuses_edit:
  assumes "find_discussion di s = Some q" "d_status q = Closed"
  shows "refused (update_discussion e di u ud s) s"
proof -
  have "bindE (authenticated u) (\<lambda>editor.
             bindE (validate_media e (or_else (ud_mediaIds ud) []) (uid u)) (\<lambda>_.
             bindE (lockPost di s) (\<lambda>post.
             bindE (requireManager (d_authorId post) u) (\<lambda>_.
             bindE (requireOpen post) (\<lambda>_.
             Inr (editor, post)))))) \<noteq> Inr x" for x
    using assms by (auto simp: returns)
  then show ?thesis
    unfolding update_discussion_def
    by (intro refused_then_find) (auto intro: refusedI split: sum.splits)
qed

lemma closed_refuses_acceptance:
  assumes "find_discussion di s = Some q" "d_status q = Closed"
  shows "refused (accept_answer e di aa u s) s" "refused (accept_comment e di u j s) s"
    "refused (remove_accepted_comment e di u s) s"
proof -
  have "refused (transaction s (accept_answer_body e di aa u s)) s"
    using assms by (intro refused_transaction_none) (auto simp: accept_answer_body_def returns)
  then show "refused (accept_answer e di aa u s) s"
    unfolding accept_answer_def by (rule refused_then_lookup)
  show "refused (accept_comment e di u j s) s"
    unfolding accept_comment_def using assms
    by (intro refused_then_find refused_transaction_none) (auto simp: accept_comment_body_def returns)
  show "refused (remove_accepted_comment e di u s) s"
    unfolding remove_accepted_comment_def using assms
    by (intro refused_then_find refused_transaction_none) (auto simp: returns)
qed

lemma closed_refuses_answers:
  assumes "find_discussion (a_discussionId a) s = Some q" "d_status q = Closed" "find_answer i s = Some a"
  shows "refused (update_answer e i ua u s) s" "refused (remove_answer e i u s) s"
    "refused (set_vote OnAnswer i u v s) s"
proof -
  have "refused (transaction s (update_answer_body e i ua u s)) s"
    using assms by (intro refused_transaction_none) (auto simp: update_answer_body_def returns)
  then show "refused (update_answer e i ua u s) s"
    unfolding update_answer_def by (rule refused_then_lookup)
  show "refused (remove_answer e i u s) s"
    unfolding remove_answer_def using assms
    by (intro refused_transaction_none) (auto simp: remove_answer_body_def returns)
  show "refused (set_vote OnAnswer i u v s) s"
    unfolding set_vote_def using assms
    by (intro refused_transaction_none) (auto simp: set_vote_body_def lock_target_def returns)
qed

lemma closed_refuses_comments:
  assumes "find_discussion (c_discussionId c) s = Some q" "d_status q = Closed" "find_comment i s = Some c"
  shows "refused (update_comment e i u uc s) s" "refused (remove_comment e i u s) s"
    "refused (set_vote OnComment i u v s) s"
proof -
  have "refused (transaction s (update_comment_body e i u uc s)) s"
    using assms by (intro refused_transaction_none) (auto simp: update_comment_body_def returns)
  then show "refused (update_comment e i u uc s) s"
    unfolding update_comment_def by (auto simp: refused_def)
  show "refused (remove_comment e i u s) s"
    unfolding remove_comment_def using assms
    by (intro refused_transaction_none) (auto simp: returns)
  show "refused (set_vote OnComment i u v s) s"
    unfolding set_vote_def using assms
    by (intro refused_transaction_none) (auto simp: set_vote_body_def lock_target_def returns)
qed

lemma closed_refuses_votes:
  assumes "find_discussion i s = Some q" "d_status q = Closed"
  shows "refused (set_vote OnDiscussion i u v s) s"
  unfolding set_vote_def using assms
  by (intro refused_transaction_none) (auto simp: set_vote_body_def lock_target_def returns)

section \<open>Edits under approval\<close>

lemma update_discussion_success:
  assumes call: "update_discussion e i u dto s = (Inr v, s')"
    and post: "find_discussion i s = Some post"
  obtains t pc editor where
    "only_memberships s t" "uid u = Some editor" "d_authorId post = editor \<or> staff u" "d_status post \<noteq> Closed"
    "update_discussion_body e dto editor post pc t = Inr ((), s')"
    "pc = None \<longleftrightarrow> d_roomId post = None"
    "\<And>x. pc = Some x \<Longrightarrow>
       fst (assertCanPost e (the (d_roomId post)) \<lparr>uid = Some (d_authorId post), urole = urole u\<rparr> s) = Inr x"
proof -
  have then_Inr: "\<exists>a. r = (Inr a, s')" if "then_find e i u r = (Inr v, s')" for r :: "(exn + unit) \<times> db"
  proof -
    have "fst r \<noteq> Inl ex" for ex using that by (cases r) (auto simp: then_find_def)
    then obtain a t where r: "r = (Inr a, t)" by (metis old.sum.exhaust prod.collapse)
    have "t = s'" using that r by (metis snd_conv then_find_snd)
    then show ?thesis using r by simp
  qed
  let ?checks = "bindE (authenticated u) (\<lambda>editor.
             bindE (validate_media e (or_else (ud_mediaIds dto) []) (uid u)) (\<lambda>_.
             bindE (lockPost i s) (\<lambda>post.
             bindE (requireManager (d_authorId post) u) (\<lambda>_.
             bindE (requireOpen post) (\<lambda>_.
             Inr (editor, post))))))"
  obtain editor where checks: "?checks = Inr (editor, post)" and
    gate: "\<exists>a. with_gate e (d_roomId post) \<lparr>uid = Some (d_authorId post), urole = urole u\<rparr>
              (update_discussion_body e dto editor post) s = (Inr a, s')"
  proof (cases ?checks)
    case (Inl ex)
    then have False using call by (simp add: update_discussion_def then_find_def)
    then show ?thesis ..
  next
    case (Inr p)
    then obtain editor where p: "p = (editor, post)" using post by (auto simp: returns)
    then show ?thesis
      using that [of editor] Inr then_Inr call unfolding update_discussion_def by simp
  qed
  from checks have "uid u = Some editor" "d_authorId post = editor \<or> staff u" "d_status post \<noteq> Closed"
    by (auto simp: returns)
  moreover from gate obtain a where
    "with_gate e (d_roomId post) \<lparr>uid = Some (d_authorId post), urole = urole u\<rparr>
              (update_discussion_body e dto editor post) s = (Inr a, s')" by blast
  ultimately show thesis
    using that by (cases rule: with_gate_cases [of e "d_roomId post"
          "\<lparr>uid = Some (d_authorId post), urole = urole u\<rparr>" "update_discussion_body e dto editor post" s]) auto
qed

definition proposal_posted :: "update_discussion_dto \<Rightarrow> discussion \<Rightarrow> db \<Rightarrow> discussion" where
  "proposal_posted dto post s =
     post\<lparr>d_pendingRevision := Some (next_draft dto post s), d_contentVersion := d_contentVersion post + 1,
          d_moderationStatus := Pending, d_moderationNote := ''''\<rparr>"

lemma next_draft_memberships: "only_memberships s t \<Longrightarrow> next_draft dto post t = next_draft dto post s"
  using content_eq_find [OF only_memberships_content_eq] by (simp add: next_draft_def Let_def)

lemma proposed_edit:
  assumes inv: "post_inv s" and call: "update_discussion e i u dto s = (Inr v, s')"
    and post: "find_discussion i s = Some post" "d_visibility post = Visible" "content_changed post dto"
    and review: "d_pendingRevision post \<noteq> None \<or>
      (\<exists>r pc. d_roomId post = Some r \<and> pc_requiresApproval pc \<and>
         fst (assertCanPost e r \<lparr>uid = Some (d_authorId post), urole = urole u\<rparr> s) = Inr pc)"
  shows "find_discussion i s' = Some (proposal_posted dto post s)"
    "content_eq (s\<lparr>discussions := discussions s', discussionRevisions := discussionRevisions s'\<rparr>) s'"
proof -
  from update_discussion_success [OF call post(1)] obtain t pc editor where
    t: "only_memberships s t" and body: "update_discussion_body e dto editor post pc t = Inr ((), s')"
    and pc: "pc = None \<longleftrightarrow> d_roomId post = None"
    "\<And>x. pc = Some x \<Longrightarrow>
       fst (assertCanPost e (the (d_roomId post)) \<lparr>uid = Some (d_authorId post), urole = urole u\<rparr> s) = Inr x"
    by metis
  have "(case pc of None \<Rightarrow> False | Some pc \<Rightarrow> pc_requiresApproval pc) \<or> d_pendingRevision post \<noteq> None"
    using review pc by (cases pc) force+
  then have draft: "update_draft dto editor post t = Inr ((), s')"
    using update_discussion_body_Inr(3) [OF body refl] post(2,3) by simp
  note s' = update_draft_Inr(2) [OF draft]
  have eq: "drafted_post dto post t = proposal_posted dto post s"
    using next_draft_memberships [OF t, of dto post] by (simp add: drafted_post_def proposal_posted_def)
  have p: "d_id post = i" "d_live post" using post_invD(2,3) [OF inv post(1)] by simp_all
  have ds: "discussions t = discussions s" using content_eq_tables(5) [OF only_memberships_content_eq [OF t]] .
  let ?t = "t\<lparr>discussionRevisions := discussionRevisions t @ [draft_revision dto editor post t]\<rparr>"
  have "find_discussion (d_id (drafted_post dto post t)) (save_discussion (drafted_post dto post t) ?t) =
      Some (drafted_post dto post t)"
    using post(1) p post_inv_keys(1) [OF inv] ds
    by (intro discussion_repo.lookup_save_same [where y = post])
      (simp_all add: find_discussion_def d_live_def drafted_post_def)
  then show "find_discussion i s' = Some (proposal_posted dto post s)"
    using p(1) by (simp add: s' eq [symmetric]) (simp add: drafted_post_def)
  show "content_eq (s\<lparr>discussions := discussions s', discussionRevisions := discussionRevisions s'\<rparr>) s'"
    using only_memberships_content_eq [OF t]
    by (cases s; cases t) (simp add: s' content_eq_def save_discussion_def)
qed

section \<open>Reviews\<close>

definition review_outcome :: "review_dto \<Rightarrow> discussion \<Rightarrow> discussion" where
  "review_outcome dto post =
     (let noted = post\<lparr>d_moderationNote := trim (or_else (rd_note dto) '''')\<rparr>;
          unaccepted = noted
            \<lparr>d_acceptedAnswerId := None, d_acceptedCommentId := None,
             d_status := (if d_status post = Solved then Open else d_status post)\<rparr> in
      case (rd_decision dto, draft_of post) of
        (Allow, None) \<Rightarrow> noted\<lparr>d_moderationStatus := Approved, d_visibility := Visible\<rparr>
      | (Allow, Some draft) \<Rightarrow> unaccepted
          \<lparr>d_title := pr_title draft, d_content := pr_content draft, d_isAnonymous := pr_isAnonymous draft,
           d_pendingRevision := None, d_moderationStatus := Approved, d_visibility := Visible\<rparr>
      | (_, draft) \<Rightarrow>
          if draft \<noteq> None \<and> d_visibility post = Visible then noted\<lparr>d_moderationStatus := Approved\<rparr>
          else unaccepted\<lparr>d_moderationStatus := Hidden, d_visibility := Concealed\<rparr>)"

lemma reviewed_post_outcome:
  assumes "decide e dto post s = Inr (post1, s1)"
  shows "reviewed_post e dto actor post post1 s1 = review_outcome dto post"
  using assms
  by (rule decide_cases; cases "rd_decision dto")
    (auto simp: reviewed_post_def review_outcome_def revoke_on_review_def Let_def split: if_splits)

lemma review_result:
  assumes inv: "post_inv s" and keys: "distinct (map m_key (memberships s))"
    and call: "review e ty i dto u s = (Inr st, s')"
    and post: "find_discussion i s = Some post"
  shows "ty = ''discussion''" "unchanged_since dto post"
    "rd_decision dto = Allow \<or> trim (or_else (rd_note dto) '''') \<noteq> ''''"
    "\<exists>actor. uid u = Some actor \<and> (staff u \<or> (\<exists>r. d_roomId post = Some r \<and> manages e r actor s))"
    "find_discussion i s' = Some (review_outcome dto post)" "st = d_moderationStatus (review_outcome dto post)"
proof -
  from call obtain actor scope where
    guards: "uid u = Some actor" "review_scope e u s = Inr scope" "ty = ''discussion''" "requires_note dto = Inr ()"
    and body: "review_body e i dto actor scope s = Inr (st, s')"
    unfolding review_def by (auto simp: returns transaction_Inr split: sum.splits)
  show "ty = ''discussion''" by fact
  show "rd_decision dto = Allow \<or> trim (or_else (rd_note dto) '''') \<noteq> ''''"
    using guards(4) by (simp add: requires_note_def returns)
  from body post obtain post1 s1 where
    b: "in_scope scope (d_roomId post)" "unchanged_since dto post" "decide e dto post s = Inr (post1, s1)"
    "st = d_moderationStatus (reviewed_post e dto actor post post1 s1)"
    "\<exists>rs. s' = (save_discussion (reviewed_post e dto actor post post1 s1)
            (snd (revoke_on_review e dto actor (draft_of post \<noteq> None) post1 s1)))\<lparr>moderationReviews := rs\<rparr>"
    unfolding review_body_def by (auto simp: returns Let_def reviewed_post_def)
  show "unchanged_since dto post" by fact
  show "st = d_moderationStatus (review_outcome dto post)"
    using b(4) reviewed_post_outcome [OF b(3)] by simp
  have "discussions s1 = discussions s"
    by (rule decide_cases [OF b(3)]) (simp_all add: attach_def replace_tags_def retag_counts_def)
  then have ds: "discussions (snd (revoke_on_review e dto actor (draft_of post \<noteq> None) post1 s1)) = discussions s"
    by (simp add: revoke_on_review_def)
  have p: "d_id post = i" "d_live post" using post_invD(2,3) [OF inv post] by simp_all
  have "d_id (review_outcome dto post) = i" "d_live (review_outcome dto post)"
    using p by (auto simp: review_outcome_def Let_def d_live_def split: decision.splits option.splits)
  then have "find_discussion (d_id (review_outcome dto post)) (save_discussion (review_outcome dto post)
      (snd (revoke_on_review e dto actor (draft_of post \<noteq> None) post1 s1))) = Some (review_outcome dto post)"
    using post p post_inv_keys(1) [OF inv] ds
    by (intro discussion_repo.lookup_save_same [where y = post]) (simp_all add: find_discussion_def)
  then show "find_discussion i s' = Some (review_outcome dto post)"
    using b(5) reviewed_post_outcome [OF b(3)] \<open>d_id (review_outcome dto post) = i\<close>
    by (auto simp: find_discussion_def)
  show "\<exists>actor. uid u = Some actor \<and> (staff u \<or> (\<exists>r. d_roomId post = Some r \<and> manages e r actor s))"
  proof (cases "staff u")
    case True
    then show ?thesis using guards(1) by blast
  next
    case False
    then obtain ids where "managedRoomIds e u s = Inr ids" "scope = Some ids"
      using guards(2) by (auto simp: review_scope_def returns split: if_splits)
    moreover from this b(1) obtain r where "d_roomId post = Some r" "r \<in> set ids"
      by (auto simp: in_scope_def split: option.splits)
    ultimately show ?thesis
      using guards(1) managed_rooms [OF _ guards(1) _ keys, of e ids r] by auto
  qed
qed

end
