(* ===== verification/Query_Results.thy ===== *)
theory Query_Results
  imports Post_Results "HOL-Library.Multiset"
begin

text \<open>
  The list of posts: what it shows to whom, in which order, that its pages are the list in pieces,
  and that nothing in it depends on who wrote an anonymous post.
\<close>

section \<open>Order\<close>

text \<open>A stable sort refines the order of its argument.\<close>

lemma sort_key_refines:
  "sorted_wrt R xs \<Longrightarrow> sorted_wrt (\<lambda>a b. f a < f b \<or> f a = f b \<and> R a b) (sort_key f xs)"
proof (induction xs)
  case (Cons x xs)
  have "sorted_wrt (\<lambda>a b. f a < f b \<or> f a = f b \<and> R a b) (insort_key f x ys)"
    if "sorted_wrt (\<lambda>a b. f a < f b \<or> f a = f b \<and> R a b) ys" "\<forall>y \<in> set ys. R x y" for ys
    using that by (induction ys) (auto simp: set_insort_key)
  then show ?case using Cons by simp
qed simp

lemma sort_desc_refines:
  assumes "sorted_wrt R xs"
  shows "sorted_wrt (\<lambda>a b. f b < f a \<or> f a = f b \<and> R a b) (sort_desc f xs)"
proof -
  have "sorted_wrt (\<lambda>a b. R b a) (rev xs)" using assms by (simp add: sorted_wrt_rev)
  from sort_key_refines [OF this, of f] show ?thesis
    by (simp add: sort_desc_def sorted_wrt_rev eq_commute)
qed

lemma mset_sort_desc [simp]: "mset (sort_desc f xs) = mset xs"
  by (simp add: sort_desc_def)

lemma set_sort_desc [simp]: "set (sort_desc f xs) = set xs"
  by (simp add: sort_desc_def)

text \<open>What decides the place of a post in a list, the most important first.\<close>

definition rank :: "sort_by option \<Rightarrow> discussion \<Rightarrow> int \<times> int \<times> string" where
  "rank sortBy d =
     ((case sortBy of Some MostVotes \<Rightarrow> d_upvoteCount d - d_downvoteCount d
       | Some MostComments \<Rightarrow> d_commentCount d | _ \<Rightarrow> 0),
      (if sortBy = Some Oldest then - int (d_createdAt d) else int (d_createdAt d)), d_id d)"

definition before :: "int \<times> int \<times> string \<Rightarrow> int \<times> int \<times> string \<Rightarrow> bool" where
  "before x y = (case (x, y) of ((a, b, i), (a', b', i')) \<Rightarrow>
     a' < a \<or> a' = a \<and> (b' < b \<or> b' = b \<and> i' \<le> i))"

lemma sorted_by_id: "sorted_wrt (\<lambda>a b. d_id b \<le> d_id a) (sort_desc d_id ds)"
proof -
  have "sorted_wrt (\<lambda>a b. d_id b < d_id a \<or> d_id a = d_id b \<and> True) (sort_desc d_id ds)"
    by (rule sort_desc_refines) simp
  then show ?thesis by (rule sorted_wrt_mono_rel [rotated]) auto
qed

lemma order_posts_sorted:
  "sorted_wrt (\<lambda>a b. before (rank sortBy a) (rank sortBy b)) (order_posts sortBy ds)"
proof -
  let ?byId = "sort_desc d_id ds"
  let ?byTime = "if sortBy = Some Oldest then sort_key d_createdAt ?byId else sort_desc d_createdAt ?byId"
  let ?time = "\<lambda>a. fst (snd (rank sortBy a))"
  have time: "sorted_wrt (\<lambda>a b. ?time b < ?time a \<or> ?time a = ?time b \<and> d_id b \<le> d_id a) ?byTime"
  proof (cases "sortBy = Some Oldest")
    case True
    from sort_key_refines [OF sorted_by_id, of d_createdAt] show ?thesis
      using True by (simp add: rank_def)
  next
    case False
    from sort_desc_refines [OF sorted_by_id, of d_createdAt] show ?thesis
      using False by (simp add: rank_def)
  qed
  show ?thesis
  proof (cases "sortBy = Some MostVotes \<or> sortBy = Some MostComments")
    case True
    then obtain f :: "discussion \<Rightarrow> int" where
      f: "order_posts sortBy ds = sort_desc f ?byTime" "\<And>d. fst (rank sortBy d) = f d"
      by (auto simp: order_posts_def rank_def Let_def)
    show ?thesis unfolding f(1)
      by (rule sorted_wrt_mono_rel [OF _ sort_desc_refines [OF time]])
        (auto simp: before_def f(2) [symmetric] rank_def)
  next
    case False
    then have "order_posts sortBy ds = ?byTime"
      by (auto simp: order_posts_def Let_def split: option.splits sort_by.splits)
    moreover have "fst (rank sortBy d) = 0" for d
      using False by (auto simp: rank_def split: option.splits sort_by.splits)
    ultimately show ?thesis
      by (simp only:) (rule sorted_wrt_mono_rel [OF _ time], auto simp: before_def rank_def
        split: option.splits sort_by.splits)
  qed
qed

lemma mset_order_posts: "mset (order_posts sortBy ds) = mset ds"
  by (auto simp: order_posts_def Let_def split: option.splits sort_by.splits)

section \<open>Pages\<close>

lemma concat_pages: "concat (map (\<lambda>p. paginate p l xs) [1..<Suc n]) = take (n * l) xs"
proof (induction n)
  case (Suc n)
  have "concat (map (\<lambda>p. paginate p l xs) [1..<Suc (Suc n)]) = take (n * l) xs @ paginate (Suc n) l xs"
    using Suc by simp
  also have "\<dots> = take (n * l + l) xs" by (simp only: take_add) (simp add: paginate_def)
  finally show ?case by (simp add: add.commute)
qed (simp add: paginate_def)

lemma page_count_enough: "0 < l \<Longrightarrow> n \<le> page_count n l * l"
proof -
  assume l: "0 < l"
  have "n + l - 1 < page_count n l * l + l"
    using div_mult_mod_eq [of "n + l - 1" l] mod_less_divisor [OF l, of "n + l - 1"]
    unfolding page_count_def by linarith
  then show ?thesis using l by linarith
qed

lemma all_pages: "0 < l \<Longrightarrow> concat (map (\<lambda>p. paginate p l xs) [1..<Suc (page_count (length xs) l)]) = xs"
  using page_count_enough [of l "length xs"] by (simp only: concat_pages take_all)

definition found_posts ::
  "(string \<Rightarrow> string \<Rightarrow> bool) \<Rightarrow> filter_discussion_dto \<Rightarrow> gateway_user \<Rightarrow> db \<Rightarrow> discussion list" where
  "found_posts ilike flt u s =
     order_posts (fd_sort flt)
       (filter (\<lambda>d. d_live d \<and> listed_to u s d \<and> matches_filter ilike flt s d) (discussions s))"

lemma findAll_found:
  "findAll e ilike flt u s =
     (let page = or_else (fd_page flt) 1; limit = or_else (fd_limit flt) 20; found = found_posts ilike flt u s in
      \<lparr>pg_data = present_many e OnDiscussion u s (map (post_item s) (paginate page limit found)),
       pg_page = page, pg_limit = limit, pg_totalItems = length found,
       pg_totalPages = page_count (length found) limit\<rparr>)"
  by (simp add: findAll_def found_posts_def Let_def)

lemma findAll_ids:
  "map p_id (pg_data (findAll e ilike flt u s)) =
     map d_id (paginate (or_else (fd_page flt) 1) (or_else (fd_limit flt) 20) (found_posts ilike flt u s))"
  by (simp add: findAll_found Let_def present_many_ids post_item_def)

lemma findAll_pages:
  "pg_totalPages (findAll e ilike flt u s) =
     page_count (length (found_posts ilike flt u s)) (or_else (fd_limit flt) 20)"
  "pg_totalItems (findAll e ilike flt u s) = length (found_posts ilike flt u s)"
  by (simp_all add: findAll_found Let_def)

lemma found_posts_page [simp]: "found_posts ilike (flt\<lparr>fd_page := p\<rparr>) u s = found_posts ilike flt u s"
  by (simp add: found_posts_def matches_filter_def)

lemma set_found_posts:
  "set (found_posts ilike flt u s) =
     {d \<in> set (discussions s). d_live d \<and> listed_to u s d \<and> matches_filter ilike flt s d}"
proof -
  have "set (order_posts sortBy ds) = set ds" for sortBy ds
    using mset_order_posts [of sortBy ds] by (metis set_mset_mset)
  then show ?thesis by (simp add: found_posts_def)
qed

lemma set_paginate: "set (paginate p l xs) \<subseteq> set xs"
  by (auto simp: paginate_def dest: in_set_takeD in_set_dropD)

text \<open>Whoever may open a post finds it in the list.\<close>

lemma readable_listed:
  assumes "readable_post i u s = Inr d" "rooms_keyed s"
    and "\<And>r. d_roomId d = Some r \<Longrightarrow> is_uuid r"
  shows "d_live d \<and> listed_to u s d"
proof -
  from assms(1) have d: "find_discussion i s = Some d" and
    r: "approved (d_moderationStatus d) (d_visibility d) \<or> staff u \<or> uid u = Some (d_authorId d)" and
    room: "\<And>r. d_roomId d = Some r \<Longrightarrow> \<exists>x. findOne_room r u s = Inr x"
    by (auto simp: readable_post_def returns split: option.splits)
  have "staff u \<or> d_roomId d = None \<or>
     \<not> exists_where (\<lambda>r. Some (r_id r) = d_roomId d \<and> r_visibility r = PRIVATE) (rooms s) \<or>
     exists_where (\<lambda>m. Some (m_roomId m) = d_roomId d \<and> Some (m_userId m) = uid u \<and>
          m_status m = Active) (memberships s)"
  proof (cases "d_roomId d")
    case (Some k)
    then obtain x where "findOne_room k u s = Inr x" using room by blast
    then obtain room where room: "find_room k s = Some room"
      "r_visibility room = PRIVATE \<longrightarrow> staff u \<or>
         (\<exists>i m. uid u = Some i \<and> find_active_membership (r_id room) i s = Some m)"
      using assms(3) [OF Some]
      by (auto simp: findOne_room_def returns truthy_def split: if_splits option.splits)
    have unique: "r = room" if "r \<in> set (rooms s)" "r_id r = k" for r
      using find_room_Some [OF room(1)] that assms(2) by (auto simp: rooms_keyed_def distinct_map dest: inj_onD)
    show ?thesis
      using room(2) Some unique find_room_Some [OF room(1)]
      by (auto simp: exists_where_iff dest!: find_active_membership_Some)
  qed simp
  then show ?thesis
    using r discussion_repo.found [OF d] by (auto simp: listed_to_def)
qed

section \<open>Anonymous authors\<close>

lemma sort_key_map: "sort_key k (map g xs) = map g (sort_key (\<lambda>x. k (g x)) xs)"
proof (induction xs)
  case (Cons x xs)
  have "insort_key k (g x) (map g ys) = map g (insort_key (\<lambda>x. k (g x)) x ys)" for ys
    by (induction ys) auto
  then show ?case using Cons by simp
qed simp

lemma sort_desc_map: "sort_desc k (map g xs) = map g (sort_desc (\<lambda>x. k (g x)) xs)"
proof -
  have "rev (map g xs) = map g (rev xs)" for xs by (simp add: rev_map)
  then show ?thesis by (simp only: sort_desc_def sort_key_map)
qed

lemma paginate_map: "paginate p l (map g xs) = map g (paginate p l xs)"
  by (simp add: paginate_def take_map drop_map)

text \<open>A change that only concerns the authors of content shown without one.\<close>

definition unseen :: "gateway_user \<Rightarrow> 'b item \<Rightarrow> 'b item \<Rightarrow> bool" where
  "unseen u x y \<longleftrightarrow> y = x \<or>
     (\<exists>a. y = x\<lparr>i_authorId := a\<rparr> \<and> i_isAnonymous x \<and> uid u \<noteq> Some (i_authorId x) \<and> uid u \<noteq> Some a)"

lemma present_one_unseen:
  assumes "unseen u x y" shows "present_one ty u vs ps y = present_one ty u vs ps x"
  using assms present_one_anonymous [of x u] by (auto simp: unseen_def)

lemma present_many_unseen:
  assumes "list_all2 (unseen u) xs ys"
  shows "present_many e ty u s ys = present_many e ty u s xs"
proof -
  have ids: "map i_id ys = map i_id xs"
    using assms by (induction rule: list_all2_induct) (auto simp: unseen_def)
  have "map i_authorId (filter (\<lambda>i. \<not> i_isAnonymous i \<and> i_deletedAt i = None) ys) =
      map i_authorId (filter (\<lambda>i. \<not> i_isAnonymous i \<and> i_deletedAt i = None) xs)"
    using assms by (induction rule: list_all2_induct) (auto simp: unseen_def)
  then have shown: "display_ids ys = display_ids xs" by (simp add: display_ids_def)
  have "map (present_one ty u vs ps) ys = map (present_one ty u vs ps) xs" for vs ps
    using assms by (induction rule: list_all2_induct) (auto simp: present_one_unseen)
  moreover have "ys = [] \<longleftrightarrow> xs = []" using assms by auto
  ultimately show ?thesis using ids shown by (simp add: present_many_def Let_def)
qed

definition reauthored :: "uuid \<Rightarrow> uuid \<Rightarrow> discussion \<Rightarrow> discussion" where
  "reauthored i a d = (if d_id d = i then d\<lparr>d_authorId := a\<rparr> else d)"

lemma order_posts_reauthored:
  "order_posts sortBy (map (reauthored i a) ds) = map (reauthored i a) (order_posts sortBy ds)"
proof -
  have keys: "d_id (reauthored i a d) = d_id d" "d_createdAt (reauthored i a d) = d_createdAt d"
    "d_commentCount (reauthored i a d) = d_commentCount d"
    "d_upvoteCount (reauthored i a d) = d_upvoteCount d"
    "d_downvoteCount (reauthored i a d) = d_downvoteCount d" for d
    by (simp_all add: reauthored_def)
  show ?thesis
    by (auto simp: order_posts_def Let_def sort_desc_map sort_key_map keys split: option.splits sort_by.splits)
qed

lemma listed_reauthored:
  assumes "d_id d = i \<Longrightarrow> d_isAnonymous d \<and> uid u \<noteq> Some (d_authorId d)" "uid u \<noteq> Some a"
  shows "(d_live (reauthored i a d) \<and> listed_to u (s\<lparr>discussions := ds\<rparr>) (reauthored i a d) \<and>
           matches_filter ilike flt (s\<lparr>discussions := ds\<rparr>) (reauthored i a d)) =
         (d_live d \<and> listed_to u s d \<and> matches_filter ilike flt s d)"
proof (cases "d_id d = i")
  case True
  then have d: "d_isAnonymous d" "uid u \<noteq> Some (d_authorId d)" using assms(1) by auto
  have "matches_filter ilike flt (s\<lparr>discussions := ds\<rparr>) (d\<lparr>d_authorId := a\<rparr>) = matches_filter ilike flt s d"
    using d by (simp add: matches_filter_def cong: option.case_cong)
  moreover have "listed_to u (s\<lparr>discussions := ds\<rparr>) (d\<lparr>d_authorId := a\<rparr>) = listed_to u s d"
    using d assms(2) by (auto simp: listed_to_def)
  ultimately show ?thesis using True by (simp add: reauthored_def d_live_def)
next
  case False
  have "matches_filter ilike flt (s\<lparr>discussions := ds\<rparr>) d = matches_filter ilike flt s d"
    by (simp add: matches_filter_def cong: option.case_cong)
  then show ?thesis using False by (simp add: reauthored_def listed_to_def)
qed

lemma findAll_reauthored:
  assumes target: "\<And>d. d \<in> set (discussions s) \<Longrightarrow> d_id d = i \<Longrightarrow>
      d_isAnonymous d \<and> uid u \<noteq> Some (d_authorId d)"
    and u: "uid u \<noteq> Some a"
  shows "findAll e ilike flt u (s\<lparr>discussions := map (reauthored i a) (discussions s)\<rparr>) =
    findAll e ilike flt u s"
proof -
  let ?g = "reauthored i a" and ?s' = "s\<lparr>discussions := map (reauthored i a) (discussions s)\<rparr>"
  have "filter (\<lambda>d. d_live d \<and> listed_to u ?s' d \<and> matches_filter ilike flt ?s' d) (map ?g (discussions s)) =
      map ?g (filter (\<lambda>d. d_live d \<and> listed_to u s d \<and> matches_filter ilike flt s d) (discussions s))"
    unfolding filter_map comp_def
    by (intro arg_cong [where f = "map ?g"] filter_cong refl listed_reauthored target u)
  then have found: "found_posts ilike flt u ?s' = map ?g (found_posts ilike flt u s)"
    by (simp add: found_posts_def order_posts_reauthored)
  have of_posts: "tags_of k ?s' = tags_of k s" "media_of k ?s' = media_of k s" for k
    by (simp_all add: tags_of_def media_of_def)
  have item: "unseen u (post_item s d) (post_item ?s' (?g d))" if "d \<in> set (discussions s)" for d
  proof (cases "d_id d = i")
    case True
    then have "post_item ?s' (?g d) = (post_item s d)\<lparr>i_authorId := a\<rparr>"
      by (simp add: post_item_def reauthored_def of_posts)
    then show ?thesis using target [OF that True] u
      unfolding unseen_def by (intro disjI2 exI [of _ a]) (simp add: post_item_def of_posts)
  next
    case False
    then show ?thesis by (simp add: unseen_def post_item_def reauthored_def of_posts)
  qed
  have votes: "present_many e OnDiscussion u ?s' items = present_many e OnDiscussion u s items" for items :: "post_body item list"
    by (simp add: present_many_def own_votes_def split: option.split)
  have "present_many e OnDiscussion u s (map (post_item ?s') (map ?g ds)) =
      present_many e OnDiscussion u s (map (post_item s) ds)" if "set ds \<subseteq> set (discussions s)" for ds
  proof (rule present_many_unseen)
    show "list_all2 (unseen u) (map (post_item s) ds) (map (post_item ?s') (map ?g ds))"
      using item that by (auto simp: list_all2_map1 list_all2_map2 list_all2_same)
  qed
  moreover have "set (paginate p l (found_posts ilike flt u s)) \<subseteq> set (discussions s)" for p l
    using set_paginate [of p l "found_posts ilike flt u s"] set_found_posts by fast
  ultimately show ?thesis
    using found by (simp add: findAll_found Let_def votes paginate_map del: map_map)
qed

end
