(* ===== verification/Vote_Ledger.thy ===== *)
theory Vote_Ledger
  imports Outbox_Frame
begin

text \<open>
  The abstract view of the votes: a ballot that says for each user and target how the user votes
  there. Casting and removing votes are updates of the ballot at one point, and the counters are
  numbers of users.
\<close>

definition ballot :: "vote list \<Rightarrow> uuid \<times> target_type \<times> uuid \<Rightarrow> vote_type option" where
  "ballot vs k = map_option v_voteType (find_by (\<lambda>v. v_key v = k) vs)"

lemma ballot_Some:
  assumes "distinct (map v_key vs)"
  shows "ballot vs k = Some vt \<longleftrightarrow> (\<exists>v \<in> set vs. v_key v = k \<and> v_voteType v = vt)"
proof
  assume "ballot vs k = Some vt"
  then show "\<exists>v \<in> set vs. v_key v = k \<and> v_voteType v = vt"
    using find_by_Some by (fastforce simp: ballot_def)
next
  assume "\<exists>v \<in> set vs. v_key v = k \<and> v_voteType v = vt"
  then obtain v where v: "v \<in> set vs" "v_key v = k" "v_voteType v = vt" by blast
  then have "find_by (\<lambda>v. v_key v = k) vs = Some v"
    using assms by (intro find_by_distinct [where key = v_key]) auto
  then show "ballot vs k = Some vt" using v by (simp add: ballot_def)
qed

lemma set_write_vote:
  "set (write_vote x ty i vt vs) = {v \<in> set vs. v_key v \<noteq> (x, ty, i)} \<union>
     (case vt of None \<Rightarrow> {}
      | Some w \<Rightarrow> {\<lparr>v_userId = x, v_targetType = ty, v_targetId = i, v_voteType = w\<rparr>})"
proof (cases vt)
  case None
  then show ?thesis by (auto simp: write_vote_def set_delete_where)
next
  case (Some w)
  let ?v = "\<lparr>v_userId = x, v_targetType = ty, v_targetId = i, v_voteType = w\<rparr>"
  have key: "v_key ?v = (x, ty, i)" by (simp add: v_key_def)
  show ?thesis
  proof (cases "\<exists>v \<in> set vs. v_key v = (x, ty, i)")
    case True
    then obtain y where y: "y \<in> set vs" "v_key ?v = v_key y" using key by auto
    then have "set (put v_key ?v vs) = insert ?v {v \<in> set vs. v_key v \<noteq> (x, ty, i)}"
      using key by (auto simp: put_def set_update_where image_iff split: if_splits)
    then show ?thesis using True Some by (auto simp: write_vote_def Let_def exists_where_iff)
  next
    case False
    then show ?thesis using Some by (auto simp: write_vote_def Let_def exists_where_iff)
  qed
qed

lemma option_ext: "(\<And>w. x = Some w \<longleftrightarrow> y = Some w) \<Longrightarrow> x = y"
  by (cases x; cases y) auto

text \<open>Writing a vote updates the ballot at its key.\<close>

lemma ballot_write_vote:
  assumes d: "distinct (map v_key vs)"
  shows "ballot (write_vote x ty i vt vs) = (ballot vs)((x, ty, i) := vt)"
proof
  fix k
  note d' = distinct_write_vote [OF d, of x ty i vt]
  show "ballot (write_vote x ty i vt vs) k = ((ballot vs)((x, ty, i) := vt)) k"
  proof (rule option_ext)
    fix w
    show "ballot (write_vote x ty i vt vs) k = Some w \<longleftrightarrow> ((ballot vs)((x, ty, i) := vt)) k = Some w"
    proof (cases "k = (x, ty, i)")
      case True
      then show ?thesis
        unfolding ballot_Some [OF d'] set_write_vote by (auto simp: v_key_def split: option.splits)
    next
      case False
      then have "((ballot vs)((x, ty, i) := vt)) k = Some w \<longleftrightarrow>
          (\<exists>v \<in> set vs. v_key v = k \<and> v_voteType v = w)"
        using ballot_Some [OF d] by simp
      then show ?thesis
        unfolding ballot_Some [OF d'] set_write_vote using False
        by (cases vt) (auto simp: v_key_def)
    qed
  qed
qed

text \<open>A counter is the number of users who vote that way.\<close>

lemma count_votes_card:
  assumes d: "distinct (map v_key vs)"
  shows "count_votes vt ty i vs = int (card {x. ballot vs (x, ty, i) = Some vt})"
proof -
  let ?P = "\<lambda>v. v_targetType v = ty \<and> v_targetId v = i \<and> v_voteType v = vt"
  have inj: "inj_on v_userId {v \<in> set vs. ?P v}"
    using d by (auto simp: inj_on_def distinct_map v_key_def)
  have "{x. ballot vs (x, ty, i) = Some vt} = v_userId ` {v \<in> set vs. ?P v}"
    unfolding ballot_Some [OF d] by (auto simp: v_key_def image_iff)
  then have "card {x. ballot vs (x, ty, i) = Some vt} = card {v \<in> set vs. ?P v}"
    using card_image [OF inj] by simp
  also have "\<dots> = length (filter ?P vs)"
    using d by (subst distinct_card [symmetric]) (auto simp: distinct_map)
  finally show ?thesis by (simp add: count_votes_def count_where_def)
qed

lemma set_vote_ballot:
  assumes inv: "votes_inv s" and call: "set_vote ty i u v s = (Inr r, s')"
  shows "\<exists>x. uid u = Some x \<and> ballot (votes s') = (ballot (votes s))((x, ty, i) := v)"
    "vr_voteType r = v"
    "vr_upvoteCount r = int (card {x. ballot (votes s') (x, ty, i) = Some Upvote})"
    "vr_downvoteCount r = int (card {x. ballot (votes s') (x, ty, i) = Some Downvote})"
proof -
  have d: "distinct (map v_key (votes s))" using inv by (simp add: votes_inv_def)
  obtain x where x: "uid u = Some x" and s': "s' = voted ty i x v s"
    and r: "r = \<lparr>vr_voteType = v,
          vr_upvoteCount = count_votes Upvote ty i (write_vote x ty i v (votes s)),
          vr_downvoteCount = count_votes Downvote ty i (write_vote x ty i v (votes s))\<rparr>"
    using call by (cases rule: set_vote_cases [of ty i u v s]) auto
  have vs: "votes s' = write_vote x ty i v (votes s)"
    by (cases ty) (simp_all add: s' voted_def set_counters_def Let_def)
  show "\<exists>x. uid u = Some x \<and> ballot (votes s') = (ballot (votes s))((x, ty, i) := v)"
    using x by (auto simp: vs ballot_write_vote [OF d])
  show "vr_voteType r = v" by (simp add: r)
  show "vr_upvoteCount r = int (card {x. ballot (votes s') (x, ty, i) = Some Upvote})"
    "vr_downvoteCount r = int (card {x. ballot (votes s') (x, ty, i) = Some Downvote})"
    using count_votes_card [OF distinct_write_vote [OF d]] by (simp_all add: r vs)
qed

end
