(* ===== verification/Sample_Cases.thy ===== *)
theory Sample_Cases
  imports Sample_Campus Query_Results Vote_Ledger
begin

text \<open>
  Users, requests and rows at the states of the sample runs, for the calls that the properties are
  applied to.
\<close>

definition ann :: gateway_user where
  "ann = \<lparr>uid = Some ''ann'', urole = Some ''student''\<rparr>"

definition bob :: gateway_user where
  "bob = \<lparr>uid = Some ''bob'', urole = Some ''student''\<rparr>"

definition open_post :: discussion where
  "open_post = sample_post\<lparr>d_acceptedAnswerId := None, d_status := Open\<rparr>"

lemma world4_found:
  "find_discussion ''post'' (database world4) = Some open_post"
  "find_answer ''ans'' (database world4) = Some sample_answer"
  by code_simp+

definition correction_dto :: "revision_type \<Rightarrow> update_answer_dto" where
  "correction_dto ty =
     \<lparr>ua_content = ''Only in the reachable states.'', ua_expectedVersion = 1, ua_revisionType = ty\<rparr>"

lemma world5_found:
  "find_discussion ''post'' (database world5) = Some sample_post"
  "find_answer ''ans'' (database world5) = Some sample_answer"
  by (simp_all add: find_discussion_def find_answer_def find_by_def sample_post_def sample_answer_def
      d_live_def a_live_def)

section \<open>Members of the hall\<close>

definition eve :: gateway_user where
  "eve = \<lparr>uid = Some ''eve'', urole = Some ''student''\<rparr>"

definition barred_member :: room_membership where
  "barred_member = (hall_member ''bob'' Member None 2)\<lparr>m_expiresAt := Some 9\<rparr>"

definition barred_db :: db where
  "barred_db = (database hall8)\<lparr>memberships := [hall_member ''eve'' Owner (Some ''eve'') 1, barred_member]\<rparr>"

lemma barred_found:
  "find_membership hall_id ''bob'' barred_db = Some barred_member"
  "find_discussion ''held'' barred_db = Some hall_post"
  by (simp_all add: barred_db_def barred_member_def hall_member_def hall_post_def find_membership_def
      find_by_def m_key_def find_discussion_def d_live_def)

lemma hall8_found:
  "find_room hall_id (database hall8) = Some hall_room"
  "find_membership hall_id ''ann'' (database hall8) = None"
  "find_membership hall_id ''bob'' (database hall8) = Some (hall_member ''bob'' Member None 2)"
  "find_discussion ''held'' (database hall8) = Some hall_post"
  by (simp_all add: find_room_def find_membership_def find_discussion_def find_by_def hall_room_def
      hall_member_def m_key_def hall_id_def general_id_def off_topic_id_def init_db_def seeded_room_def
      hall_post_def d_live_def)

lemma barred_room: "find_room hall_id barred_db = Some hall_room"
  using hall8_found(1) by (simp add: barred_db_def find_room_def)

definition promote_dto :: update_membership_dto where
  "promote_dto = \<lparr>um_postPermission = None, um_role = Moderator, um_status = Active\<rparr>"

definition lock_dto :: update_policy_dto where
  "lock_dto = \<lparr>up_reviewPolicy = DirectPolicy, up_policyLocked = None\<rparr>"

lemma Inr_pairE:
  assumes "\<not> isl (fst r)"
  obtains x s' where "r = (Inr x, s')"
  using assms by (cases r; cases "fst r") auto

section \<open>Closed and proposed posts\<close>

definition closed_db :: db where
  "closed_db = world5_db\<lparr>discussions := [sample_post\<lparr>d_status := Closed\<rparr>]\<rparr>"

lemma closed_found:
  "find_discussion ''post'' closed_db = Some (sample_post\<lparr>d_status := Closed\<rparr>)"
  "d_status (sample_post\<lparr>d_status := Closed\<rparr>) = Closed"
  "find_answer ''ans'' closed_db = Some sample_answer"
  by (simp_all add: closed_db_def world_dbs find_discussion_def find_answer_def find_by_def sample_post_def
      sample_answer_def d_live_def a_live_def)

lemma hall7_found:
  "find_discussion ''held'' (database hall7) =
     Some (held_post\<lparr>d_moderationStatus := Approved, d_visibility := Visible\<rparr>)"
  by (simp add: hall7_eq hall_dbs find_discussion_def find_by_def held_post_def hall_post_def d_live_def)

lemma hall7_draft:
  "next_draft edit_dto (held_post\<lparr>d_moderationStatus := Approved, d_visibility := Visible\<rparr>) (database hall7) =
     the (d_pendingRevision hall_post)"
  by code_simp

definition allow_edit_dto :: review_dto where
  "allow_edit_dto =
     \<lparr>rd_decision = Allow, rd_expectedModerationStatus = None, rd_expectedVersion = 2,
      rd_expectedContent = reviewed_content hall_post, rd_note = None\<rparr>"

section \<open>Lists\<close>

definition plain_filter :: filter_discussion_dto where
  "plain_filter =
     \<lparr>fd_page = None, fd_limit = None, fd_roomId = None, fd_postType = None, fd_status = None,
      fd_tag = None, fd_authorId = None, fd_sort = None, fd_search = None\<rparr>"

end
