(* ===== verification/Findings.thy ===== *)
theory Findings
  imports Sample_Cases
begin

text \<open>
  Behaviours of the discussion service that its rules or its documents do not lead one to expect, as
  facts about concrete runs.
\<close>

definition moderator :: gateway_user where
  "moderator = \<lparr>uid = Some ''mod'', urole = Some ''moderator''\<rparr>"

section \<open>Reopening\<close>

definition closed_question :: db where
  "closed_question = snd (set_status (sample_env ''close'' 7) ''post'' moderator Closed (database world5))"

text \<open>A closed question with an accepted answer does not return to where it was. \<open>setStatus\<close> looks at
  the accepted comment only, so a moderator who reopens it makes it open instead of solved, with its
  answer still accepted; and \<open>removeAcceptance\<close> does not ask for an open question, so its author reopens
  it by withdrawing the acceptance.\<close>

theorem reopening_questions:
  "map d_status (discussions closed_question) = [Closed] \<and>
   map (\<lambda>d. (d_status d, d_acceptedAnswerId d))
     (discussions (snd (set_status (sample_env ''reopen'' 8) ''post'' moderator Open closed_question))) =
     [(Open, Some ''ans'')] \<and>
   map d_status (discussions (snd (remove_acceptance (sample_env ''undo'' 8) ''post'' ann closed_question))) = [Open]"
  by (intro conjI; code_simp)

section \<open>Canonical rooms\<close>

definition racing_checks :: "string \<Rightarrow> exn + uuid \<times> room option \<times> academic_context option" where
  "racing_checks slug =
     create_checks (campus_env slug 1) (campus_dto slug) \<lparr>uid = Some ''root'', urole = Some ''admin''\<rparr> init_db"

definition racing_write :: "string \<Rightarrow> db \<Rightarrow> exn + uuid \<times> db" where
  "racing_write slug s =
     bindE (racing_checks slug) (\<lambda>(actor, parent, context).
       create_body (campus_env slug 1) (campus_dto slug) actor parent context s)"

text \<open>\<open>create\<close> looks for a canonical room before its transaction, and no constraint of the database
  forbids a second one: of two requests that both look first and write afterwards, both succeed, and the
  major has two canonical rooms.\<close>

theorem racing_canonical_rooms:
  "case bindE (racing_write ''major-cs'' init_db) (\<lambda>(_, s). racing_write ''other-cs'' s) of
     Inl _ \<Rightarrow> False
   | Inr (_, s) \<Rightarrow> length (bound_rooms MAJOR (\<lambda>b. b_majorId b = ''cs'') s) = 2"
  by code_simp

section \<open>Anonymity\<close>

definition mention_env :: env where
  "mention_env = (sample_env ''anon'' 6)\<lparr>usernames_info := (\<lambda>_. Reply 200 (Some [(''eve'', ''eve'')]))\<rparr>"

definition anonymous_comment :: create_comment_dto where
  "anonymous_comment =
     \<lparr>nc_content = ''Ask @eve about it'', nc_parentCommentId = None, nc_isAnonymous = Some True\<rparr>"

definition masked_db :: db where
  "masked_db = world4_db\<lparr>answers := [sample_answer\<lparr>a_isAnonymous := True\<rparr>]\<rparr>"

text \<open>Two ways in which the author of anonymous content becomes known. The event that tells a user
  that he is mentioned in an anonymous comment carries its author, although the event of the new comment
  leaves him out; and the reply to an acceptance is the row of the answer, with its author.\<close>

theorem anonymous_author_leaks:
  "map (\<lambda>ev. map snd (filter (\<lambda>(k, _). k = ''actorId'') (o_payload ev)))
     (filter (\<lambda>ev. o_createdAt ev = 6)
       (outbox (snd (create_comment mention_env ''post'' bob anonymous_comment (database world5))))) =
     [[JNull], [JStr ''bob'']] \<and>
   map_sum id a_authorId (fst (accept_answer (sample_env ''acc'' 5) ''post'' accept_dto ann masked_db)) = Inr ''bob''"
  by (intro conjI; code_simp)

section \<open>Memberships\<close>

text \<open>
  An active membership that has run out keeps its owner from posting, and joining again does not renew
  it: the row is returned as it is.
\<close>

lemma expired_member_stays_out:
  "join_room (sample_env ''again'' 10) hall_id bob barred_db = (Inr barred_member, barred_db)"
  "\<exists>ex. assertCanPost (sample_env ''post'' 11) hall_id bob barred_db = (Inl ex, barred_db)"
  using hindered_gate [of bob "''bob''" hall_id barred_db barred_member "sample_env ''post'' 11"]
    join_room_by_membership [where u = bob and i = "''bob''" and r = hall_id and s = barred_db and room = hall_room
      and e = "sample_env ''again'' 10"]
  by (simp_all add: barred_found bob_def barred_member_def unhindered_def sample_env_def refused_def
      barred_room hall_member_def hall_room_def)

section \<open>Approval\<close>

text \<open>
  Where the approval of posts is not as \<open>docs/academic-foundation.md\<close> has it. There new and edited posts are pending and
  held, only their authors, administrators and moderators see them before an administrator or a moderator approves them,
  and a rejection hides them. In the code (\<open>common/content-policy.ts\<close>) a pending post that is visible counts as approved:
  in a room with direct posting a new post is pending and visible, everybody reads it, and its question can be solved.
\<close>

theorem pending_posts_are_public:
  "map (\<lambda>d. (d_moderationStatus d, d_visibility d)) (discussions (database world1)) = [(Pending, Visible)] \<and>
   map p_id (pg_data (findAll (sample_env ''list'' 9) anything plain_filter guest (database world1))) = [''post''] \<and>
   map (\<lambda>d. (d_moderationStatus d, d_status d, d_acceptedAnswerId d)) (discussions (database world5)) =
     [(Pending, Solved, Some ''ans'')]"
  by (intro conjI; code_simp)

text \<open>The owner of a room, a student, turns a draft down: the post that was published stays approved and visible.\<close>

theorem room_owner_rejects_draft:
  "\<not> staff eve \<and> map d_visibility (discussions (database hall8)) = [Visible] \<and>
   map (\<lambda>d. (d_content d, d_moderationStatus d, d_visibility d))
     (discussions (snd (review (sample_env ''review'' 9) ''discussion'' ''held''
       (allow_edit_dto\<lparr>rd_decision := Hide, rd_note := Some ''Too short''\<rparr>) eve (database hall8)))) =
     [(''Where does the invariant hold?'', Approved, Visible)]"
  by (intro conjI; code_simp)

end
