(* ===== verification/Accounts.thy ===== *)
theory Accounts
  imports Prelude Schema
begin

text \<open>
  The state of the identity service: its tables (\<open>users/*.entity.ts\<close>), its Redis store, and the mails it
  sent; the surroundings of a request; and the composition of handlers. The handlers of this service run
  without a transaction, so what a handler wrote before it throws stays written: a handler is a function
  from the state to a result and a state. The columns \<open>updatedAt\<close> and the keys of refresh tokens and role
  audits are never read and are left out.
\<close>

section \<open>Rows\<close>

datatype role = StudentRole | TeacherRole | ModeratorRole | AdminRole
datatype privacy = PublicProfile | PrivateProfile

record user =
  u_id :: uuid
  u_username :: "string option"
  u_fullName :: string
  u_dateOfBirth :: "string option"
  u_email :: string
  u_passwordHash :: string
  u_avatarUrl :: "string option"
  u_privacy :: privacy
  u_isVerified :: bool
  u_role :: role
  u_passwordChangedAt :: "time option"
  u_lastLoginAt :: "time option"
  u_createdAt :: time
  u_deletedAt :: "time option"

record refresh_token =
  rt_tokenHash :: string
  rt_expiresAt :: time
  rt_revoked :: bool
  rt_userId :: uuid

record role_audit =
  ra_userId :: uuid
  ra_oldRole :: role
  ra_newRole :: role
  ra_changedBy :: uuid
  ra_reason :: string
  ra_createdAt :: time

section \<open>Redis\<close>

text \<open>
  A key holds a text or, after \<open>INCR\<close>, a number, and the time after which it is gone. Redis drops a key
  when the clock is past that time, so the key still exists at the time itself.
\<close>

datatype redis_value = Text string | Count nat

type_synonym redis = "string \<Rightarrow> (redis_value \<times> time option) option"

definition redis_get :: "time \<Rightarrow> string \<Rightarrow> redis \<Rightarrow> redis_value option" where
  "redis_get t k r =
     (case r k of
        None \<Rightarrow> None
      | Some (v, None) \<Rightarrow> Some v
      | Some (v, Some x) \<Rightarrow> if t \<le> x then Some v else None)"

definition redis_exists :: "time \<Rightarrow> string \<Rightarrow> redis \<Rightarrow> bool" where
  "redis_exists t k r = (redis_get t k r \<noteq> None)"

text \<open>\<open>TTL\<close> in seconds, rounded to the nearest.\<close>

definition redis_ttl :: "time \<Rightarrow> string \<Rightarrow> redis \<Rightarrow> nat" where
  "redis_ttl t k r = (case r k of Some (_, Some x) \<Rightarrow> (x - t + 500) div 1000 | _ \<Rightarrow> 0)"

text \<open>\<open>SET key value EX seconds\<close>\<close>

definition redis_set :: "time \<Rightarrow> string \<Rightarrow> redis_value \<Rightarrow> nat \<Rightarrow> redis \<Rightarrow> redis" where
  "redis_set t k v ttl r = r(k := Some (v, Some (t + 1000 * ttl)))"

definition redis_del :: "string \<Rightarrow> redis \<Rightarrow> redis" where
  "redis_del k r = r(k := None)"

definition redis_incr :: "time \<Rightarrow> string \<Rightarrow> redis \<Rightarrow> nat \<times> redis" where
  "redis_incr t k r =
     (case redis_get t k r of
        Some (Count n) \<Rightarrow> (Suc n, r(k := Some (Count (Suc n), snd (the (r k)))))
      | _ \<Rightarrow> (1, r(k := Some (Count 1, None))))"

definition redis_expire :: "time \<Rightarrow> string \<Rightarrow> nat \<Rightarrow> redis \<Rightarrow> redis" where
  "redis_expire t k ttl r =
     (case redis_get t k r of None \<Rightarrow> r | Some v \<Rightarrow> r(k := Some (v, Some (t + 1000 * ttl))))"

section \<open>The state and its surroundings\<close>

record mail =
  ml_to :: string
  ml_otp :: string
  ml_subject :: string

record identity =
  users :: "user list"
  refreshTokens :: "refresh_token list"
  roleAudits :: "role_audit list"
  redis :: redis
  mails :: "mail list"

record jwt_payload =
  jw_sub :: uuid
  jw_username :: "string option"
  jw_email :: string
  jw_role :: role
  jw_jti :: uuid
  jw_iat :: nat
  jw_exp :: nat

text \<open>
  What a request takes from outside: the clock, generated uuids, the six digits of \<open>randomInt\<close>, the hash
  functions of \<open>bcrypt\<close> and \<open>crypto\<close>, signing and checking of JSON web tokens, whether the mail server
  and a query nobody waits for succeed, and the configured lifetimes (\<open>ia_accessSeconds\<close> is
  \<open>JWT_ACCESS_EXPIRES_IN\<close> as the library that signs reads it).
\<close>

record id_env =
  ia_now :: time
  ia_fresh :: "nat \<Rightarrow> uuid"
  ia_code :: string
  ia_hash :: "string \<Rightarrow> string"
  ia_compare :: "string \<Rightarrow> string \<Rightarrow> bool"
  ia_sha256 :: "string \<Rightarrow> string"
  ia_sign :: "jwt_payload \<Rightarrow> string"
  ia_verify :: "string \<Rightarrow> jwt_payload option"
  ia_mailSent :: bool
  ia_loginNoted :: bool
  ia_accessSeconds :: nat
  ia_refreshExpires :: "string option"

section \<open>Handlers\<close>

type_synonym 'a handler = "identity \<Rightarrow> (exn + 'a) \<times> identity"

definition thenH :: "'a handler \<Rightarrow> ('a \<Rightarrow> 'b handler) \<Rightarrow> 'b handler" where
  "thenH m f s = (case m s of (Inl ex, s') \<Rightarrow> (Inl ex, s') | (Inr x, s') \<Rightarrow> f x s')"

definition returnH :: "'a \<Rightarrow> 'a handler" where
  "returnH x s = (Inr x, s)"

definition throwH :: "exn \<Rightarrow> 'a handler" where
  "throwH ex s = (Inl ex, s)"

text \<open>A query, which may throw, and a write.\<close>

definition askH :: "(identity \<Rightarrow> exn + 'a) \<Rightarrow> 'a handler" where
  "askH q s = (q s, s)"

definition writeH :: "(identity \<Rightarrow> identity) \<Rightarrow> unit handler" where
  "writeH f s = (Inr (), f s)"

text \<open>Several Redis commands in one pipeline.\<close>

definition pipelineH :: "(redis \<Rightarrow> redis) \<Rightarrow> unit handler" where
  "pipelineH f s = (Inr (), s\<lparr>redis := f (redis s)\<rparr>)"

named_theorems handlers "the composition of handlers"

lemmas [handlers] = thenH_def returnH_def throwH_def askH_def writeH_def pipelineH_def

text \<open>When a composed handler returns.\<close>

lemma thenH_Inr: "thenH m f s = (Inr y, s') \<longleftrightarrow> (\<exists>x t. m s = (Inr x, t) \<and> f x t = (Inr y, s'))"
  by (auto simp: thenH_def split: prod.splits sum.splits)

lemma returnH_Inr: "returnH x s = (Inr y, s') \<longleftrightarrow> y = x \<and> s' = s"
  by (auto simp: returnH_def)

lemma throwH_Inr: "throwH ex s \<noteq> (Inr y, s')"
  by (simp add: throwH_def)

lemma askH_Inr: "askH q s = (Inr y, s') \<longleftrightarrow> q s = Inr y \<and> s' = s"
  by (auto simp: askH_def)

lemma writeH_Inr: "writeH f s = (Inr y, s') \<longleftrightarrow> s' = f s"
  by (auto simp: writeH_def)

lemma pipelineH_Inr: "pipelineH f s = (Inr y, s') \<longleftrightarrow> s' = s\<lparr>redis := f (redis s)\<rparr>"
  by (auto simp: pipelineH_def)

lemmas handler_Inr = thenH_Inr returnH_Inr throwH_Inr askH_Inr writeH_Inr pipelineH_Inr

text \<open>A property that a handler keeps, whatever it returns.\<close>

definition keeps :: "(identity \<Rightarrow> bool) \<Rightarrow> 'a handler \<Rightarrow> bool" where
  "keeps P m \<longleftrightarrow> (\<forall>s. P s \<longrightarrow> P (snd (m s)))"

lemma keepsI: "(\<And>s. P s \<Longrightarrow> P (snd (m s))) \<Longrightarrow> keeps P m"
  by (simp add: keeps_def)

lemma keepsD: "keeps P m \<Longrightarrow> P s \<Longrightarrow> P (snd (m s))"
  by (simp add: keeps_def)

lemma keeps_thenH [intro]: "keeps P m \<Longrightarrow> (\<And>x. keeps P (f x)) \<Longrightarrow> keeps P (thenH m f)"
  unfolding keeps_def thenH_def by (auto split: prod.splits sum.splits; metis snd_conv)

lemma keeps_simple [intro, simp]: "keeps P (returnH x)" "keeps P (throwH ex)" "keeps P (askH q)"
  by (simp_all add: keeps_def returnH_def throwH_def askH_def)

section \<open>Tables\<close>

definition u_live :: "user \<Rightarrow> bool" where
  "u_live u = (u_deletedAt u = None)"

definition find_user :: "uuid \<Rightarrow> identity \<Rightarrow> user option" where
  "find_user i s = find_by (\<lambda>u. u_id u = i \<and> u_live u) (users s)"

definition find_user_by_email :: "string \<Rightarrow> identity \<Rightarrow> user option" where
  "find_user_by_email email s = find_by (\<lambda>u. u_email u = email \<and> u_live u) (users s)"

definition find_user_by_username :: "string \<Rightarrow> identity \<Rightarrow> user option" where
  "find_user_by_username name s = find_by (\<lambda>u. u_username u = Some name \<and> u_live u) (users s)"

text \<open>The unique columns of \<open>users\<close> hold for deleted rows as well; a missing user name is no clash.\<close>

definition users_clash :: "user \<Rightarrow> user list \<Rightarrow> bool" where
  "users_clash u us =
     exists_where (\<lambda>x. u_id x \<noteq> u_id u \<and>
       (u_email x = u_email u \<or> (u_username u \<noteq> None \<and> u_username x = u_username u))) us"

definition save_user :: "user \<Rightarrow> unit handler" where
  "save_user u s =
     (if users_clash u (users s) then (Inl (UniqueViolation ''users''), s)
      else (Inr (), s\<lparr>users := put u_id u (users s)\<rparr>))"

definition insert_user :: "user \<Rightarrow> unit handler" where
  "insert_user u s =
     (if exists_where (\<lambda>x. u_id x = u_id u) (users s) \<or> users_clash u (users s)
      then (Inl (UniqueViolation ''users''), s)
      else (Inr (), s\<lparr>users := users s @ [u]\<rparr>))"

text \<open>\<open>refreshTokenRepo.update({ userId }, { revoked: true })\<close>\<close>

definition revoke_tokens :: "uuid \<Rightarrow> identity \<Rightarrow> identity" where
  "revoke_tokens i s =
     s\<lparr>refreshTokens :=
         update_where (\<lambda>t. rt_userId t = i) (\<lambda>t. t\<lparr>rt_revoked := True\<rparr>) (refreshTokens s)\<rparr>"

definition soft_delete_user :: "time \<Rightarrow> uuid \<Rightarrow> identity \<Rightarrow> identity" where
  "soft_delete_user t i s =
     s\<lparr>users := update_where (\<lambda>u. u_id u = i) (\<lambda>u. u\<lparr>u_deletedAt := Some t\<rparr>) (users s)\<rparr>"

definition send_otp :: "id_env \<Rightarrow> string \<Rightarrow> string \<Rightarrow> string \<Rightarrow> unit handler" where
  "send_otp e to otp subject s =
     (if ia_mailSent e then (Inr (), s\<lparr>mails := mails s @ [\<lparr>ml_to = to, ml_otp = otp, ml_subject = subject\<rparr>]\<rparr>)
      else (Inl (InternalError ''mail server''), s))"

end
