(* ===== verification/Otp.thy ===== *)
theory Otp
  imports Accounts
begin

text \<open>
  One-time passwords (\<open>otp/otp.service.ts\<close>): a code of six digits in Redis with a lifetime, a counter of
  wrong guesses, and a lock after the fifth. First the operations, then what they promise: a code is good
  once, and a code that lives no longer than the counter takes at most five wrong guesses.
\<close>

section \<open>Operations\<close>

definition max_attempts :: nat where
  "max_attempts = 5"

definition lockout_seconds :: nat where
  "lockout_seconds = 300"

fun decimal :: "nat \<Rightarrow> string" where
  "decimal n =
     (if n < 10 then [char_of (48 + n)] else decimal (n div 10) @ [char_of (48 + n mod 10)])"

declare decimal.simps [simp del]

definition otp_key :: "string \<Rightarrow> string" where
  "otp_key key = ''otp:'' @ key"

definition fail_key :: "string \<Rightarrow> string" where
  "fail_key key = ''otp_fail:'' @ key"

definition lock_key :: "string \<Rightarrow> string" where
  "lock_key key = ''otp_lock:'' @ key"

definition stored_otp :: "time \<Rightarrow> string \<Rightarrow> string \<Rightarrow> nat \<Rightarrow> redis \<Rightarrow> redis" where
  "stored_otp t key code ttl r =
     redis_del (lock_key key) (redis_del (fail_key key) (redis_set t (otp_key key) (Text code) ttl r))"

definition create_otp :: "id_env \<Rightarrow> string \<Rightarrow> nat \<Rightarrow> string handler" where
  "create_otp e key ttl =
     thenH (pipelineH (stored_otp (ia_now e) key (ia_code e) ttl)) (\<lambda>_.
     returnH (ia_code e))"

text \<open>
  The check on the Redis store alone: it reads and writes nothing else. The counter that it increments
  is given its lifetime in the next command.
\<close>

definition check_otp :: "time \<Rightarrow> string \<Rightarrow> string \<Rightarrow> redis \<Rightarrow> (exn + bool) \<times> redis" where
  "check_otp t key otp r =
     (if redis_exists t (lock_key key) r
      then (Inl (TooManyRequests (''Qua nhieu lan thu sai. Vui long thu lai sau '' @
              decimal (redis_ttl t (lock_key key) r) @ '' giay.'')), r)
      else case redis_get t (otp_key key) r of
          None \<Rightarrow> (Inr False, r)
        | Some stored \<Rightarrow>
            if stored \<noteq> Text otp
            then
              let (fails, r1) = redis_incr t (fail_key key) r;
                  r2 = redis_expire t (fail_key key) lockout_seconds r1 in
              if max_attempts \<le> fails
              then (Inl (TooManyRequests (''Qua nhieu lan thu sai. Vui long yeu cau ma OTP moi sau '' @
                      decimal (lockout_seconds div 60) @ '' phut.'')),
                    redis_del (fail_key key) (redis_del (otp_key key)
                      (redis_set t (lock_key key) (Text ''1'') lockout_seconds r2)))
              else (Inr False, r2)
            else (Inr True, redis_del (fail_key key) (redis_del (otp_key key) r)))"

definition verify_otp :: "id_env \<Rightarrow> string \<Rightarrow> string \<Rightarrow> bool handler" where
  "verify_otp e key otp s =
     (let (result, r) = check_otp (ia_now e) key otp (redis s) in (result, s\<lparr>redis := r\<rparr>))"

section \<open>Keys\<close>

lemma keys_differ [simp]:
  "otp_key k \<noteq> fail_key k'" "otp_key k \<noteq> lock_key k'" "fail_key k \<noteq> lock_key k'"
  "fail_key k \<noteq> otp_key k'" "lock_key k \<noteq> otp_key k'" "lock_key k \<noteq> fail_key k'"
  "otp_key k = otp_key k' \<longleftrightarrow> k = k'" "fail_key k = fail_key k' \<longleftrightarrow> k = k'" "lock_key k = lock_key k' \<longleftrightarrow> k = k'"
  by (auto simp: otp_key_def fail_key_def lock_key_def)

lemmas redis_defs = redis_exists_def redis_get_def redis_set_def redis_del_def redis_incr_def redis_expire_def

section \<open>A code is good once\<close>

text \<open>The code that a key has at a time, unless the key is locked.\<close>

definition open_otp :: "time \<Rightarrow> string \<Rightarrow> redis \<Rightarrow> string option" where
  "open_otp t key r =
     (if redis_exists t (lock_key key) r then None
      else case redis_get t (otp_key key) r of Some (Text code) \<Rightarrow> Some code | _ \<Rightarrow> None)"

lemma check_otp_cases:
  obtains (locked) x where "redis_exists t (lock_key key) r" "check_otp t key otp r = (Inl x, r)"
  | (gone) "\<not> redis_exists t (lock_key key) r" "redis_get t (otp_key key) r = None"
      "check_otp t key otp r = (Inr False, r)"
  | (right) "\<not> redis_exists t (lock_key key) r" "redis_get t (otp_key key) r = Some (Text otp)"
      "check_otp t key otp r = (Inr True, redis_del (fail_key key) (redis_del (otp_key key) r))"
  | (wrong) v fails r1 where "\<not> redis_exists t (lock_key key) r" "redis_get t (otp_key key) r = Some v"
      "v \<noteq> Text otp" "redis_incr t (fail_key key) r = (fails, r1)" "fails < max_attempts"
      "check_otp t key otp r = (Inr False, redis_expire t (fail_key key) lockout_seconds r1)"
  | (locks) v fails r1 x where "\<not> redis_exists t (lock_key key) r" "redis_get t (otp_key key) r = Some v"
      "v \<noteq> Text otp" "redis_incr t (fail_key key) r = (fails, r1)" "max_attempts \<le> fails"
      "check_otp t key otp r = (Inl x, redis_del (fail_key key) (redis_del (otp_key key)
         (redis_set t (lock_key key) (Text ''1'') lockout_seconds
           (redis_expire t (fail_key key) lockout_seconds r1))))"
proof (cases "redis_exists t (lock_key key) r")
  case True
  then show ?thesis using locked by (simp add: check_otp_def)
next
  case False
  note unlocked = this
  show ?thesis
  proof (cases "redis_get t (otp_key key) r")
    case None
    then show ?thesis using gone unlocked by (simp add: check_otp_def)
  next
    case (Some v)
    obtain fails r1 where i: "redis_incr t (fail_key key) r = (fails, r1)" by fastforce
    show ?thesis
    proof (cases "v = Text otp")
      case True
      then show ?thesis using right unlocked Some by (simp add: check_otp_def)
    next
      case False
      then show ?thesis
        using wrong [OF unlocked Some False i] locks [OF unlocked Some False i] unlocked Some i
        by (cases "max_attempts \<le> fails") (simp_all add: check_otp_def)
    qed
  qed
qed

lemma check_otp_True: "fst (check_otp t key otp r) = Inr True \<longleftrightarrow> open_otp t key r = Some otp"
  by (cases rule: check_otp_cases [of t key r otp])
    (auto simp: open_otp_def split: redis_value.splits)

lemma check_otp_uses:
  "fst (check_otp t key otp r) = Inr True \<Longrightarrow> redis_get t' (otp_key key) (snd (check_otp t key otp r)) = None"
  by (cases rule: check_otp_cases [of t key r otp]) (auto simp: redis_get_def redis_del_def)

lemma open_otp_stored:
  "open_otp t' key (stored_otp t key code ttl r) = (if t' \<le> t + 1000 * ttl then Some code else None)"
  by (simp add: open_otp_def stored_otp_def redis_defs)

section \<open>Wrong guesses are bounded\<close>

text \<open>A sequence of guesses, each at its time, and the results.\<close>

fun guesses :: "string \<Rightarrow> (time \<times> string) list \<Rightarrow> redis \<Rightarrow> (exn + bool) list" where
  "guesses key [] r = []"
| "guesses key ((t, otp) # gs) r =
     fst (check_otp t key otp r) # guesses key gs (snd (check_otp t key otp r))"

text \<open>
  After n wrong guesses the code is still there and the counter, which outlives it, stands at n; or the
  code is gone.
\<close>

definition guessed :: "time \<Rightarrow> time \<Rightarrow> string \<Rightarrow> string \<Rightarrow> nat \<Rightarrow> redis \<Rightarrow> bool" where
  "guessed t0 dies key code n r \<longleftrightarrow>
     r (otp_key key) = None \<or>
     r (otp_key key) = Some (Text code, Some dies) \<and> r (lock_key key) = None \<and> n < max_attempts \<and>
     (if n = 0 then r (fail_key key) = None
      else \<exists>t \<ge> t0. r (fail_key key) = Some (Count n, Some (t + 1000 * lockout_seconds)))"

lemma guessed_wrong:
  assumes g: "guessed t0 dies key code n r" and "t0 \<le> t" "otp \<noteq> code" "dies \<le> t0 + 1000 * lockout_seconds"
  shows "guessed t0 dies key code (Suc n) (snd (check_otp t key otp r)) \<or>
    redis_get t (otp_key key) r = None \<and> guessed t0 dies key code n (snd (check_otp t key otp r))"
proof (cases "redis_get t (otp_key key) r")
  case None
  then have "snd (check_otp t key otp r) = r" by (simp add: check_otp_def)
  then show ?thesis using None g by simp
next
  case (Some v)
  then have r: "r (otp_key key) = Some (Text code, Some dies)" "r (lock_key key) = None" "n < max_attempts"
    "if n = 0 then r (fail_key key) = None
      else \<exists>t \<ge> t0. r (fail_key key) = Some (Count n, Some (t + 1000 * lockout_seconds))"
    and v: "v = Text code" "t \<le> dies"
    using g by (auto simp: guessed_def redis_get_def split: if_splits)
  have alive: "t \<le> x + 1000 * lockout_seconds" if "t0 \<le> x" for x
    using that v(2) assms(4) by linarith
  have incr: "redis_incr t (fail_key key) r =
      (Suc n, r(fail_key key := Some (Count (Suc n), if n = 0 then None else snd (the (r (fail_key key))))))"
    using r(4) alive by (auto simp: redis_incr_def redis_get_def split: if_splits)
  show ?thesis
  proof (cases "Suc n < max_attempts")
    case True
    then have "snd (check_otp t key otp r) =
        r(fail_key key := Some (Count (Suc n), Some (t + 1000 * lockout_seconds)))"
      using r v assms(2,3) alive incr Some
      by (auto simp: check_otp_def redis_exists_def redis_get_def redis_expire_def Let_def split: if_splits)
    then show ?thesis using r True assms(2) by (auto simp: guessed_def)
  next
    case False
    then have "snd (check_otp t key otp r) (otp_key key) = None"
      using r v assms(3) incr Some
      by (auto simp: check_otp_def redis_exists_def redis_get_def redis_del_def Let_def)
    then show ?thesis by (simp add: guessed_def)
  qed
qed

text \<open>The store after a sequence of guesses.\<close>

fun after_guesses :: "string \<Rightarrow> (time \<times> string) list \<Rightarrow> redis \<Rightarrow> redis" where
  "after_guesses key [] r = r"
| "after_guesses key ((t, otp) # gs) r = after_guesses key gs (snd (check_otp t key otp r))"

lemma guesses_append: "guesses key (gs @ hs) r = guesses key gs r @ guesses key hs (after_guesses key gs r)"
  by (induction key gs r rule: guesses.induct) simp_all

lemma guessed_gone: "redis_get t (otp_key key) r = None \<Longrightarrow> t \<le> dies \<Longrightarrow> guessed t0 dies key code n r \<Longrightarrow>
    guessed t0 dies key code m r"
  by (auto simp: guessed_def redis_get_def)

lemma guessed_all:
  assumes "guessed t0 dies key code n r" "dies \<le> t0 + 1000 * lockout_seconds"
    and "\<forall>g \<in> set gs. t0 \<le> fst g \<and> fst g \<le> dies \<and> snd g \<noteq> code"
  shows "guessed t0 dies key code (n + length gs) (after_guesses key gs r)"
  using assms(1,3)
proof (induction gs arbitrary: n r)
  case (Cons g gs)
  obtain t otp where g: "g = (t, otp)" by (cases g)
  have "guessed t0 dies key code (Suc n) (snd (check_otp t key otp r))"
  proof (cases "redis_get t (otp_key key) r = None")
    case True
    then have "snd (check_otp t key otp r) = r" by (simp add: check_otp_def)
    then show ?thesis using guessed_gone [OF True _ Cons.prems(1)] Cons.prems(2) g by simp
  next
    case False
    then show ?thesis using guessed_wrong [OF Cons.prems(1) _ _ assms(2), of t otp] Cons.prems(2) g by auto
  qed
  then show ?case using Cons.IH Cons.prems(2) g by fastforce
qed simp

lemma otp_guess_bound:
  assumes "ttl \<le> lockout_seconds" "sorted (map fst gs @ [t])" "\<forall>g \<in> set gs. t0 \<le> fst g \<and> snd g \<noteq> code" "t0 \<le> t"
    and "last (guesses key (gs @ [(t, code)]) (stored_otp t0 key code ttl r)) = Inr True"
  shows "length gs < max_attempts"
proof -
  let ?dies = "t0 + 1000 * ttl" and ?r = "after_guesses key gs (stored_otp t0 key code ttl r)"
  have ok: "open_otp t key ?r = Some code"
    using assms(5) check_otp_True by (simp add: guesses_append)
  have start: "guessed t0 ?dies key code 0 (stored_otp t0 key code ttl r)"
    by (simp add: guessed_def stored_otp_def redis_set_def redis_del_def max_attempts_def)
  have get: "redis_get t (otp_key key) ?r = Some (Text code)"
    using ok by (auto simp: open_otp_def split: if_splits option.splits redis_value.splits)
  show ?thesis
  proof (cases "t \<le> ?dies")
    case True
    then have "guessed t0 ?dies key code (length gs) ?r"
      using guessed_all [OF start, of gs] assms(1-3) by (force simp: sorted_append)
    then show ?thesis using get by (auto simp: guessed_def redis_get_def)
  next
    case False
    have keep: "after_guesses key gs q (otp_key key) \<in> {None, Some (Text code, Some ?dies)}"
      if "q (otp_key key) \<in> {None, Some (Text code, Some ?dies)}" for q gs
      using that
    proof (induction gs arbitrary: q)
      case (Cons g gs)
      obtain x otp where g: "g = (x, otp)" by (cases g)
      have "snd (check_otp x key otp q) (otp_key key) \<in> {None, Some (Text code, Some ?dies)}"
      proof (cases rule: check_otp_cases [of x key q otp])
        case (wrong v fails r1)
        then show ?thesis using Cons.prems
          by (auto simp: redis_incr_def redis_expire_def split: option.splits redis_value.splits)
      qed (use Cons.prems in \<open>auto simp: redis_del_def\<close>)
      then show ?case using Cons.IH g by simp
    qed simp
    have "?r (otp_key key) \<in> {None, Some (Text code, Some ?dies)}"
      by (rule keep) (simp add: stored_otp_def redis_set_def redis_del_def)
    then have "redis_get t (otp_key key) ?r = None" using False by (auto simp: redis_get_def)
    then show ?thesis using get by simp
  qed
qed

end
