(* ===== verification/Auth.thy ===== *)
theory Auth
  imports Otp Content_Policy
begin

text \<open>
  Registration, login, tokens and passwords (\<open>auth/auth.service.ts\<close>, \<open>auth/strategies/jwt.strategy.ts\<close>,
  \<open>common/parse-ttl.util.ts\<close>, \<open>common/internal-token.guard.ts\<close>).
\<close>

section \<open>Lifetimes\<close>

definition is_digit :: "char \<Rightarrow> bool" where
  "is_digit c = (let n = (of_char c :: nat) in 48 \<le> n \<and> n \<le> 57)"

definition digits_value :: "string \<Rightarrow> nat" where
  "digits_value = foldl (\<lambda>n c. 10 * n + (of_char c - 48)) 0"

text \<open>\<open>parseInt(s, 10)\<close>: white space, a sign, and the digits up to the first other character.\<close>

definition parse_int :: "string \<Rightarrow> int option" where
  "parse_int s =
     (let t = dropWhile is_space s;
          negative = (t \<noteq> '''' \<and> hd t = CHR ''-'');
          body = (if t \<noteq> '''' \<and> (hd t = CHR ''-'' \<or> hd t = CHR ''+'') then tl t else t);
          ds = takeWhile is_digit body in
      if ds = '''' then None
      else Some (if negative then - int (digits_value ds) else int (digits_value ds)))"

definition parse_ttl :: "string option \<Rightarrow> int" where
  "parse_ttl expires =
     (case truthy expires of
        None \<Rightarrow> 900
      | Some t \<Rightarrow>
          let unit = last t in
          case parse_int (butlast t) of
            None \<Rightarrow> 900
          | Some n \<Rightarrow>
              if unit = CHR ''s'' then n
              else if unit = CHR ''m'' then n * 60
              else if unit = CHR ''h'' then n * 3600
              else if unit = CHR ''d'' then n * 86400
              else 900)"

section \<open>Requests\<close>

record register_dto =
  rg_fullName :: string
  rg_dateOfBirth :: "string option"
  rg_email :: string
  rg_password :: string

record verify_otp_dto =
  vo_email :: string
  vo_otp :: string
  vo_username :: string

record login_dto =
  lg_identifier :: string
  lg_password :: string

record reset_password_dto =
  rp_email :: string
  rp_otp :: string
  rp_newPassword :: string

record token_pair =
  tp_accessToken :: string
  tp_refreshToken :: string

section \<open>Registration\<close>

definition new_user :: "id_env \<Rightarrow> register_dto \<Rightarrow> user" where
  "new_user e dto =
     \<lparr>u_id = ia_fresh e 0, u_username = None, u_fullName = rg_fullName dto,
      u_dateOfBirth = truthy (rg_dateOfBirth dto), u_email = rg_email dto,
      u_passwordHash = ia_hash e (rg_password dto), u_avatarUrl = None, u_privacy = PublicProfile,
      u_isVerified = False, u_role = StudentRole, u_passwordChangedAt = None, u_lastLoginAt = None,
      u_createdAt = ia_now e, u_deletedAt = None\<rparr>"

text \<open>Guards on the state and rows that must exist.\<close>

definition checkH :: "(identity \<Rightarrow> bool) \<Rightarrow> exn \<Rightarrow> unit handler" where
  "checkH P ex = askH (\<lambda>s. guardE (P s) ex)"

definition fetchH :: "(identity \<Rightarrow> 'a option) \<Rightarrow> exn \<Rightarrow> 'a handler" where
  "fetchH q ex = askH (\<lambda>s. someE (q s) ex)"

definition register :: "id_env \<Rightarrow> register_dto \<Rightarrow> string handler" where
  "register e dto =
     thenH (checkH (\<lambda>s. \<not> exists_where (\<lambda>u. u_email u = rg_email dto) (users s))
              (Conflict ''Email already registered'')) (\<lambda>_.
     thenH (insert_user (new_user e dto)) (\<lambda>_.
     thenH (create_otp e (''register:'' @ rg_email dto) 300) (\<lambda>otp.
     thenH (send_otp e (rg_email dto) otp ''Xac thuc dang ky tai khoan'') (\<lambda>_.
     returnH ''Registration successful. Please verify your email with OTP.''))))"

definition verify_register_otp :: "id_env \<Rightarrow> verify_otp_dto \<Rightarrow> string handler" where
  "verify_register_otp e dto =
     thenH (fetchH (find_user_by_email (vo_email dto)) (NotFound ''User not found'')) (\<lambda>u.
     thenH (checkH (\<lambda>_. \<not> u_isVerified u) (BadRequest ''Account already verified'')) (\<lambda>_.
     thenH (checkH (\<lambda>s. \<not> exists_where (\<lambda>x. u_username x = Some (vo_username dto)) (users s))
              (Conflict ''Username already taken'')) (\<lambda>_.
     thenH (verify_otp e (''register:'' @ vo_email dto) (vo_otp dto)) (\<lambda>valid.
     thenH (checkH (\<lambda>_. valid) (BadRequest ''Invalid or expired OTP'')) (\<lambda>_.
     thenH (save_user (u\<lparr>u_isVerified := True, u_username := Some (vo_username dto)\<rparr>)) (\<lambda>_.
     returnH ''Account verified successfully''))))))"

definition cooldown_key :: "string \<Rightarrow> string" where
  "cooldown_key email = ''otp_cooldown:register:'' @ email"

definition resend_otp :: "id_env \<Rightarrow> string \<Rightarrow> string handler" where
  "resend_otp e email =
     thenH (fetchH (find_user_by_email email) (NotFound ''User not found'')) (\<lambda>u.
     thenH (checkH (\<lambda>_. \<not> u_isVerified u) (BadRequest ''Account already verified'')) (\<lambda>_.
     thenH (askH (\<lambda>s.
              if redis_exists (ia_now e) (cooldown_key email) (redis s)
              then Inl (TooManyRequests (''Vui long doi '' @
                     decimal (redis_ttl (ia_now e) (cooldown_key email) (redis s)) @
                     '' giay truoc khi gui lai OTP.''))
              else Inr ())) (\<lambda>_.
     thenH (create_otp e (''register:'' @ email) 300) (\<lambda>otp.
     thenH (send_otp e email otp ''Xac thuc dang ky tai khoan'') (\<lambda>_.
     thenH (pipelineH (redis_set (ia_now e) (cooldown_key email) (Text ''1'') 60)) (\<lambda>_.
     returnH ''OTP resent successfully''))))))"

section \<open>Tokens\<close>

definition access_payload :: "id_env \<Rightarrow> user \<Rightarrow> jwt_payload" where
  "access_payload e u =
     \<lparr>jw_sub = u_id u, jw_username = u_username u, jw_email = u_email u, jw_role = u_role u,
      jw_jti = ia_fresh e 0, jw_iat = ia_now e div 1000,
      jw_exp = ia_now e div 1000 + ia_accessSeconds e\<rparr>"

definition new_refresh_token :: "id_env \<Rightarrow> user \<Rightarrow> refresh_token" where
  "new_refresh_token e u =
     \<lparr>rt_tokenHash = ia_sha256 e (ia_fresh e 1),
      rt_expiresAt = nat (int (ia_now e) + parse_ttl (ia_refreshExpires e) * 1000), rt_revoked = False,
      rt_userId = u_id u\<rparr>"

definition insert_token :: "refresh_token \<Rightarrow> unit handler" where
  "insert_token t s =
     (if exists_where (\<lambda>x. rt_tokenHash x = rt_tokenHash t) (refreshTokens s)
      then (Inl (UniqueViolation ''refresh_tokens_token_hash_key''), s)
      else (Inr (), s\<lparr>refreshTokens := refreshTokens s @ [t]\<rparr>))"

definition generate_tokens :: "id_env \<Rightarrow> user \<Rightarrow> token_pair handler" where
  "generate_tokens e u =
     thenH (insert_token (new_refresh_token e u)) (\<lambda>_.
     returnH \<lparr>tp_accessToken = ia_sign e (access_payload e u), tp_refreshToken = ia_fresh e 1\<rparr>)"

definition note_login :: "id_env \<Rightarrow> uuid \<Rightarrow> identity \<Rightarrow> identity" where
  "note_login e i s =
     (if ia_loginNoted e
      then s\<lparr>users := update_where (\<lambda>u. u_id u = i) (\<lambda>u. u\<lparr>u_lastLoginAt := Some (ia_now e)\<rparr>) (users s)\<rparr>
      else s)"

definition find_login :: "string \<Rightarrow> identity \<Rightarrow> user option" where
  "find_login identifier s =
     (if CHR ''@'' \<in> set identifier then find_user_by_email identifier s
      else find_user_by_username identifier s)"

definition login :: "id_env \<Rightarrow> login_dto \<Rightarrow> token_pair handler" where
  "login e dto =
     thenH (fetchH (find_login (lg_identifier dto)) (Unauthorized ''Invalid credentials'')) (\<lambda>u.
     thenH (checkH (\<lambda>_. u_isVerified u) (Unauthorized ''Account not verified'')) (\<lambda>_.
     thenH (checkH (\<lambda>_. ia_compare e (lg_password dto) (u_passwordHash u))
              (Unauthorized ''Invalid credentials'')) (\<lambda>_.
     thenH (writeH (note_login e (u_id u))) (\<lambda>_.
     generate_tokens e u))))"

definition find_token :: "string \<Rightarrow> identity \<Rightarrow> refresh_token option" where
  "find_token h s = find_by (\<lambda>t. rt_tokenHash t = h) (refreshTokens s)"

text \<open>\<open>update({ userId, revoked: false }, { revoked: true })\<close>\<close>

definition revoke_active_tokens :: "uuid \<Rightarrow> identity \<Rightarrow> identity" where
  "revoke_active_tokens i s =
     s\<lparr>refreshTokens :=
         update_where (\<lambda>t. rt_userId t = i \<and> \<not> rt_revoked t) (\<lambda>t. t\<lparr>rt_revoked := True\<rparr>)
           (refreshTokens s)\<rparr>"

definition reuse_alert :: exn where
  "reuse_alert = Unauthorized (''Security alert: refresh token reuse detected. '' @
     ''All sessions have been revoked. Please login again.'')"

text \<open>The relation \<open>user\<close> of a token leaves out a deleted user; without one, \<open>generateTokens\<close> fails.\<close>

definition refresh_tokens :: "id_env \<Rightarrow> string \<Rightarrow> token_pair handler" where
  "refresh_tokens e raw =
     thenH (fetchH (find_token (ia_sha256 e raw)) (Unauthorized ''Invalid or expired refresh token'')) (\<lambda>t.
     if rt_revoked t
     then thenH (writeH (revoke_active_tokens (rt_userId t))) (\<lambda>_. throwH reuse_alert)
     else if rt_expiresAt t < ia_now e
     then throwH (Unauthorized ''Invalid or expired refresh token'')
     else
       thenH (askH (\<lambda>s. Inr (find_user (rt_userId t) s))) (\<lambda>owner.
       thenH (writeH (\<lambda>s. s\<lparr>refreshTokens := put rt_tokenHash (t\<lparr>rt_revoked := True\<rparr>) (refreshTokens s)\<rparr>)) (\<lambda>_.
       case owner of
         None \<Rightarrow> throwH (InternalError ''TypeError'')
       | Some u \<Rightarrow> generate_tokens e u)))"

definition blacklist_key :: "uuid \<Rightarrow> string" where
  "blacklist_key jti = ''blacklist:'' @ jti"

definition blacklist_token :: "id_env \<Rightarrow> uuid \<Rightarrow> nat \<Rightarrow> unit handler" where
  "blacklist_token e jti exp =
     pipelineH (redis_set (ia_now e) (blacklist_key jti) (Text ''1'') (max 1 (exp - ia_now e div 1000)))"

definition logout :: "id_env \<Rightarrow> uuid \<Rightarrow> uuid \<Rightarrow> nat \<Rightarrow> string handler" where
  "logout e userId jti exp =
     thenH (writeH (revoke_active_tokens userId)) (\<lambda>_.
     thenH (blacklist_token e jti exp) (\<lambda>_.
     returnH ''Logged out successfully''))"

section \<open>Forgotten passwords\<close>

definition forgot_password :: "id_env \<Rightarrow> string \<Rightarrow> string handler" where
  "forgot_password e email =
     thenH (askH (\<lambda>s. Inr (find_user_by_email email s))) (\<lambda>found.
     thenH
       (case found of
          None \<Rightarrow> returnH ()
        | Some u \<Rightarrow>
            thenH (create_otp e (''reset:'' @ email) 600) (\<lambda>otp.
            send_otp e email otp ''Dat lai mat khau'')) (\<lambda>_.
     returnH ''Neu email ton tai trong he thong, ban se nhan duoc ma OTP.''))"

definition reset_password :: "id_env \<Rightarrow> reset_password_dto \<Rightarrow> string handler" where
  "reset_password e dto =
     thenH (fetchH (find_user_by_email (rp_email dto)) (NotFound ''User not found'')) (\<lambda>u.
     thenH (verify_otp e (''reset:'' @ rp_email dto) (rp_otp dto)) (\<lambda>valid.
     thenH (checkH (\<lambda>_. valid) (BadRequest ''Invalid or expired OTP'')) (\<lambda>_.
     thenH (save_user (u\<lparr>u_passwordHash := ia_hash e (rp_newPassword dto),
                         u_passwordChangedAt := Some (ia_now e)\<rparr>)) (\<lambda>_.
     thenH (writeH (revoke_tokens (u_id u))) (\<lambda>_.
     returnH ''Password reset successfully. Please login again.'')))))"

section \<open>Authentication of requests\<close>

record session =
  ss_user :: user
  ss_jti :: uuid
  ss_exp :: nat

definition validate_payload :: "id_env \<Rightarrow> jwt_payload \<Rightarrow> identity \<Rightarrow> exn + session" where
  "validate_payload e p s =
     bindE (guardE (redis_get (ia_now e) (blacklist_key (jw_jti p)) (redis s) = None)
              (Unauthorized ''Token has been revoked'')) (\<lambda>_.
     bindE (someE (find_user (jw_sub p) s) (Unauthorized ''Unauthorized'')) (\<lambda>u.
     bindE (guardE (case u_passwordChangedAt u of None \<Rightarrow> True | Some t \<Rightarrow> t div 1000 \<le> jw_iat p)
              (Unauthorized ''Password was changed. Please login again.'')) (\<lambda>_.
     Inr \<lparr>ss_user = u, ss_jti = jw_jti p, ss_exp = jw_exp p\<rparr>)))"

text \<open>
  Passport takes the bearer token, checks its signature, issuer and audience (\<open>ia_verify\<close>) and that it
  has not expired, and then asks \<open>validate\<close>.
\<close>

definition jwt_session :: "id_env \<Rightarrow> string option \<Rightarrow> identity \<Rightarrow> exn + session" where
  "jwt_session e bearer s =
     bindE (someE bearer (Unauthorized ''Unauthorized'')) (\<lambda>token.
     bindE (someE (ia_verify e token) (Unauthorized ''Unauthorized'')) (\<lambda>p.
     bindE (guardE (ia_now e div 1000 < jw_exp p) (Unauthorized ''Unauthorized'')) (\<lambda>_.
     validate_payload e p s)))"

text \<open>The global guard; the service does not start without the configured token.\<close>

definition gateway_token_guard :: "string \<Rightarrow> string option \<Rightarrow> exn + unit" where
  "gateway_token_guard expected token =
     (case truthy token of
        None \<Rightarrow> Inl (Forbidden ''Direct access to this service is not allowed.'')
      | Some t \<Rightarrow>
          guardE (length (utf8 t) = length (utf8 expected) \<and> utf8 t = utf8 expected)
            (Forbidden ''Direct access to this service is not allowed.''))"

text \<open>\<open>onModuleInit\<close>\<close>

definition clear_unverified_names :: "identity \<Rightarrow> identity" where
  "clear_unverified_names s =
     s\<lparr>users := update_where (\<lambda>u. \<not> u_isVerified u \<and> u_username u \<noteq> None)
         (\<lambda>u. u\<lparr>u_username := None\<rparr>) (users s)\<rparr>"

end
