(* ===== verification/Users.thy ===== *)
theory Users
  imports Auth
begin

text \<open>
  Profiles, passwords, e-mail addresses, roles and deletion of accounts (\<open>users/users.service.ts\<close>), and
  what other services ask (\<open>users/internal-users.controller.ts\<close>).
\<close>

section \<open>Requests and replies\<close>

record user_profile =
  up_id :: uuid
  up_username :: "string option"
  up_fullName :: string
  up_email :: string
  up_dateOfBirth :: "string option"
  up_avatarUrl :: "string option"
  up_privacy :: privacy
  up_role :: role
  up_isVerified :: bool
  up_createdAt :: time
  up_lastLoginAt :: "time option"

record change_password_dto =
  cp_currentPassword :: string
  cp_newPassword :: string
  cp_confirmPassword :: string

record change_role_dto =
  cl_role :: role
  cl_reason :: string

record admin_user_list_dto =
  al_page :: nat
  al_limit :: nat
  al_search :: "string option"
  al_role :: "role option"

record user_page =
  upg_data :: "user_profile list"
  upg_page :: nat
  upg_limit :: nat
  upg_totalItems :: nat
  upg_totalPages :: nat

definition get_profile :: "user \<Rightarrow> user_profile" where
  "get_profile u =
     \<lparr>up_id = u_id u, up_username = u_username u, up_fullName = u_fullName u, up_email = u_email u,
      up_dateOfBirth = u_dateOfBirth u, up_avatarUrl = u_avatarUrl u, up_privacy = u_privacy u,
      up_role = u_role u, up_isVerified = u_isVerified u, up_createdAt = u_createdAt u,
      up_lastLoginAt = u_lastLoginAt u\<rparr>"

section \<open>Administration\<close>

text \<open>\<open>ilike\<close> is the pattern match of the database, \<open>newest\<close> its order by creation, latest first.\<close>

definition matches_admin_list :: "(string \<Rightarrow> string \<Rightarrow> bool) \<Rightarrow> admin_user_list_dto \<Rightarrow> user \<Rightarrow> bool" where
  "matches_admin_list ilike q u =
     (u_live u \<and>
      (case truthy (al_search q) of
         None \<Rightarrow> True
       | Some text \<Rightarrow>
           let p = ''%'' @ text @ ''%'' in
           ilike (u_email u) p \<or> (case u_username u of None \<Rightarrow> False | Some n \<Rightarrow> ilike n p) \<or>
           ilike (u_fullName u) p) \<and>
      (al_role q = None \<or> al_role q = Some (u_role u)))"

definition admin_list ::
  "(string \<Rightarrow> string \<Rightarrow> bool) \<Rightarrow> (user list \<Rightarrow> user list) \<Rightarrow> admin_user_list_dto \<Rightarrow> identity \<Rightarrow> user_page" where
  "admin_list ilike newest q s =
     (let found = newest (filter (matches_admin_list ilike q) (users s)) in
      \<lparr>upg_data = map get_profile (take (al_limit q) (drop ((al_page q - 1) * al_limit q) found)),
       upg_page = al_page q, upg_limit = al_limit q, upg_totalItems = length found,
       upg_totalPages = (length found + al_limit q - 1) div al_limit q\<rparr>)"

definition live_admins :: "identity \<Rightarrow> nat" where
  "live_admins s = count_where (\<lambda>u. u_role u = AdminRole \<and> u_live u) (users s)"

definition role_audit_row :: "id_env \<Rightarrow> user \<Rightarrow> change_role_dto \<Rightarrow> user \<Rightarrow> role_audit" where
  "role_audit_row e u dto actor =
     \<lparr>ra_userId = u_id u, ra_oldRole = u_role u, ra_newRole = cl_role dto, ra_changedBy = u_id actor,
      ra_reason = trim (cl_reason dto), ra_createdAt = ia_now e\<rparr>"

definition change_role_body ::
  "id_env \<Rightarrow> uuid \<Rightarrow> change_role_dto \<Rightarrow> user \<Rightarrow> identity \<Rightarrow> exn + user_profile \<times> identity" where
  "change_role_body e i dto actor s =
     bindE (someE (find_user i s) (NotFound ''User not found'')) (\<lambda>u.
     bindE (guardE (\<not> (u_id u = u_id actor \<and> cl_role dto \<noteq> AdminRole))
              (Forbidden ''Administrators cannot demote themselves'')) (\<lambda>_.
     if u_role u = cl_role dto then Inr (get_profile u, s)
     else
       bindE (guardE (\<not> (u_role u = AdminRole \<and> cl_role dto \<noteq> AdminRole) \<or> 1 < live_admins s)
                (Forbidden ''The system must retain at least one admin'')) (\<lambda>_.
       let u' = u\<lparr>u_role := cl_role dto, u_passwordChangedAt := Some (ia_now e)\<rparr> in
       case save_user u' s of
         (Inl ex, _) \<Rightarrow> Inl ex
       | (Inr _, s1) \<Rightarrow>
           let s2 = revoke_tokens (u_id u) s1 in
           Inr (get_profile u', s2\<lparr>roleAudits := roleAudits s2 @ [role_audit_row e u dto actor]\<rparr>))))"

definition change_role :: "id_env \<Rightarrow> uuid \<Rightarrow> change_role_dto \<Rightarrow> user \<Rightarrow> user_profile handler" where
  "change_role e i dto actor s = transaction s (change_role_body e i dto actor s)"

text \<open>The audits of a user, latest first, at most 100.\<close>

definition role_audits_of :: "(role_audit list \<Rightarrow> role_audit list) \<Rightarrow> uuid \<Rightarrow> identity \<Rightarrow> role_audit list" where
  "role_audits_of newest i s = take 100 (newest (filter (\<lambda>a. ra_userId a = i) (roleAudits s)))"

section \<open>The own account\<close>

definition update_profile :: "user \<Rightarrow> string \<Rightarrow> string option \<Rightarrow> user_profile handler" where
  "update_profile u fullName dateOfBirth =
     (let named = u\<lparr>u_fullName := fullName\<rparr>;
          u' = (case truthy dateOfBirth of None \<Rightarrow> named | Some d \<Rightarrow> named\<lparr>u_dateOfBirth := Some d\<rparr>) in
      thenH (save_user u') (\<lambda>_. returnH (get_profile u')))"

definition update_avatar :: "user \<Rightarrow> string \<Rightarrow> user_profile handler" where
  "update_avatar u avatarUrl =
     (let u' = u\<lparr>u_avatarUrl := Some avatarUrl\<rparr> in
      thenH (save_user u') (\<lambda>_. returnH (get_profile u')))"

definition change_password ::
  "id_env \<Rightarrow> user \<Rightarrow> change_password_dto \<Rightarrow> uuid \<Rightarrow> nat \<Rightarrow> string handler" where
  "change_password e u dto jti exp =
     thenH (checkH (\<lambda>_. ia_compare e (cp_currentPassword dto) (u_passwordHash u))
              (BadRequest ''Current password is incorrect'')) (\<lambda>_.
     thenH (checkH (\<lambda>_. cp_newPassword dto = cp_confirmPassword dto)
              (BadRequest ''New password and confirmation do not match'')) (\<lambda>_.
     thenH (save_user (u\<lparr>u_passwordHash := ia_hash e (cp_newPassword dto),
                         u_passwordChangedAt := Some (ia_now e)\<rparr>)) (\<lambda>_.
     thenH (writeH (revoke_tokens (u_id u))) (\<lambda>_.
     thenH (blacklist_token e jti exp) (\<lambda>_.
     returnH ''Password changed successfully. Please login again.'')))))"

definition change_email_key :: "uuid \<Rightarrow> string \<Rightarrow> string" where
  "change_email_key i email = ''change-email:'' @ i @ '':'' @ email"

definition request_change_email :: "id_env \<Rightarrow> user \<Rightarrow> string \<Rightarrow> string handler" where
  "request_change_email e u newEmail =
     thenH (checkH (\<lambda>s. find_user_by_email newEmail s = None) (Conflict ''Email already in use'')) (\<lambda>_.
     thenH (create_otp e (change_email_key (u_id u) newEmail) 300) (\<lambda>otp.
     thenH (send_otp e newEmail otp ''Xac thuc thay doi email'') (\<lambda>_.
     returnH ''OTP sent to new email address'')))"

definition confirm_change_email :: "id_env \<Rightarrow> user \<Rightarrow> string \<Rightarrow> string \<Rightarrow> string handler" where
  "confirm_change_email e u newEmail otp =
     thenH (checkH (\<lambda>s. find_user_by_email newEmail s = None) (Conflict ''Email already in use'')) (\<lambda>_.
     thenH (verify_otp e (change_email_key (u_id u) newEmail) otp) (\<lambda>valid.
     thenH (checkH (\<lambda>_. valid) (BadRequest ''Invalid or expired OTP'')) (\<lambda>_.
     thenH (save_user (u\<lparr>u_email := newEmail\<rparr>)) (\<lambda>_.
     returnH ''Email updated successfully''))))"

definition update_privacy :: "user \<Rightarrow> privacy \<Rightarrow> string handler" where
  "update_privacy u p =
     thenH (save_user (u\<lparr>u_privacy := p\<rparr>)) (\<lambda>_. returnH ''Privacy settings updated'')"

definition delete_account :: "id_env \<Rightarrow> user \<Rightarrow> string \<Rightarrow> uuid \<Rightarrow> nat \<Rightarrow> string handler" where
  "delete_account e u password jti exp =
     thenH (checkH (\<lambda>_. ia_compare e password (u_passwordHash u)) (Unauthorized ''Incorrect password'')) (\<lambda>_.
     thenH (writeH (revoke_tokens (u_id u))) (\<lambda>_.
     thenH (blacklist_token e jti exp) (\<lambda>_.
     thenH (writeH (soft_delete_user (ia_now e) (u_id u))) (\<lambda>_.
     returnH ''Account deleted successfully''))))"

section \<open>What other services ask\<close>

record display_row =
  dr_id :: uuid
  dr_username :: "string option"
  dr_fullName :: string
  dr_avatarUrl :: "string option"
  dr_role :: role

definition display_many :: "uuid list \<Rightarrow> identity \<Rightarrow> display_row list" where
  "display_many ids s =
     map (\<lambda>u. \<lparr>dr_id = u_id u, dr_username = u_username u, dr_fullName = u_fullName u,
               dr_avatarUrl = u_avatarUrl u, dr_role = u_role u\<rparr>)
       (filter (\<lambda>u. u_id u \<in> set ids \<and> u_live u) (users s))"

definition resolve_usernames :: "string list \<Rightarrow> identity \<Rightarrow> (uuid \<times> string option) list" where
  "resolve_usernames names s =
     map (\<lambda>u. (u_id u, u_username u))
       (filter (\<lambda>u. u_username u \<in> set (map Some names) \<and> u_live u) (users s))"

definition display_name :: "uuid \<Rightarrow> identity \<Rightarrow> exn + string option" where
  "display_name i s =
     bindE (someE (find_user i s) (NotFound ''User not found'')) (\<lambda>u.
     Inr (if u_fullName u \<noteq> '''' then Some (u_fullName u) else u_username u))"

end
