(* ===== verification/Identity_Api.thy ===== *)
theory Identity_Api
  imports Users Machines
begin

text \<open>
  The routes of the identity service (\<open>auth.controller.ts\<close>, \<open>users.controller.ts\<close>,
  \<open>admin-users.controller.ts\<close>, \<open>internal-users.controller.ts\<close>) with the validation of their requests
  (\<open>auth/dto\<close>, \<open>users/dto\<close>), and the service as a state machine. A request passes the guard of the
  gateway's token, the guard of the access token where the route has one, the pipes, and the handler.
\<close>

section \<open>Validation\<close>

text \<open>
  The checks of \<open>class-validator\<close> for e-mail addresses, dates, uuids and URLs of an allowed host, and the
  bearer token of a request as Passport extracts it.
\<close>

record validators =
  va_email :: "string \<Rightarrow> bool"
  va_date :: "string \<Rightarrow> bool"
  va_uuid :: "string \<Rightarrow> bool"
  va_avatarUrl :: "string list \<Rightarrow> string \<Rightarrow> bool"
  va_bearer :: "(string \<Rightarrow> string option) \<Rightarrow> string option"

definition allowed_avatar_hosts :: "string list" where
  "allowed_avatar_hosts = [''res.cloudinary.com'', ''storage.googleapis.com'', ''localhost'', ''127.0.0.1'']"

text \<open>\<open>value.replace(/<[^>]*>/g, '')\<close>: an opening bracket and everything up to the next closing one.\<close>

function strip_tags :: "string \<Rightarrow> string" where
  "strip_tags [] = []"
| "strip_tags (c # cs) =
     (if c = CHR ''<'' \<and> CHR ''>'' \<in> set cs
      then strip_tags (tl (dropWhile (\<lambda>x. x \<noteq> CHR ''>'') cs))
      else c # strip_tags cs)"
  by pat_completeness auto

termination
proof (relation "measure length")
  fix c :: char and cs :: string
  have "length (tl (dropWhile (\<lambda>x. x \<noteq> CHR ''>'') cs)) \<le> length cs"
    using length_dropWhile_le [of "\<lambda>x. x \<noteq> CHR ''>''" cs] by simp
  then show "(tl (dropWhile (\<lambda>x. x \<noteq> CHR ''>'') cs), c # cs) \<in> measure length" by simp
qed simp_all

definition clean_name :: "string \<Rightarrow> string" where
  "clean_name t = trim (strip_tags t)"

definition lower_letter :: "char \<Rightarrow> bool" where
  "lower_letter c = (let n = (of_char c :: nat) in 97 \<le> n \<and> n \<le> 122)"

definition upper_letter :: "char \<Rightarrow> bool" where
  "upper_letter c = (let n = (of_char c :: nat) in 65 \<le> n \<and> n \<le> 90)"

text \<open>
  \<open>/^(?=.*[a-z])(?=.*[A-Z])(?=.*\d)/\<close> looks at the first line only, because a dot is no line break.
\<close>

definition strong_password :: "string \<Rightarrow> bool" where
  "strong_password pw =
     (let line = takeWhile (\<lambda>c. c \<noteq> CHR 0x0A \<and> c \<noteq> CHR 0x0D) pw in
      8 \<le> length pw \<and> list_ex lower_letter line \<and> list_ex upper_letter line \<and> list_ex is_digit line)"

definition valid_username :: "string \<Rightarrow> bool" where
  "valid_username t =
     (5 \<le> length t \<and> length t \<le> 20 \<and>
      list_all (\<lambda>c. lower_letter c \<or> is_digit c \<or> c = CHR ''_'') t)"

definition valid_full_name :: "string \<Rightarrow> bool" where
  "valid_full_name t = (t \<noteq> '''' \<and> length t \<le> 100)"

definition valid_birth :: "validators \<Rightarrow> string option \<Rightarrow> bool" where
  "valid_birth v d = (case d of None \<Rightarrow> True | Some t \<Rightarrow> va_date v t)"

definition valid_otp :: "string \<Rightarrow> bool" where
  "valid_otp t = (length t = 6)"

definition transform_register :: "register_dto \<Rightarrow> register_dto" where
  "transform_register dto = dto\<lparr>rg_fullName := clean_name (rg_fullName dto)\<rparr>"

definition valid_register :: "validators \<Rightarrow> register_dto \<Rightarrow> bool" where
  "valid_register v dto =
     (valid_full_name (rg_fullName dto) \<and> valid_birth v (rg_dateOfBirth dto) \<and>
      va_email v (rg_email dto) \<and> strong_password (rg_password dto))"

definition valid_verify_otp :: "validators \<Rightarrow> verify_otp_dto \<Rightarrow> bool" where
  "valid_verify_otp v dto =
     (va_email v (vo_email dto) \<and> valid_otp (vo_otp dto) \<and> valid_username (vo_username dto))"

definition valid_login :: "login_dto \<Rightarrow> bool" where
  "valid_login dto = (lg_identifier dto \<noteq> '''' \<and> lg_password dto \<noteq> '''')"

definition valid_reset_password :: "validators \<Rightarrow> reset_password_dto \<Rightarrow> bool" where
  "valid_reset_password v dto =
     (va_email v (rp_email dto) \<and> valid_otp (rp_otp dto) \<and> strong_password (rp_newPassword dto))"

definition valid_change_password :: "change_password_dto \<Rightarrow> bool" where
  "valid_change_password dto =
     (cp_currentPassword dto \<noteq> '''' \<and> strong_password (cp_newPassword dto) \<and> cp_confirmPassword dto \<noteq> '''')"

definition valid_change_role :: "change_role_dto \<Rightarrow> bool" where
  "valid_change_role dto = (5 \<le> length (cl_reason dto) \<and> length (cl_reason dto) \<le> 500)"

definition valid_admin_list :: "admin_user_list_dto \<Rightarrow> bool" where
  "valid_admin_list q = (1 \<le> al_page q \<and> 1 \<le> al_limit q \<and> al_limit q \<le> 100)"

definition valid_display_users :: "validators \<Rightarrow> uuid list \<Rightarrow> bool" where
  "valid_display_users v ids = (length ids \<le> 100 \<and> distinct ids \<and> list_all (va_uuid v) ids)"

definition valid_resolve_usernames :: "string list \<Rightarrow> bool" where
  "valid_resolve_usernames names =
     (length names \<le> 20 \<and> distinct names \<and>
      list_all (\<lambda>t. 3 \<le> length t \<and> length t \<le> 20 \<and>
        list_all (\<lambda>c. lower_letter c \<or> upper_letter c \<or> is_digit c \<or> c = CHR ''_'') t) names)"

section \<open>Routes\<close>

definition pipeH :: "bool \<Rightarrow> 'a handler \<Rightarrow> 'a handler" where
  "pipeH ok m = thenH (checkH (\<lambda>_. ok) (BadRequest ''Validation failed'')) (\<lambda>_. m)"

definition with_session :: "id_env \<Rightarrow> string option \<Rightarrow> (session \<Rightarrow> 'a handler) \<Rightarrow> 'a handler" where
  "with_session e bearer f = thenH (askH (jwt_session e bearer)) f"

datatype auth_call =
    PostRegister register_dto
  | PostVerifyOtp verify_otp_dto
  | PostResendOtp string
  | PostLogin login_dto
  | PostRefresh string
  | PostLogout
  | PostForgotPassword string
  | PostResetPassword reset_password_dto

datatype auth_reply = Told string | Tokens token_pair

definition replyH :: "('a \<Rightarrow> 'b) \<Rightarrow> 'a handler \<Rightarrow> 'b handler" where
  "replyH f m = thenH m (\<lambda>x. returnH (f x))"

definition auth_controller :: "id_env \<Rightarrow> validators \<Rightarrow> string option \<Rightarrow> auth_call \<Rightarrow> auth_reply handler" where
  "auth_controller e v bearer call =
     (case call of
        PostRegister raw \<Rightarrow>
          let dto = transform_register raw in
          pipeH (valid_register v dto) (replyH Told (register e dto))
      | PostVerifyOtp dto \<Rightarrow> pipeH (valid_verify_otp v dto) (replyH Told (verify_register_otp e dto))
      | PostResendOtp email \<Rightarrow> pipeH (va_email v email) (replyH Told (resend_otp e email))
      | PostLogin dto \<Rightarrow> pipeH (valid_login dto) (replyH Tokens (login e dto))
      | PostRefresh raw \<Rightarrow> pipeH (raw \<noteq> '''') (replyH Tokens (refresh_tokens e raw))
      | PostLogout \<Rightarrow>
          with_session e bearer (\<lambda>x.
            replyH Told (logout e (u_id (ss_user x)) (ss_jti x) (ss_exp x)))
      | PostForgotPassword email \<Rightarrow> pipeH (va_email v email) (replyH Told (forgot_password e email))
      | PostResetPassword dto \<Rightarrow>
          pipeH (valid_reset_password v dto) (replyH Told (reset_password e dto)))"

datatype me_call =
    GetMe
  | PatchProfile string "string option"
  | PatchAvatar string
  | PatchPassword change_password_dto
  | PostChangeEmail string
  | PostConfirmEmail string string
  | PatchPrivacy privacy
  | DeleteMe string

datatype me_reply = Me user_profile | MeTold string

definition users_controller :: "id_env \<Rightarrow> validators \<Rightarrow> string option \<Rightarrow> me_call \<Rightarrow> me_reply handler" where
  "users_controller e v bearer call =
     with_session e bearer (\<lambda>x. let u = ss_user x in
       case call of
         GetMe \<Rightarrow> returnH (Me (get_profile u))
       | PatchProfile name birth \<Rightarrow>
           pipeH (valid_full_name (clean_name name) \<and> valid_birth v birth)
             (replyH Me (update_profile u (clean_name name) birth))
       | PatchAvatar url \<Rightarrow> pipeH (va_avatarUrl v allowed_avatar_hosts url) (replyH Me (update_avatar u url))
       | PatchPassword dto \<Rightarrow>
           pipeH (valid_change_password dto)
             (replyH MeTold (change_password e u dto (ss_jti x) (ss_exp x)))
       | PostChangeEmail email \<Rightarrow> pipeH (va_email v email) (replyH MeTold (request_change_email e u email))
       | PostConfirmEmail email otp \<Rightarrow>
           pipeH (va_email v email \<and> valid_otp otp) (replyH MeTold (confirm_change_email e u email otp))
       | PatchPrivacy p \<Rightarrow> replyH MeTold (update_privacy u p)
       | DeleteMe password \<Rightarrow>
           pipeH (password \<noteq> '''') (replyH MeTold (delete_account e u password (ss_jti x) (ss_exp x))))"

datatype admin_call =
    GetUsers admin_user_list_dto
  | PatchRole uuid change_role_dto
  | GetRoleAudits uuid

datatype admin_reply = UserPage user_page | ChangedUser user_profile | Audits "role_audit list"

definition require_admin :: "user \<Rightarrow> unit handler" where
  "require_admin u = checkH (\<lambda>_. u_role u = AdminRole) (Forbidden ''Admin role required'')"

definition admin_users_controller ::
  "id_env \<Rightarrow> validators \<Rightarrow> (string \<Rightarrow> string \<Rightarrow> bool) \<Rightarrow> (user list \<Rightarrow> user list) \<Rightarrow>
   (role_audit list \<Rightarrow> role_audit list) \<Rightarrow> string option \<Rightarrow> admin_call \<Rightarrow> admin_reply handler" where
  "admin_users_controller e v ilike newest newestAudit bearer call =
     with_session e bearer (\<lambda>x. let u = ss_user x in
       case call of
         GetUsers q \<Rightarrow>
           pipeH (valid_admin_list q)
             (thenH (require_admin u) (\<lambda>_. askH (\<lambda>s. Inr (UserPage (admin_list ilike newest q s)))))
       | PatchRole i dto \<Rightarrow>
           pipeH (va_uuid v i \<and> valid_change_role dto)
             (thenH (require_admin u) (\<lambda>_. replyH ChangedUser (change_role e i dto u)))
       | GetRoleAudits i \<Rightarrow>
           pipeH (va_uuid v i)
             (thenH (require_admin u) (\<lambda>_. askH (\<lambda>s. Inr (Audits (role_audits_of newestAudit i s))))))"

datatype internal_call = PostDisplay "uuid list" | PostResolve "string list" | GetDisplay uuid

datatype internal_reply =
    DisplayRows "display_row list"
  | ResolvedNames "(uuid \<times> string option) list"
  | DisplayName "string option"

definition internal_users_controller :: "validators \<Rightarrow> internal_call \<Rightarrow> internal_reply handler" where
  "internal_users_controller v call =
     (case call of
        PostDisplay ids \<Rightarrow> pipeH (valid_display_users v ids) (askH (\<lambda>s. Inr (DisplayRows (display_many ids s))))
      | PostResolve names \<Rightarrow>
          pipeH (valid_resolve_usernames names) (askH (\<lambda>s. Inr (ResolvedNames (resolve_usernames names s))))
      | GetDisplay i \<Rightarrow>
          pipeH (va_uuid v i) (askH (\<lambda>s. bindE (display_name i s) (\<lambda>n. Inr (DisplayName n)))))"

section \<open>The service\<close>

datatype id_call =
    AuthCall auth_call
  | MeCall me_call
  | AdminCall admin_call
  | InternalCall internal_call

datatype id_reply =
    AuthReply auth_reply
  | MeReply me_reply
  | AdminReply admin_reply
  | InternalReply internal_reply

text \<open>What the database and the library decide, beside the surroundings of the request.\<close>

record id_world =
  iw_expected :: string
  iw_validators :: validators
  iw_ilike :: "string \<Rightarrow> string \<Rightarrow> bool"
  iw_newest :: "user list \<Rightarrow> user list"
  iw_newestAudit :: "role_audit list \<Rightarrow> role_audit list"

definition identity_request ::
  "id_env \<Rightarrow> id_world \<Rightarrow> (string \<Rightarrow> string option) \<Rightarrow> id_call \<Rightarrow> id_reply handler" where
  "identity_request e w h call =
     thenH (askH (\<lambda>_. gateway_token_guard (iw_expected w) (h ''x-internal-token''))) (\<lambda>_.
     let v = iw_validators w; bearer = va_bearer v h in
     case call of
       AuthCall c \<Rightarrow> replyH AuthReply (auth_controller e v bearer c)
     | MeCall c \<Rightarrow> replyH MeReply (users_controller e v bearer c)
     | AdminCall c \<Rightarrow>
         replyH AdminReply (admin_users_controller e v (iw_ilike w) (iw_newest w) (iw_newestAudit w) bearer c)
     | InternalCall c \<Rightarrow> replyH InternalReply (internal_users_controller v c))"

text \<open>
  The service starts on a database with the accounts that were put there by hand (the seed scripts insert
  verified accounts, among them the first administrator; there is no route for that), without tokens.
\<close>

definition seeded_accounts :: "user list \<Rightarrow> bool" where
  "seeded_accounts us =
     (distinct (map u_id us) \<and> distinct (map u_email us) \<and> distinct (map u_username us) \<and>
      list_all (\<lambda>u. u_isVerified u \<and> u_username u \<noteq> None \<and> u_live u) us)"

definition installed :: "identity \<Rightarrow> bool" where
  "installed s \<longleftrightarrow>
     (\<exists>us. seeded_accounts us \<and>
       s = \<lparr>users = us, refreshTokens = [], roleAudits = [], redis = (\<lambda>_. None), mails = []\<rparr>)"

text \<open>One step: a request, or a restart of the service.\<close>

inductive identity_step :: "identity \<Rightarrow> identity \<Rightarrow> bool" where
  request: "identity_step s (snd (identity_request e w h call s))"
| restart: "identity_step s (clear_unverified_names s)"

abbreviation id_reachable :: "identity \<Rightarrow> bool" where
  "id_reachable s \<equiv> reach installed identity_step s"

end
