(* ===== verification/Identity_Inv.thy ===== *)
theory Identity_Inv
  imports Identity_Api
begin

text \<open>
  The invariant of the accounts and their tokens, and a small logic of handlers in which it is proved: a
  triple says that a handler keeps the invariant from states with a precondition, and what holds of its
  result. Redis and the mails do not matter to it.
\<close>

section \<open>Triples\<close>

type_synonym assertion = "user list \<Rightarrow> refresh_token list \<Rightarrow> bool"

definition quiet :: "'a handler \<Rightarrow> bool" where
  "quiet m \<longleftrightarrow> (\<forall>s. users (snd (m s)) = users s \<and> refreshTokens (snd (m s)) = refreshTokens s)"

locale handler_logic =
  fixes I :: assertion
begin

definition triple :: "assertion \<Rightarrow> 'a handler \<Rightarrow> ('a \<Rightarrow> assertion) \<Rightarrow> bool" where
  "triple P m Q \<longleftrightarrow>
     (\<forall>s. I (users s) (refreshTokens s) \<longrightarrow> P (users s) (refreshTokens s) \<longrightarrow>
        I (users (snd (m s))) (refreshTokens (snd (m s))) \<and>
        (\<forall>x. fst (m s) = Inr x \<longrightarrow> Q x (users (snd (m s))) (refreshTokens (snd (m s)))))"

lemma tripleI:
  assumes "\<And>s. I (users s) (refreshTokens s) \<Longrightarrow> P (users s) (refreshTokens s) \<Longrightarrow>
    I (users (snd (m s))) (refreshTokens (snd (m s))) \<and>
    (\<forall>x. fst (m s) = Inr x \<longrightarrow> Q x (users (snd (m s))) (refreshTokens (snd (m s))))"
  shows "triple P m Q"
  using assms by (simp add: triple_def)

lemma triple_then: "triple P m Q \<Longrightarrow> (\<And>x. triple (Q x) (f x) R) \<Longrightarrow> triple P (thenH m f) R"
  unfolding triple_def thenH_def
  by (clarsimp split: prod.splits sum.splits) (metis fst_conv snd_conv sum.distinct(1))

lemma triple_quiet: "quiet m \<Longrightarrow> triple P m (\<lambda>_. P)"
  by (simp add: triple_def quiet_def)

lemma triple_weaken: "triple P m Q \<Longrightarrow> (\<And>us ts. P' us ts \<Longrightarrow> P us ts) \<Longrightarrow> triple P' m Q"
  by (simp add: triple_def)

lemma triple_True: "triple P m Q \<Longrightarrow> triple P m (\<lambda>_ _ _. True)"
  by (simp add: triple_def)

lemma triple_return: "triple P (returnH x) (\<lambda>_ _ _. True)"
  by (simp add: triple_def returnH_def)

lemma triple_throw: "triple P (throwH ex) Q"
  by (simp add: triple_def throwH_def)

lemma triple_check: "triple P (checkH (\<lambda>_. b) ex) (\<lambda>_ us ts. P us ts \<and> b)"
  by (simp add: triple_def checkH_def askH_def guardE_def)

lemma triple_fetch:
  assumes "\<And>s. q s = q' (users s) (refreshTokens s)"
  shows "triple P (fetchH q ex) (\<lambda>x us ts. P us ts \<and> q' us ts = Some x)"
  by (auto simp: triple_def fetchH_def askH_def assms someE_def split: option.splits)

lemma triple_write:
  assumes "\<And>s. I (users s) (refreshTokens s) \<Longrightarrow> P (users s) (refreshTokens s) \<Longrightarrow>
    I (users (f s)) (refreshTokens (f s)) \<and> Q (users (f s)) (refreshTokens (f s))"
  shows "triple P (writeH f) (\<lambda>_. Q)"
  using assms by (simp add: triple_def writeH_def)

lemma triple_save:
  assumes "\<And>us ts. I us ts \<Longrightarrow> P us ts \<Longrightarrow> \<not> users_clash u us \<Longrightarrow>
    I (put u_id u us) ts \<and> Q (put u_id u us) ts"
  shows "triple P (save_user u) (\<lambda>_. Q)"
  using assms by (simp add: triple_def save_user_def)

lemma triple_insert:
  assumes "\<And>us ts. I us ts \<Longrightarrow> P us ts \<Longrightarrow> \<not> users_clash u us \<Longrightarrow> \<forall>x \<in> set us. u_id x \<noteq> u_id u \<Longrightarrow>
    I (us @ [u]) ts"
  shows "triple P (insert_user u) (\<lambda>_ _ _. True)"
  using assms by (auto simp: triple_def insert_user_def exists_where_iff)

lemma triple_insert_token:
  assumes "\<And>us ts. I us ts \<Longrightarrow> P us ts \<Longrightarrow> \<forall>x \<in> set ts. rt_tokenHash x \<noteq> rt_tokenHash t \<Longrightarrow>
    I us (ts @ [t])"
  shows "triple P (insert_token t) (\<lambda>_ _ _. True)"
  using assms by (auto simp: triple_def insert_token_def exists_where_iff)

lemma triple_keeps: "triple (\<lambda>_ _. True) m Q \<Longrightarrow> I (users s) (refreshTokens s) \<Longrightarrow>
    I (users (snd (m s))) (refreshTokens (snd (m s)))"
  by (simp add: triple_def)

end

lemma quiet_simple [simp]:
  "quiet (returnH x)" "quiet (throwH ex)" "quiet (askH q)" "quiet (pipelineH g)" "quiet (checkH p ex)"
  "quiet (fetchH r ex)"
  by (simp_all add: quiet_def handlers checkH_def fetchH_def)

lemma quiet_then [intro]: "quiet m \<Longrightarrow> (\<And>x. quiet (f x)) \<Longrightarrow> quiet (thenH m f)"
  unfolding quiet_def thenH_def by (clarsimp split: prod.splits sum.splits) (metis snd_conv)

lemma quiet_otp [simp]:
  "quiet (create_otp e key ttl)" "quiet (verify_otp e key otp)" "quiet (send_otp e to code subject)"
  "quiet (blacklist_token e jti exp)"
  by (auto simp: create_otp_def blacklist_token_def)
    (auto simp: quiet_def verify_otp_def send_otp_def split: prod.splits)

section \<open>The invariant\<close>

text \<open>
  Ids, addresses and names of accounts are unique, deleted ones included; exactly the verified accounts
  have a name; a refresh token that is not revoked belongs to a verified account that is not deleted.
\<close>

definition holds_token :: "user list \<Rightarrow> refresh_token \<Rightarrow> bool" where
  "holds_token us t \<longleftrightarrow>
     (\<exists>u \<in> set us. u_id u = rt_userId t \<and> u_isVerified u \<and> u_live u)"

definition accounts_ok :: assertion where
  "accounts_ok us ts \<longleftrightarrow>
     distinct (map u_id us) \<and> distinct (map u_email us) \<and>
     (\<forall>x \<in> set us. \<forall>y \<in> set us. u_username x \<noteq> None \<longrightarrow> u_username x = u_username y \<longrightarrow> u_id x = u_id y) \<and>
     (\<forall>u \<in> set us. u_isVerified u \<longleftrightarrow> u_username u \<noteq> None) \<and>
     distinct (map rt_tokenHash ts) \<and>
     (\<forall>t \<in> set ts. rt_revoked t \<or> holds_token us t)"

interpretation accounts: handler_logic accounts_ok .

text \<open>Writing a row back: its address and name do not clash, and it stays what its tokens need.\<close>

lemma accounts_ok_put:
  assumes ok: "accounts_ok us ts" and old: "u \<in> set us" "u_id u' = u_id u"
    and no_clash: "\<not> users_clash u' us" and named: "u_isVerified u' \<longleftrightarrow> u_username u' \<noteq> None"
    and keeps: "u_isVerified u \<and> u_live u \<Longrightarrow> u_isVerified u' \<and> u_live u'"
  shows "accounts_ok (put u_id u' us) ts"
proof -
  have set: "set (put u_id u' us) = insert u' {x \<in> set us. u_id x \<noteq> u_id u'}"
    by (rule set_put [OF old(1)]) (simp add: old(2))
  have same: "x = u" if "x \<in> set us" "u_id x = u_id u" for x
    using ok that old(1) by (auto simp: accounts_ok_def distinct_map dest: inj_onD)
  have others: "u_email x \<noteq> u_email u'" "u_username u' \<noteq> None \<Longrightarrow> u_username x \<noteq> u_username u'"
    if "x \<in> set us" "u_id x \<noteq> u_id u'" for x
    using no_clash that by (auto simp: users_clash_def exists_where_iff)
  have "distinct (map u_email (put u_id u' us))"
  proof -
    have "inj_on u_email (set us)" "distinct us" "inj_on u_id (set us)"
      using ok by (auto simp: accounts_ok_def distinct_map)
    moreover have "distinct (put u_id u' us)"
      using ok put_keys [of u_id u' us] by (metis accounts_ok_def distinct_map)
    ultimately show ?thesis
      using others(1) unfolding distinct_map set by (auto simp: inj_on_def) metis
  qed
  moreover have "holds_token (put u_id u' us) t" if "t \<in> set ts" "\<not> rt_revoked t" for t
  proof -
    have "holds_token us t" using ok that by (auto simp: accounts_ok_def)
    then obtain x where x: "x \<in> set us" "u_id x = rt_userId t" "u_isVerified x" "u_live x"
      by (auto simp: holds_token_def)
    show ?thesis
    proof (cases "u_id x = u_id u")
      case True
      then show ?thesis using keeps same [OF x(1)] x old(2) by (auto simp: holds_token_def set)
    next
      case False
      then show ?thesis using x old(2) by (auto simp: holds_token_def set)
    qed
  qed
  moreover have "map u_id (put u_id u' us) = map u_id us" by (simp add: put_keys)
  moreover have "u_id x = u_id y"
    if "x \<in> set (put u_id u' us)" "y \<in> set (put u_id u' us)" "u_username x \<noteq> None" "u_username x = u_username y"
    for x y
  proof -
    have "u_id x = u_id y" if "x \<in> set us" "y \<in> set us"
      using ok that \<open>u_username x \<noteq> None\<close> \<open>u_username x = u_username y\<close> unfolding accounts_ok_def by blast
    then show ?thesis using that others(2) unfolding set by (metis (mono_tags, lifting) insertE mem_Collect_eq)
  qed
  moreover have "u_isVerified x \<longleftrightarrow> u_username x \<noteq> None" if "x \<in> set (put u_id u' us)" for x
    using that ok named unfolding set accounts_ok_def by blast
  ultimately show ?thesis using ok unfolding accounts_ok_def by metis
qed

section \<open>Changes that keep it\<close>

text \<open>Rows that agree in what the invariant looks at, and tokens of which more are revoked.\<close>

definition account_core :: "user \<Rightarrow> uuid \<times> string \<times> string option \<times> bool \<times> bool" where
  "account_core u = (u_id u, u_email u, u_username u, u_isVerified u, u_live u)"

lemma accounts_ok_core:
  assumes "map account_core us' = map account_core us"
  shows "accounts_ok us' ts = accounts_ok us ts"
proof -
  have lists: "map u_id us' = map u_id us" "map u_email us' = map u_email us"
  proof -
    have "map (fst \<circ> account_core) us' = map (fst \<circ> account_core) us"
      "map (fst \<circ> snd \<circ> account_core) us' = map (fst \<circ> snd \<circ> account_core) us"
      using assms by (metis map_map)+
    then show "map u_id us' = map u_id us" "map u_email us' = map u_email us"
      by (simp_all add: account_core_def comp_def)
  qed
  have sets: "account_core ` set us' = account_core ` set us" using assms by (metis list.set_map)
  have all: "(\<forall>u \<in> set us'. P (account_core u)) \<longleftrightarrow> (\<forall>u \<in> set us. P (account_core u))" for P
    using sets by (metis (no_types, lifting) image_iff)
  have ex: "(\<exists>u \<in> set us'. P (account_core u)) \<longleftrightarrow> (\<exists>u \<in> set us. P (account_core u))" for P
    using all [of "\<lambda>x. \<not> P x"] by blast
  have tokens: "holds_token us' t = holds_token us t" for t
    using ex [of "\<lambda>(i, _, _, v, l). i = rt_userId t \<and> v \<and> l"] by (simp add: holds_token_def account_core_def)
  have verified: "(\<forall>u \<in> set us'. u_isVerified u \<longleftrightarrow> u_username u \<noteq> None) \<longleftrightarrow>
      (\<forall>u \<in> set us. u_isVerified u \<longleftrightarrow> u_username u \<noteq> None)"
    using all [of "\<lambda>(_, _, n, v, _). v \<longleftrightarrow> n \<noteq> None"] by (simp add: account_core_def)
  have names: "(\<forall>x \<in> set us'. \<forall>y \<in> set us'. u_username x \<noteq> None \<longrightarrow> u_username x = u_username y \<longrightarrow> u_id x = u_id y) \<longleftrightarrow>
      (\<forall>x \<in> set us. \<forall>y \<in> set us. u_username x \<noteq> None \<longrightarrow> u_username x = u_username y \<longrightarrow> u_id x = u_id y)"
    using all [of "\<lambda>(i, _, n, _, _). \<forall>y \<in> set us. n \<noteq> None \<longrightarrow> n = u_username y \<longrightarrow> i = u_id y"]
      all [of "\<lambda>(i, _, n, _, _). \<forall>x \<in> set us'. u_username x \<noteq> None \<longrightarrow> u_username x = n \<longrightarrow> u_id x = i"]
    by (simp add: account_core_def) blast
  show ?thesis unfolding accounts_ok_def lists tokens verified names ..
qed

lemma accounts_ok_update:
  assumes "\<And>u. u \<in> set us \<Longrightarrow> P u \<Longrightarrow> account_core (f u) = account_core u"
  shows "accounts_ok (update_where P f us) ts = accounts_ok us ts"
  by (rule accounts_ok_core) (simp add: update_where_def assms)

lemma accounts_ok_revoked:
  assumes "accounts_ok us ts" "map rt_tokenHash ts' = map rt_tokenHash ts"
    and "\<And>t. t \<in> set ts' \<Longrightarrow> \<not> rt_revoked t \<Longrightarrow> t \<in> set ts"
  shows "accounts_ok us ts'"
  using assms unfolding accounts_ok_def by metis

lemma revoked_update:
  "t \<in> set (update_where P (\<lambda>t. t\<lparr>rt_revoked := True\<rparr>) ts) \<Longrightarrow> \<not> rt_revoked t \<Longrightarrow> t \<in> set ts \<and> \<not> P t"
  by (auto simp: set_update_where split: if_splits)

lemma accounts_ok_revoke:
  assumes "accounts_ok us ts"
  shows "accounts_ok us (update_where P (\<lambda>t. t\<lparr>rt_revoked := True\<rparr>) ts)"
  by (rule accounts_ok_revoked [OF assms]) (auto simp: row_simps dest: revoked_update)

lemma accounts_ok_token:
  assumes "accounts_ok us ts" "\<forall>x \<in> set ts. rt_tokenHash x \<noteq> rt_tokenHash t" "holds_token us t"
  shows "accounts_ok us (ts @ [t])"
  using assms by (auto simp: accounts_ok_def)

lemma accounts_ok_new:
  assumes "accounts_ok us ts" "\<forall>x \<in> set us. u_id x \<noteq> u_id u" "\<not> users_clash u us"
    "u_username u = None" "\<not> u_isVerified u"
  shows "accounts_ok (us @ [u]) ts"
proof -
  have fresh: "u_email u \<notin> u_email ` set us" "u_id u \<notin> u_id ` set us"
    using assms(2,3) by (auto simp: users_clash_def exists_where_iff)
  have "holds_token (us @ [u]) t" if "holds_token us t" for t
    using that by (auto simp: holds_token_def)
  moreover have "\<forall>x \<in> set (us @ [u]). \<forall>y \<in> set (us @ [u]).
      u_username x \<noteq> None \<longrightarrow> u_username x = u_username y \<longrightarrow> u_id x = u_id y"
  proof (intro ballI impI)
    fix x y
    assume *: "x \<in> set (us @ [u])" "y \<in> set (us @ [u])" "u_username x \<noteq> None" "u_username x = u_username y"
    then have "x \<in> set us" "y \<in> set us" using assms(4) by auto
    then show "u_id x = u_id y" using assms(1) *(3,4) unfolding accounts_ok_def by blast
  qed
  moreover have "\<forall>x \<in> set (us @ [u]). u_isVerified x \<longleftrightarrow> u_username x \<noteq> None"
    using assms(1,4,5) by (auto simp: accounts_ok_def)
  moreover have "distinct (map u_id us)" "distinct (map u_email us)" "distinct (map rt_tokenHash ts)"
    "\<forall>t \<in> set ts. rt_revoked t \<or> holds_token us t"
    using assms(1) unfolding accounts_ok_def by blast+
  ultimately show ?thesis
    using fresh unfolding accounts_ok_def map_append distinct_append by auto
qed

lemma accounts_ok_deleted:
  assumes "accounts_ok us ts" "\<And>t. t \<in> set ts \<Longrightarrow> rt_userId t = i \<Longrightarrow> rt_revoked t"
  shows "accounts_ok (update_where (\<lambda>u. u_id u = i) (\<lambda>u. u\<lparr>u_deletedAt := Some x\<rparr>) us) ts"
proof -
  let ?f = "\<lambda>u. if u_id u = i then u\<lparr>u_deletedAt := Some x\<rparr> else u"
  have "holds_token (map ?f us) t" if "holds_token us t" "rt_userId t \<noteq> i" for t
    using that by (fastforce simp: holds_token_def)
  then have tokens: "\<forall>t \<in> set ts. rt_revoked t \<or> holds_token (map ?f us) t"
    using assms unfolding accounts_ok_def by blast
  have lists: "map u_id (map ?f us) = map u_id us" "map u_email (map ?f us) = map u_email us" by auto
  have same: "u_id (?f u) = u_id u" "u_username (?f u) = u_username u" "u_isVerified (?f u) = u_isVerified u" for u
    by simp_all
  have "(\<forall>x \<in> set (map ?f us). \<forall>y \<in> set (map ?f us).
      u_username x \<noteq> None \<longrightarrow> u_username x = u_username y \<longrightarrow> u_id x = u_id y)"
    using assms(1) unfolding accounts_ok_def set_map ball_simps same by blast
  moreover have "\<forall>u \<in> set (map ?f us). u_isVerified u \<longleftrightarrow> u_username u \<noteq> None"
    using assms(1) unfolding accounts_ok_def set_map ball_simps same by blast
  ultimately show ?thesis
    using assms(1) tokens unfolding accounts_ok_def update_where_def lists by blast
qed

section \<open>The handlers keep it\<close>

text \<open>The account that a handler found.\<close>

definition has_account :: "user \<Rightarrow> assertion" where
  "has_account u us ts \<longleftrightarrow> u \<in> set us \<and> u_live u"

lemma found_account:
  "find_by (\<lambda>u. P u \<and> u_live u) us = Some u \<Longrightarrow> has_account u us ts"
  by (auto simp: has_account_def dest: find_by_Some)

lemma save_account:
  assumes "\<And>us ts. P us ts \<Longrightarrow> has_account u us ts" "u_id u' = u_id u" "u_deletedAt u' = u_deletedAt u"
    and "\<And>us ts. accounts_ok us ts \<Longrightarrow> P us ts \<Longrightarrow>
      (u_isVerified u' \<longleftrightarrow> u_username u' \<noteq> None) \<and> (u_isVerified u \<longrightarrow> u_isVerified u')"
  shows "accounts.triple P (save_user u') (\<lambda>_ _ _. True)"
proof (rule accounts.triple_save)
  fix us ts
  assume *: "accounts_ok us ts" "P us ts" "\<not> users_clash u' us"
  have u: "u \<in> set us" "u_live u" using assms(1) [OF *(2)] by (auto simp: has_account_def)
  have "accounts_ok (put u_id u' us) ts"
    by (rule accounts_ok_put [OF *(1) u(1) assms(2) *(3)])
      (use assms(3) assms(4) [OF *(1,2)] u(2) in \<open>auto simp: u_live_def\<close>)
  then show "accounts_ok (put u_id u' us) ts \<and> True" by simp
qed

text \<open>A changed row that is still named as before.\<close>

lemma save_renamed:
  assumes "\<And>us ts. P us ts \<Longrightarrow> has_account u us ts" "u_id u' = u_id u" "u_deletedAt u' = u_deletedAt u"
    "u_isVerified u' = u_isVerified u" "u_username u' = u_username u"
  shows "accounts.triple P (save_user u') (\<lambda>_ _ _. True)"
proof (rule save_account [OF assms(1-3)])
  fix us ts
  assume "accounts_ok us ts" "P us ts"
  then show "(u_isVerified u' \<longleftrightarrow> u_username u' \<noteq> None) \<and> (u_isVerified u \<longrightarrow> u_isVerified u')"
    using assms(1) [of us ts] assms(4,5) by (auto simp: accounts_ok_def has_account_def)
qed

lemma triple_session:
  "accounts.triple P (askH (jwt_session e bearer)) (\<lambda>x us ts. P us ts \<and> has_account (ss_user x) us ts)"
proof (rule accounts.tripleI)
  fix s :: identity
  assume "accounts_ok (users s) (refreshTokens s)" "P (users s) (refreshTokens s)"
  then show "accounts_ok (users (snd (askH (jwt_session e bearer) s))) (refreshTokens (snd (askH (jwt_session e bearer) s))) \<and>
    (\<forall>x. fst (askH (jwt_session e bearer) s) = Inr x \<longrightarrow>
       P (users (snd (askH (jwt_session e bearer) s))) (refreshTokens (snd (askH (jwt_session e bearer) s))) \<and>
       has_account (ss_user x) (users (snd (askH (jwt_session e bearer) s)))
         (refreshTokens (snd (askH (jwt_session e bearer) s))))"
    by (auto simp: askH_def jwt_session_def validate_payload_def returns find_user_def intro: found_account)
qed

lemma triple_revoke:
  "accounts.triple P (writeH (revoke_tokens i)) (\<lambda>_ us ts. \<forall>t \<in> set ts. rt_userId t = i \<longrightarrow> rt_revoked t)"
  by (rule accounts.triple_write)
    (auto simp: revoke_tokens_def intro: accounts_ok_revoke dest: revoked_update)

lemma triple_revoke_active: "accounts.triple P (writeH (revoke_active_tokens i)) (\<lambda>_ _ _. True)"
  by (rule accounts.triple_write) (auto simp: revoke_active_tokens_def intro: accounts_ok_revoke)

lemma triple_silent: "quiet m \<Longrightarrow> accounts.triple P m (\<lambda>_ _ _. True)"
  by (rule accounts.triple_True) (rule accounts.triple_quiet)

lemmas triple_steps = accounts.triple_then accounts.triple_check accounts.triple_return accounts.triple_throw

lemma triple_generate:
  "accounts.triple (\<lambda>us ts. holds_token us (new_refresh_token e u)) (generate_tokens e u) (\<lambda>_ _ _. True)"
  unfolding generate_tokens_def
  by (rule accounts.triple_then [OF accounts.triple_insert_token accounts.triple_return])
    (rule accounts_ok_token)

lemma triple_register: "accounts.triple P (register e dto) (\<lambda>_ _ _. True)"
  unfolding register_def
  by (rule accounts.triple_then [OF accounts.triple_quiet [OF quiet_simple(5)]],
      rule accounts.triple_then [OF accounts.triple_insert], rule accounts_ok_new)
    (assumption | simp add: new_user_def | intro triple_silent quiet_then quiet_simple quiet_otp)+

lemma triple_found:
  "accounts.triple P (fetchH (find_user_by_email email) ex) (\<lambda>u us ts. has_account u us ts)"
proof (rule accounts.tripleI)
  fix s :: identity
  assume "accounts_ok (users s) (refreshTokens s)"
  then show "accounts_ok (users (snd (fetchH (find_user_by_email email) ex s)))
      (refreshTokens (snd (fetchH (find_user_by_email email) ex s))) \<and>
    (\<forall>x. fst (fetchH (find_user_by_email email) ex s) = Inr x \<longrightarrow>
       has_account x (users (snd (fetchH (find_user_by_email email) ex s)))
         (refreshTokens (snd (fetchH (find_user_by_email email) ex s))))"
    by (auto simp: fetchH_def askH_def returns find_user_by_email_def intro: found_account)
qed

lemma triple_verify_register: "accounts.triple P (verify_register_otp e dto) (\<lambda>_ _ _. True)"
  unfolding verify_register_otp_def
proof (rule accounts.triple_then [OF triple_found])
  fix u
  show "accounts.triple (has_account u)
    (thenH (checkH (\<lambda>_. \<not> u_isVerified u) (BadRequest ''Account already verified'')) (\<lambda>_.
     thenH (checkH (\<lambda>s. \<not> exists_where (\<lambda>x. u_username x = Some (vo_username dto)) (users s))
              (Conflict ''Username already taken'')) (\<lambda>_.
     thenH (verify_otp e (''register:'' @ vo_email dto) (vo_otp dto)) (\<lambda>valid.
     thenH (checkH (\<lambda>_. valid) (BadRequest ''Invalid or expired OTP'')) (\<lambda>_.
     thenH (save_user (u\<lparr>u_isVerified := True, u_username := Some (vo_username dto)\<rparr>)) (\<lambda>_.
     returnH ''Account verified successfully''))))))
    (\<lambda>_ _ _. True)"
    by (intro accounts.triple_then [OF accounts.triple_quiet] accounts.triple_then [OF save_account [where u = u]]
        accounts.triple_return) simp_all
qed

lemma triple_reset: "accounts.triple P (reset_password e dto) (\<lambda>_ _ _. True)"
  unfolding reset_password_def
proof (rule accounts.triple_then [OF triple_found])
  fix u
  show "accounts.triple (has_account u)
    (thenH (verify_otp e (''reset:'' @ rp_email dto) (rp_otp dto)) (\<lambda>valid.
     thenH (checkH (\<lambda>_. valid) (BadRequest ''Invalid or expired OTP'')) (\<lambda>_.
     thenH (save_user (u\<lparr>u_passwordHash := ia_hash e (rp_newPassword dto),
                         u_passwordChangedAt := Some (ia_now e)\<rparr>)) (\<lambda>_.
     thenH (writeH (revoke_tokens (u_id u))) (\<lambda>_.
     returnH ''Password reset successfully. Please login again.''))))) (\<lambda>_ _ _. True)"
    by (intro accounts.triple_then [OF accounts.triple_quiet] accounts.triple_then [OF save_renamed [where u = u]]
        accounts.triple_then [OF triple_revoke] accounts.triple_return) simp_all
qed

lemma triple_login: "accounts.triple P (login e dto) (\<lambda>_ _ _. True)"
  unfolding login_def
proof (rule accounts.triple_then)
  show "accounts.triple P (fetchH (find_login (lg_identifier dto)) (Unauthorized ''Invalid credentials''))
    (\<lambda>u us ts. has_account u us ts)"
  proof (rule accounts.tripleI)
    fix s :: identity
    assume "accounts_ok (users s) (refreshTokens s)"
    then show "accounts_ok (users (snd (fetchH (find_login (lg_identifier dto)) (Unauthorized ''Invalid credentials'') s)))
        (refreshTokens (snd (fetchH (find_login (lg_identifier dto)) (Unauthorized ''Invalid credentials'') s))) \<and>
      (\<forall>x. fst (fetchH (find_login (lg_identifier dto)) (Unauthorized ''Invalid credentials'') s) = Inr x \<longrightarrow>
         has_account x (users (snd (fetchH (find_login (lg_identifier dto)) (Unauthorized ''Invalid credentials'') s)))
           (refreshTokens (snd (fetchH (find_login (lg_identifier dto)) (Unauthorized ''Invalid credentials'') s))))"
      by (auto simp: fetchH_def askH_def returns find_login_def find_user_by_email_def find_user_by_username_def
          intro: found_account split: if_splits)
  qed
  fix u
  have core: "account_core (x\<lparr>u_lastLoginAt := y\<rparr>) = account_core x" for x y
    by (simp add: account_core_def u_live_def)
  have noted: "accounts.triple (\<lambda>us ts. has_account u us ts \<and> u_isVerified u) (writeH (note_login e (u_id u)))
      (\<lambda>_ us ts. holds_token us (new_refresh_token e u))"
  proof (rule accounts.triple_write, rule conjI)
    fix s :: identity
    assume *: "accounts_ok (users s) (refreshTokens s)" "has_account u (users s) (refreshTokens s) \<and> u_isVerified u"
    show "accounts_ok (users (note_login e (u_id u) s)) (refreshTokens (note_login e (u_id u) s))"
      using *(1) by (simp add: note_login_def accounts_ok_update core)
    let ?u = "if ia_loginNoted e then u\<lparr>u_lastLoginAt := Some (ia_now e)\<rparr> else u"
    have "?u \<in> set (users (note_login e (u_id u) s))"
      using *(2) by (force simp: note_login_def has_account_def set_update_where image_iff)
    then show "holds_token (users (note_login e (u_id u) s)) (new_refresh_token e u)"
      unfolding holds_token_def using *(2)
      by (intro bexI [of _ ?u]) (simp_all add: has_account_def new_refresh_token_def u_live_def)
  qed
  show "accounts.triple (has_account u)
    (thenH (checkH (\<lambda>_. u_isVerified u) (Unauthorized ''Account not verified'')) (\<lambda>_.
     thenH (checkH (\<lambda>_. ia_compare e (lg_password dto) (u_passwordHash u))
              (Unauthorized ''Invalid credentials'')) (\<lambda>_.
     thenH (writeH (note_login e (u_id u))) (\<lambda>_.
     generate_tokens e u)))) (\<lambda>_ _ _. True)"
    by (rule accounts.triple_then [OF accounts.triple_check],
        rule accounts.triple_then [OF accounts.triple_quiet [OF quiet_simple(5)]],
        rule accounts.triple_then [OF noted triple_generate])
qed

lemma triple_refresh: "accounts.triple P (refresh_tokens e raw) (\<lambda>_ _ _. True)"
  unfolding refresh_tokens_def
proof (rule accounts.triple_then)
  let ?h = "ia_sha256 e raw"
  show "accounts.triple P (fetchH (find_token ?h) (Unauthorized ''Invalid or expired refresh token''))
    (\<lambda>t us ts. P us ts \<and> find_by (\<lambda>t. rt_tokenHash t = ?h) ts = Some t)"
    by (rule accounts.triple_fetch) (simp add: find_token_def)
  fix t
  let ?Q = "\<lambda>us ts. P us ts \<and> find_by (\<lambda>t. rt_tokenHash t = ?h) ts = Some t"
  have owner: "accounts.triple ?Q (askH (\<lambda>s. Inr (find_user (rt_userId t) s)))
      (\<lambda>owner us ts. t \<in> set ts \<and>
        (\<forall>u. owner = Some u \<longrightarrow> u_id u = rt_userId t \<and> u \<in> set us \<and> u_live u))"
    by (rule accounts.tripleI) (auto simp: askH_def find_user_def dest!: find_by_Some)
  have rotate: "accounts.triple (\<lambda>us ts. t \<in> set ts \<and> \<not> rt_revoked t \<and>
        (\<forall>u. owner = Some u \<longrightarrow> u_id u = rt_userId t \<and> u \<in> set us \<and> u_live u))
      (writeH (\<lambda>s. s\<lparr>refreshTokens := put rt_tokenHash (t\<lparr>rt_revoked := True\<rparr>) (refreshTokens s)\<rparr>))
      (\<lambda>_ us ts. \<forall>u. owner = Some u \<longrightarrow> holds_token us (new_refresh_token e u))" for owner
  proof (rule accounts.triple_write)
    fix s :: identity
    let ?ts = "put rt_tokenHash (t\<lparr>rt_revoked := True\<rparr>) (refreshTokens s)"
    assume ok: "accounts_ok (users s) (refreshTokens s)" and t: "t \<in> set (refreshTokens s) \<and> \<not> rt_revoked t \<and>
        (\<forall>u. owner = Some u \<longrightarrow> u_id u = rt_userId t \<and> u \<in> set (users s) \<and> u_live u)"
    have "x \<in> set (refreshTokens s)" if "x \<in> set ?ts" "\<not> rt_revoked x" for x
      using that(1) by (cases rule: in_put_cases) (use that(2) in auto)
    then have "accounts_ok (users s) ?ts"
      by (intro accounts_ok_revoked [OF ok]) (simp_all add: put_keys)
    moreover have "holds_token (users s) (new_refresh_token e u)" if "owner = Some u" for u
    proof -
      from ok t obtain x where "x \<in> set (users s)" "u_id x = rt_userId t" "u_isVerified x" "u_live x"
        unfolding accounts_ok_def holds_token_def by blast
      then show ?thesis using t that by (auto simp: holds_token_def new_refresh_token_def)
    qed
    ultimately show "accounts_ok (users (s\<lparr>refreshTokens := ?ts\<rparr>)) (refreshTokens (s\<lparr>refreshTokens := ?ts\<rparr>)) \<and>
        (\<forall>u. owner = Some u \<longrightarrow> holds_token (users (s\<lparr>refreshTokens := ?ts\<rparr>)) (new_refresh_token e u))"
      by simp
  qed
  show "accounts.triple ?Q
    (if rt_revoked t
     then thenH (writeH (revoke_active_tokens (rt_userId t))) (\<lambda>_. throwH reuse_alert)
     else if rt_expiresAt t < ia_now e
     then throwH (Unauthorized ''Invalid or expired refresh token'')
     else
       thenH (askH (\<lambda>s. Inr (find_user (rt_userId t) s))) (\<lambda>owner.
       thenH (writeH (\<lambda>s. s\<lparr>refreshTokens := put rt_tokenHash (t\<lparr>rt_revoked := True\<rparr>) (refreshTokens s)\<rparr>)) (\<lambda>_.
       case owner of
         None \<Rightarrow> throwH (InternalError ''TypeError'')
       | Some u \<Rightarrow> generate_tokens e u))) (\<lambda>_ _ _. True)"
  proof (cases "rt_revoked t")
    case True
    then show ?thesis
      by (simp add: accounts.triple_then [OF triple_revoke_active accounts.triple_throw])
  next
    case False
    have last: "accounts.triple (\<lambda>us ts. \<forall>u. owner = Some u \<longrightarrow> holds_token us (new_refresh_token e u))
        (case owner of None \<Rightarrow> throwH (InternalError ''TypeError'') | Some u \<Rightarrow> generate_tokens e u)
        (\<lambda>_ _ _. True)" for owner
      by (cases owner) (auto intro: accounts.triple_throw accounts.triple_weaken [OF triple_generate])
    have "accounts.triple ?Q
      (thenH (askH (\<lambda>s. Inr (find_user (rt_userId t) s))) (\<lambda>owner.
       thenH (writeH (\<lambda>s. s\<lparr>refreshTokens := put rt_tokenHash (t\<lparr>rt_revoked := True\<rparr>) (refreshTokens s)\<rparr>)) (\<lambda>_.
       case owner of None \<Rightarrow> throwH (InternalError ''TypeError'') | Some u \<Rightarrow> generate_tokens e u))) (\<lambda>_ _ _. True)"
      by (rule accounts.triple_then [OF owner],
          rule accounts.triple_then [OF accounts.triple_weaken [OF rotate] last]) (use False in auto)
    then show ?thesis using False by (simp add: accounts.triple_throw)
  qed
qed

lemma triple_quiet_handlers:
  "accounts.triple P (resend_otp e email) (\<lambda>_ _ _. True)"
  "accounts.triple P (forgot_password e email) (\<lambda>_ _ _. True)"
  "accounts.triple P (request_change_email e u email) (\<lambda>_ _ _. True)"
  unfolding resend_otp_def forgot_password_def request_change_email_def
  by (intro triple_silent quiet_then; auto split: option.splits intro!: quiet_then)+

lemma triple_logout: "accounts.triple P (logout e i jti exp) (\<lambda>_ _ _. True)"
  unfolding logout_def
  by (rule accounts.triple_then [OF triple_revoke_active], rule triple_silent) (auto intro!: quiet_then)

lemma triple_own_account:
  assumes "\<And>us ts. P us ts \<Longrightarrow> has_account u us ts"
  shows "accounts.triple P (update_profile u name birth) (\<lambda>_ _ _. True)"
    "accounts.triple P (update_avatar u url) (\<lambda>_ _ _. True)"
    "accounts.triple P (update_privacy u p) (\<lambda>_ _ _. True)"
    "accounts.triple P (change_password e u dto jti exp) (\<lambda>_ _ _. True)"
    "accounts.triple P (confirm_change_email e u email otp) (\<lambda>_ _ _. True)"
proof -
  show "accounts.triple P (update_profile u name birth) (\<lambda>_ _ _. True)"
    unfolding update_profile_def Let_def
    by (rule accounts.triple_then [OF save_renamed [OF assms] accounts.triple_return])
      (auto split: option.splits)
  show "accounts.triple P (update_avatar u url) (\<lambda>_ _ _. True)"
    unfolding update_avatar_def Let_def
    by (rule accounts.triple_then [OF save_renamed [OF assms] accounts.triple_return]) auto
  show "accounts.triple P (update_privacy u p) (\<lambda>_ _ _. True)"
    unfolding update_privacy_def
    by (rule accounts.triple_then [OF save_renamed [OF assms] accounts.triple_return]) auto
  show "accounts.triple P (change_password e u dto jti exp) (\<lambda>_ _ _. True)"
    unfolding change_password_def
    by (rule accounts.triple_then [OF accounts.triple_quiet [OF quiet_simple(5)]],
        rule accounts.triple_then [OF accounts.triple_quiet [OF quiet_simple(5)]],
        rule accounts.triple_then [OF save_renamed [OF assms]],
        simp_all add: accounts.triple_then [OF triple_revoke triple_silent] quiet_then)
  show "accounts.triple P (confirm_change_email e u email otp) (\<lambda>_ _ _. True)"
    unfolding confirm_change_email_def
    by (rule accounts.triple_then [OF accounts.triple_quiet [OF quiet_simple(5)]],
        rule accounts.triple_then [OF accounts.triple_quiet [OF quiet_otp(2)]],
        rule accounts.triple_then [OF accounts.triple_quiet [OF quiet_simple(5)]],
        rule accounts.triple_then [OF save_renamed [OF assms] accounts.triple_return]) auto
qed

lemma triple_delete_account:
  "accounts.triple P (delete_account e u password jti exp) (\<lambda>_ _ _. True)"
  unfolding delete_account_def
proof (rule accounts.triple_then [OF accounts.triple_quiet [OF quiet_simple(5)]],
    rule accounts.triple_then [OF triple_revoke],
    rule accounts.triple_then [OF accounts.triple_quiet [OF quiet_otp(4)]])
  show "accounts.triple (\<lambda>us ts. \<forall>t \<in> set ts. rt_userId t = u_id u \<longrightarrow> rt_revoked t)
    (thenH (writeH (soft_delete_user (ia_now e) (u_id u))) (\<lambda>_. returnH ''Account deleted successfully''))
    (\<lambda>_ _ _. True)"
    by (rule accounts.triple_then [OF accounts.triple_write accounts.triple_return])
      (auto simp: soft_delete_user_def intro!: accounts_ok_deleted)
qed

lemma triple_change_role: "accounts.triple P (change_role e i dto actor) (\<lambda>_ _ _. True)"
proof (rule accounts.tripleI, rule conjI)
  fix s :: identity
  assume ok: "accounts_ok (users s) (refreshTokens s)"
  show "accounts_ok (users (snd (change_role e i dto actor s))) (refreshTokens (snd (change_role e i dto actor s)))"
  proof (cases "change_role_body e i dto actor s")
    case (Inl ex)
    then show ?thesis using ok by (simp add: change_role_def)
  next
    case (Inr r)
    obtain p s' where r: "r = (p, s')" by (cases r)
    from Inr r obtain u where u: "find_user i s = Some u" and
      s': "s' = s \<or> (\<not> users_clash (u\<lparr>u_role := cl_role dto, u_passwordChangedAt := Some (ia_now e)\<rparr>) (users s) \<and>
        users s' = put u_id (u\<lparr>u_role := cl_role dto, u_passwordChangedAt := Some (ia_now e)\<rparr>) (users s) \<and>
        refreshTokens s' =
          update_where (\<lambda>t. rt_userId t = u_id u) (\<lambda>t. t\<lparr>rt_revoked := True\<rparr>) (refreshTokens s))"
      by (auto simp: change_role_body_def returns save_user_def revoke_tokens_def Let_def split: if_splits)
    have acc: "u \<in> set (users s)" "u_live u" using u by (auto simp: find_user_def dest: find_by_Some)
    have "accounts_ok (put u_id (u\<lparr>u_role := cl_role dto, u_passwordChangedAt := Some (ia_now e)\<rparr>) (users s))
        (refreshTokens s)"
      if "\<not> users_clash (u\<lparr>u_role := cl_role dto, u_passwordChangedAt := Some (ia_now e)\<rparr>) (users s)"
      using accounts_ok_put [OF ok acc(1) _ that] ok acc by (auto simp: u_live_def accounts_ok_def)
    then show ?thesis
      using s' ok Inr r by (auto simp: change_role_def intro: accounts_ok_revoke)
  qed
qed simp

section \<open>The machine\<close>

lemma triple_pipe: "accounts.triple P m Q \<Longrightarrow> accounts.triple P (pipeH ok m) Q"
  unfolding pipeH_def by (rule accounts.triple_then [OF accounts.triple_quiet [OF quiet_simple(5)]])

lemma triple_reply: "accounts.triple P m (\<lambda>_ _ _. True) \<Longrightarrow> accounts.triple P (replyH f m) (\<lambda>_ _ _. True)"
  unfolding replyH_def by (rule accounts.triple_then [OF _ accounts.triple_return])

lemma triple_with_session:
  assumes "\<And>x. accounts.triple (\<lambda>us ts. has_account (ss_user x) us ts) (f x) (\<lambda>_ _ _. True)"
  shows "accounts.triple P (with_session e bearer f) (\<lambda>_ _ _. True)"
  unfolding with_session_def
  by (rule accounts.triple_then [OF triple_session]) (rule accounts.triple_weaken [OF assms], simp)

lemma triple_auth: "accounts.triple P (auth_controller e v bearer call) (\<lambda>_ _ _. True)"
  by (cases call)
    (auto simp: auth_controller_def Let_def intro!: triple_pipe triple_reply triple_register triple_verify_register
      triple_quiet_handlers triple_login triple_refresh triple_logout triple_reset triple_with_session)

lemma triple_users: "accounts.triple P (users_controller e v bearer call) (\<lambda>_ _ _. True)"
  unfolding users_controller_def
  by (rule triple_with_session)
    (cases call; simp add: Let_def;
      intro triple_pipe triple_reply triple_own_account triple_delete_account triple_quiet_handlers
        accounts.triple_return; assumption)

lemma triple_admin:
  "accounts.triple P (admin_users_controller e v ilike newest newestAudit bearer call) (\<lambda>_ _ _. True)"
proof -
  have admin: "accounts.triple P m (\<lambda>_ _ _. True) \<Longrightarrow>
      accounts.triple P (pipeH ok (thenH (require_admin u) (\<lambda>_. m))) (\<lambda>_ _ _. True)" for P u ok and m :: "'x handler"
    by (rule triple_pipe, rule accounts.triple_then [OF accounts.triple_quiet]) (simp add: require_admin_def)
  show ?thesis
    unfolding admin_users_controller_def
    by (rule triple_with_session)
      (cases call; simp add: Let_def; intro admin triple_reply triple_change_role triple_silent quiet_simple)
qed

lemma quiet_internal: "quiet (internal_users_controller v call)"
  by (cases call) (auto simp: internal_users_controller_def pipeH_def intro!: quiet_then)

lemma request_keeps:
  assumes "accounts_ok (users s) (refreshTokens s)"
  shows "accounts_ok (users (snd (identity_request e w h call s))) (refreshTokens (snd (identity_request e w h call s)))"
proof (rule accounts.triple_keeps [OF _ assms])
  show "accounts.triple (\<lambda>_ _. True) (identity_request e w h call) (\<lambda>_ _ _. True)"
    unfolding identity_request_def
    by (rule accounts.triple_then [OF accounts.triple_quiet [OF quiet_simple(3)]])
      (cases call; simp add: Let_def;
        intro triple_reply triple_auth triple_users triple_admin triple_silent quiet_internal)
qed

text \<open>A restart finds no account to change.\<close>

lemma restart_idle:
  assumes "accounts_ok (users s) ts" shows "clear_unverified_names s = s"
proof -
  have "update_where (\<lambda>u. \<not> u_isVerified u \<and> u_username u \<noteq> None) (\<lambda>u. u\<lparr>u_username := None\<rparr>) (users s) = users s"
  proof -
    have "u_isVerified u \<or> u_username u = None" if "u \<in> set (users s)" for u
      using assms that unfolding accounts_ok_def by blast
    then show ?thesis unfolding update_where_def by (intro map_idI) fastforce
  qed
  then show ?thesis by (simp add: clear_unverified_names_def)
qed

interpretation accounts_machine:
  inductive_invariant installed identity_step "\<lambda>s. accounts_ok (users s) (refreshTokens s)"
proof
  fix s assume "installed s"
  then obtain us where us: "seeded_accounts us" "users s = us" "refreshTokens s = []"
    by (auto simp: installed_def)
  have names: "\<forall>x \<in> set us. \<forall>y \<in> set us. u_username x \<noteq> None \<longrightarrow> u_username x = u_username y \<longrightarrow> u_id x = u_id y"
    using us(1) by (auto simp: seeded_accounts_def distinct_map dest: inj_onD)
  have "distinct (map u_id us)" "distinct (map u_email us)"
    "\<forall>u \<in> set us. u_isVerified u \<longleftrightarrow> u_username u \<noteq> None"
    using us(1) unfolding seeded_accounts_def list_all_iff by blast+
  moreover have "distinct (map rt_tokenHash [])" "\<forall>t \<in> set []. rt_revoked t \<or> holds_token us t" by simp_all
  ultimately show "accounts_ok (users s) (refreshTokens s)"
    unfolding us(2,3) accounts_ok_def using names by blast
next
  fix s s' assume "accounts_ok (users s) (refreshTokens s)" "identity_step s s'"
  then show "accounts_ok (users s') (refreshTokens s')"
    by (auto elim!: identity_step.cases simp: request_keeps restart_idle)
qed

lemma reachable_accounts_ok: "id_reachable s \<Longrightarrow> accounts_ok (users s) (refreshTokens s)"
  by (rule accounts_machine.holds)

end
