(* ===== verification/Identity_Results.thy ===== *)
theory Identity_Results
  imports Identity_Inv
begin

text \<open>
  What the handlers of the identity service promise: a refresh token works once and its reuse ends all
  sessions, a logged-out or outdated access token is refused, a change of roles leaves an administrator,
  and lifetimes are read as they are written.
\<close>

section \<open>Refresh tokens\<close>

lemma find_append: "find_by P xs = Some x \<Longrightarrow> find_by P (xs @ ys) = Some x"
  by (induction xs) (auto simp: find_by_def split: if_splits)

lemma refresh_success:
  assumes "refresh_tokens e raw s = (Inr p, s')"
  obtains t u where "find_token (ia_sha256 e raw) s = Some t" "\<not> rt_revoked t" "ia_now e \<le> rt_expiresAt t"
    "find_user (rt_userId t) s = Some u"
    "refreshTokens s' = put rt_tokenHash (t\<lparr>rt_revoked := True\<rparr>) (refreshTokens s) @ [new_refresh_token e u]"
    "rt_tokenHash (new_refresh_token e u) \<notin> rt_tokenHash ` set (refreshTokens s)"
    "users s' = users s" "tp_refreshToken p = ia_fresh e 1"
proof -
  from assms obtain t where t: "find_token (ia_sha256 e raw) s = Some t" "\<not> rt_revoked t" "\<not> rt_expiresAt t < ia_now e"
    and rest: "thenH (askH (\<lambda>s. Inr (find_user (rt_userId t) s))) (\<lambda>owner.
       thenH (writeH (\<lambda>s. s\<lparr>refreshTokens := put rt_tokenHash (t\<lparr>rt_revoked := True\<rparr>) (refreshTokens s)\<rparr>)) (\<lambda>_.
       case owner of None \<Rightarrow> throwH (InternalError ''TypeError'') | Some u \<Rightarrow> generate_tokens e u)) s = (Inr p, s')"
    unfolding refresh_tokens_def fetchH_def handler_Inr returns
    by (auto simp: handler_Inr throwH_Inr split: if_splits)
  from rest obtain u where u: "find_user (rt_userId t) s = Some u"
    and gen: "generate_tokens e u
      (s\<lparr>refreshTokens := put rt_tokenHash (t\<lparr>rt_revoked := True\<rparr>) (refreshTokens s)\<rparr>) = (Inr p, s')"
    unfolding handler_Inr by (auto simp: throwH_Inr split: option.splits)
  from gen have "rt_tokenHash (new_refresh_token e u) \<notin>
      rt_tokenHash ` set (put rt_tokenHash (t\<lparr>rt_revoked := True\<rparr>) (refreshTokens s))"
    "refreshTokens s' = put rt_tokenHash (t\<lparr>rt_revoked := True\<rparr>) (refreshTokens s) @ [new_refresh_token e u]"
    "users s' = users s" "tp_refreshToken p = ia_fresh e 1"
    unfolding generate_tokens_def handler_Inr
    by (auto simp: insert_token_def exists_where_iff split: if_splits)
  moreover have "rt_tokenHash ` set (put rt_tokenHash x ts) = rt_tokenHash ` set ts" for x ts
    using put_keys [of rt_tokenHash x ts] by (metis list.set_map)
  moreover have "ia_now e \<le> rt_expiresAt t" using t(3) by simp
  ultimately show thesis using that [OF t(1,2) _ u] by metis
qed

lemma refresh_reuse:
  assumes inv: "distinct (map rt_tokenHash (refreshTokens s))"
    and call: "refresh_tokens e raw s = (Inr p, s')" and hash: "ia_sha256 e' raw = ia_sha256 e raw"
  shows "\<exists>t s''. find_token (ia_sha256 e raw) s = Some t \<and> refresh_tokens e' raw s' = (Inl reuse_alert, s'') \<and>
    (\<forall>x \<in> set (refreshTokens s''). rt_userId x = rt_userId t \<longrightarrow> rt_revoked x)"
proof (rule refresh_success [OF call])
  fix t u
  assume t: "find_token (ia_sha256 e raw) s = Some t"
    and s': "refreshTokens s' =
      put rt_tokenHash (t\<lparr>rt_revoked := True\<rparr>) (refreshTokens s) @ [new_refresh_token e u]"
    "rt_tokenHash (new_refresh_token e u) \<notin> rt_tokenHash ` set (refreshTokens s)"
  let ?h = "ia_sha256 e raw"
  have h: "rt_tokenHash t = ?h" "find_by (\<lambda>x. rt_tokenHash x = ?h) (refreshTokens s) = Some t"
    using t by (auto simp: find_token_def dest: find_by_Some)
  have "find_by (\<lambda>x. rt_tokenHash x = ?h) (put rt_tokenHash (t\<lparr>rt_revoked := True\<rparr>) (refreshTokens s)) =
      Some (t\<lparr>rt_revoked := True\<rparr>)"
    using find_put_same [OF h(2)] h(1) by simp
  then have "find_token ?h s' = Some (t\<lparr>rt_revoked := True\<rparr>)"
    by (simp add: find_token_def s'(1) find_append)
  then have "refresh_tokens e' raw s' = (Inl reuse_alert, revoke_active_tokens (rt_userId t) s')"
    by (simp add: refresh_tokens_def fetchH_def handlers hash)
  moreover have "\<forall>x \<in> set (refreshTokens (revoke_active_tokens (rt_userId t) s')).
      rt_userId x = rt_userId t \<longrightarrow> rt_revoked x"
    by (auto simp: revoke_active_tokens_def set_update_where split: if_splits)
  ultimately show ?thesis using t by blast
qed

section \<open>Access tokens\<close>

lemma logout_result:
  "logout e i jti exp s =
     (Inr ''Logged out successfully'', (revoke_active_tokens i s)
       \<lparr>redis := (redis s)(blacklist_key jti :=
          Some (Text ''1'', Some (ia_now e + 1000 * max 1 (exp - ia_now e div 1000))))\<rparr>)"
  by (simp add: logout_def blacklist_token_def handlers redis_set_def revoke_active_tokens_def)

text \<open>After a change of the password or the role, tokens of an earlier second are refused.\<close>

lemma outdated:
  assumes "distinct (map u_id us)" "u \<in> set us" "u_passwordChangedAt u = Some t" "users s = us"
    and "jw_sub p = u_id u" "jw_iat p < t div 1000"
  shows "\<exists>ex. validate_payload e p s = Inl ex"
proof -
  have "find_user (u_id u) s = Some x \<Longrightarrow> x = u" for x
    using assms(1,2,4) by (auto simp: find_user_def distinct_map dest!: find_by_Some dest: inj_onD)
  then show ?thesis
    using assms(3,5,6)
    by (cases "validate_payload e p s") (auto simp: validate_payload_def returns)
qed

lemma reset_success:
  assumes "reset_password e dto s = (Inr r, s')"
  obtains u where "find_user_by_email (rp_email dto) s = Some u"
    "open_otp (ia_now e) (''reset:'' @ rp_email dto) (redis s) = Some (rp_otp dto)"
    "users s' = put u_id (u\<lparr>u_passwordHash := ia_hash e (rp_newPassword dto),
                              u_passwordChangedAt := Some (ia_now e)\<rparr>) (users s)"
    "refreshTokens s' = update_where (\<lambda>t. rt_userId t = u_id u) (\<lambda>t. t\<lparr>rt_revoked := True\<rparr>) (refreshTokens s)"
proof -
  from assms obtain u s1 s2 where u: "find_user_by_email (rp_email dto) s = Some u"
    and v: "verify_otp e (''reset:'' @ rp_email dto) (rp_otp dto) s = (Inr True, s1)"
    and w: "save_user (u\<lparr>u_passwordHash := ia_hash e (rp_newPassword dto),
                         u_passwordChangedAt := Some (ia_now e)\<rparr>) s1 = (Inr (), s2)" "s' = revoke_tokens (u_id u) s2"
    unfolding reset_password_def fetchH_def checkH_def handler_Inr returns by auto
  from v have "open_otp (ia_now e) (''reset:'' @ rp_email dto) (redis s) = Some (rp_otp dto)"
    "users s1 = users s" "refreshTokens s1 = refreshTokens s"
    by (auto simp: verify_otp_def check_otp_True [symmetric] split: prod.splits)
  then show thesis
    using that u w by (auto simp: save_user_def revoke_tokens_def split: if_splits)
qed

section \<open>Administrators\<close>

lemma change_role_success:
  assumes "change_role e i dto actor s = (Inr p, s')"
  obtains u :: user where "find_user i s = Some u" "u_id u = u_id actor \<Longrightarrow> cl_role dto = AdminRole"
    "u_role u = AdminRole \<Longrightarrow> cl_role dto \<noteq> AdminRole \<Longrightarrow> 1 < live_admins s"
    "s' = s \<and> u_role u = cl_role dto \<or>
     u_role u \<noteq> cl_role dto \<and> users s' = put u_id (u\<lparr>u_role := cl_role dto, u_passwordChangedAt := Some (ia_now e)\<rparr>) (users s) \<and>
     (\<forall>t \<in> set (refreshTokens s'). rt_userId t = i \<longrightarrow> rt_revoked t) \<and>
     roleAudits s' = roleAudits s @ [role_audit_row e u dto actor]"
proof -
  from assms have "change_role_body e i dto actor s = Inr (p, s')" by (simp add: change_role_def transaction_Inr)
  then obtain u :: user where u: "find_user i s = Some u" "u_id u = u_id actor \<Longrightarrow> cl_role dto = AdminRole"
    "u_role u = AdminRole \<Longrightarrow> cl_role dto \<noteq> AdminRole \<Longrightarrow> 1 < live_admins s"
    "s' = s \<and> u_role u = cl_role dto \<or>
     u_role u \<noteq> cl_role dto \<and> users s' = put u_id (u\<lparr>u_role := cl_role dto, u_passwordChangedAt := Some (ia_now e)\<rparr>) (users s) \<and>
     refreshTokens s' = update_where (\<lambda>t. rt_userId t = u_id u) (\<lambda>t. t\<lparr>rt_revoked := True\<rparr>) (refreshTokens s) \<and>
     roleAudits s' = roleAudits s @ [role_audit_row e u dto actor]"
    by (auto simp: change_role_body_def returns save_user_def revoke_tokens_def Let_def split: if_splits)
  have "u_id u = i" using u(1) by (auto simp: find_user_def dest: find_by_Some)
  then have "rt_revoked t" if "t \<in> set (update_where (\<lambda>t. rt_userId t = u_id u) (\<lambda>t. t\<lparr>rt_revoked := True\<rparr>) (refreshTokens s))"
    "rt_userId t = i" for t
    using that by (auto simp: set_update_where)
  then show thesis using that [OF u(1-3)] u(4) by metis
qed

lemma change_role_admins:
  assumes ok: "distinct (map u_id (users s))" and call: "change_role e i dto actor s = (Inr p, s')"
    and some: "0 < live_admins s"
  shows "0 < live_admins s'"
proof (rule change_role_success [OF call])
  fix u :: user
  let ?u = "u\<lparr>u_role := cl_role dto, u_passwordChangedAt := Some (ia_now e)\<rparr>"
  assume u: "find_user i s = Some u"
    "u_role u = AdminRole \<Longrightarrow> cl_role dto \<noteq> AdminRole \<Longrightarrow> 1 < live_admins s"
    and s': "s' = s \<and> u_role u = cl_role dto \<or> u_role u \<noteq> cl_role dto \<and> users s' = put u_id ?u (users s) \<and>
     (\<forall>t \<in> set (refreshTokens s'). rt_userId t = i \<longrightarrow> rt_revoked t) \<and>
     roleAudits s' = roleAudits s @ [role_audit_row e u dto actor]"
  have m: "u \<in> set (users s)" "u_live u" using u(1) by (auto simp: find_user_def dest: find_by_Some)
  show ?thesis
  proof (cases "s' = s")
    case False
    then have "int (live_admins s') =
        int (live_admins s) - of_bool (u_role u = AdminRole \<and> u_live u) + of_bool (u_role ?u = AdminRole \<and> u_live ?u)"
      using s' count_put [OF ok m(1), of ?u "\<lambda>u. u_role u = AdminRole \<and> u_live u"]
      by (simp add: live_admins_def)
    then show ?thesis
      using u(2) some m(2) by (cases "cl_role dto = AdminRole"; cases "u_role u = AdminRole") (auto simp: u_live_def)
  qed (use some in simp)
qed

section \<open>Lifetimes\<close>

lemma digits_value_append: "digits_value (xs @ [c]) = 10 * digits_value xs + (of_char c - 48)"
  by (simp add: digits_value_def)

lemma decimal_digit: "n < 10 \<Longrightarrow> of_char (char_of (48 + n) :: char) = 48 + n" for n :: nat
  by (simp add: of_char_of)

lemma decimal_digits: "list_all is_digit (decimal n) \<and> decimal n \<noteq> '''' \<and> digits_value (decimal n) = n"
proof (induction n rule: decimal.induct)
  case (1 n)
  have digit: "is_digit (char_of (48 + k))" if "k < 10" for k :: nat
    using decimal_digit [OF that] that by (simp add: is_digit_def)
  show ?case
  proof (cases "n < 10")
    case True
    then show ?thesis
      using digit [OF True] decimal_digit [OF True] by (simp add: decimal.simps [of n] digits_value_def)
  next
    case False
    then show ?thesis
      using 1 digit [of "n mod 10"] decimal_digit [of "n mod 10"]
      by (simp add: decimal.simps [of n] digits_value_append)
  qed
qed

lemma digit_not_space: "is_digit c \<Longrightarrow> \<not> is_space c \<and> c \<noteq> CHR ''-'' \<and> c \<noteq> CHR ''+''"
  by (auto simp: is_digit_def is_space_def Let_def)

lemma parse_int_decimal: "parse_int (decimal n) = Some (int n)"
proof -
  obtain c cs where d: "decimal n = c # cs" "is_digit c" "list_all is_digit cs"
    using decimal_digits [of n] by (cases "decimal n") auto
  have tw: "takeWhile is_digit (decimal n) = decimal n"
    using decimal_digits [of n] by (simp add: list_all_iff takeWhile_eq_all_conv)
  have sign: "\<not> is_space (hd (decimal n)) \<and> hd (decimal n) \<noteq> CHR ''-'' \<and> hd (decimal n) \<noteq> CHR ''+''"
    using digit_not_space [OF d(2)] d(1) by simp
  have "dropWhile is_space (decimal n) = decimal n"
    using sign by (simp add: d(1))
  then have "parse_int (decimal n) = Some (int (digits_value (takeWhile is_digit (decimal n))))"
    using sign tw d(1) by (simp only: parse_int_def Let_def) simp
  then show ?thesis using tw decimal_digits [of n] by simp
qed

end
