(* ===== verification/Token_History.thy ===== *)
theory Token_History
  imports Identity_Results
begin

text \<open>
  What becomes of a refresh token: once it is revoked, no request and no restart makes it good again, so a
  token that was exchanged is refused for ever.
\<close>

section \<open>Revoked tokens stay revoked\<close>

definition spent :: "string \<Rightarrow> uuid \<Rightarrow> identity \<Rightarrow> bool" where
  "spent h i s \<longleftrightarrow> (\<exists>t. find_token h s = Some t \<and> rt_revoked t \<and> rt_userId t = i)"

lemma spent_same: "refreshTokens s' = refreshTokens s \<Longrightarrow> spent h i s' = spent h i s"
  by (simp add: spent_def find_token_def)

lemma spent_revoked:
  assumes "refreshTokens s' = update_where P (\<lambda>t. t\<lparr>rt_revoked := True\<rparr>) (refreshTokens s)" "spent h i s"
  shows "spent h i s'"
proof -
  have "find_by (\<lambda>t. rt_tokenHash t = h) ts = Some t \<Longrightarrow>
      find_by (\<lambda>t. rt_tokenHash t = h) (update_where P (\<lambda>t. t\<lparr>rt_revoked := True\<rparr>) ts) =
        Some (if P t then t\<lparr>rt_revoked := True\<rparr> else t)" for t ts
    by (induction ts) (auto simp: find_by_def update_where_def)
  then show ?thesis using assms by (auto simp: spent_def find_token_def)
qed

lemma spent_append: "spent h i s \<Longrightarrow> refreshTokens s' = refreshTokens s @ ts \<Longrightarrow> spent h i s'"
  by (auto simp: spent_def find_token_def find_append)

abbreviation keeps_spent :: "string \<Rightarrow> uuid \<Rightarrow> 'a handler \<Rightarrow> bool" where
  "keeps_spent h i \<equiv> keeps (spent h i)"

lemma keeps_spent_untouched: "(\<And>s. refreshTokens (snd (m s)) = refreshTokens s) \<Longrightarrow> keeps_spent h i m"
  by (rule keepsI, rule spent_same [THEN iffD2]) simp_all

lemma keeps_spent_quiet: "quiet m \<Longrightarrow> keeps_spent h i m"
  by (rule keeps_spent_untouched) (simp add: quiet_def)

lemma keeps_spent_writes [simp]:
  "keeps_spent h i (save_user u)" "keeps_spent h i (insert_user u)"
  "keeps_spent h i (writeH (soft_delete_user x j))" "keeps_spent h i (writeH (note_login e j))"
  by (rule keeps_spent_untouched;
      simp add: save_user_def insert_user_def writeH_def soft_delete_user_def note_login_def)+

lemma keeps_spent_tokens [simp]:
  "keeps_spent h i (writeH (revoke_tokens j))" "keeps_spent h i (writeH (revoke_active_tokens j))"
  "keeps_spent h i (insert_token t)"
proof -
  show "keeps_spent h i (writeH (revoke_tokens j))"
    by (rule keepsI, rule spent_revoked) (simp_all add: writeH_def revoke_tokens_def)
  show "keeps_spent h i (writeH (revoke_active_tokens j))"
    by (rule keepsI, rule spent_revoked) (simp_all add: writeH_def revoke_active_tokens_def)
  show "keeps_spent h i (insert_token t)"
    by (rule keepsI) (simp add: insert_token_def spent_append)
qed

lemma keeps_spent_quiet_simps [simp]:
  "keeps_spent h i (pipelineH g)" "keeps_spent h i (checkH p ex)" "keeps_spent h i (fetchH q ex)"
  "keeps_spent h i (create_otp e key ttl)" "keeps_spent h i (verify_otp e key otp)"
  "keeps_spent h i (send_otp e to code subject)" "keeps_spent h i (blacklist_token e jti exp)"
  by (rule keeps_spent_quiet; simp)+

section \<open>The handlers\<close>

lemma keeps_spent_auth [simp]:
  "keeps_spent h i (register e dto)" "keeps_spent h i (verify_register_otp e vdto)"
  "keeps_spent h i (resend_otp e email)" "keeps_spent h i (login e ldto)"
  "keeps_spent h i (logout e j jti exp)" "keeps_spent h i (forgot_password e email)"
  "keeps_spent h i (reset_password e rdto)" "keeps_spent h i (generate_tokens e u)"
  by (auto simp: register_def verify_register_otp_def resend_otp_def login_def logout_def forgot_password_def
      reset_password_def generate_tokens_def split: option.split intro!: keeps_thenH)

lemma keeps_spent_me [simp]:
  "keeps_spent h i (update_profile u name birth)" "keeps_spent h i (update_avatar u url)"
  "keeps_spent h i (change_password e u cdto jti exp)" "keeps_spent h i (request_change_email e u email)"
  "keeps_spent h i (confirm_change_email e u email otp)" "keeps_spent h i (update_privacy u p)"
  "keeps_spent h i (delete_account e u password jti exp)"
  by (auto simp: update_profile_def update_avatar_def change_password_def request_change_email_def
      confirm_change_email_def update_privacy_def delete_account_def Let_def intro!: keeps_thenH)

lemma keeps_spent_change_role [simp]: "keeps_spent h i (change_role e j dto actor)"
proof (rule keepsI)
  fix s :: identity
  assume old: "spent h i s"
  show "spent h i (snd (change_role e j dto actor s))"
  proof (cases "change_role_body e j dto actor s")
    case (Inr r)
    then show ?thesis
      using old unfolding change_role_def
      by (auto simp: change_role_body_def returns save_user_def revoke_tokens_def Let_def split: if_splits
          intro: spent_revoked)
  qed (use old in \<open>simp add: change_role_def\<close>)
qed

lemma keeps_spent_refresh [simp]: "keeps_spent h i (refresh_tokens e raw)"
proof (rule keepsI)
  fix s :: identity
  assume old: "spent h i s"
  show "spent h i (snd (refresh_tokens e raw s))"
  proof (cases "find_token (ia_sha256 e raw) s")
    case None
    then show ?thesis using old by (simp add: refresh_tokens_def fetchH_def handlers)
  next
    case (Some t)
    let ?t = "t\<lparr>rt_revoked := True\<rparr>"
    let ?s = "s\<lparr>refreshTokens := put rt_tokenHash ?t (refreshTokens s)\<rparr>"
    have rotated: "spent h i ?s"
    proof (cases "h = ia_sha256 e raw")
      case True
      then show ?thesis using old Some find_put_same [of rt_tokenHash h "refreshTokens s" t ?t]
        by (auto simp: spent_def find_token_def dest: find_by_Some)
    next
      case False
      then have "find_token h ?s = find_token h s"
        using Some unfolding find_token_def
        by (auto dest!: find_by_Some intro!: find_put_other)
      then show ?thesis using old by (simp add: spent_def)
    qed
    show ?thesis
      using old rotated Some keepsD [OF keeps_spent_tokens(2) old] keepsD [OF keeps_spent_auth(8) rotated]
      by (auto simp: refresh_tokens_def fetchH_def handlers split: option.split prod.split sum.split)
  qed
qed

section \<open>Steps\<close>

lemma keeps_spent_routes [simp]:
  "keeps_spent h i m \<Longrightarrow> keeps_spent h i (pipeH ok m)"
  "keeps_spent h i m \<Longrightarrow> keeps_spent h i (replyH f m)"
  "(\<And>x. keeps_spent h i (g x)) \<Longrightarrow> keeps_spent h i (with_session e bearer g)"
  "keeps_spent h i (require_admin u)"
  by (auto simp: pipeH_def replyH_def with_session_def require_admin_def intro!: keeps_thenH)

lemma keeps_spent_request: "keeps_spent h i (identity_request e w header call)"
proof -
  have "keeps_spent h i (auth_controller e v bearer c)" for v bearer c
    by (cases c) (simp_all add: auth_controller_def Let_def)
  moreover have "keeps_spent h i (users_controller e v bearer c)" for v bearer c
    unfolding users_controller_def by (rule keeps_spent_routes) (cases c; simp add: Let_def)
  moreover have "keeps_spent h i (admin_users_controller e v ilike newest newestAudit bearer c)"
    for v ilike newest newestAudit bearer c
    unfolding admin_users_controller_def
    by (rule keeps_spent_routes) (cases c; simp add: Let_def; intro keeps_spent_routes keeps_thenH; simp)
  moreover have "keeps_spent h i (internal_users_controller v c)" for v c
    by (rule keeps_spent_quiet [OF quiet_internal])
  ultimately show ?thesis
    unfolding identity_request_def by (intro keeps_thenH keeps_simple) (cases call; simp add: Let_def)
qed

lemma spent_steps: "identity_step\<^sup>*\<^sup>* s s' \<Longrightarrow> spent h i s \<Longrightarrow> spent h i s'"
proof (induction rule: rtranclp_induct)
  case (step s' s'')
  then show ?case
    by (auto elim!: identity_step.cases simp: clear_unverified_names_def keepsD [OF keeps_spent_request]
        intro: spent_same [THEN iffD2])
qed

lemma accounts_ok_steps: "identity_step\<^sup>*\<^sup>* s s' \<Longrightarrow> accounts_ok (users s) (refreshTokens s) \<Longrightarrow>
    accounts_ok (users s') (refreshTokens s')"
  by (rule accounts_machine.holds_rtranclp)

lemma refresh_spent:
  assumes "spent (ia_sha256 e raw) i s"
  shows "\<exists>s'. refresh_tokens e raw s = (Inl reuse_alert, s') \<and>
    (\<forall>x \<in> set (refreshTokens s'). rt_userId x = i \<longrightarrow> rt_revoked x)"
proof -
  obtain t where t: "find_token (ia_sha256 e raw) s = Some t" "rt_revoked t" "rt_userId t = i"
    using assms by (auto simp: spent_def)
  have "refresh_tokens e raw s = (Inl reuse_alert, revoke_active_tokens (rt_userId t) s)"
    using t(1,2) by (simp add: refresh_tokens_def fetchH_def handlers)
  then show ?thesis using t(3) by (auto simp: revoke_active_tokens_def set_update_where split: if_splits)
qed

lemma refresh_spends:
  assumes "refresh_tokens e raw s = (Inr p, s')"
  shows "\<exists>t u. find_token (ia_sha256 e raw) s = Some t \<and> \<not> rt_revoked t \<and> ia_now e \<le> rt_expiresAt t \<and>
    find_user (rt_userId t) s = Some u \<and> spent (ia_sha256 e raw) (rt_userId t) s'"
proof (rule refresh_success [OF assms])
  fix t u
  assume t: "find_token (ia_sha256 e raw) s = Some t" "\<not> rt_revoked t" "ia_now e \<le> rt_expiresAt t"
    "find_user (rt_userId t) s = Some u"
    and s': "refreshTokens s' =
      put rt_tokenHash (t\<lparr>rt_revoked := True\<rparr>) (refreshTokens s) @ [new_refresh_token e u]"
  let ?h = "ia_sha256 e raw"
  have h: "rt_tokenHash t = ?h" "find_by (\<lambda>x. rt_tokenHash x = ?h) (refreshTokens s) = Some t"
    using t(1) by (auto simp: find_token_def dest: find_by_Some)
  then have "find_by (\<lambda>x. rt_tokenHash x = ?h) (put rt_tokenHash (t\<lparr>rt_revoked := True\<rparr>) (refreshTokens s)) =
      Some (t\<lparr>rt_revoked := True\<rparr>)"
    using find_put_same [OF h(2)] by simp
  then have "spent ?h (rt_userId t) s'" by (simp add: spent_def find_token_def s' find_append)
  then show ?thesis using t by blast
qed

end
