(* ===== verification/Session_History.thy ===== *)
theory Session_History
  imports Token_History
begin

text \<open>
  What becomes of a token that was logged out: its entry in the blacklist is never removed or shortened, so
  no request brings the session back.
\<close>

section \<open>The blacklist only grows\<close>

definition barred :: "uuid \<Rightarrow> time \<Rightarrow> identity \<Rightarrow> bool" where
  "barred jti x s \<longleftrightarrow> (\<exists>y \<ge> x. redis s (blacklist_key jti) = Some (Text ''1'', Some y))"

lemma blacklist_keys [simp]:
  "blacklist_key j \<noteq> otp_key k" "blacklist_key j \<noteq> fail_key k" "blacklist_key j \<noteq> lock_key k"
  "blacklist_key j \<noteq> cooldown_key k" "blacklist_key j = blacklist_key j' \<longleftrightarrow> j = j'"
  by (simp_all add: blacklist_key_def otp_key_def fail_key_def lock_key_def cooldown_key_def)

lemma barred_same: "redis s' (blacklist_key j) = redis s (blacklist_key j) \<Longrightarrow> barred j x s' = barred j x s"
  by (simp add: barred_def)

abbreviation keeps_barred :: "uuid \<Rightarrow> time \<Rightarrow> 'a handler \<Rightarrow> bool" where
  "keeps_barred j x \<equiv> keeps (barred j x)"

lemma keeps_barred_untouched:
  "(\<And>s. redis (snd (m s)) (blacklist_key j) = redis s (blacklist_key j)) \<Longrightarrow> keeps_barred j x m"
  by (rule keepsI, rule barred_same [THEN iffD2]) simp_all

lemma check_otp_blacklist: "snd (check_otp t key otp r) (blacklist_key j) = r (blacklist_key j)"
  by (cases rule: check_otp_cases [of t key r otp])
    (auto simp: redis_del_def redis_set_def redis_expire_def redis_incr_def split: option.splits redis_value.splits)

lemma keeps_barred_basic [simp]:
  "keeps_barred j x (checkH p ex)" "keeps_barred j x (fetchH q ex)"
  "keeps_barred j x (create_otp e key ttl)" "keeps_barred j x (verify_otp e key otp)"
  "keeps_barred j x (send_otp e to code subject)" "keeps_barred j x (save_user u)"
  "keeps_barred j x (insert_user u)" "keeps_barred j x (insert_token t)"
  "keeps_barred j x (writeH (revoke_tokens i))" "keeps_barred j x (writeH (revoke_active_tokens i))"
  "keeps_barred j x (writeH (soft_delete_user d i))" "keeps_barred j x (writeH (note_login e i))"
  "keeps_barred j x (pipelineH (redis_set d (cooldown_key email) v ttl))"
  by (rule keeps_barred_untouched; simp add: checkH_def fetchH_def create_otp_def stored_otp_def verify_otp_def
      send_otp_def save_user_def insert_user_def insert_token_def revoke_tokens_def revoke_active_tokens_def
      soft_delete_user_def note_login_def handlers redis_set_def redis_del_def check_otp_blacklist
      case_prod_beta Let_def)+

lemma keeps_barred_blacklist: "i \<noteq> j \<or> x \<le> ia_now e \<Longrightarrow> keeps_barred j x (blacklist_token e i exp)"
  by (rule keepsI) (auto simp: blacklist_token_def pipelineH_def redis_set_def barred_def)

section \<open>The handlers\<close>

lemma keeps_barred_auth [simp]:
  "keeps_barred j x (register e dto)" "keeps_barred j x (verify_register_otp e vdto)"
  "keeps_barred j x (resend_otp e email)" "keeps_barred j x (login e ldto)"
  "keeps_barred j x (forgot_password e email)" "keeps_barred j x (reset_password e rdto)"
  "keeps_barred j x (generate_tokens e u)"
  by (auto simp: register_def verify_register_otp_def resend_otp_def login_def forgot_password_def
      reset_password_def generate_tokens_def split: option.split intro!: keeps_thenH)

lemma keeps_barred_refresh [simp]: "keeps_barred j x (refresh_tokens e raw)"
  unfolding refresh_tokens_def
  by (intro keeps_thenH keeps_barred_basic)
    (auto intro!: keeps_thenH keeps_barred_untouched [where m = "writeH f" for f]
      simp: writeH_def revoke_active_tokens_def split: option.split)

lemma keeps_barred_me [simp]:
  "keeps_barred j x (update_profile u name birth)" "keeps_barred j x (update_avatar u url)"
  "keeps_barred j x (request_change_email e u email)" "keeps_barred j x (confirm_change_email e u email otp)"
  "keeps_barred j x (update_privacy u p)"
  by (auto simp: update_profile_def update_avatar_def request_change_email_def
      confirm_change_email_def update_privacy_def Let_def intro!: keeps_thenH)

text \<open>Logging out blacklists the token of the caller: another one, or ours after its entry is gone.\<close>

lemma keeps_barred_logout:
  assumes "i \<noteq> j \<or> x \<le> ia_now e"
  shows "keeps_barred j x (logout e k i exp)" "keeps_barred j x (change_password e u cdto i exp)"
    "keeps_barred j x (delete_account e u password i exp)"
  using keeps_barred_blacklist [OF assms]
  by (auto simp: logout_def change_password_def delete_account_def intro!: keeps_thenH)

lemma keeps_barred_change_role [simp]: "keeps_barred j x (change_role e i dto actor)"
proof (rule keepsI)
  fix s :: identity
  assume old: "barred j x s"
  show "barred j x (snd (change_role e i dto actor s))"
  proof (cases "change_role_body e i dto actor s")
    case (Inr r)
    then show ?thesis
      using old unfolding change_role_def
      by (auto simp: change_role_body_def returns save_user_def revoke_tokens_def Let_def barred_def
          split: if_splits)
  qed (use old in \<open>simp add: change_role_def\<close>)
qed

section \<open>Steps\<close>

lemma session_after_bar:
  assumes "barred j x s" "jwt_session e bearer s = Inr ss"
  shows "ss_jti ss \<noteq> j \<or> x \<le> ia_now e"
  using assms by (auto simp: jwt_session_def validate_payload_def returns barred_def redis_get_def split: if_splits)

lemma keeps_barred_session:
  assumes "\<And>ss. ss_jti ss \<noteq> j \<or> x \<le> ia_now e \<Longrightarrow> keeps_barred j x (f ss)"
  shows "keeps_barred j x (with_session e bearer f)"
proof (rule keepsI)
  fix s :: identity
  assume old: "barred j x s"
  show "barred j x (snd (with_session e bearer f s))"
  proof (cases "jwt_session e bearer s")
    case (Inr ss)
    then show ?thesis
      using keepsD [OF assms [OF session_after_bar [OF old Inr]] old]
      by (simp add: with_session_def thenH_def askH_def)
  qed (use old in \<open>simp add: with_session_def thenH_def askH_def\<close>)
qed

lemma keeps_barred_routes [simp]:
  "keeps_barred j x m \<Longrightarrow> keeps_barred j x (pipeH ok m)"
  "keeps_barred j x m \<Longrightarrow> keeps_barred j x (replyH f m)"
  "keeps_barred j x (require_admin u)"
  by (auto simp: pipeH_def replyH_def require_admin_def intro!: keeps_thenH)

lemma keeps_barred_request: "keeps_barred j x (identity_request e w header call)"
proof -
  have "keeps_barred j x (auth_controller e v bearer c)" for v bearer c
    by (cases c; simp add: auth_controller_def Let_def; rule keeps_barred_session; simp add: keeps_barred_logout)
  moreover have "keeps_barred j x (users_controller e v bearer c)" for v bearer c
    unfolding users_controller_def
    by (rule keeps_barred_session) (cases c; simp add: Let_def keeps_barred_logout)
  moreover have "keeps_barred j x (admin_users_controller e v ilike newest newestAudit bearer c)"
    for v ilike newest newestAudit bearer c
    unfolding admin_users_controller_def
    by (rule keeps_barred_session) (cases c; simp add: Let_def; intro keeps_barred_routes keeps_thenH; simp)
  moreover have "keeps_barred j x (internal_users_controller v c)" for v c
    by (cases c) (simp_all add: internal_users_controller_def)
  ultimately show ?thesis
    unfolding identity_request_def by (intro keeps_thenH keeps_simple) (cases call; simp add: Let_def)
qed

lemma barred_steps: "identity_step\<^sup>*\<^sup>* s s' \<Longrightarrow> barred j x s \<Longrightarrow> barred j x s'"
proof (induction rule: rtranclp_induct)
  case (step s' s'')
  then show ?case
    by (auto elim!: identity_step.cases simp: clear_unverified_names_def keepsD [OF keeps_barred_request]
        intro: barred_same [THEN iffD2])
qed

lemma barred_refused:
  assumes "barred jti (t + 1000 * max 1 (exp - t div 1000)) s"
    and p: "jw_jti p = jti" "jw_exp p = exp" "ia_verify e token = Some p"
  shows "\<exists>ex. jwt_session e (Some token) s = Inl ex"
proof (cases "ia_now e div 1000 < exp")
  case True
  then have "ia_now e \<le> 1000 * exp" by linarith
  also have "\<dots> \<le> t + 1000 * max 1 (exp - t div 1000)"
  proof -
    have "1000 * (t div 1000) \<le> t" by simp
    moreover have "exp \<le> t div 1000 + max 1 (exp - t div 1000)" by simp
    then have "1000 * exp \<le> 1000 * (t div 1000) + 1000 * max 1 (exp - t div 1000)" by linarith
    ultimately show ?thesis by linarith
  qed
  finally have "redis_get (ia_now e) (blacklist_key jti) (redis s) \<noteq> None"
    using assms(1) by (auto simp: barred_def redis_get_def)
  then show ?thesis using p True by (auto simp: jwt_session_def validate_payload_def guardE_def)
next
  case False
  then show ?thesis using p(2,3) by (simp add: jwt_session_def guardE_def)
qed

end
