(* ===== verification/Identity_Sample.thy ===== *)
theory Identity_Sample
  imports Session_History
begin

text \<open>A small identity service: an administrator and a student, and what a few requests make of them.\<close>

definition root_user :: user where
  "root_user = \<lparr>u_id = ''r'', u_username = Some ''admin'', u_fullName = ''Root'', u_dateOfBirth = None,
     u_email = ''root@x'', u_passwordHash = ''#Secret12'', u_avatarUrl = None, u_privacy = PublicProfile,
     u_isVerified = True, u_role = AdminRole, u_passwordChangedAt = None, u_lastLoginAt = None,
     u_createdAt = 0, u_deletedAt = None\<rparr>"

definition stud_user :: user where
  "stud_user = root_user\<lparr>u_id := ''s'', u_username := Some ''student'', u_fullName := ''Stud'',
     u_email := ''stud@x'', u_passwordHash := ''#Student12'', u_role := StudentRole\<rparr>"

definition campus :: identity where
  "campus = \<lparr>users = [root_user, stud_user], refreshTokens = [], roleAudits = [], redis = (\<lambda>_. None), mails = []\<rparr>"

text \<open>A token is the text of its id; the service at a time, with a seed for its fresh ids.\<close>

definition token_of :: "string \<Rightarrow> user \<Rightarrow> time \<Rightarrow> jwt_payload" where
  "token_of jti u t =
     \<lparr>jw_sub = u_id u, jw_username = u_username u, jw_email = u_email u, jw_role = u_role u, jw_jti = jti,
      jw_iat = t div 1000, jw_exp = t div 1000 + 900\<rparr>"

definition id_at :: "time \<Rightarrow> string \<Rightarrow> id_env" where
  "id_at t seed =
     \<lparr>ia_now = t, ia_fresh = (\<lambda>n. seed @ decimal n), ia_code = ''123456'', ia_hash = (\<lambda>p. ''#'' @ p),
      ia_compare = (\<lambda>p h. h = ''#'' @ p), ia_sha256 = (\<lambda>x. x), ia_sign = jw_jti,
      ia_verify = (\<lambda>x. if x = ''a0'' then Some (token_of ''a0'' stud_user 1000)
                        else if x = ''ra0'' then Some (token_of ''ra0'' root_user 1000) else None),
      ia_mailSent = True, ia_loginNoted = False, ia_accessSeconds = 900, ia_refreshExpires = Some ''7d''\<rparr>"

definition id_sample :: id_world where
  "id_sample = \<lparr>iw_expected = ''gate'',
     iw_validators = \<lparr>va_email = (\<lambda>t. CHR ''@'' \<in> set t), va_date = (\<lambda>_. True), va_uuid = (\<lambda>_. True),
       va_avatarUrl = (\<lambda>_ _. True), va_bearer = (\<lambda>h. h ''authorization'')\<rparr>,
     iw_ilike = (\<lambda>_ _. False), iw_newest = rev, iw_newestAudit = rev\<rparr>"

definition headers_of :: "string option \<Rightarrow> string \<Rightarrow> string option" where
  "headers_of bearer k =
     (if k = ''x-internal-token'' then Some ''gate'' else if k = ''authorization'' then bearer else None)"

definition stud_token :: refresh_token where
  "stud_token = \<lparr>rt_tokenHash = ''a1'', rt_expiresAt = 604801000, rt_revoked = False, rt_userId = ''s''\<rparr>"

lemmas id_sample_defs = root_user_def stud_user_def campus_def id_at_def id_sample_def headers_of_def stud_token_def

lemma decimal_small [simp]: "decimal 0 = ''0''" "decimal (Suc 0) = ''1''" "decimal 7 = ''7''"
  by code_simp+

lemma week [simp]: "parse_ttl (Some ''7d'') = 604800"
  by code_simp

lemma installed_campus: "installed campus"
proof -
  have "seeded_accounts [root_user, stud_user]" by (simp add: seeded_accounts_def id_sample_defs u_live_def)
  then show ?thesis by (auto simp: installed_def campus_def)
qed

text \<open>The student logs in at one second.\<close>

definition logged_in :: identity where
  "logged_in = campus\<lparr>refreshTokens := [stud_token]\<rparr>"

lemma login_campus:
  "login (id_at 1000 ''a'') \<lparr>lg_identifier = ''student'', lg_password = ''Student12''\<rparr> campus =
     (Inr \<lparr>tp_accessToken = ''a0'', tp_refreshToken = ''a1''\<rparr>, logged_in)"
  by (simp add: login_def handlers fetchH_def checkH_def find_login_def find_user_by_username_def find_by_def
      u_live_def note_login_def generate_tokens_def insert_token_def new_refresh_token_def access_payload_def
      exists_where_def logged_in_def id_sample_defs guardE_def someE_def)

lemma step_login: "identity_step campus logged_in"
proof -
  have "identity_request (id_at 1000 ''a'') id_sample (headers_of None)
      (AuthCall (PostLogin \<lparr>lg_identifier = ''student'', lg_password = ''Student12''\<rparr>)) campus =
      (Inr (AuthReply (Tokens \<lparr>tp_accessToken = ''a0'', tp_refreshToken = ''a1''\<rparr>)), logged_in)"
    by (simp add: identity_request_def auth_controller_def pipeH_def replyH_def checkH_def valid_login_def
        handlers gateway_token_guard_def truthy_def guardE_def login_campus id_sample_def headers_of_def)
  then show ?thesis using identity_step.request by (metis snd_conv)
qed

lemma reachable_small: "id_reachable campus"
  by (rule reach.started) (rule installed_campus)

lemma reachable_logged_in: "id_reachable logged_in"
  by (rule reach.stepped [OF reachable_small step_login])

end
