(* ===== verification/Identity_Spec.thy ===== *)
theory Identity_Spec
  imports Identity_Sample
begin

text \<open>
  The properties of the identity service: its accounts and tokens are consistent in every reachable state, a
  refresh token works once, an ended session stays ended, codes are guarded against guessing while they
  live no longer than the guard, and only administrators change roles.
\<close>

section \<open>Lemmas\<close>

lemma pipeH_Inr: "pipeH ok m s = (Inr y, s') \<longleftrightarrow> ok \<and> m s = (Inr y, s')"
  by (auto simp: pipeH_def checkH_def handler_Inr returns)

lemma replyH_Inr: "replyH f m s = (Inr y, s') \<longleftrightarrow> (\<exists>x. m s = (Inr x, s') \<and> y = f x)"
  by (auto simp: replyH_def handler_Inr)

lemma with_session_Inr:
  "with_session e bearer f s = (Inr y, s') \<longleftrightarrow> (\<exists>ss. jwt_session e bearer s = Inr ss \<and> f ss s = (Inr y, s'))"
  by (auto simp: with_session_def handler_Inr)

lemmas route_Inr = pipeH_Inr replyH_Inr with_session_Inr

lemma jwt_session_Inr:
  assumes "jwt_session e (Some token) s = Inr ss"
  obtains p where "ia_verify e token = Some p" "ss_jti ss = jw_jti p" "ss_exp ss = jw_exp p"
    "u_id (ss_user ss) = jw_sub p" "ss_user ss \<in> set (users s)" "u_live (ss_user ss)"
  using assms
  by (auto simp: jwt_session_def validate_payload_def returns find_user_def dest!: find_by_Some)

text \<open>The calls that end the session they are made in.\<close>

definition ends_session :: "id_call \<Rightarrow> bool" where
  "ends_session call =
     (case call of
        AuthCall PostLogout \<Rightarrow> True
      | MeCall (PatchPassword _) \<Rightarrow> True
      | MeCall (DeleteMe _) \<Rightarrow> True
      | _ \<Rightarrow> False)"

lemma ends_session_Inr:
  assumes "identity_request e w header call s = (Inr r, s')" "ends_session call"
  obtains ss where "jwt_session e (va_bearer (iw_validators w) header) s = Inr ss"
    "barred (ss_jti ss) (ia_now e + 1000 * max 1 (ss_exp ss - ia_now e div 1000)) s'"
    "\<forall>t \<in> set (refreshTokens s'). rt_userId t = u_id (ss_user ss) \<longrightarrow> rt_revoked t"
proof -
  let ?b = "va_bearer (iw_validators w) header" and ?t = "ia_now e"
  have "\<exists>ss x. jwt_session e ?b s = Inr ss \<and>
     (logout e (u_id (ss_user ss)) (ss_jti ss) (ss_exp ss) s = (Inr x, s') \<or>
      (\<exists>dto. change_password e (ss_user ss) dto (ss_jti ss) (ss_exp ss) s = (Inr x, s')) \<or>
      (\<exists>pw. delete_account e (ss_user ss) pw (ss_jti ss) (ss_exp ss) s = (Inr x, s')))"
    using assms
    by (auto simp: identity_request_def handler_Inr ends_session_def auth_controller_def users_controller_def
        route_Inr Let_def split: id_call.splits auth_call.splits me_call.splits)
  then obtain ss x where ss: "jwt_session e ?b s = Inr ss"
    and how: "logout e (u_id (ss_user ss)) (ss_jti ss) (ss_exp ss) s = (Inr x, s') \<or>
      (\<exists>dto. change_password e (ss_user ss) dto (ss_jti ss) (ss_exp ss) s = (Inr x, s')) \<or>
      (\<exists>pw. delete_account e (ss_user ss) pw (ss_jti ss) (ss_exp ss) s = (Inr x, s'))"
    by blast
  have "redis s' (blacklist_key (ss_jti ss)) =
      Some (Text ''1'', Some (?t + 1000 * max 1 (ss_exp ss - ?t div 1000)))"
    using how
    by (auto simp: logout_def change_password_def delete_account_def blacklist_token_def handler_Inr
        redis_set_def soft_delete_user_def)
  moreover have "\<forall>t \<in> set (refreshTokens s'). rt_userId t = u_id (ss_user ss) \<longrightarrow> rt_revoked t"
    using how
    by (auto simp: logout_def change_password_def delete_account_def blacklist_token_def handler_Inr
        soft_delete_user_def revoke_tokens_def revoke_active_tokens_def set_update_where split: if_splits)
  ultimately show thesis using that ss by (auto simp: barred_def)
qed

section \<open>Accounts\<close>

text \<open>
  C15. In every reachable state ids and addresses of accounts are unique and so are names, deleted accounts
  included; exactly the verified accounts have a name; and whoever holds a refresh token in force is a
  verified user who has not been deleted.
\<close>

theorem accounts_consistent:
  assumes "id_reachable s"
  shows "distinct (map u_id (users s)) \<and> distinct (map u_email (users s)) \<and>
    (\<forall>u \<in> set (users s). \<forall>v \<in> set (users s).
       u_username u \<noteq> None \<and> u_username u = u_username v \<longrightarrow> u_id u = u_id v) \<and>
    (\<forall>u \<in> set (users s). u_isVerified u \<longleftrightarrow> u_username u \<noteq> None) \<and>
    distinct (map rt_tokenHash (refreshTokens s)) \<and>
    (\<forall>t \<in> set (refreshTokens s). \<not> rt_revoked t \<longrightarrow>
       (\<exists>u. find_user (rt_userId t) s = Some u \<and> u_isVerified u))"
proof -
  have ok: "accounts_ok (users s) (refreshTokens s)" by (rule reachable_accounts_ok [OF assms])
  have "\<exists>u. find_user (rt_userId t) s = Some u \<and> u_isVerified u"
    if t: "t \<in> set (refreshTokens s)" "\<not> rt_revoked t" for t
  proof -
    from ok t obtain u where u: "u \<in> set (users s)" "u_id u = rt_userId t" "u_isVerified u" "u_live u"
      unfolding accounts_ok_def holds_token_def by blast
    have ids: "distinct (map u_id (users s))" using ok unfolding accounts_ok_def by blast
    have "find_user (rt_userId t) s = Some u"
      unfolding find_user_def
      by (rule find_by_distinct [OF ids u(1)]) (use u in auto)
    then show ?thesis using u by blast
  qed
  then show ?thesis using ok unfolding accounts_ok_def by blast
qed

theorem accounts_consistent_witness:
  "id_reachable logged_in \<and>
    (\<exists>u. find_user (rt_userId stud_token) logged_in = Some u \<and> u_isVerified u)"
proof -
  have "stud_token \<in> set (refreshTokens logged_in)" "\<not> rt_revoked stud_token"
    by (simp_all add: logged_in_def stud_token_def)
  then show ?thesis using accounts_consistent [OF reachable_logged_in] reachable_logged_in by blast
qed

section \<open>Tokens\<close>

text \<open>
  C16. A refresh token works once: the token was in force, and from the moment it is exchanged, whatever
  requests follow, presenting it again is refused and ends every session of its owner.
\<close>

theorem refresh_token_once:
  assumes "refresh_tokens e raw s = (Inr p, s')" and "identity_step\<^sup>*\<^sup>* s' s''"
    and "ia_sha256 e' raw = ia_sha256 e raw"
  shows "\<exists>t u s3. find_token (ia_sha256 e raw) s = Some t \<and> \<not> rt_revoked t \<and> ia_now e \<le> rt_expiresAt t \<and>
    find_user (rt_userId t) s = Some u \<and>
    refresh_tokens e' raw s'' = (Inl reuse_alert, s3) \<and>
    (\<forall>x \<in> set (refreshTokens s3). rt_userId x = rt_userId t \<longrightarrow> rt_revoked x)"
proof -
  from refresh_spends [OF assms(1)] obtain t u where
    t: "find_token (ia_sha256 e raw) s = Some t" "\<not> rt_revoked t" "ia_now e \<le> rt_expiresAt t"
      "find_user (rt_userId t) s = Some u" and spent: "spent (ia_sha256 e raw) (rt_userId t) s'"
    by blast
  have "spent (ia_sha256 e' raw) (rt_userId t) s''" using spent_steps [OF assms(2) spent] assms(3) by simp
  then show ?thesis using refresh_spent t by blast
qed

theorem refresh_token_once_witness:
  "\<exists>p s'. refresh_tokens (id_at 2000 ''b'') ''a1'' logged_in = (Inr p, s') \<and>
    fst (refresh_tokens (id_at 9000 ''c'') ''a1'' s') = Inl reuse_alert"
proof -
  have "\<exists>p s'. refresh_tokens (id_at 2000 ''b'') ''a1'' logged_in = (Inr p, s')"
    by (simp add: refresh_tokens_def fetchH_def find_token_def handlers find_by_def find_user_def u_live_def
        generate_tokens_def insert_token_def exists_where_def logged_in_def id_sample_defs put_def
        update_where_def new_refresh_token_def someE_def)
  then obtain p s' where call: "refresh_tokens (id_at 2000 ''b'') ''a1'' logged_in = (Inr p, s')" by blast
  have "\<exists>s3. refresh_tokens (id_at 9000 ''c'') ''a1'' s' = (Inl reuse_alert, s3)"
    using refresh_token_once [OF call rtranclp.rtrancl_refl, of "id_at 9000 ''c''"] by (auto simp: id_at_def)
  then show ?thesis using call by auto
qed

text \<open>
  C17. Logging out, changing the password and deleting the account end the session: in every later state
  and at any time the access token of that call is refused, and right after it all refresh tokens of the
  user are revoked.
\<close>

theorem ended_session:
  assumes "ends_session call" and "identity_request e w header call s = (Inr r, s')"
    and "va_bearer (iw_validators w) header = Some token"
    and "identity_step\<^sup>*\<^sup>* s' s''" and "ia_verify e' token = ia_verify e token"
  shows "\<exists>p. ia_verify e token = Some p \<and> (\<exists>ex. jwt_session e' (Some token) s'' = Inl ex) \<and>
    (\<forall>t \<in> set (refreshTokens s'). rt_userId t = jw_sub p \<longrightarrow> rt_revoked t)"
proof (rule ends_session_Inr [OF assms(2,1)])
  fix ss
  assume session: "jwt_session e (va_bearer (iw_validators w) header) s = Inr ss"
    and barred: "barred (ss_jti ss) (ia_now e + 1000 * max 1 (ss_exp ss - ia_now e div 1000)) s'"
    and revoked: "\<forall>t \<in> set (refreshTokens s'). rt_userId t = u_id (ss_user ss) \<longrightarrow> rt_revoked t"
  obtain p where p: "ia_verify e token = Some p" "ss_jti ss = jw_jti p" "ss_exp ss = jw_exp p"
    "u_id (ss_user ss) = jw_sub p"
    using session unfolding assms(3) by (rule jwt_session_Inr)
  have "\<exists>ex. jwt_session e' (Some token) s'' = Inl ex"
    by (rule barred_refused [OF barred_steps [OF assms(4) barred]]) (use p assms(5) in simp_all)
  then show ?thesis using p revoked by auto
qed

theorem ended_session_witness:
  "\<exists>r s'. identity_request (id_at 5000 ''b'') id_sample (headers_of (Some ''a0'')) (AuthCall PostLogout) logged_in =
      (Inr r, s') \<and> (\<exists>ex. jwt_session (id_at 6000 ''c'') (Some ''a0'') s' = Inl ex)"
proof -
  let ?e = "id_at 5000 ''b''"
  have "\<exists>r s'. identity_request ?e id_sample (headers_of (Some ''a0'')) (AuthCall PostLogout) logged_in = (Inr r, s')"
    by (simp add: identity_request_def auth_controller_def replyH_def with_session_def handlers
        gateway_token_guard_def truthy_def guardE_def id_sample_defs jwt_session_def validate_payload_def
        token_of_def logged_in_def redis_get_def find_user_def find_by_def u_live_def logout_def
        blacklist_token_def bindE_def someE_def)
  then obtain r s' where call:
    "identity_request ?e id_sample (headers_of (Some ''a0'')) (AuthCall PostLogout) logged_in = (Inr r, s')" by blast
  have "\<exists>ex. jwt_session (id_at 6000 ''c'') (Some ''a0'') s' = Inl ex"
    using ended_session [OF _ call _ rtranclp.rtrancl_refl, of "''a0''" "id_at 6000 ''c''"]
    by (simp add: ends_session_def id_sample_def headers_of_def id_at_def)
  then show ?thesis using call by blast
qed

section \<open>Codes\<close>

text \<open>
  C18. A code that lives at most 300 seconds is accepted after at most four wrong guesses, at whatever
  times they come.
\<close>

theorem code_guesses_bounded:
  assumes "create_otp e key ttl s = (Inr code, s')" and "ttl \<le> 300"
    and "sorted (map fst gs @ [t])" and "\<forall>g \<in> set gs. ia_now e \<le> fst g \<and> snd g \<noteq> code" and "ia_now e \<le> t"
    and "last (guesses key (gs @ [(t, code)]) (redis s')) = Inr True"
  shows "length gs \<le> 4"
proof -
  have "redis s' = stored_otp (ia_now e) key code ttl (redis s)"
    using assms(1) by (auto simp: create_otp_def handler_Inr)
  then have "length gs < max_attempts"
    using otp_guess_bound [OF _ assms(3,4,5)] assms(2,6) by (simp add: lockout_seconds_def)
  then show ?thesis by (simp add: max_attempts_def)
qed

theorem code_guesses_bounded_witness:
  "last (guesses ''k'' [(2000, ''000000''), (3000, ''111111''), (4000, ''123456'')]
     (redis (snd (create_otp (id_at 1000 ''a'') ''k'' 300 campus)))) = Inr True \<and> (2 :: nat) \<le> 4"
proof -
  let ?s = "snd (create_otp (id_at 1000 ''a'') ''k'' 300 campus)"
  have call: "create_otp (id_at 1000 ''a'') ''k'' 300 campus = (Inr ''123456'', ?s)"
    by (simp add: create_otp_def handlers id_at_def)
  have last: "last (guesses ''k'' ([(2000, ''000000''), (3000, ''111111'')] @ [(4000, ''123456'')]) (redis ?s)) = Inr True"
    by (simp add: create_otp_def handlers id_at_def stored_otp_def check_otp_def redis_exists_def redis_get_def
        redis_set_def redis_del_def redis_incr_def redis_expire_def max_attempts_def lockout_seconds_def)
  show ?thesis using code_guesses_bounded [OF call _ _ _ _ last] last by (simp add: id_at_def)
qed

text \<open>
  A code for a new password lives longer than the counter of wrong guesses: whoever pauses until the
  counter is gone has more than five guesses, and the right one is still taken.
\<close>

theorem reset_code_outlives_counter:
  assumes "forgot_password e email s = (Inr m, s')" and "find_user_by_email email s = Some u"
    and "wrong \<noteq> ia_code e"
  shows "last (guesses (''reset:'' @ email)
    (replicate 4 (ia_now e + 1000, wrong) @ replicate 4 (ia_now e + 302000, wrong) @
     [(ia_now e + 303000, ia_code e)]) (redis s')) = Inr True"
proof -
  have "redis s' = stored_otp (ia_now e) (''reset:'' @ email) (ia_code e) 600 (redis s)"
    using assms(1,2) by (auto simp: forgot_password_def create_otp_def send_otp_def handler_Inr split: if_splits)
  moreover have "replicate 4 x = [x, x, x, x]" for x :: "time \<times> string" by (simp add: numeral_eq_Suc)
  ultimately show ?thesis
    using assms(3)
    by (simp add: stored_otp_def check_otp_def redis_exists_def redis_get_def redis_set_def redis_del_def
        redis_incr_def redis_expire_def max_attempts_def lockout_seconds_def)
qed

theorem reset_code_outlives_counter_witness:
  "\<exists>s'. forgot_password (id_at 1000 ''a'') ''stud@x'' campus =
      (Inr ''Neu email ton tai trong he thong, ban se nhan duoc ma OTP.'', s') \<and>
    last (guesses ''reset:stud@x'' (replicate 4 (2000, ''000000'') @ replicate 4 (303000, ''000000'') @
      [(304000, ''123456'')]) (redis s')) = Inr True"
proof -
  have found: "find_user_by_email ''stud@x'' campus = Some stud_user"
    by (simp add: find_user_by_email_def find_by_def u_live_def id_sample_defs)
  then obtain s' where call: "forgot_password (id_at 1000 ''a'') ''stud@x'' campus =
      (Inr ''Neu email ton tai trong he thong, ban se nhan duoc ma OTP.'', s')"
    by (simp add: forgot_password_def handlers create_otp_def send_otp_def id_at_def)
  show ?thesis
    using reset_code_outlives_counter [OF call found, of "''000000''"] call by (simp add: id_at_def)
qed

section \<open>Roles\<close>

text \<open>
  C19. Only an administrator changes a role, and not his own away from administrator. When the role
  differs, the change is audited with its author, every refresh token of the user is revoked, and access
  tokens issued in an earlier second are refused. An administrator always remains.
\<close>

theorem role_changes:
  assumes "id_reachable s"
    and call: "admin_users_controller e v ilike newest newestAudit bearer (PatchRole i dto) s = (Inr r, s')"
  shows "\<exists>ss u. jwt_session e bearer s = Inr ss \<and> u_role (ss_user ss) = AdminRole \<and>
    find_user i s = Some u \<and> (u_id (ss_user ss) = i \<longrightarrow> cl_role dto = AdminRole) \<and> 0 < live_admins s' \<and>
    (if u_role u = cl_role dto then s' = s
     else users s' = put u_id (u\<lparr>u_role := cl_role dto, u_passwordChangedAt := Some (ia_now e)\<rparr>) (users s) \<and>
       roleAudits s' = roleAudits s @ [role_audit_row e u dto (ss_user ss)] \<and>
       (\<forall>t \<in> set (refreshTokens s'). rt_userId t = i \<longrightarrow> rt_revoked t) \<and>
       (\<forall>e' p. jw_sub p = i \<and> jw_iat p < ia_now e div 1000 \<longrightarrow> (\<exists>ex. validate_payload e' p s' = Inl ex)))"
proof -
  have ids: "distinct (map u_id (users s))"
    using reachable_accounts_ok [OF assms(1)] unfolding accounts_ok_def by blast
  obtain ss p where ss: "jwt_session e bearer s = Inr ss" and admin: "u_role (ss_user ss) = AdminRole"
    and change: "change_role e i dto (ss_user ss) s = (Inr p, s')"
    using call
    by (auto simp: admin_users_controller_def route_Inr handler_Inr require_admin_def checkH_def returns Let_def)
  have actor: "ss_user ss \<in> set (users s)" "u_live (ss_user ss)"
    using ss by (auto simp: jwt_session_def validate_payload_def returns find_user_def dest!: find_by_Some)
  have "0 < live_admins s" using actor admin by (auto simp: live_admins_def count_where_def filter_empty_conv)
  then have remains: "0 < live_admins s'" by (rule change_role_admins [OF ids change])
  show ?thesis
  proof (rule change_role_success [OF change])
    fix u :: user
    let ?u = "u\<lparr>u_role := cl_role dto, u_passwordChangedAt := Some (ia_now e)\<rparr>"
    assume u: "find_user i s = Some u" "u_id u = u_id (ss_user ss) \<Longrightarrow> cl_role dto = AdminRole"
      and s': "s' = s \<and> u_role u = cl_role dto \<or>
        u_role u \<noteq> cl_role dto \<and> users s' = put u_id ?u (users s) \<and>
        (\<forall>t \<in> set (refreshTokens s'). rt_userId t = i \<longrightarrow> rt_revoked t) \<and>
        roleAudits s' = roleAudits s @ [role_audit_row e u dto (ss_user ss)]"
    have row: "u_id u = i" "u \<in> set (users s)" using u(1) by (auto simp: find_user_def dest!: find_by_Some)
    have refused: "\<exists>ex. validate_payload e' p s' = Inl ex"
      if "users s' = put u_id ?u (users s)" "jw_sub p = i" "jw_iat p < ia_now e div 1000" for e' p
    proof (rule outdated [where u = ?u and t = "ia_now e"])
      show "distinct (map u_id (put u_id ?u (users s)))" using ids by (simp add: put_keys)
      show "?u \<in> set (put u_id ?u (users s))" using row(2) by (auto simp: put_def set_update_where)
    qed (use that row(1) in simp_all)
    show ?thesis
    proof (intro exI conjI impI)
      show "u_id (ss_user ss) = i \<Longrightarrow> cl_role dto = AdminRole" using u(2) row(1) by simp
      show "if u_role u = cl_role dto then s' = s
       else users s' = put u_id ?u (users s) \<and> roleAudits s' = roleAudits s @ [role_audit_row e u dto (ss_user ss)] \<and>
         (\<forall>t \<in> set (refreshTokens s'). rt_userId t = i \<longrightarrow> rt_revoked t) \<and>
         (\<forall>e' p. jw_sub p = i \<and> jw_iat p < ia_now e div 1000 \<longrightarrow> (\<exists>ex. validate_payload e' p s' = Inl ex))"
        using s' refused by auto
    qed (use ss admin u(1) remains in simp_all)
  qed
qed

theorem role_changes_witness:
  "\<exists>r s'. admin_users_controller (id_at 5000 ''b'') (iw_validators id_sample) (\<lambda>_ _. False) rev rev (Some ''ra0'')
      (PatchRole ''s'' \<lparr>cl_role = ModeratorRole, cl_reason = ''elected''\<rparr>) logged_in = (Inr r, s') \<and>
    0 < live_admins s' \<and> users s' \<noteq> users logged_in"
proof -
  let ?call = "PatchRole ''s'' \<lparr>cl_role = ModeratorRole, cl_reason = ''elected''\<rparr>"
  let ?run = "admin_users_controller (id_at 5000 ''b'') (iw_validators id_sample) (\<lambda>_ _. False) rev rev (Some ''ra0'')
      ?call logged_in"
  have "\<exists>r s'. ?run = (Inr r, s')"
    by (simp add: admin_users_controller_def replyH_def with_session_def handlers pipeH_def checkH_def
        require_admin_def truthy_def guardE_def id_sample_defs jwt_session_def validate_payload_def
        token_of_def logged_in_def redis_get_def find_user_def find_by_def u_live_def valid_change_role_def
        bindE_def someE_def Let_def change_role_def change_role_body_def transaction_def save_user_def users_clash_def
        exists_where_def)
  then obtain r s' where call: "?run = (Inr r, s')" by blast
  have "find_user ''s'' logged_in = Some stud_user" "u_role stud_user = StudentRole"
    by (simp_all add: find_user_def find_by_def logged_in_def campus_def u_live_def stud_user_def root_user_def)
  then have "0 < live_admins s' \<and> users s' =
      put u_id (stud_user\<lparr>u_role := ModeratorRole, u_passwordChangedAt := Some 5000\<rparr>) (users logged_in)"
    using role_changes [OF reachable_logged_in call] by (auto simp: id_at_def)
  then show ?thesis
    using call by (auto simp: put_def update_where_def logged_in_def campus_def stud_user_def root_user_def)
qed

end
