(* ===== verification/Notifications.thy ===== *)
theory Notifications
  imports Controllers Users Machines
begin

text \<open>
  The notification service (\<open>services/notification-service/src/notifications\<close>): the consumer of the event
  stream, the notifications it stores, and the routes by which users read them. Texts are written without
  their accents; quotation marks are the ASCII ones. An object of JSON is the list of its members, whose
  names are distinct.
\<close>

section \<open>State\<close>

record notification =
  n_id :: uuid
  n_recipientId :: string
  n_actorId :: "string option"
  n_type :: string
  n_title :: string
  n_body :: string
  n_data :: "(string \<times> json) list"
  n_priority :: string
  n_readAt :: "time option"
  n_createdAt :: time

text \<open>
  The tables and everything that went through the subject \<open>events\<close>, which hands it to the open streams.
  Of \<open>inbox_events\<close> only the key is read.
\<close>

record notify_state =
  inboxEvents :: "string list"
  notifications :: "notification list"
  pushed :: "notification list"

text \<open>
  A delivery of the stream: the subject and the data, which may not be JSON. The identity service answers a
  lookup with a status and a body, or not in time.
\<close>

record delivery =
  dl_subject :: string
  dl_body :: "json option"

record notify_env =
  ne_now :: time
  ne_fresh :: uuid
  ne_display :: "string \<Rightarrow> json reply"

datatype failure = InvalidDomainEvent string | Failed string

section \<open>Members of objects\<close>

text \<open>\<open>object.name\<close>, where \<open>null\<close> and a missing member are the same to \<open>??\<close>.\<close>

definition member :: "string \<Rightarrow> (string \<times> json) list \<Rightarrow> json option" where
  "member k obj = map_of obj k"

definition present_member :: "string \<Rightarrow> (string \<times> json) list \<Rightarrow> json option" where
  "present_member k obj = (case map_of obj k of Some JNull \<Rightarrow> None | x \<Rightarrow> x)"

fun set_member :: "string \<Rightarrow> json \<Rightarrow> (string \<times> json) list \<Rightarrow> (string \<times> json) list" where
  "set_member k v [] = [(k, v)]"
| "set_member k v ((k', w) # obj) = (if k' = k then (k', v) # obj else (k', w) # set_member k v obj)"

definition delete_member :: "string \<Rightarrow> (string \<times> json) list \<Rightarrow> (string \<times> json) list" where
  "delete_member k = filter (\<lambda>m. fst m \<noteq> k)"

section \<open>Events\<close>

record domain_event =
  ev_id :: string
  ev_type :: string
  ev_data :: "(string \<times> json) list"

definition recipient_member :: "(string \<times> json) list \<Rightarrow> json option" where
  "recipient_member data = or_opt (present_member ''recipientId'' data) (present_member ''receiverId'' data)"

definition validate_domain_event :: "json \<Rightarrow> failure + domain_event" where
  "validate_domain_event value =
     (case value of
        JObj obj \<Rightarrow>
          (case (member ''eventId'' obj, member ''eventType'' obj, member ''data'' obj) of
             (Some (JStr i), Some (JStr ty), Some (JObj data)) \<Rightarrow>
               if trim i = '''' \<or> trim ty = '''' then Inl (InvalidDomainEvent ''Invalid event envelope'')
               else
                 (case recipient_member data of
                    None \<Rightarrow> Inr \<lparr>ev_id = i, ev_type = ty, ev_data = data\<rparr>
                  | Some (JStr r) \<Rightarrow>
                      if trim r = '''' then Inl (InvalidDomainEvent ''Invalid event recipient'')
                      else Inr \<lparr>ev_id = i, ev_type = ty, ev_data = data\<rparr>
                  | Some _ \<Rightarrow> Inl (InvalidDomainEvent ''Invalid event recipient''))
           | _ \<Rightarrow> Inl (InvalidDomainEvent ''Invalid event envelope''))
      | _ \<Rightarrow> Inl (InvalidDomainEvent ''Invalid event envelope''))"

section \<open>Contents\<close>

definition text_of :: "json option \<Rightarrow> string" where
  "text_of value = (case value of Some (JStr t) \<Rightarrow> trim (squeeze False t) | _ \<Rightarrow> '''')"

definition quoted :: "string \<Rightarrow> string" where
  "quoted t = [CHR 0x22] @ t @ [CHR 0x22]"

definition contextual_body :: "string \<Rightarrow> (string \<times> json) list \<Rightarrow> string option" where
  "contextual_body ty data =
     (let title = take 300 (text_of (or_opt (present_member ''discussionTitle'' data) (member ''title'' data))) in
      if ty = ''discussion.created'' \<and> title \<noteq> '''' then Some (''Ban da tao bai viet '' @ quoted title @ ''.'')
      else if ty = ''comment.created'' then
        let name = text_of (member ''actorName'' data);
            actor = (if member ''isAnonymous'' data = Some (JBool True) then ''Nguoi dung an danh''
                     else if name \<noteq> '''' then name else ''Mot nguoi dung'');
            post = (if title \<noteq> '''' then ''bai viet '' @ quoted title else ''bai viet cua ban'');
            preview = take 180 (text_of (member ''commentPreview'' data)) in
        Some (actor @ '' da binh luan vao '' @ post @ ''.'' @
              (if preview \<noteq> '''' then '' '' @ quoted preview else ''''))
      else if ty = ''mention.created'' then
        Some (if title \<noteq> '''' then ''Ban duoc nhac den trong '' @ quoted title @ ''.''
              else ''Ban duoc nhac den trong mot cuoc thao luan.'')
      else None)"

definition titles :: "(string \<times> string) list" where
  "titles =
     [(''answer.created'', ''Co cau tra loi moi''),
      (''answer.accepted'', ''Cau tra loi cua ban da duoc chap nhan''),
      (''mention.created'', ''Ban duoc nhac den''),
      (''badge.awarded'', ''Ban nhan duoc badge moi''),
      (''user.followed'', ''Ban co nguoi theo doi moi''),
      (''discussion.created'', ''Bai viet moi duoc tao''),
      (''comment.created'', ''Co binh luan moi tren bai viet cua ban'')]"

definition title_for :: "string \<Rightarrow> string" where
  "title_for ty = or_else (map_of titles ty) ''Thong bao moi''"

definition bodies :: "(string \<times> string) list" where
  "bodies =
     [(''answer.created'', ''Mot nguoi dung vua tra loi cau hoi cua ban.''),
      (''answer.accepted'', ''Cau tra loi cua ban vua duoc chap nhan.''),
      (''mention.created'', ''Ban vua duoc nhac den trong mot cuoc thao luan.''),
      (''badge.awarded'', ''Ban vua dat duoc mot thanh tuu moi.''),
      (''user.followed'', ''Mot nguoi dung vua bat dau theo doi ban.''),
      (''discussion.created'', ''Ban vua tao mot bai viet moi thanh cong.''),
      (''comment.created'', ''Co nguoi vua binh luan vao bai viet cua ban.'')]"

definition body_for :: "string \<Rightarrow> string" where
  "body_for ty = or_else (map_of bodies ty) ''Ban co mot thong bao moi tren AcaSocial.''"

section \<open>The consumer\<close>

text \<open>The name of an author, asked of the identity service; 404 means a deleted account.\<close>

definition display_name_of :: "json reply \<Rightarrow> failure + string" where
  "display_name_of r =
     (case r of
        NetworkError \<Rightarrow> Inl (Failed ''fetch failed'')
      | Reply st body \<Rightarrow>
          if st = 404 then Inr ''Nguoi dung da xoa tai khoan''
          else if \<not> reply_ok r then Inl (Failed ''Identity display lookup failed'')
          else
            (case body of
               None \<Rightarrow> Inl (Failed ''Invalid JSON'')
             | Some (JObj profile) \<Rightarrow>
                 (case member ''displayName'' profile of
                    Some (JStr name) \<Rightarrow>
                      if trim name = '''' then Inl (Failed ''Identity display lookup returned an invalid profile'')
                      else Inr name
                  | _ \<Rightarrow> Inl (Failed ''Identity display lookup returned an invalid profile''))
             | Some _ \<Rightarrow> Inl (Failed ''Identity display lookup returned an invalid profile'')))"

definition hide_author :: "(string \<times> json) list \<Rightarrow> (string \<times> json) list" where
  "hide_author data = delete_member ''senderId'' (delete_member ''actorName'' (set_member ''actorId'' JNull data))"

definition resolve_author :: "notify_env \<Rightarrow> domain_event \<Rightarrow> failure + (string \<times> json) list" where
  "resolve_author e ev =
     (let data = ev_data ev in
      if ev_type ev \<noteq> ''comment.created'' then Inr data
      else if member ''isAnonymous'' data = Some (JBool True) then Inr (hide_author data)
      else if member ''isAnonymous'' data = Some (JBool False) then
        (case member ''actorId'' data of
           Some (JStr actor) \<Rightarrow>
             (case display_name_of (ne_display e actor) of
                Inl f \<Rightarrow> Inl f
              | Inr name \<Rightarrow> Inr (set_member ''actorName'' (JStr name) data))
         | _ \<Rightarrow> Inr data)
      else Inr data)"

definition optional_string :: "json option \<Rightarrow> string option" where
  "optional_string v = (case v of Some (JStr t) \<Rightarrow> if t \<noteq> '''' then Some t else None | _ \<Rightarrow> None)"

definition new_notification :: "notify_env \<Rightarrow> string \<Rightarrow> domain_event \<Rightarrow> (string \<times> json) list \<Rightarrow> notification" where
  "new_notification e recipient ev data =
     \<lparr>n_id = ne_fresh e, n_recipientId = recipient,
      n_actorId = optional_string (or_opt (present_member ''actorId'' data) (member ''senderId'' data)),
      n_type = ev_type ev, n_title = title_for (ev_type ev),
      n_body = or_else (contextual_body (ev_type ev) data) (body_for (ev_type ev)), n_data = data,
      n_priority = (if take 7 (ev_type ev) = ''system.'' then ''high'' else ''normal''), n_readAt = None,
      n_createdAt = ne_now e\<rparr>"

definition recipient_of :: "domain_event \<Rightarrow> string" where
  "recipient_of ev = (case recipient_member (ev_data ev) of Some (JStr r) \<Rightarrow> r | _ \<Rightarrow> '''')"

text \<open>
  The claim of the event and its notification are one transaction: when a row with this key exists,
  nothing is written.
\<close>

definition store_notification ::
  "notify_env \<Rightarrow> domain_event \<Rightarrow> notification \<Rightarrow> notify_state \<Rightarrow> (failure + notification option) \<times> notify_state" where
  "store_notification e ev n s =
     (if ev_id ev \<in> set (inboxEvents s) then (Inr None, s)
      else if exists_where (\<lambda>x. n_id x = n_id n) (notifications s) then (Inl (Failed ''notifications_pkey''), s)
      else (Inr (Some n), s\<lparr>inboxEvents := inboxEvents s @ [ev_id ev], notifications := notifications s @ [n]\<rparr>))"

definition process_event ::
  "notify_env \<Rightarrow> domain_event \<Rightarrow> notify_state \<Rightarrow> (failure + notification option) \<times> notify_state" where
  "process_event e ev s =
     (if recipient_of ev = '''' then (Inr None, s)
      else if ev_id ev \<in> set (inboxEvents s) then (Inr None, s)
      else
        (case resolve_author e ev of
           Inl f \<Rightarrow> (Inl f, s)
         | Inr data \<Rightarrow> store_notification e ev (new_notification e (recipient_of ev) ev data) s))"

definition publish_notification :: "notification \<Rightarrow> notify_state \<Rightarrow> notify_state" where
  "publish_notification n s = s\<lparr>pushed := pushed s @ [n]\<rparr>"

datatype verdict = AckMessage | TermMessage | NakMessage nat

definition read_event :: "delivery \<Rightarrow> failure + domain_event" where
  "read_event d =
     (case dl_body d of
        None \<Rightarrow> Inl (InvalidDomainEvent ''Invalid event JSON'')
      | Some v \<Rightarrow>
          (case validate_domain_event v of
             Inl f \<Rightarrow> Inl f
           | Inr ev \<Rightarrow>
               if dl_subject d \<noteq> ''ac.social.'' @ ev_type ev
               then Inl (InvalidDomainEvent ''Event type does not match subject'') else Inr ev))"

definition failure_verdict :: "failure \<Rightarrow> verdict" where
  "failure_verdict f = (case f of InvalidDomainEvent _ \<Rightarrow> TermMessage | Failed _ \<Rightarrow> NakMessage 5000)"

fun settle :: "(failure + notification option) \<times> notify_state \<Rightarrow> verdict \<times> notify_state" where
  "settle (Inl f, s) = (failure_verdict f, s)"
| "settle (Inr None, s) = (AckMessage, s)"
| "settle (Inr (Some n), s) = (AckMessage, publish_notification n s)"

definition consume :: "notify_env \<Rightarrow> delivery \<Rightarrow> notify_state \<Rightarrow> verdict \<times> notify_state" where
  "consume e d s =
     (case read_event d of
        Inl f \<Rightarrow> (failure_verdict f, s)
      | Inr ev \<Rightarrow> settle (process_event e ev s))"

section \<open>Routes\<close>

text \<open>\<open>newest\<close> is the order of the database by creation, latest first.\<close>

definition list_for_user ::
  "(notification list \<Rightarrow> notification list) \<Rightarrow> string \<Rightarrow> nat \<Rightarrow> notify_state \<Rightarrow> notification list" where
  "list_for_user newest recipient limit s =
     take limit (newest (filter (\<lambda>n. n_recipientId n = recipient) (notifications s)))"

definition find_notification :: "string \<Rightarrow> uuid \<Rightarrow> notify_state \<Rightarrow> notification option" where
  "find_notification recipient i s = find_by (\<lambda>n. n_id n = i \<and> n_recipientId n = recipient) (notifications s)"

definition set_read :: "time \<Rightarrow> string \<Rightarrow> uuid \<Rightarrow> notify_state \<Rightarrow> notify_state" where
  "set_read t recipient i s =
     s\<lparr>notifications :=
         update_where (\<lambda>n. n_id n = i \<and> n_recipientId n = recipient)
           (\<lambda>n. n\<lparr>n_readAt := Some (or_else (n_readAt n) t)\<rparr>) (notifications s)\<rparr>"

definition mark_read ::
  "time \<Rightarrow> string \<Rightarrow> uuid \<Rightarrow> notify_state \<Rightarrow> (exn + notification) \<times> notify_state" where
  "mark_read t recipient i s =
     (case find_notification recipient i s of
        None \<Rightarrow> (Inl (NotFound ''Notification not found''), s)
      | Some _ \<Rightarrow>
          let s' = set_read t recipient i s in
          (case find_notification recipient i s' of
             None \<Rightarrow> (Inl (NotFound ''Notification not found''), s')
           | Some saved \<Rightarrow> (Inr saved, publish_notification saved s')))"

text \<open>What the open stream of a user has received since the first \<open>k\<close> notifications were pushed.\<close>

definition stream_for_user :: "string \<Rightarrow> nat \<Rightarrow> notify_state \<Rightarrow> notification list" where
  "stream_for_user userId k s = filter (\<lambda>n. n_recipientId n = userId) (drop k (pushed s))"

datatype notify_call = ListNotifications "nat option" | MarkRead uuid | OpenStream nat

datatype notify_reply = NotificationList "notification list" | SavedNotification notification | Streamed "notification list"

text \<open>
  The guard asks for the user that the gateway puts into the header; \<open>uuid_ok\<close> is \<open>ParseUUIDPipe\<close>. An
  opened stream is looked at after it was opened behind the first pushed notifications.
\<close>

definition notifications_controller ::
  "time \<Rightarrow> (uuid \<Rightarrow> bool) \<Rightarrow> (notification list \<Rightarrow> notification list) \<Rightarrow> string option \<Rightarrow> notify_call \<Rightarrow> notify_state \<Rightarrow>
   (exn + notify_reply) \<times> notify_state" where
  "notifications_controller t uuid_ok newest userHeader call s =
     (case truthy userHeader of
        None \<Rightarrow> (Inl (Unauthorized ''Authentication required''), s)
      | Some userId \<Rightarrow>
          (case call of
             ListNotifications limit \<Rightarrow>
               if if_present (\<lambda>n. 1 \<le> n \<and> n \<le> 100) limit
               then (Inr (NotificationList (list_for_user newest userId (or_else limit 20) s)), s)
               else (Inl (BadRequest ''Validation failed''), s)
           | MarkRead i \<Rightarrow>
               if \<not> uuid_ok i then (Inl (BadRequest ''Validation failed (uuid is expected)''), s)
               else (case mark_read t userId i s of
                       (Inl ex, s') \<Rightarrow> (Inl ex, s')
                     | (Inr n, s') \<Rightarrow> (Inr (SavedNotification n), s'))
           | OpenStream k \<Rightarrow> (Inr (Streamed (stream_for_user userId k s)), s)))"

section \<open>The service\<close>

definition empty_notify :: notify_state where
  "empty_notify = \<lparr>inboxEvents = [], notifications = [], pushed = []\<rparr>"

text \<open>
  A step is a delivery, as often and in whatever order the stream makes it, or a request. Deliveries of the
  same event may overlap: then the check and the lookup of one belong to an earlier state than its
  transaction.
\<close>

inductive notify_step :: "notify_state \<Rightarrow> notify_state \<Rightarrow> bool" where
  delivered: "notify_step s (snd (consume e d s))"
| overlapping: "read_event d = Inr ev \<Longrightarrow> recipient_of ev \<noteq> '''' \<Longrightarrow> resolve_author e ev = Inr data \<Longrightarrow>
    notify_step s (snd (settle (store_notification e ev (new_notification e (recipient_of ev) ev data) s)))"
| requested: "notify_step s (snd (notifications_controller t uuid_ok newest userHeader call s))"

abbreviation notify_reachable :: "notify_state \<Rightarrow> bool" where
  "notify_reachable s \<equiv> reach (\<lambda>s. s = empty_notify) notify_step s"

end
