(* ===== verification/Notify_Results.thy ===== *)
theory Notify_Results
  imports Notifications
begin

text \<open>
  What the notification service promises: every claimed event has its one notification, a settled event is
  never processed again, the authors of anonymous comments stay out, and reading marks one's own
  notifications once.
\<close>

section \<open>Members\<close>

lemma member_set_member [simp]: "member k (set_member k' v obj) = (if k = k' then Some v else member k obj)"
  by (induction k' v obj rule: set_member.induct) (auto simp: member_def)

lemma member_delete_member [simp]: "member k (delete_member k' obj) = (if k = k' then None else member k obj)"
  by (induction obj) (auto simp: member_def delete_member_def)

lemma present_member_eq: "present_member k obj = (if member k obj = Some JNull then None else member k obj)"
  by (simp add: present_member_def member_def split: option.split json.split)

lemma set_set_member: "set_member k v (set_member k w obj) = set_member k v obj"
  by (induction k w obj rule: set_member.induct) auto

lemma delete_set_member: "delete_member k (set_member k v (delete_member k' obj)) =
    delete_member k (delete_member k' obj)" "delete_member k (set_member k v obj) = delete_member k obj"
  by (induction obj) (auto simp: delete_member_def)

lemma delete_set_other: "k \<noteq> k' \<Longrightarrow> delete_member k (set_member k' v obj) = set_member k' v (delete_member k obj)"
  by (induction k' v obj rule: set_member.induct) (auto simp: delete_member_def)

lemma set_set_other: "k \<noteq> k' \<Longrightarrow> delete_member k (set_member k' x (set_member k v obj)) =
    delete_member k (set_member k' x obj)"
  by (simp add: delete_set_other delete_set_member)

lemma hide_author_set:
  assumes "k \<in> {''actorId'', ''actorName'', ''senderId''}"
  shows "hide_author (set_member k v data) = hide_author data"
  using assms
  by (auto simp: hide_author_def set_set_member delete_set_member delete_set_other)

lemma recipient_set_member:
  "''recipientId'' \<noteq> k \<Longrightarrow> ''receiverId'' \<noteq> k \<Longrightarrow> recipient_member (set_member k v data) = recipient_member data"
  by (simp add: recipient_member_def present_member_eq)

section \<open>One notification for each claimed event\<close>

text \<open>The notification of an event, read or not.\<close>

definition notification_for :: "string \<Rightarrow> notification \<Rightarrow> bool" where
  "notification_for i n \<longleftrightarrow>
     (\<exists>e d ev data. read_event d = Inr ev \<and> ev_id ev = i \<and> recipient_of ev \<noteq> '''' \<and>
        resolve_author e ev = Inr data \<and>
        n\<lparr>n_readAt := None\<rparr> = new_notification e (recipient_of ev) ev data)"

definition notify_ok :: "notify_state \<Rightarrow> bool" where
  "notify_ok s \<longleftrightarrow>
     distinct (inboxEvents s) \<and> distinct (map n_id (notifications s)) \<and>
     list_all2 notification_for (inboxEvents s) (notifications s) \<and>
     (\<forall>p \<in> set (pushed s). \<exists>n \<in> set (notifications s). p\<lparr>n_readAt := None\<rparr> = n\<lparr>n_readAt := None\<rparr>)"

lemma notification_for_new:
  "read_event d = Inr ev \<Longrightarrow> recipient_of ev \<noteq> '''' \<Longrightarrow> resolve_author e ev = Inr data \<Longrightarrow>
    notification_for (ev_id ev) (new_notification e (recipient_of ev) ev data)"
  unfolding notification_for_def
  by (intro exI [of _ e] exI [of _ d] exI [of _ ev] exI [of _ data]) (simp add: new_notification_def)

lemma notify_ok_store:
  assumes "notify_ok s" "notification_for (ev_id ev) n"
  shows "notify_ok (snd (settle (store_notification e ev n s)))"
  using assms
  by (auto simp: store_notification_def notify_ok_def publish_notification_def exists_where_iff list_all2_appendI)

lemma process_event_cases:
  obtains (kept) r where "process_event e ev s = (r, s)" "r = Inr None \<or> (\<exists>f. resolve_author e ev = Inl f \<and> r = Inl f)"
  | (stored) data where "recipient_of ev \<noteq> ''''" "resolve_author e ev = Inr data" "ev_id ev \<notin> set (inboxEvents s)"
      "process_event e ev s = store_notification e ev (new_notification e (recipient_of ev) ev data) s"
  by (cases "resolve_author e ev"; cases "recipient_of ev = '''' \<or> ev_id ev \<in> set (inboxEvents s)")
    (auto simp: process_event_def)

lemma notify_ok_consume: "notify_ok s \<Longrightarrow> notify_ok (snd (consume e d s))"
proof (cases "read_event d")
  case (Inr ev)
  assume ok: "notify_ok s"
  show ?thesis
  proof (cases rule: process_event_cases [of e ev s])
    case (kept r)
    then show ?thesis using ok Inr by (auto simp: consume_def)
  next
    case (stored data)
    then show ?thesis
      using notify_ok_store [OF ok notification_for_new [OF Inr stored(1,2)]] Inr by (simp add: consume_def)
  qed
qed (simp add: consume_def)

lemma n_ids_set_read [simp]: "map n_id (notifications (set_read t r i s)) = map n_id (notifications s)"
  by (simp add: set_read_def update_where_def)

lemma notification_for_read: "notification_for i (n\<lparr>n_readAt := x\<rparr>) = notification_for i n"
  by (simp add: notification_for_def)

lemma list_all2_update:
  "list_all2 P xs ys \<Longrightarrow> (\<And>x y. P x y \<Longrightarrow> P x (f y)) \<Longrightarrow> list_all2 P xs (update_where Q f ys)"
  by (auto simp: update_where_def list_all2_conv_all_nth)

lemma set_read_same:
  "(\<exists>n \<in> set (notifications (set_read t r i s)). p = n\<lparr>n_readAt := None\<rparr>) \<longleftrightarrow>
   (\<exists>n \<in> set (notifications s). p = n\<lparr>n_readAt := None\<rparr>)"
proof -
  have "map (\<lambda>n. n\<lparr>n_readAt := None\<rparr>) (notifications (set_read t r i s)) =
      map (\<lambda>n. n\<lparr>n_readAt := None\<rparr>) (notifications s)"
    by (simp add: set_read_def update_where_def)
  then have "(\<lambda>n. n\<lparr>n_readAt := None\<rparr>) ` set (notifications (set_read t r i s)) =
      (\<lambda>n. n\<lparr>n_readAt := None\<rparr>) ` set (notifications s)"
    by (metis list.set_map)
  then show ?thesis by blast
qed

lemma notify_ok_set_read:
  assumes "notify_ok s" shows "notify_ok (set_read t r i s)"
proof -
  have "list_all2 notification_for (inboxEvents s) (notifications (set_read t r i s))"
    using assms unfolding set_read_def notify_ok_def
    by (simp add: list_all2_update notification_for_read)
  moreover have "inboxEvents (set_read t r i s) = inboxEvents s" "pushed (set_read t r i s) = pushed s"
    by (simp_all add: set_read_def)
  ultimately show ?thesis using assms unfolding notify_ok_def by (simp add: set_read_same)
qed

lemma find_notification_Some:
  "find_notification r i s = Some n \<Longrightarrow> n \<in> set (notifications s) \<and> n_id n = i \<and> n_recipientId n = r"
  by (auto simp: find_notification_def dest: find_by_Some)

lemma notify_ok_publish: "notify_ok s \<Longrightarrow> n \<in> set (notifications s) \<Longrightarrow> notify_ok (publish_notification n s)"
  by (auto simp: notify_ok_def publish_notification_def)

lemma notify_ok_mark_read: "notify_ok s \<Longrightarrow> notify_ok (snd (mark_read t r i s))"
  by (auto simp: mark_read_def Let_def notify_ok_set_read split: option.split
      intro!: notify_ok_publish dest: find_notification_Some)

lemma notifications_controller_state:
  "snd (notifications_controller t uuid_ok newest user call s) = s \<or>
   (\<exists>u i. snd (notifications_controller t uuid_ok newest user call s) = snd (mark_read t u i s))"
proof (cases call)
  case (MarkRead i)
  have "snd (case mark_read t u i s of (Inl ex, s') \<Rightarrow> (Inl ex, s') | (Inr n, s') \<Rightarrow> (Inr (SavedNotification n), s')) =
      snd (mark_read t u i s)" for u
    by (simp split: prod.split sum.split)
  then show ?thesis by (simp add: MarkRead notifications_controller_def split: option.split) blast
qed (simp_all add: notifications_controller_def split: option.split)

interpretation notify_machine:
  inductive_invariant "\<lambda>s. s = empty_notify" notify_step notify_ok
proof
  fix s :: notify_state assume "s = empty_notify"
  then show "notify_ok s" by (simp add: notify_ok_def empty_notify_def)
next
  fix s s' assume ok: "notify_ok s" and step: "notify_step s s'"
  from step show "notify_ok s'"
  proof cases
    case (overlapping d ev e data)
    then show ?thesis using notify_ok_store [OF ok notification_for_new] by simp
  next
    case (requested t uuid_ok newest user call)
    then show ?thesis using ok notify_ok_mark_read notifications_controller_state by metis
  qed (simp add: ok notify_ok_consume)
qed

section \<open>Settled events\<close>

lemma claimed_settle: "i \<in> set (inboxEvents s) \<Longrightarrow> i \<in> set (inboxEvents (snd (settle (store_notification e ev n s))))"
  by (simp add: store_notification_def publish_notification_def)

lemma claimed_consume: "i \<in> set (inboxEvents s) \<Longrightarrow> i \<in> set (inboxEvents (snd (consume e d s)))"
proof (cases "read_event d")
  case (Inr ev)
  assume i: "i \<in> set (inboxEvents s)"
  show ?thesis
    by (cases rule: process_event_cases [of e ev s]) (use i Inr claimed_settle in \<open>auto simp: consume_def\<close>)
qed (simp add: consume_def)

lemma inbox_mark_read [simp]: "inboxEvents (snd (mark_read t r i s)) = inboxEvents s"
  by (simp add: mark_read_def set_read_def publish_notification_def Let_def split: option.split)

lemma claimed_steps: "notify_step\<^sup>*\<^sup>* s s' \<Longrightarrow> i \<in> set (inboxEvents s) \<Longrightarrow> i \<in> set (inboxEvents s')"
proof (induction rule: rtranclp_induct)
  case (step s' s'')
  from step(2) show ?case
  proof cases
    case (requested t uuid_ok newest user call)
    then show ?thesis
      using step notifications_controller_state [of t uuid_ok newest user call s'] by auto
  qed (use step claimed_consume claimed_settle in simp_all)
qed

lemma consume_claimed:
  "read_event d = Inr ev \<Longrightarrow> ev_id ev \<in> set (inboxEvents s) \<Longrightarrow> consume e d s = (AckMessage, s)"
  by (simp add: consume_def process_event_def)

lemma consume_acked:
  assumes "read_event d = Inr ev" "recipient_of ev \<noteq> ''''" "consume e d s = (AckMessage, s')"
  shows "ev_id ev \<in> set (inboxEvents s')"
proof (cases rule: process_event_cases [of e ev s])
  case (kept r)
  then show ?thesis
    using assms
    by (auto simp: consume_def process_event_def store_notification_def failure_verdict_def
        split: if_splits sum.splits failure.splits)
next
  case (stored data)
  then show ?thesis
    using assms
    by (auto simp: consume_def store_notification_def failure_verdict_def publish_notification_def split: if_splits)
qed

section \<open>Reading\<close>

lemma find_set_read:
  assumes "find_notification r i s = Some n"
  shows "find_notification r i (set_read t r i s) = Some (n\<lparr>n_readAt := Some (or_else (n_readAt n) t)\<rparr>)"
proof -
  have "find_by (\<lambda>x. n_id x = i \<and> n_recipientId x = r) ns = Some n \<Longrightarrow>
      find_by (\<lambda>x. n_id x = i \<and> n_recipientId x = r)
        (update_where (\<lambda>x. n_id x = i \<and> n_recipientId x = r) f ns) = Some (f n)"
    if "\<And>x. n_id (f x) = n_id x" "\<And>x. n_recipientId (f x) = n_recipientId x" for ns and f :: "notification \<Rightarrow> notification"
    by (induction ns) (auto simp: find_by_def update_where_def that)
  from this [of "\<lambda>n. n\<lparr>n_readAt := Some (or_else (n_readAt n) t)\<rparr>" "notifications s"]
  show ?thesis using assms by (simp add: find_notification_def set_read_def)
qed

lemma mark_read_cases:
  obtains (missing) "find_notification r i s = None" "mark_read t r i s = (Inl (NotFound ''Notification not found''), s)"
  | (saved) n where "find_notification r i s = Some n"
      "mark_read t r i s = (Inr (n\<lparr>n_readAt := Some (or_else (n_readAt n) t)\<rparr>),
         publish_notification (n\<lparr>n_readAt := Some (or_else (n_readAt n) t)\<rparr>) (set_read t r i s))"
  by (cases "find_notification r i s") (auto simp: mark_read_def find_set_read Let_def)

end
