(* ===== verification/Notify_Chain.thy ===== *)
theory Notify_Chain
  imports Notify_Results Outbox_Frame
begin

text \<open>
  From a comment to the notification of its recipient: the discussion service records the event, its worker
  puts it on the stream, the notification service asks the identity service for the author and stores the
  notification.
\<close>

section \<open>Between the services\<close>

text \<open>The message as the stream delivers it, \<open>JSON.parse\<close> undoing \<open>JSON.stringify\<close>.\<close>

definition delivery_of :: "message \<Rightarrow> delivery" where
  "delivery_of m =
     \<lparr>dl_subject = subject m,
      dl_body = Some (JObj [(''eventId'', JStr (eventId m)), (''eventType'', JStr (eventType m)),
                            (''data'', JObj (eventData m))])\<rparr>"

text \<open>The answer of \<open>GET /internal/users/:id/display\<close> of the identity service; \<open>uuid_ok\<close> is its pipe.\<close>

definition identity_display :: "(uuid \<Rightarrow> bool) \<Rightarrow> identity \<Rightarrow> uuid \<Rightarrow> json reply" where
  "identity_display uuid_ok st i =
     (if \<not> uuid_ok i then Reply 400 None
      else case display_name i st of
          Inl _ \<Rightarrow> Reply 404 None
        | Inr name \<Rightarrow> Reply 200 (Some (JObj [(''displayName'', case name of None \<Rightarrow> JNull | Some n \<Rightarrow> JStr n)])))"

definition blank :: "string \<Rightarrow> bool" where
  "blank t \<longleftrightarrow> trim t = ''''"

lemma read_event_delivery:
  assumes "\<not> blank (o_id ev)" "\<not> blank (o_eventType ev)"
    and "recipient_member (o_payload ev) = None \<or> (\<exists>r. recipient_member (o_payload ev) = Some (JStr r) \<and> \<not> blank r)"
  shows "read_event (delivery_of (message_of ev)) =
    Inr \<lparr>ev_id = o_id ev, ev_type = o_eventType ev, ev_data = o_payload ev\<rparr>"
  using assms
  by (auto simp: read_event_def delivery_of_def message_of_def validate_domain_event_def member_def blank_def)

section \<open>New comments\<close>

lemma create_comment_event:
  assumes "create_comment_body e di dto author post pc t = Inr (c, s')"
  obtains parent where "find_parent dto di t = Inr parent"
    "c = new_comment e di author (map_option c_id parent) dto"
    "or_else (map_option c_authorId parent) (d_authorId post) \<noteq> author \<Longrightarrow>
      \<exists>ev \<in> set (outbox s'). o_id ev = fresh e 1 \<and> o_eventType ev = ''comment.created'' \<and>
        o_payload ev = comment_created_payload post c (or_else (map_option c_authorId parent) (d_authorId post))"
proof -
  from assms obtain parent where parent: "find_parent dto di t = Inr parent"
    unfolding create_comment_body_def by (auto simp: bindE_Inr)
  let ?c = "new_comment e di author (map_option c_id parent) dto"
  let ?r = "or_else (map_option c_authorId parent) (d_authorId post)"
  from assms obtain s0 s1 where *: "c = ?c"
    "(if ?r \<noteq> author then event e 1 ''comment.created'' (comment_created_payload post ?c ?r) s0
      else Inr s0) = Inr s1"
    "emit_mentions e 2 (c_content ?c) author
        \<lparr>mc_entityType = ''comment'', mc_entityId = c_id ?c, mc_discussionId = di,
         mc_discussionTitle = d_title post\<rparr> s1 = Inr s'"
    unfolding create_comment_body_def Let_def parent bindE_simps returns by auto
  have "\<exists>ev \<in> set (outbox s'). o_id ev = fresh e 1 \<and> o_eventType ev = ''comment.created'' \<and>
      o_payload ev = comment_created_payload post c ?r" if "?r \<noteq> author"
  proof -
    let ?ev = "\<lparr>o_id = fresh e 1, o_eventType = ''comment.created'', o_payload = comment_created_payload post c ?r,
      o_createdAt = now e, o_deliveredAt = None, o_attempts = 0, o_nextAttemptAt = now e\<rparr>"
    have "?ev \<in> set (outbox s1)" using *(1,2) that by (auto simp: event_Inr)
    then have "?ev \<in> set (outbox s')" using log_grows_mentions [OF *(3)] by (auto simp: log_grows_def)
    then show ?thesis by (intro bexI [of _ ?ev]) simp_all
  qed
  then show thesis using that parent *(1) by blast
qed

lemma find_parent_content: "content_eq s t \<Longrightarrow> find_parent dto di t = find_parent dto di s"
  by (simp add: find_parent_def content_eq_find(2) cong: option.case_cong)

lemma comment_event:
  assumes "create_comment e di u dto s = (Inr shown, s')"
    and "uid u = Some author" "find_discussion di s = Some post" "find_parent dto di s = Inr parent"
    and "or_else (map_option c_authorId parent) (d_authorId post) \<noteq> author"
  shows "\<exists>ev \<in> set (outbox s'). o_id ev = fresh e 1 \<and> o_eventType ev = ''comment.created'' \<and>
    o_payload ev = comment_created_payload post (new_comment e di author (map_option c_id parent) dto)
      (or_else (map_option c_authorId parent) (d_authorId post))"
proof -
  let ?g = "with_gate e (d_roomId post) u (create_comment_body e di dto author post) s"
  have checks: "bindE (authenticated u) (\<lambda>authorId.
                 bindE (lockPost di s) (\<lambda>post.
                 bindE (requireOpen post) (\<lambda>_.
                 bindE (requireApproved post) (\<lambda>_.
                 Inr (authorId, post))))) = Inr (author, post)"
    using assms(1-3)
    by (auto simp: create_comment_def returns split: sum.splits prod.splits)
  obtain c where g: "?g = (Inr c, s')"
    using assms(1) checks by (auto simp: create_comment_def split: sum.splits prod.splits)
  show ?thesis
  proof (rule with_gate_cases [of e "d_roomId post" u "create_comment_body e di dto author post" s])
    fix pc t c' s''
    assume t: "only_memberships s t" and body: "create_comment_body e di dto author post pc t = Inr (c', s'')"
      and res: "?g = (Inr c', s'')"
    have same: "find_parent dto di t = Inr parent"
      using find_parent_content [OF only_memberships_content_eq [OF t]] assms(4) by simp
    show ?thesis
      by (rule create_comment_event [OF body]) (use same res g assms(5) in auto)
  qed (use g in auto)
qed

section \<open>Texts\<close>

lemma trim_empty: "trim t = '''' \<longleftrightarrow> list_all is_space t"
proof -
  have "list_all is_space t \<longleftrightarrow> list_all is_space (dropWhile is_space t)"
    by (induction t) auto
  then show ?thesis by (simp add: trim_def dropWhile_eq_Nil_conv list_all_iff)
qed

lemma squeeze_spaces: "list_all is_space (squeeze b t) \<longleftrightarrow> list_all is_space t"
  by (induction b t rule: squeeze.induct) (auto simp: is_space_def Let_def)

lemma text_of_blank: "text_of (Some (JStr t)) = '''' \<longleftrightarrow> blank t"
  by (simp add: text_of_def blank_def trim_empty squeeze_spaces)

end
