(* ===== verification/Notify_Spec.thy ===== *)
theory Notify_Spec
  imports Notify_Chain Identity_Sample Sample_Cases
begin

text \<open>
  The properties of the notification service, and of the chain from a comment to its notification.
\<close>

section \<open>A run on concrete data\<close>

definition ne_at :: "time \<Rightarrow> uuid \<Rightarrow> notify_env" where
  "ne_at t i = \<lparr>ne_now = t, ne_fresh = i, ne_display = identity_display (\<lambda>_. True) campus\<rparr>"

text \<open>An anonymous comment whose event carries its author all the same.\<close>

definition leaky_data :: "(string \<times> json) list" where
  "leaky_data = [(''recipientId'', JStr ''r''), (''actorId'', JStr ''s''), (''isAnonymous'', JBool True)]"

definition leaky_delivery :: delivery where
  "leaky_delivery = \<lparr>dl_subject = ''ac.social.comment.created'',
     dl_body = Some (JObj [(''eventId'', JStr ''e1''), (''eventType'', JStr ''comment.created''),
                           (''data'', JObj leaky_data)])\<rparr>"

definition leaky_event :: domain_event where
  "leaky_event = \<lparr>ev_id = ''e1'', ev_type = ''comment.created'', ev_data = leaky_data\<rparr>"

definition told :: notify_state where
  "told = snd (consume (ne_at 5 ''n1'') leaky_delivery empty_notify)"

lemma read_leaky: "read_event leaky_delivery = Inr leaky_event" "recipient_of leaky_event = ''r''"
  by code_simp+

lemma told_eq: "consume (ne_at 5 ''n1'') leaky_delivery empty_notify = (AckMessage, told)"
  "inboxEvents told = [''e1'']" "map n_id (notifications told) = [''n1'']"
  "map n_recipientId (notifications told) = [''r'']"
  by code_simp+

lemma reachable_told: "notify_reachable told"
proof -
  have "notify_reachable empty_notify" by (rule reach.started) simp
  then show ?thesis unfolding told_def by (rule reach.stepped) (rule notify_step.delivered)
qed

section \<open>Delivery\<close>

text \<open>
  C20. In every reachable state, however often and however overlapped the stream delivers, no event is
  claimed twice, and the notifications are, one by one, those of the claimed events; whatever was pushed to
  an open stream is a stored notification.
\<close>

theorem one_notification_per_event:
  assumes "notify_reachable s"
  shows "distinct (inboxEvents s) \<and> distinct (map n_id (notifications s)) \<and>
    length (notifications s) = length (inboxEvents s) \<and>
    (\<forall>k < length (inboxEvents s). \<exists>e d ev data. read_event d = Inr ev \<and> ev_id ev = inboxEvents s ! k \<and>
       recipient_of ev \<noteq> '''' \<and> resolve_author e ev = Inr data \<and>
       (notifications s ! k)\<lparr>n_readAt := None\<rparr> = new_notification e (recipient_of ev) ev data) \<and>
    (\<forall>p \<in> set (pushed s). \<exists>n \<in> set (notifications s). p\<lparr>n_readAt := None\<rparr> = n\<lparr>n_readAt := None\<rparr>)"
proof -
  have "notify_ok s" using notify_machine.holds assms by blast
  then show ?thesis
    unfolding notify_ok_def notification_for_def by (simp add: list_all2_conv_all_nth)
qed

theorem one_notification_per_event_witness:
  "notify_reachable told \<and> length (notifications told) = 1 \<and> distinct (inboxEvents told)"
  using one_notification_per_event [OF reachable_told] reachable_told told_eq(2) by simp

text \<open>
  Once an event that has a recipient is acknowledged, it is claimed, and every later delivery of it is
  acknowledged without changing anything, even when the identity service is down.
\<close>

theorem settled_event_ignored:
  assumes "read_event d = Inr ev" "recipient_of ev \<noteq> ''''" "consume e d s = (AckMessage, s')"
    and "notify_step\<^sup>*\<^sup>* s' s''" and "read_event d' = Inr ev'" "ev_id ev' = ev_id ev"
  shows "ev_id ev \<in> set (inboxEvents s') \<and> consume e' d' s'' = (AckMessage, s'')"
proof -
  have claimed: "ev_id ev \<in> set (inboxEvents s')" by (rule consume_acked [OF assms(1-3)])
  then show ?thesis
    using consume_claimed [OF assms(5), of s'' e'] claimed_steps [OF assms(4) claimed] assms(6) by simp
qed

theorem settled_event_ignored_witness:
  "''e1'' \<in> set (inboxEvents told) \<and>
    consume ((ne_at 9 ''n2'')\<lparr>ne_display := (\<lambda>_. NetworkError)\<rparr>) leaky_delivery told = (AckMessage, told)"
  using settled_event_ignored [OF read_leaky(1) _ told_eq(1) rtranclp.rtrancl_refl read_leaky(1) refl]
  by (simp add: read_leaky(2)) (simp add: leaky_event_def)

text \<open>
  A delivery is terminated exactly when it is no well-formed event of its subject, and otherwise
  acknowledged or asked for again in five seconds. A delivery that is not acknowledged changes nothing, and
  one that fails although the event is well formed has a recipient, is new, and either its author could not
  be looked up or the database refused its key.
\<close>

theorem delivery_verdicts:
  "(fst (consume e d s) = TermMessage \<longleftrightarrow> (\<exists>f. read_event d = Inl f)) \<and>
   fst (consume e d s) \<in> {AckMessage, TermMessage, NakMessage 5000} \<and>
   (fst (consume e d s) \<noteq> AckMessage \<longrightarrow> snd (consume e d s) = s) \<and>
   (\<forall>ev. read_event d = Inr ev \<and> fst (consume e d s) \<noteq> AckMessage \<longrightarrow>
      recipient_of ev \<noteq> '''' \<and> ev_id ev \<notin> set (inboxEvents s) \<and>
      ((\<exists>f. resolve_author e ev = Inl f) \<or> ne_fresh e \<in> n_id ` set (notifications s)))"
proof (cases "read_event d")
  case (Inl f)
  then have "failure_verdict f = TermMessage"
    by (auto simp: read_event_def validate_domain_event_def failure_verdict_def
        split: option.splits json.splits if_splits sum.splits prod.splits failure.splits)
  then show ?thesis using Inl by (simp add: consume_def)
next
  case (Inr ev)
  have failed: "\<exists>m. f = Failed m" if "resolve_author e ev = Inl f" for f
    using that
    by (auto simp: resolve_author_def display_name_of_def Let_def
        split: if_splits option.splits json.splits sum.splits reply.splits)
  show ?thesis
  proof (cases rule: process_event_cases [of e ev s])
    case (kept r)
    then show ?thesis
      using Inr failed
      by (auto simp: consume_def failure_verdict_def process_event_def split: if_splits sum.splits failure.splits)
  next
    case (stored data)
    then show ?thesis
      using Inr
      by (auto simp: consume_def store_notification_def new_notification_def exists_where_iff
          failure_verdict_def split: if_splits) (metis imageI)
  qed
qed

theorem delivery_verdicts_witness:
  "fst (consume (ne_at 5 ''n1'') \<lparr>dl_subject = ''ac.social.x'', dl_body = None\<rparr> told) = TermMessage \<and>
   snd (consume (ne_at 5 ''n1'') \<lparr>dl_subject = ''ac.social.x'', dl_body = None\<rparr> told) = told"
  using delivery_verdicts [of "ne_at 5 ''n1''" "\<lparr>dl_subject = ''ac.social.x'', dl_body = None\<rparr>" told]
  by (simp add: read_event_def)

section \<open>Anonymity\<close>

text \<open>
  C21. The notification of an anonymous comment does not depend on who wrote it: whatever the event says
  about its author, and whatever the identity service would answer, the outcome is the same, and no author
  is recorded.
\<close>

theorem anonymous_comment_secret:
  assumes "ev_type ev = ''comment.created''" and "member ''isAnonymous'' (ev_data ev) = Some (JBool True)"
    and "k \<in> {''actorId'', ''actorName'', ''senderId''}" and "ne_now e' = ne_now e" "ne_fresh e' = ne_fresh e"
  shows "process_event e' (ev\<lparr>ev_data := set_member k v (ev_data ev)\<rparr>) s = process_event e ev s \<and>
    (\<forall>n s'. process_event e ev s = (Inr (Some n), s') \<longrightarrow> n_actorId n = None)"
proof -
  let ?ev = "ev\<lparr>ev_data := set_member k v (ev_data ev)\<rparr>"
  have anon: "member ''isAnonymous'' (ev_data ?ev) = Some (JBool True)" using assms(2,3) by auto
  have data: "resolve_author e' ?ev = Inr (hide_author (ev_data ev))" "resolve_author e ev = Inr (hide_author (ev_data ev))"
    using assms(1,2) anon hide_author_set [OF assms(3)] by (simp_all add: resolve_author_def)
  have recipient: "recipient_of ?ev = recipient_of ev"
    using assms(3) recipient_set_member [of k v "ev_data ev"] by (auto simp: recipient_of_def)
  have same: "new_notification e' r ?ev d = new_notification e r ev d" for r d
    using assms(4,5) by (simp add: new_notification_def)
  have "n_actorId (new_notification e r ev (hide_author (ev_data ev))) = None" for r
    by (simp add: new_notification_def hide_author_def present_member_eq optional_string_def)
  then show ?thesis
    using data recipient same
    by (auto simp: process_event_def store_notification_def exists_where_iff split: if_splits)
qed

theorem anonymous_comment_secret_witness:
  "process_event (ne_at 5 ''n1'') (leaky_event\<lparr>ev_data := set_member ''actorId'' (JStr ''r'') leaky_data\<rparr>) empty_notify =
   process_event (ne_at 5 ''n1'') leaky_event empty_notify"
  using anonymous_comment_secret [of leaky_event "''actorId''" "ne_at 5 ''n1''" "ne_at 5 ''n1''" "JStr ''r''" empty_notify]
  by (simp add: leaky_event_def) (simp add: leaky_data_def member_def)

section \<open>From a comment to its notification\<close>

text \<open>
  C22. Whoever is commented on, the author of the parent comment or else of the post, is notified: a created
  comment leaves an event in the outbox, and the notification service makes of it one unread notification
  of that recipient, with the name of the author from the identity service, or with no author when the
  comment is anonymous, and pushes it to his streams.
\<close>

theorem comment_notifies:
  assumes create: "create_comment e di u dto s = (Inr shown, s')"
    and places: "uid u = Some author" "find_discussion di s = Some post" "find_parent dto di s = Inr parent"
    and recipient: "r = or_else (map_option c_authorId parent) (d_authorId post)" "r \<noteq> author"
    and ids: "\<not> blank (fresh e 1)" "\<not> blank r" "author \<noteq> ''''"
    and new: "fresh e 1 \<notin> set (inboxEvents ns)" "ne_fresh ne \<notin> n_id ` set (notifications ns)"
    and anon: "anon = or_else (nc_isAnonymous dto) False"
    and author: "anon \<or> (ne_display ne = identity_display uuid_ok st \<and> uuid_ok author \<and>
      find_user author st = Some p \<and> \<not> blank (u_fullName p))"
    and texts: "title = take 300 (text_of (Some (JStr (d_title post))))"
      "preview = take 180 (text_of (Some (JStr (comment_preview (nc_content dto)))))"
  shows "\<exists>ev \<in> set (outbox s'). \<exists>n ns'. consume ne (delivery_of (message_of ev)) ns = (AckMessage, ns') \<and>
    notifications ns' = notifications ns @ [n] \<and> pushed ns' = pushed ns @ [n] \<and>
    n_recipientId n = r \<and> n_readAt n = None \<and> n_type n = ''comment.created'' \<and>
    n_actorId n = (if anon then None else Some author) \<and>
    n_body n = (if anon then ''Nguoi dung an danh'' else text_of (Some (JStr (u_fullName p)))) @
      '' da binh luan vao '' @ (if title = '''' then ''bai viet cua ban'' else ''bai viet '' @ quoted title) @ ''.'' @
      (if preview = '''' then '''' else '' '' @ quoted preview)"
proof -
  let ?c = "new_comment e di author (map_option c_id parent) dto"
  obtain ev where ev: "ev \<in> set (outbox s')" "o_id ev = fresh e 1" "o_eventType ev = ''comment.created''"
    "o_payload ev = comment_created_payload post ?c r"
    using comment_event [OF create places] recipient by blast
  let ?d = "comment_created_payload post ?c r"
  have read: "read_event (delivery_of (message_of ev)) =
      Inr \<lparr>ev_id = fresh e 1, ev_type = ''comment.created'', ev_data = ?d\<rparr>" (is "_ = Inr ?ev")
    using read_event_delivery [of ev] ev ids
    by (simp add: recipient_member_def present_member_def comment_created_payload_def) (simp add: blank_def trim_def is_space_def)
  have to: "recipient_of ?ev = r" "r \<noteq> ''''"
    using ids(2) by (auto simp: recipient_of_def recipient_member_def present_member_def comment_created_payload_def
        blank_def trim_def)
  define data where "data = (if anon then hide_author ?d else set_member ''actorName'' (JStr (u_fullName p)) ?d)"
  have members: "member ''isAnonymous'' ?d = Some (JBool anon)"
    "member ''actorId'' ?d = Some (if anon then JNull else JStr author)"
    by (simp_all add: comment_created_payload_def member_def new_comment_def anon)
  have resolved: "resolve_author ne ?ev = Inr data"
  proof (cases anon)
    case True
    then show ?thesis using members by (simp add: resolve_author_def data_def)
  next
    case False
    then have "u_fullName p \<noteq> ''''" using author by (auto simp: blank_def trim_def)
    then have "display_name_of (ne_display ne author) = Inr (u_fullName p)"
      using False author
      by (simp add: identity_display_def display_name_def display_name_of_def member_def blank_def)
    then show ?thesis using False members by (simp add: resolve_author_def data_def)
  qed
  let ?n = "new_notification ne r ?ev data"
  have "consume ne (delivery_of (message_of ev)) ns = settle (store_notification ne ?ev ?n ns)"
    using read to resolved new(1) by (simp add: consume_def process_event_def)
  moreover have "\<not> exists_where (\<lambda>x. n_id x = n_id ?n) (notifications ns)"
    using new(2) by (auto simp: exists_where_iff new_notification_def) (metis imageI)
  then have "store_notification ne ?ev ?n ns =
      (Inr (Some ?n), ns\<lparr>inboxEvents := inboxEvents ns @ [fresh e 1], notifications := notifications ns @ [?n]\<rparr>)"
    using new(1) by (simp add: store_notification_def)
  ultimately have run: "consume ne (delivery_of (message_of ev)) ns =
      (AckMessage, publish_notification ?n (ns\<lparr>inboxEvents := inboxEvents ns @ [fresh e 1],
        notifications := notifications ns @ [?n]\<rparr>))"
    by (simp only: settle.simps)
  have actor: "n_actorId ?n = (if anon then None else Some author)"
    using members ids(3)
    by (simp add: new_notification_def data_def hide_author_def present_member_eq optional_string_def)
  have parts: "member ''isAnonymous'' data = Some (JBool anon)" "member ''actorName'' data =
      (if anon then None else Some (JStr (u_fullName p)))"
    "present_member ''discussionTitle'' data = Some (JStr (d_title post))"
    "member ''commentPreview'' data = Some (JStr (comment_preview (nc_content dto)))"
    using members by (simp_all add: data_def hide_author_def present_member_eq)
      (simp_all add: comment_created_payload_def member_def new_comment_def)
  have body: "n_body ?n = (if anon then ''Nguoi dung an danh'' else text_of (Some (JStr (u_fullName p)))) @
      '' da binh luan vao '' @ (if title = '''' then ''bai viet cua ban'' else ''bai viet '' @ quoted title) @ ''.'' @
      (if preview = '''' then '''' else '' '' @ quoted preview)"
    using author text_of_blank [of "u_fullName p"]
    by (auto simp: new_notification_def contextual_body_def Let_def parts texts)
  then show ?thesis
  proof (intro bexI [OF _ ev(1)] exI conjI)
    show "consume ne (delivery_of (message_of ev)) ns = (AckMessage, publish_notification ?n
        (ns\<lparr>inboxEvents := inboxEvents ns @ [fresh e 1], notifications := notifications ns @ [?n]\<rparr>))"
      by (rule run)
    show "n_actorId ?n = (if anon then None else Some author)" by (rule actor)
    show "n_body ?n = (if anon then ''Nguoi dung an danh'' else text_of (Some (JStr (u_fullName p)))) @
      '' da binh luan vao '' @ (if title = '''' then ''bai viet cua ban'' else ''bai viet '' @ quoted title) @ ''.'' @
      (if preview = '''' then '''' else '' '' @ quoted preview)" by (rule body)
  qed (simp_all add: publish_notification_def new_notification_def)
qed

definition bob_user :: user where
  "bob_user = stud_user\<lparr>u_id := ''bob'', u_fullName := ''Bob Bui''\<rparr>"

definition bobs_campus :: identity where
  "bobs_campus = campus\<lparr>users := [bob_user]\<rparr>"

theorem comment_notifies_witness:
  "\<exists>ev n ns'. consume ((ne_at 7 ''n2'')\<lparr>ne_display := identity_display (\<lambda>_. True) bobs_campus\<rparr>)
      (delivery_of (message_of ev)) told = (AckMessage, ns') \<and>
    notifications ns' = notifications told @ [n] \<and> n_recipientId n = ''ann'' \<and>
    n_body n = ''Bob Bui da binh luan vao bai viet '' @ quoted ''A sample question'' @ ''. '' @ quoted ''Thank you''"
proof -
  let ?e = "sample_env ''cmt'' 6" and ?s = "database world4"
  let ?ne = "(ne_at 7 ''n2'')\<lparr>ne_display := identity_display (\<lambda>_. True) bobs_campus\<rparr>"
  have "\<exists>shown. fst (create_comment ?e ''post'' bob comment_dto ?s) = Inr shown"
  proof -
    have "case fst (create_comment ?e ''post'' bob comment_dto ?s) of Inl _ \<Rightarrow> False | Inr _ \<Rightarrow> True" by code_simp
    then show ?thesis by (simp split: sum.splits)
  qed
  then obtain shown s' where create: "create_comment ?e ''post'' bob comment_dto ?s = (Inr shown, s')"
    by (metis prod.collapse)
  have places: "uid bob = Some ''bob''" "find_parent comment_dto ''post'' ?s = Inr None"
    by (simp_all add: bob_def comment_dto_def find_parent_def)
  have to: "''ann'' = or_else (map_option c_authorId None) (d_authorId open_post)" "''ann'' \<noteq> ''bob''"
    by code_simp+
  have ids: "\<not> blank (fresh ?e 1)" "\<not> blank ''ann''" "''bob'' \<noteq> ''''"
    by code_simp+
  have "fresh ?e 1 = ''cmtx''" by (simp add: sample_env_def)
  then have new: "fresh ?e 1 \<notin> set (inboxEvents told)" "ne_fresh ?ne \<notin> n_id ` set (notifications told)"
    using told_eq(2,3) by (simp_all add: ne_at_def flip: list.set_map)
  have anon: "False = or_else (nc_isAnonymous comment_dto) False" by (simp add: comment_dto_def)
  have name: "u_fullName bob_user = ''Bob Bui''"
    by (simp add: bob_user_def stud_user_def root_user_def)
  have author: "False \<or> (ne_display ?ne = identity_display (\<lambda>_. True) bobs_campus \<and> True \<and>
      find_user ''bob'' bobs_campus = Some bob_user \<and> \<not> blank (u_fullName bob_user))"
    by (simp add: find_user_def find_by_def bobs_campus_def campus_def name)
      (simp add: bob_user_def stud_user_def root_user_def u_live_def blank_def trim_def is_space_def)
  have texts: "''A sample question'' = take 300 (text_of (Some (JStr (d_title open_post))))"
    "''Thank you'' = take 180 (text_of (Some (JStr (comment_preview (nc_content comment_dto)))))"
    by code_simp+
  have shown_name: "text_of (Some (JStr ''Bob Bui'')) = ''Bob Bui''" by code_simp
  show ?thesis
    using comment_notifies [OF create places(1) world4_found(1) places(2) to ids new anon author texts]
    unfolding name shown_name by auto
qed

section \<open>Reading\<close>

text \<open>
  Whoever marks a notification as read has it marked at the first such moment, and nobody else's
  notification changes; a notification that is not the caller's is not found, and nothing changes.
\<close>

theorem reading_marks_own:
  "case find_notification r i s of
     None \<Rightarrow> mark_read t r i s = (Inl (NotFound ''Notification not found''), s)
   | Some n \<Rightarrow> \<exists>s'. mark_read t r i s = (Inr (n\<lparr>n_readAt := Some (or_else (n_readAt n) t)\<rparr>), s') \<and>
       find_notification r i s' = Some (n\<lparr>n_readAt := Some (or_else (n_readAt n) t)\<rparr>) \<and>
       filter (\<lambda>m. n_recipientId m \<noteq> r) (notifications s') = filter (\<lambda>m. n_recipientId m \<noteq> r) (notifications s) \<and>
       fst (mark_read t' r i s') = Inr (n\<lparr>n_readAt := Some (or_else (n_readAt n) t)\<rparr>)"
proof (cases rule: mark_read_cases [of r i s t])
  case (saved n)
  let ?n = "n\<lparr>n_readAt := Some (or_else (n_readAt n) t)\<rparr>"
  let ?s = "publish_notification ?n (set_read t r i s)"
  have found: "find_notification r i ?s = Some ?n"
    using find_set_read [OF saved(1), of t] by (simp add: find_notification_def publish_notification_def)
  have "fst (mark_read t' r i ?s) = Inr ?n"
    by (cases rule: mark_read_cases [of r i ?s t']) (use found in auto)
  moreover have "filter (\<lambda>m. n_recipientId m \<noteq> r) (notifications ?s) = filter (\<lambda>m. n_recipientId m \<noteq> r) (notifications s)"
    unfolding set_read_def publish_notification_def by simp (rule filter_update_where_other, simp)
  ultimately show ?thesis using saved found by auto
qed simp

end
