(* ===== verification/Academic.thy ===== *)
theory Academic
  imports Complex_Main Controllers Machines
begin

text \<open>
  The academic service (\<open>services/academic-service/src\<close>): the catalogue of majors, courses, curricula and
  topics, its administration, and the contexts that the discussion service asks for. Every handler writes
  at most once, after all its checks, or in a transaction; so an exception leaves the tables as they were. The
  columns that the service never writes (provenance, sources, official codes, keywords, the taxonomy version,
  training programs) and the keys of course topics are left out.
\<close>

section \<open>Tables\<close>

datatype catalog_status = CatalogActive | CatalogInactive
datatype curriculum_status = DraftCurriculum | ActiveCurriculum | RetiredCurriculum
datatype course_type = RequiredCourse | ElectiveCourse

record major_row =
  maj_id :: uuid
  maj_code :: string
  maj_name :: string
  maj_description :: string
  maj_status :: catalog_status
  maj_createdAt :: time

record course_row =
  crs_id :: uuid
  crs_code :: "string option"
  crs_name :: string
  crs_description :: string
  crs_status :: catalog_status
  crs_createdAt :: time

record curriculum_row =
  cur_id :: uuid
  cur_majorId :: uuid
  cur_version :: string
  cur_effectiveYear :: int
  cur_status :: curriculum_status
  cur_createdAt :: time

record curriculum_course_row =
  ccr_id :: uuid
  ccr_curriculumId :: uuid
  ccr_courseId :: uuid
  ccr_courseType :: course_type
  ccr_recommendedSemester :: "int option"
  ccr_displayOrder :: int

record topic_row =
  tpc_id :: uuid
  tpc_code :: string
  tpc_name :: string
  tpc_description :: string
  tpc_parentTopicId :: "uuid option"
  tpc_status :: catalog_status
  tpc_createdAt :: time

record course_topic_row =
  ctp_courseId :: uuid
  ctp_topicId :: uuid
  ctp_relevanceWeight :: rat

record academic =
  majorRows :: "major_row list"
  courseRows :: "course_row list"
  curriculumRows :: "curriculum_row list"
  curriculumCourseRows :: "curriculum_course_row list"
  topicRows :: "topic_row list"
  courseTopicRows :: "course_topic_row list"

text \<open>
  What a call takes from outside: the time, a new id, the checks \<open>ParseUUIDPipe\<close> and \<open>IsUUID\<close> (\<open>ae_valid_uuid\<close>),
  what the database reads as a uuid (\<open>ae_pg_uuid\<close>), the token of the services and the orders of its queries.
\<close>

record academic_env =
  ae_now :: time
  ae_fresh :: uuid
  ae_valid_uuid :: "string \<Rightarrow> bool"
  ae_pg_uuid :: "string \<Rightarrow> bool"
  ae_token :: "string option"
  ae_newestMajors :: "major_row list \<Rightarrow> major_row list"
  ae_newestCourses :: "course_row list \<Rightarrow> course_row list"
  ae_newestTopics :: "topic_row list \<Rightarrow> topic_row list"
  ae_latestCurricula :: "curriculum_row list \<Rightarrow> curriculum_row list"
  ae_displayed :: "curriculum_course_row list \<Rightarrow> curriculum_course_row list"

type_synonym 'a catalog_op = "academic \<Rightarrow> exn + 'a \<times> academic"

definition find_major :: "uuid \<Rightarrow> academic \<Rightarrow> major_row option" where
  "find_major i s = find_by (\<lambda>m. maj_id m = i) (majorRows s)"

definition find_course :: "uuid \<Rightarrow> academic \<Rightarrow> course_row option" where
  "find_course i s = find_by (\<lambda>c. crs_id c = i) (courseRows s)"

definition find_curriculum :: "uuid \<Rightarrow> academic \<Rightarrow> curriculum_row option" where
  "find_curriculum i s = find_by (\<lambda>c. cur_id c = i) (curriculumRows s)"

definition find_topic :: "uuid \<Rightarrow> academic \<Rightarrow> topic_row option" where
  "find_topic i s = find_by (\<lambda>t. tpc_id t = i) (topicRows s)"

text \<open>\<open>exists\<close> and the translation of a broken unique constraint.\<close>

definition must_exist :: "'a option \<Rightarrow> string \<Rightarrow> exn + unit" where
  "must_exist row label = bindE (someE row (NotFound (label @ '' not found''))) (\<lambda>_. Inr ())"

definition on_duplicate :: "string \<Rightarrow> exn + 'a \<Rightarrow> exn + 'a" where
  "on_duplicate msg r = (case r of Inl (UniqueViolation _) \<Rightarrow> Inl (Conflict msg) | _ \<Rightarrow> r)"

section \<open>Requests\<close>

record catalog_dto =
  kd_code :: string
  kd_name :: string
  kd_description :: "string option"
  kd_status :: "catalog_status option"

record update_catalog_dto =
  uk_name :: "string option"
  uk_description :: "string option"
  uk_status :: "catalog_status option"

record curriculum_dto =
  kc_majorId :: uuid
  kc_version :: string
  kc_effectiveYear :: int
  kc_status :: "curriculum_status option"

record curriculum_course_dto =
  kk_curriculumId :: uuid
  kk_courseId :: uuid
  kk_courseType :: course_type
  kk_recommendedSemester :: "int option"
  kk_displayOrder :: "int option"

record topic_dto =
  kt_code :: string
  kt_name :: string
  kt_description :: "string option"
  kt_parentTopicId :: "uuid option"
  kt_status :: "catalog_status option"

text \<open>A parent that is absent stays (\<open>None\<close>), one that is \<open>null\<close> is removed (\<open>Some None\<close>).\<close>

record update_topic_dto =
  ut_catalog :: update_catalog_dto
  ut_parentTopicId :: "uuid option option"

record course_topic_item =
  ci_topicId :: uuid
  ci_relevanceWeight :: "rat option"

section \<open>Queries\<close>

text \<open>\<open>newest\<close> and the other orders are those of the database.\<close>

record 'a row_page =
  pr_data :: "'a list"
  pr_page :: nat
  pr_limit :: nat
  pr_totalItems :: nat
  pr_totalPages :: nat

definition paged_rows :: "('a list \<Rightarrow> 'a list) \<Rightarrow> nat \<Rightarrow> nat \<Rightarrow> 'a list \<Rightarrow> 'a row_page" where
  "paged_rows newest page limit rows =
     \<lparr>pr_data = take limit (drop ((page - 1) * limit) (newest rows)), pr_page = page, pr_limit = limit,
      pr_totalItems = length rows, pr_totalPages = (length rows + limit - 1) div limit\<rparr>"

definition curricula_of :: "(curriculum_row list \<Rightarrow> curriculum_row list) \<Rightarrow> uuid \<Rightarrow> academic \<Rightarrow> curriculum_row list" where
  "curricula_of latest majorId s = latest (filter (\<lambda>c. cur_majorId c = majorId) (curriculumRows s))"

definition curriculum_courses_of ::
  "(curriculum_course_row list \<Rightarrow> curriculum_course_row list) \<Rightarrow> uuid \<Rightarrow> academic \<Rightarrow>
   (curriculum_course_row \<times> course_row option) list" where
  "curriculum_courses_of displayed curriculumId s =
     map (\<lambda>x. (x, find_course (ccr_courseId x) s))
       (displayed (filter (\<lambda>x. ccr_curriculumId x = curriculumId) (curriculumCourseRows s)))"

definition course_topics_of :: "uuid \<Rightarrow> academic \<Rightarrow> (course_topic_row \<times> topic_row option) list" where
  "course_topics_of courseId s =
     map (\<lambda>x. (x, find_topic (ctp_topicId x) s)) (filter (\<lambda>x. ctp_courseId x = courseId) (courseTopicRows s))"

section \<open>Majors and courses\<close>

definition insert_major :: "major_row \<Rightarrow> major_row catalog_op" where
  "insert_major m s =
     (if exists_where (\<lambda>x. maj_id x = maj_id m \<or> maj_code x = maj_code m) (majorRows s)
      then Inl (UniqueViolation ''majors'') else Inr (m, s\<lparr>majorRows := majorRows s @ [m]\<rparr>))"

definition insert_course :: "course_row \<Rightarrow> course_row catalog_op" where
  "insert_course c s =
     (if exists_where (\<lambda>x. crs_id x = crs_id c \<or> crs_code c \<noteq> None \<and> crs_code x = crs_code c) (courseRows s)
      then Inl (UniqueViolation ''courses'') else Inr (c, s\<lparr>courseRows := courseRows s @ [c]\<rparr>))"

definition create_major :: "academic_env \<Rightarrow> catalog_dto \<Rightarrow> major_row catalog_op" where
  "create_major e dto s =
     on_duplicate ''major code already exists''
       (insert_major
          \<lparr>maj_id = ae_fresh e, maj_code = kd_code dto, maj_name = kd_name dto,
           maj_description = or_else (kd_description dto) '''',
           maj_status = or_else (kd_status dto) CatalogActive, maj_createdAt = ae_now e\<rparr> s)"

definition create_course :: "academic_env \<Rightarrow> catalog_dto \<Rightarrow> course_row catalog_op" where
  "create_course e dto s =
     on_duplicate ''course code already exists''
       (insert_course
          \<lparr>crs_id = ae_fresh e, crs_code = Some (kd_code dto), crs_name = kd_name dto,
           crs_description = or_else (kd_description dto) '''',
           crs_status = or_else (kd_status dto) CatalogActive, crs_createdAt = ae_now e\<rparr> s)"

text \<open>The reply to an update is the row as it is stored.\<close>

definition update_major :: "uuid \<Rightarrow> update_catalog_dto \<Rightarrow> major_row catalog_op" where
  "update_major i dto s =
     bindE (someE (find_major i s) (NotFound ''major not found'')) (\<lambda>m.
     let m' = m\<lparr>maj_name := or_else (uk_name dto) (maj_name m),
               maj_description := or_else (uk_description dto) (maj_description m),
               maj_status := or_else (uk_status dto) (maj_status m)\<rparr> in
     Inr (m', s\<lparr>majorRows := put maj_id m' (majorRows s)\<rparr>))"

definition update_course :: "uuid \<Rightarrow> update_catalog_dto \<Rightarrow> course_row catalog_op" where
  "update_course i dto s =
     bindE (someE (find_course i s) (NotFound ''course not found'')) (\<lambda>c.
     let c' = c\<lparr>crs_name := or_else (uk_name dto) (crs_name c),
               crs_description := or_else (uk_description dto) (crs_description c),
               crs_status := or_else (uk_status dto) (crs_status c)\<rparr> in
     Inr (c', s\<lparr>courseRows := put crs_id c' (courseRows s)\<rparr>))"

section \<open>Curricula\<close>

text \<open>The unique index on major and version, for curricula without a training program.\<close>

definition create_curriculum :: "academic_env \<Rightarrow> curriculum_dto \<Rightarrow> curriculum_row catalog_op" where
  "create_curriculum e dto s =
     bindE (must_exist (find_major (kc_majorId dto) s) ''Major'') (\<lambda>_.
     let c = \<lparr>cur_id = ae_fresh e, cur_majorId = kc_majorId dto, cur_version = kc_version dto,
              cur_effectiveYear = kc_effectiveYear dto, cur_status = or_else (kc_status dto) DraftCurriculum,
              cur_createdAt = ae_now e\<rparr> in
     if exists_where (\<lambda>x. cur_id x = cur_id c \<or> cur_majorId x = cur_majorId c \<and> cur_version x = cur_version c)
          (curriculumRows s)
     then Inl (UniqueViolation ''curricula_legacy_major_version'')
     else Inr (c, s\<lparr>curriculumRows := curriculumRows s @ [c]\<rparr>))"

definition update_curriculum_status :: "uuid \<Rightarrow> curriculum_status \<Rightarrow> curriculum_row catalog_op" where
  "update_curriculum_status i st s =
     bindE (someE (find_curriculum i s) (NotFound ''Curriculum not found'')) (\<lambda>c.
     bindE
       (if st = ActiveCurriculum
        then
          case find_by (\<lambda>x. cur_majorId x = cur_majorId c \<and> cur_status x = ActiveCurriculum) (curriculumRows s) of
            None \<Rightarrow> Inr ()
          | Some other \<Rightarrow> guardE (cur_id other = i) (Conflict ''This major already has an active curriculum'')
        else Inr ()) (\<lambda>_.
     let c' = c\<lparr>cur_status := st\<rparr> in Inr (c', s\<lparr>curriculumRows := put cur_id c' (curriculumRows s)\<rparr>)))"

text \<open>The two checks run at the same time; here the error of the curriculum comes first.\<close>

definition add_curriculum_course :: "academic_env \<Rightarrow> curriculum_course_dto \<Rightarrow> curriculum_course_row catalog_op" where
  "add_curriculum_course e dto s =
     bindE (must_exist (find_curriculum (kk_curriculumId dto) s) ''Curriculum'') (\<lambda>_.
     bindE (must_exist (find_course (kk_courseId dto) s) ''Course'') (\<lambda>_.
     let x = \<lparr>ccr_id = ae_fresh e, ccr_curriculumId = kk_curriculumId dto, ccr_courseId = kk_courseId dto,
              ccr_courseType = kk_courseType dto, ccr_recommendedSemester = kk_recommendedSemester dto,
              ccr_displayOrder = or_else (kk_displayOrder dto) 0\<rparr> in
     on_duplicate ''Course already belongs to this curriculum''
       (if exists_where (\<lambda>y. ccr_id y = ccr_id x \<or>
             ccr_curriculumId y = ccr_curriculumId x \<and> ccr_courseId y = ccr_courseId x) (curriculumCourseRows s)
        then Inl (UniqueViolation ''curriculum_courses'')
        else Inr (x, s\<lparr>curriculumCourseRows := curriculumCourseRows s @ [x]\<rparr>))))"

section \<open>Topics\<close>

definition parent_exists :: "uuid option \<Rightarrow> academic \<Rightarrow> exn + unit" where
  "parent_exists parent s =
     (case truthy parent of None \<Rightarrow> Inr () | Some p \<Rightarrow> must_exist (find_topic p s) ''Parent topic'')"

text \<open>The foreign key on the parent.\<close>

definition parent_stored :: "uuid option \<Rightarrow> academic \<Rightarrow> exn + unit" where
  "parent_stored parent s =
     guardE (case parent of None \<Rightarrow> True | Some p \<Rightarrow> find_topic p s \<noteq> None) (InternalError ''topics_parent_topic_id_fkey'')"

definition create_topic :: "academic_env \<Rightarrow> topic_dto \<Rightarrow> topic_row catalog_op" where
  "create_topic e dto s =
     bindE (parent_exists (kt_parentTopicId dto) s) (\<lambda>_.
     let t = \<lparr>tpc_id = ae_fresh e, tpc_code = kt_code dto, tpc_name = kt_name dto,
              tpc_description = or_else (kt_description dto) '''', tpc_parentTopicId = kt_parentTopicId dto,
              tpc_status = or_else (kt_status dto) CatalogActive, tpc_createdAt = ae_now e\<rparr> in
     if exists_where (\<lambda>x. tpc_id x = tpc_id t \<or> tpc_code x = tpc_code t) (topicRows s)
     then Inl (UniqueViolation ''topics'')
     else bindE (parent_stored (tpc_parentTopicId t) s) (\<lambda>_. Inr (t, s\<lparr>topicRows := topicRows s @ [t]\<rparr>)))"

definition update_topic :: "uuid \<Rightarrow> update_topic_dto \<Rightarrow> topic_row catalog_op" where
  "update_topic i dto s =
     bindE (someE (find_topic i s) (NotFound ''Topic not found'')) (\<lambda>t.
     bindE (guardE (ut_parentTopicId dto \<noteq> Some (Some i)) (BadRequest ''Topic cannot be its own parent'')) (\<lambda>_.
     bindE (case ut_parentTopicId dto of None \<Rightarrow> Inr () | Some p \<Rightarrow> parent_exists p s) (\<lambda>_.
     let d = ut_catalog dto;
         t' = t\<lparr>tpc_name := or_else (uk_name d) (tpc_name t),
               tpc_description := or_else (uk_description d) (tpc_description t),
               tpc_status := or_else (uk_status d) (tpc_status t),
               tpc_parentTopicId := or_else (ut_parentTopicId dto) (tpc_parentTopicId t)\<rparr> in
     bindE (parent_stored (tpc_parentTopicId t') s) (\<lambda>_.
     Inr (t', s\<lparr>topicRows := put tpc_id t' (topicRows s)\<rparr>)))))"

text \<open>The items of the request are not validated: the database refuses to compare something else than a uuid.\<close>

definition set_course_topics ::
  "academic_env \<Rightarrow> uuid \<Rightarrow> course_topic_item list \<Rightarrow> (course_topic_row \<times> topic_row option) list catalog_op" where
  "set_course_topics e courseId items s =
     bindE (must_exist (find_course courseId s) ''Course'') (\<lambda>_.
     let ids = new_set (map ci_topicId items);
         found = filter (\<lambda>t. tpc_id t \<in> set ids) (topicRows s) in
     bindE (guardE (length ids = length items) (BadRequest ''Duplicate topic'')) (\<lambda>_.
     bindE (guardE (list_all (ae_pg_uuid e) ids) (InternalError ''invalid input syntax for type uuid'')) (\<lambda>_.
     bindE (guardE (length found = length ids \<and> list_all (\<lambda>t. tpc_status t = CatalogActive) found)
              (BadRequest ''One or more active topics do not exist'')) (\<lambda>_.
     let kept = filter (\<lambda>x. ctp_courseId x \<noteq> courseId) (courseTopicRows s);
         new = map (\<lambda>it. \<lparr>ctp_courseId = courseId, ctp_topicId = ci_topicId it,
                          ctp_relevanceWeight = or_else (ci_relevanceWeight it) 1\<rparr>) items;
         s' = s\<lparr>courseTopicRows := kept @ new\<rparr> in
     Inr (course_topics_of courseId s', s')))))"

section \<open>Contexts\<close>

record full_context =
  cx_curriculumCourseId :: uuid
  cx_majorId :: uuid
  cx_curriculumId :: uuid
  cx_courseId :: uuid
  cx_major :: major_row
  cx_curriculum :: curriculum_row
  cx_course :: course_row
  cx_allowedTopics :: "(course_topic_row \<times> topic_row option) list"

text \<open>The foreign keys keep the related rows; without one, reading its status fails.\<close>

definition course_context :: "uuid \<Rightarrow> academic \<Rightarrow> exn + full_context" where
  "course_context i s =
     bindE (someE (find_by (\<lambda>x. ccr_id x = i) (curriculumCourseRows s)) (NotFound ''Curriculum course not found'')) (\<lambda>x.
     bindE (someE (find_course (ccr_courseId x) s) (InternalError ''TypeError'')) (\<lambda>course.
     bindE (someE (find_curriculum (ccr_curriculumId x) s) (InternalError ''TypeError'')) (\<lambda>curriculum.
     bindE (someE (find_major (cur_majorId curriculum) s) (InternalError ''TypeError'')) (\<lambda>major.
     bindE (guardE (crs_status course = CatalogActive \<and> cur_status curriculum = ActiveCurriculum \<and>
                    maj_status major = CatalogActive) (NotFound ''Active academic context not found'')) (\<lambda>_.
     Inr \<lparr>cx_curriculumCourseId = ccr_id x, cx_majorId = cur_majorId curriculum,
          cx_curriculumId = ccr_curriculumId x, cx_courseId = ccr_courseId x, cx_major = major,
          cx_curriculum = curriculum, cx_course = course,
          cx_allowedTopics =
            filter (\<lambda>(_, t). map_option tpc_status t = Some CatalogActive) (course_topics_of (ccr_courseId x) s)\<rparr>)))))"

definition active_major :: "uuid \<Rightarrow> academic \<Rightarrow> exn + major_row" where
  "active_major i s =
     bindE (someE (find_major i s) (NotFound ''Active major not found'')) (\<lambda>m.
     bindE (guardE (maj_status m = CatalogActive) (NotFound ''Active major not found'')) (\<lambda>_. Inr m))"

end
