(* ===== verification/Academic_Api.thy ===== *)
theory Academic_Api
  imports Academic
begin

text \<open>
  The routes of the academic service (\<open>academic.controller.ts\<close>, \<open>academic.dto.ts\<close>, \<open>access.ts\<close>). The pipes run
  first, the check for an administrator is the first line of the handler, the check of the token of the services
  a guard. The enumerations of a request are types; \<open>null\<close> is absent, but for the parent of a topic.
\<close>

section \<open>Access\<close>

definition user_from_request :: "headers \<Rightarrow> string option \<times> string option" where
  "user_from_request h = (h ''x-user-id'', h ''x-user-role'')"

definition require_catalog_admin :: "string option \<times> string option \<Rightarrow> exn + string" where
  "require_catalog_admin user =
     bindE (someE (truthy (fst user)) (Unauthorized ''Authentication required'')) (\<lambda>i.
     bindE (guardE (snd user = Some ''admin'') (Forbidden ''Admin role required'')) (\<lambda>_. Inr i))"

definition service_token_guard :: "string option \<Rightarrow> headers \<Rightarrow> exn + unit" where
  "service_token_guard expected h =
     guardE (truthy expected \<noteq> None \<and> h ''x-internal-token'' = expected) (Unauthorized ''Invalid internal service token'')"

section \<open>Validation\<close>

definition transform_catalog :: "catalog_dto \<Rightarrow> catalog_dto" where
  "transform_catalog dto =
     dto\<lparr>kd_code := to_upper (trim (kd_code dto)), kd_name := trim (kd_name dto),
         kd_description := map_option trim (kd_description dto)\<rparr>"

definition valid_catalog :: "catalog_dto \<Rightarrow> bool" where
  "valid_catalog dto =
     (length_within 1 40 (kd_code dto) \<and> list_all code_char (kd_code dto) \<and> length_within 2 200 (kd_name dto) \<and>
      if_present (length_within 0 10000) (kd_description dto))"

definition transform_curriculum :: "curriculum_dto \<Rightarrow> curriculum_dto" where
  "transform_curriculum dto = dto\<lparr>kc_version := trim (kc_version dto)\<rparr>"

definition valid_curriculum :: "academic_env \<Rightarrow> curriculum_dto \<Rightarrow> bool" where
  "valid_curriculum e dto =
     (ae_valid_uuid e (kc_majorId dto) \<and> length_within 1 40 (kc_version dto) \<and>
      2000 \<le> kc_effectiveYear dto \<and> kc_effectiveYear dto \<le> 2200)"

definition valid_curriculum_course :: "academic_env \<Rightarrow> curriculum_course_dto \<Rightarrow> bool" where
  "valid_curriculum_course e dto =
     (ae_valid_uuid e (kk_curriculumId dto) \<and> ae_valid_uuid e (kk_courseId dto) \<and>
      if_present (\<lambda>n. 1 \<le> n \<and> n \<le> 20) (kk_recommendedSemester dto) \<and> if_present (\<lambda>n. 0 \<le> n) (kk_displayOrder dto))"

definition transform_topic :: "topic_dto \<Rightarrow> topic_dto" where
  "transform_topic dto =
     dto\<lparr>kt_code := to_upper (trim (kt_code dto)), kt_name := trim (kt_name dto),
         kt_description := map_option trim (kt_description dto)\<rparr>"

definition valid_topic :: "academic_env \<Rightarrow> topic_dto \<Rightarrow> bool" where
  "valid_topic e dto =
     (length_within 1 80 (kt_code dto) \<and> list_all code_char (kt_code dto) \<and> length_within 2 160 (kt_name dto) \<and>
      if_present (length_within 0 10000) (kt_description dto) \<and> if_present (ae_valid_uuid e) (kt_parentTopicId dto))"

definition transform_update_catalog :: "update_catalog_dto \<Rightarrow> update_catalog_dto" where
  "transform_update_catalog dto =
     dto\<lparr>uk_name := map_option trim (uk_name dto), uk_description := map_option trim (uk_description dto)\<rparr>"

definition valid_update_catalog :: "update_catalog_dto \<Rightarrow> bool" where
  "valid_update_catalog dto =
     (if_present (length_within 2 200) (uk_name dto) \<and> if_present (length_within 0 10000) (uk_description dto))"

definition valid_update_topic :: "academic_env \<Rightarrow> update_topic_dto \<Rightarrow> bool" where
  "valid_update_topic e dto =
     (valid_update_catalog (ut_catalog dto) \<and> if_present (if_present (ae_valid_uuid e)) (ut_parentTopicId dto))"

section \<open>Routes\<close>

datatype academic_call =
    ListMajors "nat option" "nat option"
  | ListCourses "nat option" "nat option"
  | ListTopics "nat option" "nat option"
  | ListCurricula uuid
  | ListCurriculumCourses uuid
  | ListCourseTopics uuid
  | PostMajor catalog_dto
  | PostCourse catalog_dto
  | PostCurriculum curriculum_dto
  | PostCurriculumCourse curriculum_course_dto
  | PostTopic topic_dto
  | PutCourseTopics uuid "course_topic_item list"
  | PatchMajor uuid update_catalog_dto
  | PatchCourse uuid update_catalog_dto
  | PatchTopic uuid update_topic_dto
  | PatchCurriculumStatus uuid curriculum_status
  | ReadContext uuid
  | ReadMajor uuid

datatype academic_reply =
    MajorPage "major_row row_page"
  | CoursePage "course_row row_page"
  | TopicPage "topic_row row_page"
  | Curricula "curriculum_row list"
  | CurriculumCourses "(curriculum_course_row \<times> course_row option) list"
  | CourseTopics "(course_topic_row \<times> topic_row option) list"
  | AMajor major_row
  | ACourse course_row
  | ACurriculum curriculum_row
  | ACurriculumCourse curriculum_course_row
  | ATopic topic_row
  | AContext full_context

definition uuid_pipe :: "academic_env \<Rightarrow> string \<Rightarrow> exn + unit" where
  "uuid_pipe e i = guardE (ae_valid_uuid e i) (BadRequest ''Validation failed (uuid is expected)'')"

text \<open>\<open>after_pipes checks f\<close>: the pipes, then the handler; \<open>as_admin\<close>: a handler that asks for an administrator.\<close>

definition after_pipes :: "(exn + unit) list \<Rightarrow> 'a catalog_op \<Rightarrow> 'a catalog_op" where
  "after_pipes checks f s = bindE (all_of checks) (\<lambda>_. f s)"

definition as_admin :: "headers \<Rightarrow> 'a catalog_op \<Rightarrow> 'a catalog_op" where
  "as_admin h f s = bindE (require_catalog_admin (user_from_request h)) (\<lambda>_. f s)"

definition answer_with :: "('a \<Rightarrow> academic_reply) \<Rightarrow> 'a catalog_op \<Rightarrow> academic_reply catalog_op" where
  "answer_with c f s = bindE (f s) (\<lambda>(a, s'). Inr (c a, s'))"

definition looked_up :: "('a \<Rightarrow> academic_reply) \<Rightarrow> (academic \<Rightarrow> exn + 'a) \<Rightarrow> academic_reply catalog_op" where
  "looked_up c f s = bindE (f s) (\<lambda>a. Inr (c a, s))"

definition listing ::
  "('a row_page \<Rightarrow> academic_reply) \<Rightarrow> ('a list \<Rightarrow> 'a list) \<Rightarrow> (academic \<Rightarrow> 'a list) \<Rightarrow> nat option \<Rightarrow> nat option \<Rightarrow>
   academic_reply catalog_op" where
  "listing c newest rows page limit =
     after_pipes [body_pipe (page_ok page limit)]
       (looked_up c (\<lambda>s. Inr (paged_rows newest (or_else page 1) (or_else limit 20) (rows s))))"

definition academic_route :: "academic_env \<Rightarrow> headers \<Rightarrow> academic_call \<Rightarrow> academic_reply catalog_op" where
  "academic_route e h call =
     (case call of
        ListMajors page limit \<Rightarrow> listing MajorPage (ae_newestMajors e) majorRows page limit
      | ListCourses page limit \<Rightarrow> listing CoursePage (ae_newestCourses e) courseRows page limit
      | ListTopics page limit \<Rightarrow> listing TopicPage (ae_newestTopics e) topicRows page limit
      | ListCurricula i \<Rightarrow>
          after_pipes [uuid_pipe e i] (looked_up Curricula (\<lambda>s. Inr (curricula_of (ae_latestCurricula e) i s)))
      | ListCurriculumCourses i \<Rightarrow>
          after_pipes [uuid_pipe e i]
            (looked_up CurriculumCourses (\<lambda>s. Inr (curriculum_courses_of (ae_displayed e) i s)))
      | ListCourseTopics i \<Rightarrow>
          after_pipes [uuid_pipe e i] (looked_up CourseTopics (\<lambda>s. Inr (course_topics_of i s)))
      | ReadContext i \<Rightarrow>
          after_pipes [service_token_guard (ae_token e) h, uuid_pipe e i] (looked_up AContext (course_context i))
      | ReadMajor i \<Rightarrow>
          after_pipes [service_token_guard (ae_token e) h, uuid_pipe e i] (looked_up AMajor (active_major i))
      | PostMajor dto \<Rightarrow>
          (let d = transform_catalog dto in
           after_pipes [body_pipe (valid_catalog d)] (as_admin h (answer_with AMajor (create_major e d))))
      | PostCourse dto \<Rightarrow>
          (let d = transform_catalog dto in
           after_pipes [body_pipe (valid_catalog d)] (as_admin h (answer_with ACourse (create_course e d))))
      | PostCurriculum dto \<Rightarrow>
          (let d = transform_curriculum dto in
           after_pipes [body_pipe (valid_curriculum e d)]
             (as_admin h (answer_with ACurriculum (create_curriculum e d))))
      | PostCurriculumCourse dto \<Rightarrow>
          after_pipes [body_pipe (valid_curriculum_course e dto)]
            (as_admin h (answer_with ACurriculumCourse (add_curriculum_course e dto)))
      | PostTopic dto \<Rightarrow>
          (let d = transform_topic dto in
           after_pipes [body_pipe (valid_topic e d)] (as_admin h (answer_with ATopic (create_topic e d))))
      | PutCourseTopics i items \<Rightarrow>
          after_pipes [uuid_pipe e i] (as_admin h (answer_with CourseTopics (set_course_topics e i items)))
      | PatchMajor i dto \<Rightarrow>
          (let d = transform_update_catalog dto in
           after_pipes [uuid_pipe e i, body_pipe (valid_update_catalog d)]
             (as_admin h (answer_with AMajor (update_major i d))))
      | PatchCourse i dto \<Rightarrow>
          (let d = transform_update_catalog dto in
           after_pipes [uuid_pipe e i, body_pipe (valid_update_catalog d)]
             (as_admin h (answer_with ACourse (update_course i d))))
      | PatchTopic i dto \<Rightarrow>
          (let d = dto\<lparr>ut_catalog := transform_update_catalog (ut_catalog dto)\<rparr> in
           after_pipes [uuid_pipe e i, body_pipe (valid_update_topic e d)]
             (as_admin h (answer_with ATopic (update_topic i d))))
      | PatchCurriculumStatus i st \<Rightarrow>
          after_pipes [uuid_pipe e i]
            (as_admin h (answer_with ACurriculum (update_curriculum_status i st))))"

definition academic_controller ::
  "academic_env \<Rightarrow> headers \<Rightarrow> academic_call \<Rightarrow> academic \<Rightarrow> (exn + academic_reply) \<times> academic" where
  "academic_controller e h call s = transaction s (academic_route e h call s)"

section \<open>The service\<close>

definition empty_academic :: academic where
  "empty_academic = \<lparr>majorRows = [], courseRows = [], curriculumRows = [], curriculumCourseRows = [], topicRows = [],
     courseTopicRows = []\<rparr>"

definition academic_step :: "academic \<Rightarrow> academic \<Rightarrow> bool" where
  "academic_step s s' \<longleftrightarrow> (\<exists>e h call. s' = snd (academic_controller e h call s))"

abbreviation academic_reachable :: "academic \<Rightarrow> bool" where
  "academic_reachable s \<equiv> reach (\<lambda>s. s = empty_academic) academic_step s"

end
