(* ===== verification/Academic_Inv.thy ===== *)
theory Academic_Inv
  imports Academic_Api
begin

text \<open>
  The consistency of the catalogue: unique keys, references that resolve, no topic that is its own parent; what
  each operation of the academic service does to it.
\<close>

section \<open>Consistency\<close>

definition unique_keys :: "academic \<Rightarrow> bool" where
  "unique_keys s \<longleftrightarrow>
     distinct (map maj_id (majorRows s)) \<and> distinct (map maj_code (majorRows s)) \<and>
     distinct (map crs_id (courseRows s)) \<and> distinct (map crs_code (filter (\<lambda>c. crs_code c \<noteq> None) (courseRows s))) \<and>
     distinct (map cur_id (curriculumRows s)) \<and>
     distinct (map (\<lambda>c. (cur_majorId c, cur_version c)) (curriculumRows s)) \<and>
     distinct (map ccr_id (curriculumCourseRows s)) \<and>
     distinct (map (\<lambda>x. (ccr_curriculumId x, ccr_courseId x)) (curriculumCourseRows s)) \<and>
     distinct (map tpc_id (topicRows s)) \<and> distinct (map tpc_code (topicRows s)) \<and>
     distinct (map (\<lambda>x. (ctp_courseId x, ctp_topicId x)) (courseTopicRows s))"

definition references_ok :: "academic \<Rightarrow> bool" where
  "references_ok s \<longleftrightarrow>
     cur_majorId ` set (curriculumRows s) \<subseteq> maj_id ` set (majorRows s) \<and>
     ccr_curriculumId ` set (curriculumCourseRows s) \<subseteq> cur_id ` set (curriculumRows s) \<and>
     ccr_courseId ` set (curriculumCourseRows s) \<subseteq> crs_id ` set (courseRows s) \<and>
     ctp_courseId ` set (courseTopicRows s) \<subseteq> crs_id ` set (courseRows s) \<and>
     ctp_topicId ` set (courseTopicRows s) \<subseteq> tpc_id ` set (topicRows s)"

definition parents_ok :: "academic \<Rightarrow> bool" where
  "parents_ok s \<longleftrightarrow>
     (\<forall>t \<in> set (topicRows s). \<forall>p. tpc_parentTopicId t = Some p \<longrightarrow>
        p \<noteq> tpc_id t \<and> p \<in> tpc_id ` set (topicRows s))"

definition catalog_ok :: "academic \<Rightarrow> bool" where
  "catalog_ok s \<longleftrightarrow> unique_keys s \<and> references_ok s \<and> parents_ok s"

lemmas catalog_defs = catalog_ok_def unique_keys_def references_ok_def parents_ok_def

section \<open>Updates of a row\<close>

lemma found_by_key:
  assumes "distinct (map key t)" "find_by (\<lambda>x. key x = i) t = Some r"
  shows "r \<in> set t" "key r = i" "\<And>x. x \<in> set t \<Longrightarrow> key x = i \<Longrightarrow> x = r"
  using assms find_by_Some[OF assms(2)] by (auto simp: distinct_map dest: inj_onD)

lemma map_put_same:
  assumes "distinct (map key t)" "find_by (\<lambda>x. key x = i) t = Some r" "key r' = i" "f r' = f r"
  shows "map f (put key r' t) = map f t"
  using found_by_key(3)[OF assms(1,2)] assms(3,4) by (auto simp: put_def update_where_def)

lemma filter_map_put_same:
  assumes "distinct (map key t)" "find_by (\<lambda>x. key x = i) t = Some r" "key r' = i" "f r' = f r"
  shows "map f (filter (\<lambda>x. P (f x)) (put key r' t)) = map f (filter (\<lambda>x. P (f x)) t)"
proof -
  have *: "map f (filter (\<lambda>x. P (f x)) u) = filter P (map f u)" for u
    by (simp add: filter_map o_def)
  show ?thesis
    by (simp only: * map_put_same[OF assms])
qed

lemma image_put_same:
  assumes "distinct (map key t)" "find_by (\<lambda>x. key x = i) t = Some r" "key r' = i" "f r' = f r"
  shows "f ` set (put key r' t) = f ` set t"
  using map_put_same[OF assms] by (metis list.set_map)

lemma set_put_found:
  assumes "find_by (\<lambda>x. key x = i) t = Some r" "key r' = i"
  shows "x \<in> set (put key r' t) \<longleftrightarrow> x = r' \<or> x \<in> set t \<and> key x \<noteq> i"
  using find_by_Some[OF assms(1)] assms(2) by (auto simp: put_def update_where_def)

lemma must_exist_Inr [returns]: "must_exist r l = Inr u \<longleftrightarrow> r \<noteq> None"
  by (cases r) (auto simp: must_exist_def)

lemma on_duplicate_Inr [returns]: "on_duplicate msg r = Inr x \<longleftrightarrow> r = Inr x"
  by (cases r) (auto simp: on_duplicate_def split: exn.splits)

lemma found_in: "find_by (\<lambda>x. key x = i) t \<noteq> None \<longleftrightarrow> i \<in> key ` set t"
  by (auto simp: find_by_None)

lemmas find_defs = find_major_def find_course_def find_curriculum_def find_topic_def

section \<open>The operations keep it\<close>

lemma create_major_ok:
  assumes "catalog_ok s" "create_major e dto s = Inr (r, s')"
  shows "catalog_ok s'"
proof -
  have new: "maj_id r \<notin> maj_id ` set (majorRows s)" "maj_code r \<notin> maj_code ` set (majorRows s)"
    and s': "s' = s\<lparr>majorRows := majorRows s @ [r]\<rparr>"
    using assms(2) by (auto simp: create_major_def insert_major_def returns exists_where_iff split: if_splits)
  then show ?thesis
    using assms(1) unfolding catalog_ok_def unique_keys_def references_ok_def parents_ok_def
    by (simp add: s' subset_insertI2)
qed

lemma create_course_ok:
  assumes "catalog_ok s" "create_course e dto s = Inr (r, s')"
  shows "catalog_ok s'"
proof -
  have new: "crs_id r \<notin> crs_id ` set (courseRows s)" "crs_code r \<notin> crs_code ` set (courseRows s)"
    and code: "crs_code r \<noteq> None" and s': "s' = s\<lparr>courseRows := courseRows s @ [r]\<rparr>"
    using assms(2) by (auto simp: create_course_def insert_course_def returns exists_where_iff split: if_splits)
  have "crs_code r \<notin> crs_code ` set (filter (\<lambda>c. crs_code c \<noteq> None) (courseRows s))"
    using new(2) by auto
  then show ?thesis
    using assms(1) new(1) code unfolding catalog_ok_def unique_keys_def references_ok_def parents_ok_def
    by (simp add: s' subset_insertI2)
qed

lemma update_major_ok:
  assumes "catalog_ok s" "update_major i dto s = Inr (r, s')"
  shows "catalog_ok s'"
proof -
  obtain m where m: "find_by (\<lambda>x. maj_id x = i) (majorRows s) = Some m"
    and r0: "maj_id r = maj_id m" and r1: "maj_code r = maj_code m" and s': "s' = s\<lparr>majorRows := put maj_id r (majorRows s)\<rparr>"
    using assms(2) by (auto simp: update_major_def returns find_defs Let_def)
  have r: "maj_id r = i" "maj_code r = maj_code m"
    using find_by_Some[OF m] r0 r1 by simp_all
  have d: "distinct (map maj_id (majorRows s))"
    using assms(1) by (simp add: catalog_defs)
  have "map maj_id (put maj_id r (majorRows s)) = map maj_id (majorRows s)"
    "map maj_code (put maj_id r (majorRows s)) = map maj_code (majorRows s)"
    "maj_id ` set (put maj_id r (majorRows s)) = maj_id ` set (majorRows s)"
    by (rule map_put_same[OF d m r(1)] image_put_same[OF d m r(1)]; simp add: r0 r1)+
  then show ?thesis
    using assms(1) by (simp add: s' catalog_defs)
qed

lemma update_course_ok:
  assumes "catalog_ok s" "update_course i dto s = Inr (r, s')"
  shows "catalog_ok s'"
proof -
  obtain c where c: "find_by (\<lambda>x. crs_id x = i) (courseRows s) = Some c"
    and r0: "crs_id r = crs_id c" and r1: "crs_code r = crs_code c" and s': "s' = s\<lparr>courseRows := put crs_id r (courseRows s)\<rparr>"
    using assms(2) by (auto simp: update_course_def returns find_defs Let_def)
  have r: "crs_id r = i" "crs_code r = crs_code c"
    using find_by_Some[OF c] r0 r1 by simp_all
  have d: "distinct (map crs_id (courseRows s))"
    using assms(1) by (simp add: catalog_defs)
  have "map crs_id (put crs_id r (courseRows s)) = map crs_id (courseRows s)"
    "map crs_code (filter (\<lambda>c. crs_code c \<noteq> None) (put crs_id r (courseRows s))) =
     map crs_code (filter (\<lambda>c. crs_code c \<noteq> None) (courseRows s))"
    "crs_id ` set (put crs_id r (courseRows s)) = crs_id ` set (courseRows s)"
    by (rule map_put_same[OF d c r(1)] image_put_same[OF d c r(1)]
        filter_map_put_same[OF d c r(1), where P = "\<lambda>x. x \<noteq> None"]; simp add: r0 r1)+
  then show ?thesis
    using assms(1) by (simp add: s' catalog_defs)
qed

lemma create_curriculum_ok:
  assumes "catalog_ok s" "create_curriculum e dto s = Inr (r, s')"
  shows "catalog_ok s'"
proof -
  have new: "cur_id r \<notin> cur_id ` set (curriculumRows s)"
      "(cur_majorId r, cur_version r) \<notin> (\<lambda>c. (cur_majorId c, cur_version c)) ` set (curriculumRows s)"
    and major: "find_by (\<lambda>m. maj_id m = cur_majorId r) (majorRows s) \<noteq> None"
    and s': "s' = s\<lparr>curriculumRows := curriculumRows s @ [r]\<rparr>"
    using assms(2)
    by (auto simp: create_curriculum_def find_defs returns exists_where_iff Let_def split: if_splits)
  show ?thesis
    using assms(1) new major[unfolded found_in] unfolding catalog_ok_def unique_keys_def references_ok_def parents_ok_def
    by (simp add: s' subset_insertI2)
qed

lemma update_curriculum_status_found:
  assumes "update_curriculum_status i st s = Inr (r, s')"
  obtains c where "find_by (\<lambda>x. cur_id x = i) (curriculumRows s) = Some c" "r = c\<lparr>cur_status := st\<rparr>"
    "s' = s\<lparr>curriculumRows := put cur_id r (curriculumRows s)\<rparr>"
    "st = ActiveCurriculum \<Longrightarrow>
     (\<forall>other. find_by (\<lambda>x. cur_majorId x = cur_majorId c \<and> cur_status x = ActiveCurriculum) (curriculumRows s) = Some other \<longrightarrow>
        cur_id other = i)"
  using assms that
  by (auto simp: update_curriculum_status_def returns find_defs Let_def split: if_splits option.splits)

lemma update_curriculum_status_ok:
  assumes "catalog_ok s" "update_curriculum_status i st s = Inr (r, s')"
  shows "catalog_ok s'"
proof -
  obtain c where c: "find_by (\<lambda>x. cur_id x = i) (curriculumRows s) = Some c" and r: "r = c\<lparr>cur_status := st\<rparr>"
    and s': "s' = s\<lparr>curriculumRows := put cur_id r (curriculumRows s)\<rparr>"
    using assms(2) by (rule update_curriculum_status_found)
  have d: "distinct (map cur_id (curriculumRows s))"
    using assms(1) by (simp add: catalog_defs)
  have i: "cur_id r = i"
    using r find_by_Some[OF c] by simp
  have "map cur_id (put cur_id r (curriculumRows s)) = map cur_id (curriculumRows s)"
    "map (\<lambda>c. (cur_majorId c, cur_version c)) (put cur_id r (curriculumRows s)) =
     map (\<lambda>c. (cur_majorId c, cur_version c)) (curriculumRows s)"
    "cur_majorId ` set (put cur_id r (curriculumRows s)) = cur_majorId ` set (curriculumRows s)"
    "cur_id ` set (put cur_id r (curriculumRows s)) = cur_id ` set (curriculumRows s)"
    by (rule map_put_same[OF d c i] image_put_same[OF d c i]; simp add: r)+
  then show ?thesis
    using assms(1) by (simp add: s' catalog_defs)
qed

lemma add_curriculum_course_ok:
  assumes "catalog_ok s" "add_curriculum_course e dto s = Inr (r, s')"
  shows "catalog_ok s'"
proof -
  have new: "ccr_id r \<notin> ccr_id ` set (curriculumCourseRows s)"
      "(ccr_curriculumId r, ccr_courseId r) \<notin>
        (\<lambda>x. (ccr_curriculumId x, ccr_courseId x)) ` set (curriculumCourseRows s)"
    and linked: "find_by (\<lambda>c. cur_id c = ccr_curriculumId r) (curriculumRows s) \<noteq> None"
      "find_by (\<lambda>c. crs_id c = ccr_courseId r) (courseRows s) \<noteq> None"
    and s': "s' = s\<lparr>curriculumCourseRows := curriculumCourseRows s @ [r]\<rparr>"
    using assms(2)
    by (auto simp: add_curriculum_course_def find_defs returns exists_where_iff Let_def split: if_splits)
  show ?thesis
    using assms(1) new linked[unfolded found_in] unfolding catalog_ok_def unique_keys_def references_ok_def parents_ok_def
    by (simp add: s' subset_insertI2)
qed

lemma parent_stored_Inr [returns]:
  "parent_stored parent s = Inr u \<longleftrightarrow> (\<forall>p. parent = Some p \<longrightarrow> p \<in> tpc_id ` set (topicRows s))"
  using found_in[where key = tpc_id and t = "topicRows s"]
  by (auto simp: parent_stored_def returns find_topic_def split: option.splits)

lemma create_topic_ok:
  assumes "catalog_ok s" "create_topic e dto s = Inr (r, s')"
  shows "catalog_ok s'"
proof -
  have new: "tpc_id r \<notin> tpc_id ` set (topicRows s)" "tpc_code r \<notin> tpc_code ` set (topicRows s)"
    and parent: "\<And>p. tpc_parentTopicId r = Some p \<Longrightarrow> p \<in> tpc_id ` set (topicRows s)"
    and s': "s' = s\<lparr>topicRows := topicRows s @ [r]\<rparr>"
    using assms(2)
    by (auto simp: create_topic_def find_defs returns exists_where_iff Let_def split: if_splits)
  have "parents_ok s'"
    using assms(1) parent new(1) by (auto simp: s' catalog_ok_def parents_ok_def)
  then show ?thesis
    using assms(1) new unfolding catalog_ok_def unique_keys_def references_ok_def
    by (simp add: s' subset_insertI2)
qed

lemma update_topic_found:
  assumes "update_topic i dto s = Inr (r, s')"
  obtains t where "find_by (\<lambda>x. tpc_id x = i) (topicRows s) = Some t" "tpc_id r = tpc_id t" "tpc_code r = tpc_code t"
    "s' = s\<lparr>topicRows := put tpc_id r (topicRows s)\<rparr>" "ut_parentTopicId dto \<noteq> Some (Some i)"
    "tpc_parentTopicId r = or_else (ut_parentTopicId dto) (tpc_parentTopicId t)"
    "\<And>p. tpc_parentTopicId r = Some p \<Longrightarrow> p \<in> tpc_id ` set (topicRows s)"
  using assms that by (auto simp: update_topic_def returns find_defs Let_def)

lemma update_topic_ok:
  assumes ok: "catalog_ok s" and "update_topic i dto s = Inr (r, s')"
  shows "catalog_ok s'"
proof -
  obtain t where t: "find_by (\<lambda>x. tpc_id x = i) (topicRows s) = Some t" and keys: "tpc_id r = tpc_id t" "tpc_code r = tpc_code t"
    and s': "s' = s\<lparr>topicRows := put tpc_id r (topicRows s)\<rparr>" and self: "ut_parentTopicId dto \<noteq> Some (Some i)"
    and parent: "tpc_parentTopicId r = or_else (ut_parentTopicId dto) (tpc_parentTopicId t)"
    and stored: "\<And>p. tpc_parentTopicId r = Some p \<Longrightarrow> p \<in> tpc_id ` set (topicRows s)"
    by (rule update_topic_found[OF assms(2)]) blast
  have d: "distinct (map tpc_id (topicRows s))"
    using ok by (simp add: catalog_defs)
  have i: "tpc_id t = i" "t \<in> set (topicRows s)"
    using find_by_Some[OF t] by simp_all
  have maps: "map tpc_id (put tpc_id r (topicRows s)) = map tpc_id (topicRows s)"
    "map tpc_code (put tpc_id r (topicRows s)) = map tpc_code (topicRows s)"
    "tpc_id ` set (put tpc_id r (topicRows s)) = tpc_id ` set (topicRows s)"
    by (rule map_put_same[OF d t] image_put_same[OF d t]; simp add: keys i)+
  have "tpc_parentTopicId r \<noteq> Some (tpc_id r)"
    using self parent ok i keys by (cases "ut_parentTopicId dto") (auto simp: catalog_defs)
  then have "parents_ok s'"
    using ok stored set_put_found[OF t] maps(3) keys i
    by (auto simp: s' parents_ok_def catalog_ok_def)
  then show ?thesis
    using ok maps by (simp add: s' catalog_ok_def unique_keys_def references_ok_def)
qed

lemma set_course_topics_ok:
  assumes ok: "catalog_ok s" and "set_course_topics e i items s = Inr (r, s')"
  shows "catalog_ok s'"
proof -
  let ?ids = "new_set (map ci_topicId items)"
  let ?kept = "filter (\<lambda>x. ctp_courseId x \<noteq> i) (courseTopicRows s)"
  let ?new = "map (\<lambda>it. \<lparr>ctp_courseId = i, ctp_topicId = ci_topicId it,
                ctp_relevanceWeight = or_else (ci_relevanceWeight it) 1\<rparr>) items"
  have course: "i \<in> crs_id ` set (courseRows s)" and len: "length ?ids = length items"
    and found: "length (filter (\<lambda>t. tpc_id t \<in> set ?ids) (topicRows s)) = length ?ids"
    and s': "s' = s\<lparr>courseTopicRows := ?kept @ ?new\<rparr>"
    using assms(2) by (auto simp: set_course_topics_def returns find_defs Let_def dest: find_by_Some)
  have "distinct (map ci_topicId items)"
    using len by (metis distinct_new_set card_distinct distinct_card length_map set_new_set)
  then have new: "distinct (map (\<lambda>x. (ctp_courseId x, ctp_topicId x)) ?new)"
    by (auto simp: distinct_map inj_on_def)
  have "set ?ids \<subseteq> tpc_id ` set (topicRows s)"
  proof -
    let ?f = "map tpc_id (filter (\<lambda>t. tpc_id t \<in> set ?ids) (topicRows s))"
    have "distinct ?f"
      using ok by (auto simp: catalog_defs distinct_map intro: inj_on_subset)
    then have "card (set ?f) = length ?ids"
      using found by (simp add: distinct_card del: set_map)
    moreover have "set ?f \<subseteq> set ?ids"
      by auto
    moreover have "card (set ?ids) = length ?ids"
      by (rule distinct_card) simp
    ultimately have "set ?f = set ?ids"
      by (intro card_subset_eq) auto
    then show ?thesis
      by auto
  qed
  then have "ci_topicId ` set items \<subseteq> tpc_id ` set (topicRows s)"
    by (simp add: set_new_set)
  moreover have "distinct (map (\<lambda>x. (ctp_courseId x, ctp_topicId x)) ?kept)"
    using ok by (auto simp: catalog_defs distinct_map intro: inj_on_subset)
  ultimately show ?thesis
    using ok new course
    by (auto simp: s' catalog_ok_def unique_keys_def references_ok_def parents_ok_def)
qed

section \<open>Requests\<close>

lemma answer_with_Inr [returns]: "answer_with c f s = Inr (a, s') \<longleftrightarrow> (\<exists>x. f s = Inr (x, s') \<and> a = c x)"
  by (auto simp: answer_with_def returns)

lemma looked_up_Inr [returns]: "looked_up c f s = Inr (a, s') \<longleftrightarrow> (\<exists>x. f s = Inr x \<and> a = c x \<and> s' = s)"
  by (auto simp: looked_up_def returns)

lemma after_pipes_Inr [returns]: "after_pipes ps f s = Inr p \<longleftrightarrow> all_of ps = Inr () \<and> f s = Inr p"
  by (auto simp: after_pipes_def returns)

lemma as_admin_Inr [returns]:
  "as_admin h f s = Inr p \<longleftrightarrow>
   (\<exists>i. h ''x-user-id'' = Some i \<and> i \<noteq> '''') \<and> h ''x-user-role'' = Some ''admin'' \<and> f s = Inr p"
  by (auto simp: as_admin_def require_catalog_admin_def user_from_request_def returns truthy_def split: option.splits if_splits)

lemma listing_Inr [returns]: "listing c newest rows page limit s = Inr (a, s') \<Longrightarrow> s' = s"
  by (auto simp: listing_def returns)

lemma academic_route_ok:
  assumes "catalog_ok s" "academic_route e h call s = Inr (a, s')"
  shows "catalog_ok s'"
  using assms
  by (cases call)
    (auto simp: academic_route_def returns Let_def dest: listing_Inr
      dest: create_major_ok create_course_ok update_major_ok update_course_ok create_curriculum_ok
        update_curriculum_status_ok add_curriculum_course_ok create_topic_ok update_topic_ok set_course_topics_ok)

lemma academic_controller_cases:
  obtains (refused) ex where "academic_route e h call s = Inl ex" "academic_controller e h call s = (Inl ex, s)"
  | (served) a s' where "academic_route e h call s = Inr (a, s')" "academic_controller e h call s = (Inr a, s')"
  unfolding academic_controller_def by (rule transaction_cases)

interpretation catalog_machine: inductive_invariant "\<lambda>s. s = empty_academic" academic_step catalog_ok
proof unfold_locales
  show "catalog_ok s" if "s = empty_academic" for s
    using that by (simp add: catalog_defs empty_academic_def)
next
  fix s s' assume ok: "catalog_ok s" and "academic_step s s'"
  then obtain e h call where "s' = snd (academic_controller e h call s)"
    by (auto simp: academic_step_def)
  then show "catalog_ok s'"
    using ok academic_route_ok by (cases rule: academic_controller_cases[of e h call s]) auto
qed

end
