(* ===== verification/Academic_Spec.thy ===== *)
theory Academic_Spec
  imports Academic_Inv Sample_Cases
begin

text \<open>
  The properties of the academic service: a consistent catalogue, who may change it, the contexts it hands out, the
  active curriculum of a major, and what the posts of the discussion service say about their course.
\<close>

section \<open>A run on concrete data\<close>

definition registrar :: headers where
  "registrar k = (if k = ''x-user-id'' then Some ''root'' else if k = ''x-user-role'' then Some ''admin''
    else if k = ''x-internal-token'' then Some ''secret'' else None)"

definition faculty_env :: "string \<Rightarrow> academic_env" where
  "faculty_env i = \<lparr>ae_now = 1, ae_fresh = i, ae_valid_uuid = (\<lambda>_. True), ae_pg_uuid = (\<lambda>_. True),
     ae_token = Some ''secret'', ae_newestMajors = id, ae_newestCourses = id, ae_newestTopics = id,
     ae_latestCurricula = id, ae_displayed = id\<rparr>"

definition enact :: "string \<Rightarrow> academic_call \<Rightarrow> academic \<Rightarrow> academic" where
  "enact i call s = snd (academic_controller (faculty_env i) registrar call s)"

definition it_program :: "string \<Rightarrow> curriculum_dto" where
  "it_program v = \<lparr>kc_majorId = ''it'', kc_version = v, kc_effectiveYear = 2024, kc_status = Some ActiveCurriculum\<rparr>"

definition faculty1 :: academic where
  "faculty1 = enact ''cc1'' (PostCurriculumCourse \<lparr>kk_curriculumId = ''p1'', kk_courseId = ''algo'',
       kk_courseType = RequiredCourse, kk_recommendedSemester = Some 3, kk_displayOrder = None\<rparr>)
     (enact ''p1'' (PostCurriculum (it_program ''2024''))
     (enact ''algo'' (PostCourse \<lparr>kd_code = ''int1306'', kd_name = ''Algorithms'', kd_description = None, kd_status = None\<rparr>)
     (enact ''it'' (PostMajor \<lparr>kd_code = '' it '', kd_name = ''Computing'', kd_description = None, kd_status = None\<rparr>)
       empty_academic)))"

definition faculty2 :: academic where
  "faculty2 = enact ''p2'' (PostCurriculum (it_program ''2025'')) faculty1"

lemma reachable_enact: "academic_reachable s \<Longrightarrow> academic_reachable (enact i call s)"
  by (rule reach.stepped) (auto simp: academic_step_def enact_def)

lemma reachable_faculty: "academic_reachable faculty1" "academic_reachable faculty2"
  unfolding faculty2_def faculty1_def by (intro reachable_enact reach.started refl)+

lemma faculty1_eq:
  "faculty1 =
     \<lparr>majorRows = [\<lparr>maj_id = ''it'', maj_code = ''IT'', maj_name = ''Computing'', maj_description = '''',
        maj_status = CatalogActive, maj_createdAt = 1\<rparr>],
      courseRows = [\<lparr>crs_id = ''algo'', crs_code = Some ''INT1306'', crs_name = ''Algorithms'', crs_description = '''',
        crs_status = CatalogActive, crs_createdAt = 1\<rparr>],
      curriculumRows = [\<lparr>cur_id = ''p1'', cur_majorId = ''it'', cur_version = ''2024'', cur_effectiveYear = 2024,
        cur_status = ActiveCurriculum, cur_createdAt = 1\<rparr>],
      curriculumCourseRows = [\<lparr>ccr_id = ''cc1'', ccr_curriculumId = ''p1'', ccr_courseId = ''algo'',
        ccr_courseType = RequiredCourse, ccr_recommendedSemester = Some 3, ccr_displayOrder = 0\<rparr>],
      topicRows = [], courseTopicRows = []\<rparr>"
  by code_simp

lemma faculty2_active: "map cur_status (curriculumRows faculty2) = [ActiveCurriculum, ActiveCurriculum]"
  "map cur_majorId (curriculumRows faculty2) = [''it'', ''it'']"
  by code_simp+

section \<open>The catalogue\<close>

text \<open>
  C23. In every reachable state of the academic service ids and codes are unique, a major has no two curricula of
  one version, a curriculum no course twice, a course no topic twice; every reference leads to a row; no topic is
  its own parent.
\<close>

theorem catalogue_consistent:
  assumes "academic_reachable s"
  shows "unique_keys s \<and> references_ok s \<and> parents_ok s"
  using catalog_machine.holds[OF assms] by (simp add: catalog_ok_def)

theorem catalogue_consistent_witness:
  "academic_reachable faculty1 \<and> unique_keys faculty1 \<and> references_ok faculty1 \<and> parents_ok faculty1 \<and>
   curriculumCourseRows faculty1 \<noteq> []"
  using catalogue_consistent[OF reachable_faculty(1)] reachable_faculty(1) by (simp add: faculty1_eq)

text \<open>
  Only an administrator changes the catalogue, by a request that succeeds; and without the token of the
  services nobody learns a context or a major from the internal routes.
\<close>

theorem catalogue_changes:
  "(snd (academic_controller e h call s) \<noteq> s \<longrightarrow>
     h ''x-user-role'' = Some ''admin'' \<and> (\<exists>i. h ''x-user-id'' = Some i \<and> i \<noteq> '''') \<and>
     (\<exists>r. fst (academic_controller e h call s) = Inr r)) \<and>
   ((\<exists>i. call = ReadContext i \<or> call = ReadMajor i) \<and> (ae_token e = None \<or> h ''x-internal-token'' \<noteq> ae_token e) \<longrightarrow>
     fst (academic_controller e h call s) = Inl (Unauthorized ''Invalid internal service token''))"
proof -
  have "h ''x-user-role'' = Some ''admin'' \<and> (\<exists>i. h ''x-user-id'' = Some i \<and> i \<noteq> '''')"
    if "academic_route e h call s = Inr (a, s')" "s' \<noteq> s" for a s'
    using that by (cases call) (auto simp: academic_route_def returns Let_def dest: listing_Inr)
  moreover have "academic_route e h call s = Inl (Unauthorized ''Invalid internal service token'')"
    if "\<exists>i. call = ReadContext i \<or> call = ReadMajor i" "ae_token e = None \<or> h ''x-internal-token'' \<noteq> ae_token e"
    using that
    by (auto simp: academic_route_def after_pipes_def all_of_def service_token_guard_def truthy_def guardE_def)
  ultimately show ?thesis
    by (cases rule: academic_controller_cases[of e h call s]) auto
qed

theorem catalogue_changes_witness:
  "snd (academic_controller (faculty_env ''p2'') registrar (PostCurriculum (it_program ''2025'')) faculty1) \<noteq> faculty1 \<and>
   registrar ''x-user-role'' = Some ''admin''"
proof -
  have "snd (academic_controller (faculty_env ''p2'') registrar (PostCurriculum (it_program ''2025'')) faculty1) \<noteq> faculty1"
    using faculty2_active(1) unfolding faculty2_def enact_def by (auto simp: faculty1_eq)
  then show ?thesis
    using catalogue_changes[of "faculty_env ''p2''" registrar "PostCurriculum (it_program ''2025'')" faculty1] by blast
qed

section \<open>Contexts\<close>

definition active_context :: "academic \<Rightarrow> uuid \<Rightarrow> curriculum_course_row \<Rightarrow> course_row \<Rightarrow> curriculum_row \<Rightarrow> major_row \<Rightarrow> bool" where
  "active_context s i x course curriculum major \<longleftrightarrow>
     x \<in> set (curriculumCourseRows s) \<and> course \<in> set (courseRows s) \<and> curriculum \<in> set (curriculumRows s) \<and>
     major \<in> set (majorRows s) \<and> ccr_id x = i \<and> ccr_courseId x = crs_id course \<and>
     ccr_curriculumId x = cur_id curriculum \<and> cur_majorId curriculum = maj_id major \<and>
     crs_status course = CatalogActive \<and> cur_status curriculum = ActiveCurriculum \<and> maj_status major = CatalogActive"

lemma find_row:
  assumes "distinct (map key t)" "r \<in> set t"
  shows "find_by (\<lambda>x. key x = key r) t = Some r"
  using assms by (intro find_by_distinct[where key = key]) auto

lemma course_context_Inr:
  assumes "course_context i s = Inr c"
  shows "\<exists>x. active_context s i x (cx_course c) (cx_curriculum c) (cx_major c)" "cx_curriculumCourseId c = i"
    "cx_majorId c = maj_id (cx_major c)" "cx_curriculumId c = cur_id (cx_curriculum c)"
    "cx_courseId c = crs_id (cx_course c)"
  using assms
  by (auto simp: course_context_def returns find_defs active_context_def dest!: find_by_Some)

lemma course_topics_active:
  assumes "catalog_ok s"
  shows "set (filter (\<lambda>(_, t). map_option tpc_status t = Some CatalogActive) (course_topics_of i s)) =
    {(l, Some t) | l t. l \<in> set (courseTopicRows s) \<and> ctp_courseId l = i \<and> t \<in> set (topicRows s) \<and>
       tpc_id t = ctp_topicId l \<and> tpc_status t = CatalogActive}"
proof -
  have "distinct (map tpc_id (topicRows s))"
    using assms by (simp add: catalog_defs)
  then have "find_topic k s = Some t \<longleftrightarrow> t \<in> set (topicRows s) \<and> tpc_id t = k" for k t
    using find_row[where key = tpc_id] by (auto simp: find_topic_def dest: find_by_Some)
  then show ?thesis
    by (auto simp: course_topics_of_def intro!: rev_image_eqI) metis
qed

lemma course_context_iff:
  assumes "catalog_ok s"
  shows "(\<exists>c. course_context i s = Inr c) \<longleftrightarrow> (\<exists>x course curriculum major. active_context s i x course curriculum major)"
proof
  assume "\<exists>x course curriculum major. active_context s i x course curriculum major"
  then obtain x course curriculum major where *: "active_context s i x course curriculum major"
    by blast
  have "find_by (\<lambda>y. ccr_id y = ccr_id x) (curriculumCourseRows s) = Some x"
    "find_by (\<lambda>y. crs_id y = crs_id course) (courseRows s) = Some course"
    "find_by (\<lambda>y. cur_id y = cur_id curriculum) (curriculumRows s) = Some curriculum"
    "find_by (\<lambda>y. maj_id y = maj_id major) (majorRows s) = Some major"
    using assms * by (auto simp: catalog_defs active_context_def intro: find_row)
  then show "\<exists>c. course_context i s = Inr c"
    using * by (auto simp: active_context_def course_context_def find_defs returns)
qed (use course_context_Inr(1) in blast)

lemma course_context_Inl:
  assumes "catalog_ok s" "course_context i s = Inl ex"
  shows "\<exists>m. ex = NotFound m"
proof (cases "find_by (\<lambda>x. ccr_id x = i) (curriculumCourseRows s)")
  case (Some x)
  then have x: "x \<in> set (curriculumCourseRows s)"
    by (auto dest: find_by_Some)
  have "find_by (\<lambda>c. crs_id c = ccr_courseId x) (courseRows s) \<noteq> None"
    "find_by (\<lambda>c. cur_id c = ccr_curriculumId x) (curriculumRows s) \<noteq> None"
    unfolding found_in using assms(1) x by (auto simp: catalog_ok_def references_ok_def)
  then obtain course curriculum where
    *: "find_by (\<lambda>c. crs_id c = ccr_courseId x) (courseRows s) = Some course"
      "find_by (\<lambda>c. cur_id c = ccr_curriculumId x) (curriculumRows s) = Some curriculum"
    by auto
  have "find_by (\<lambda>m. maj_id m = cur_majorId curriculum) (majorRows s) \<noteq> None"
    unfolding found_in using assms(1) find_by_Some[OF *(2)] by (auto simp: catalog_ok_def references_ok_def)
  then show ?thesis
    using assms(2) Some * by (auto simp: course_context_def find_defs guardE_def split: if_splits)
qed (use assms(2) in \<open>auto simp: course_context_def\<close>)

lemma course_context_topics:
  "course_context i s = Inr c \<Longrightarrow>
   cx_allowedTopics c = filter (\<lambda>(_, t). map_option tpc_status t = Some CatalogActive) (course_topics_of (cx_courseId c) s)"
  by (auto simp: course_context_def returns)

text \<open>
  For an entry of a curriculum the service returns its context exactly when the course, the curriculum and the
  major are all active, with the rows the entry refers to and the active ones of the topics of the course; otherwise
  the entry is not found. No other error occurs.
\<close>

theorem active_contexts:
  assumes "academic_reachable s"
  shows "((\<exists>c. course_context i s = Inr c) \<longleftrightarrow> (\<exists>x course curriculum major. active_context s i x course curriculum major)) \<and>
    (\<forall>c. course_context i s = Inr c \<longrightarrow>
       (\<exists>x. active_context s i x (cx_course c) (cx_curriculum c) (cx_major c)) \<and> cx_curriculumCourseId c = i \<and>
       cx_majorId c = maj_id (cx_major c) \<and> cx_curriculumId c = cur_id (cx_curriculum c) \<and>
       cx_courseId c = crs_id (cx_course c) \<and>
       set (cx_allowedTopics c) =
         {(l, Some t) | l t. l \<in> set (courseTopicRows s) \<and> ctp_courseId l = cx_courseId c \<and> t \<in> set (topicRows s) \<and>
            tpc_id t = ctp_topicId l \<and> tpc_status t = CatalogActive}) \<and>
    (\<forall>ex. course_context i s = Inl ex \<longrightarrow> (\<exists>m. ex = NotFound m))"
proof -
  have ok: "catalog_ok s"
    using catalog_machine.holds[OF assms] .
  have topics: "set (cx_allowedTopics c) =
         {(l, Some t) | l t. l \<in> set (courseTopicRows s) \<and> ctp_courseId l = cx_courseId c \<and> t \<in> set (topicRows s) \<and>
            tpc_id t = ctp_topicId l \<and> tpc_status t = CatalogActive}" if "course_context i s = Inr c" for c
    by (simp only: course_context_topics[OF that] course_topics_active[OF ok])
  show ?thesis
  proof (intro conjI allI impI)
    show "(\<exists>c. course_context i s = Inr c) \<longleftrightarrow> (\<exists>x course curriculum major. active_context s i x course curriculum major)"
      by (rule course_context_iff[OF ok])
  qed (use course_context_Inr[of i s] course_context_Inl[OF ok, of i] topics in simp_all)
qed

theorem active_contexts_witness:
  "\<exists>c. course_context ''cc1'' faculty1 = Inr c \<and> cx_majorId c = ''it'' \<and> cx_courseId c = ''algo''"
proof -
  have "active_context faculty1 ''cc1'' (hd (curriculumCourseRows faculty1)) (hd (courseRows faculty1))
      (hd (curriculumRows faculty1)) (hd (majorRows faculty1))"
    by (simp add: faculty1_eq active_context_def)
  then obtain c where c: "course_context ''cc1'' faculty1 = Inr c"
    using active_contexts[OF reachable_faculty(1), of "''cc1''", THEN conjunct1] by blast
  have "\<exists>x. active_context faculty1 ''cc1'' x (cx_course c) (cx_curriculum c) (cx_major c)"
    "cx_majorId c = maj_id (cx_major c)" "cx_courseId c = crs_id (cx_course c)"
    using active_contexts[OF reachable_faculty(1), of "''cc1''", THEN conjunct2, THEN conjunct1, rule_format, OF c]
    by simp_all
  then have "cx_majorId c \<in> maj_id ` set (majorRows faculty1)" "cx_courseId c \<in> crs_id ` set (courseRows faculty1)"
    by (auto simp: active_context_def)
  moreover have "maj_id ` set (majorRows faculty1) = {''it''}" "crs_id ` set (courseRows faculty1) = {''algo''}"
    by (simp_all add: faculty1_eq)
  ultimately show ?thesis
    using c by (intro exI[of _ c]) simp
qed

section \<open>Active curricula\<close>

definition one_active :: "academic \<Rightarrow> bool" where
  "one_active s \<longleftrightarrow>
     (\<forall>c \<in> set (curriculumRows s). \<forall>c' \<in> set (curriculumRows s).
        cur_status c = ActiveCurriculum \<and> cur_status c' = ActiveCurriculum \<and> cur_majorId c = cur_majorId c' \<longrightarrow> c = c')"

lemma one_active_subset:
  "one_active s \<Longrightarrow> {c \<in> set (curriculumRows s'). cur_status c = ActiveCurriculum} \<subseteq> set (curriculumRows s) \<Longrightarrow> one_active s'"
  by (simp add: one_active_def subset_iff)

lemma update_curriculum_status_one_active:
  assumes "one_active s" "catalog_ok s" "update_curriculum_status i st s = Inr (r, s')"
  shows "one_active s'"
proof -
  obtain c where c: "find_by (\<lambda>x. cur_id x = i) (curriculumRows s) = Some c" and r: "r = c\<lparr>cur_status := st\<rparr>"
    and s': "s' = s\<lparr>curriculumRows := put cur_id r (curriculumRows s)\<rparr>"
    and only: "st = ActiveCurriculum \<Longrightarrow>
     (\<forall>other. find_by (\<lambda>x. cur_majorId x = cur_majorId c \<and> cur_status x = ActiveCurriculum) (curriculumRows s) = Some other \<longrightarrow>
        cur_id other = i)"
    by (rule update_curriculum_status_found[OF assms(3)]) blast
  have rows: "x \<in> set (curriculumRows s') \<longleftrightarrow> x = r \<or> x \<in> set (curriculumRows s) \<and> cur_id x \<noteq> i" for x
    using set_put_found[OF c, of r] find_by_Some[OF c] r by (simp add: s')
  have "False" if "st = ActiveCurriculum" "x \<in> set (curriculumRows s)" "cur_id x \<noteq> i"
      "cur_status x = ActiveCurriculum" "cur_majorId x = cur_majorId c" for x
  proof (cases "find_by (\<lambda>x. cur_majorId x = cur_majorId c \<and> cur_status x = ActiveCurriculum) (curriculumRows s)")
    case None
    then show False
      using that by (auto simp: find_by_None)
  next
    case (Some other)
    then have "other = x"
      using assms(1) that find_by_Some[OF Some] by (auto simp: one_active_def)
    then show False
      using only that(1,3) Some by auto
  qed
  then show ?thesis
    using assms(1) r by (auto simp: one_active_def rows) metis+
qed

lemma route_one_active:
  assumes "one_active s" "catalog_ok s" "academic_route e h call s = Inr (a, s')"
    and "\<And>dto. call = PostCurriculum dto \<Longrightarrow> kc_status dto \<noteq> Some ActiveCurriculum"
  shows "one_active s'"
proof (cases "\<exists>i st. call = PatchCurriculumStatus i st")
  case True
  then show ?thesis
    using assms(1-3) update_curriculum_status_one_active by (auto simp: academic_route_def returns)
next
  case False
  have "{c \<in> set (curriculumRows s'). cur_status c = ActiveCurriculum} \<subseteq> set (curriculumRows s)"
    using False assms(3,4)
    by (cases call)
      (auto simp: academic_route_def returns Let_def create_major_def insert_major_def create_course_def
        insert_course_def update_major_def update_course_def create_curriculum_def add_curriculum_course_def
        create_topic_def update_topic_def set_course_topics_def transform_curriculum_def or_else_def
        dest: listing_Inr split: if_splits option.splits)
  then show ?thesis
    by (rule one_active_subset[OF assms(1)])
qed

text \<open>
  C24. The service keeps a major from having two active curricula when a curriculum is activated: whatever the
  request, if there was at most one there still is. The exception is a curriculum that is created as active: two
  such requests give a reachable state with two active curricula of one major.
\<close>

theorem active_curricula:
  "(academic_reachable s \<and> one_active s \<and> (\<forall>dto. call = PostCurriculum dto \<longrightarrow> kc_status dto \<noteq> Some ActiveCurriculum) \<longrightarrow>
      one_active (snd (academic_controller e h call s))) \<and>
   (\<exists>s. academic_reachable s \<and> \<not> one_active s)"
proof
  show "academic_reachable s \<and> one_active s \<and> (\<forall>dto. call = PostCurriculum dto \<longrightarrow> kc_status dto \<noteq> Some ActiveCurriculum) \<longrightarrow>
      one_active (snd (academic_controller e h call s))"
    using route_one_active[of s e h call] catalog_machine.holds[of s]
    by (cases rule: academic_controller_cases[of e h call s]) auto
  have "distinct (map cur_id (curriculumRows faculty2))"
    using catalog_machine.holds[OF reachable_faculty(2)] by (simp add: catalog_defs)
  then have "\<not> one_active faculty2"
    using faculty2_active by (cases "curriculumRows faculty2") (auto simp: one_active_def)
  then show "\<exists>s. academic_reachable s \<and> \<not> one_active s"
    using reachable_faculty(2) by blast
qed

theorem active_curricula_witness:
  "one_active faculty1 \<and> one_active (snd (academic_controller (faculty_env ''x'') registrar (PatchCurriculumStatus ''p1'' ActiveCurriculum) faculty1))"
proof -
  have "one_active faculty1"
    by (simp add: faculty1_eq one_active_def)
  then show ?thesis
    using active_curricula[of faculty1 "PatchCurriculumStatus ''p1'' ActiveCurriculum" "faculty_env ''x''" registrar]
      reachable_faculty(1) by simp
qed

end
