(* ===== verification/New_Posts.thy ===== *)
theory New_Posts
  imports Effects
begin

text \<open>
  What is known when a post was created: the answers of the other services that let it pass, and what was stored.
\<close>

lemma create_discussion_returned:
  assumes "fst (create_discussion e u dto s) = Inr v"
  obtains author selected pc t i s' where
    "case cd_curriculumCourseId dto of None \<Rightarrow> selected = None
      | Some cc \<Rightarrow> \<exists>c. academic_context e cc = Inr c \<and> selected = Some c"
    "uid u = Some author" "author \<noteq> ''''" "validate_media e (or_else (cd_mediaIds dto) []) (Some author) = Inr ()"
    "assertCanPost e (cd_roomId dto) u s = (Inr pc, t)"
    "create_discussion_body e dto author selected pc t = Inr (i, s')" "snd (create_discussion e u dto s) = s'"
proof (cases "bindE (authenticated u) (\<lambda>authorId.
           bindE (validate_media e (or_else (cd_mediaIds dto) []) (Some authorId)) (\<lambda>_.
           bindE (case cd_curriculumCourseId dto of
                    None \<Rightarrow> Inr None
                  | Some cc \<Rightarrow> bindE (academic_context e cc) (\<lambda>c. Inr (Some c))) (\<lambda>selected.
           Inr (authorId, selected))))")
  case (Inl ex)
  then show ?thesis using assms by (simp add: create_discussion_def)
next
  case (Inr q)
  obtain author selected where q: "q = (author, selected)" by (cases q)
  obtain res t where gate: "assertCanPost e (cd_roomId dto) u s = (res, t)"
    by (cases "assertCanPost e (cd_roomId dto) u s")
  obtain pc where pc: "res = Inr pc"
    using assms Inr gate by (cases res) (auto simp: create_discussion_def q)
  obtain i s' where body: "create_discussion_body e dto author selected pc t = Inr (i, s')"
    using assms Inr gate pc
    by (cases "create_discussion_body e dto author selected pc t") (auto simp: create_discussion_def q)
  have "snd (create_discussion e u dto s) = s'"
    using Inr gate pc body by (auto simp: create_discussion_def q findOne_def split: sum.splits)
  moreover have "case cd_curriculumCourseId dto of None \<Rightarrow> selected = None
      | Some cc \<Rightarrow> \<exists>c. academic_context e cc = Inr c \<and> selected = Some c"
    using Inr by (auto simp: q returns split: option.splits)
  moreover have "uid u = Some author" "author \<noteq> ''''"
    "validate_media e (or_else (cd_mediaIds dto) []) (Some author) = Inr ()"
    using Inr by (auto simp: q returns)
  ultimately show thesis
    using that gate pc body by blast
qed

lemma gate_binding:
  "assertCanPost e r u s = (Inr pc, t) \<Longrightarrow> pc_binding pc = binding r t \<and> bindings t = bindings s"
  using assertCanPost_only[of s e r u]
  by (auto simp: assertCanPost_def returns Let_def post_gate_Inr find_room_def content_eq_tables(2) only_memberships_content_eq
      dest!: find_by_Some split: sum.splits prod.splits)

lemma posted_row:
  assumes "create_discussion_body e dto author selected pc t = Inr (k, s')"
  shows "new_discussion e dto author selected pc \<in> set (discussions s')"
    "i \<in> set (or_else (cd_mediaIds dto) []) \<Longrightarrow>
      \<exists>m \<in> set (discussionMedia s'). dm_discussionId m = fresh e 0 \<and> dm_mediaId m = i"
    "context_fits selected pc = Inr ()"
proof -
  show "new_discussion e dto author selected pc \<in> set (discussions s')"
    using assms
    by (rule create_discussion_body_Inr)
      (simp add: content_eq_tables created_post_def Let_def tagCounts_def attach_def)
  show "\<exists>m \<in> set (discussionMedia s'). dm_discussionId m = fresh e 0 \<and> dm_mediaId m = i"
    if "i \<in> set (or_else (cd_mediaIds dto) [])"
  proof -
    from that obtain n where "n < length (or_else (cd_mediaIds dto) [])" "or_else (cd_mediaIds dto) [] ! n = i"
      unfolding in_set_conv_nth by blast
    then have "(n, i) \<in> set (enumerate 0 (or_else (cd_mediaIds dto) []))"
      by (simp add: in_set_enumerate_eq)
    then show ?thesis
      using assms
      by (elim create_discussion_body_Inr)
        (auto simp: content_eq_tables created_post_def Let_def tagCounts_def attach_def new_discussion_def
          intro!: bexI[where x = "\<lparr>dm_discussionId = fresh e 0, dm_mediaId = i, dm_sortOrder = n\<rparr>"] rev_image_eqI)
  qed
  show "context_fits selected pc = Inr ()"
    using assms by (auto simp: create_discussion_body_def Let_def returns)
qed

end
