(* ===== verification/Service_Links.thy ===== *)
theory Service_Links
  imports Controllers
begin

text \<open>
  What the calls between the services share: the status of an exception and the headers of a service.
\<close>

definition status_of :: "exn \<Rightarrow> nat" where
  "status_of ex = (case ex of BadRequest _ \<Rightarrow> 400 | Unauthorized _ \<Rightarrow> 401 | Forbidden _ \<Rightarrow> 403 | NotFound _ \<Rightarrow> 404
     | Conflict _ \<Rightarrow> 409 | PayloadTooLarge _ \<Rightarrow> 413 | TooManyRequests _ \<Rightarrow> 429 | ServiceUnavailable _ \<Rightarrow> 503 | UniqueViolation _ \<Rightarrow> 500
     | InternalError _ \<Rightarrow> 500)"

definition service_headers :: "string \<Rightarrow> headers" where
  "service_headers token k = (if k = ''x-internal-token'' then Some token else None)"

text \<open>The reply of a route, as far as the caller reads it.\<close>

definition reply_of :: "('a \<Rightarrow> 'b option) \<Rightarrow> exn + 'a \<Rightarrow> 'b reply" where
  "reply_of body r = (case r of Inl ex \<Rightarrow> Reply (status_of ex) None | Inr a \<Rightarrow> Reply 200 (body a))"

lemma status_not_ok [simp]: "\<not> (200 \<le> status_of ex \<and> status_of ex < 300)"
  by (cases ex) (simp_all add: status_of_def)

lemma reply_of_ok: "reply_ok (reply_of body r) \<longleftrightarrow> (\<exists>a. r = Inr a)"
  using status_not_ok by (cases r) (auto simp: reply_of_def)

end
