(* ===== verification/Academic_Chain.thy ===== *)
theory Academic_Chain
  imports Academic_Spec New_Posts Service_Links
begin

text \<open>
  The discussion service asks the academic service for the course of a new post: what the post says about its
  course, curriculum and major is what the catalogue says.
\<close>

section \<open>Between the services\<close>

text \<open>The reply of the academic service to \<open>AcademicReferenceService.context\<close>, as far as that reads it.\<close>

definition academic_reply_to :: "academic_env \<Rightarrow> string \<Rightarrow> academic \<Rightarrow> uuid \<Rightarrow> academic_context reply" where
  "academic_reply_to ae token sa i =
     reply_of
       (\<lambda>r. case r of
          AContext c \<Rightarrow>
            Some \<lparr>ctx_curriculumCourseId = cx_curriculumCourseId c, ctx_majorId = cx_majorId c,
                  ctx_curriculumId = cx_curriculumId c, ctx_courseId = cx_courseId c\<rparr>
        | _ \<Rightarrow> None)
       (fst (academic_controller ae (service_headers token) (ReadContext i) sa))"

lemma read_context:
  assumes "ae_token ae = Some token" "token \<noteq> ''''" "ae_valid_uuid ae i"
  shows "fst (academic_controller ae (service_headers token) (ReadContext i) sa) =
    (case course_context i sa of Inl ex \<Rightarrow> Inl ex | Inr c \<Rightarrow> Inr (AContext c))"
  using assms
  by (cases "course_context i sa")
    (auto simp: academic_controller_def academic_route_def after_pipes_def all_of_def service_token_guard_def
      truthy_def uuid_pipe_def looked_up_def service_headers_def)

lemma academic_context_Inr:
  assumes "academic_info e = academic_reply_to ae token sa" "academic_context e i = Inr ctx"
  obtains c where "course_context i sa = Inr c"
    "ctx = \<lparr>ctx_curriculumCourseId = cx_curriculumCourseId c, ctx_majorId = cx_majorId c,
       ctx_curriculumId = cx_curriculumId c, ctx_courseId = cx_courseId c\<rparr>"
proof -
  let ?r = "academic_controller ae (service_headers token) (ReadContext i) sa"
  have "\<exists>c. course_context i sa = Inr c \<and> fst ?r = Inr (AContext c)" if "fst ?r = Inr a" for a
    using that
    by (auto simp: academic_controller_def academic_route_def transaction_def returns split: sum.splits prod.splits)
  then show thesis
    using assms that
    by (auto simp: academic_context_def academic_reply_to_def reply_of_def split: if_splits sum.splits academic_reply.splits)
qed

section \<open>New posts\<close>

text \<open>
  C25. A post that names an entry of a curriculum is created only when the academic service, in whatever state it is,
  has this entry with its course, curriculum and major active; the post refers to exactly these rows, and in a room
  that is bound to a major, it is a course of this major. Without the active rows nothing is posted.
\<close>

theorem posts_of_active_courses:
  assumes "academic_reachable sa" "academic_info e = academic_reply_to ae token sa"
    and "cd_curriculumCourseId dto = Some i"
  shows "(\<forall>v. fst (create_discussion e u dto s) = Inr v \<longrightarrow>
      (\<exists>x course curriculum major. active_context sa i x course curriculum major \<and>
         (\<forall>b. binding (cd_roomId dto) s = Some b \<longrightarrow> b_majorId b = maj_id major) \<and>
         (\<exists>post \<in> set (discussions (snd (create_discussion e u dto s))).
            d_id post = fresh e 0 \<and> d_title post = cd_title dto \<and> d_curriculumCourseId post = Some i \<and>
            d_majorId post = Some (maj_id major) \<and> d_curriculumId post = Some (cur_id curriculum) \<and>
            d_courseId post = Some (crs_id course)))) \<and>
    ((\<nexists>x course curriculum major. active_context sa i x course curriculum major) \<longrightarrow>
      discussions (snd (create_discussion e u dto s)) = discussions s)"
proof (intro conjI allI impI)
  fix v assume "fst (create_discussion e u dto s) = Inr v"
  then obtain author selected pc t k s' where
    *: "\<exists>c. academic_context e i = Inr c \<and> selected = Some c" "assertCanPost e (cd_roomId dto) u s = (Inr pc, t)"
      "create_discussion_body e dto author selected pc t = Inr (k, s')" "snd (create_discussion e u dto s) = s'"
    using assms(3) by (elim create_discussion_returned) auto
  then obtain c where c: "course_context i sa = Inr c"
    and sel: "selected = Some \<lparr>ctx_curriculumCourseId = cx_curriculumCourseId c, ctx_majorId = cx_majorId c,
       ctx_curriculumId = cx_curriculumId c, ctx_courseId = cx_courseId c\<rparr>"
    using academic_context_Inr[OF assms(2)] by metis
  obtain x where x: "active_context sa i x (cx_course c) (cx_curriculum c) (cx_major c)"
    using course_context_Inr(1)[OF c] by blast
  have "\<forall>b. binding (cd_roomId dto) s = Some b \<longrightarrow> b_majorId b = maj_id (cx_major c)"
    using gate_binding[OF *(2)] posted_row(3)[OF *(3)] course_context_Inr(3)[OF c]
    by (auto simp: sel context_fits_def binding_def split: if_splits)
  moreover have "new_discussion e dto author selected pc \<in> set (discussions (snd (create_discussion e u dto s)))"
    using posted_row(1)[OF *(3)] *(4) by simp
  ultimately show "\<exists>x course curriculum major. active_context sa i x course curriculum major \<and>
         (\<forall>b. binding (cd_roomId dto) s = Some b \<longrightarrow> b_majorId b = maj_id major) \<and>
         (\<exists>post \<in> set (discussions (snd (create_discussion e u dto s))).
            d_id post = fresh e 0 \<and> d_title post = cd_title dto \<and> d_curriculumCourseId post = Some i \<and>
            d_majorId post = Some (maj_id major) \<and> d_curriculumId post = Some (cur_id curriculum) \<and>
            d_courseId post = Some (crs_id course))"
    using x course_context_Inr(2-5)[OF c]
    by (intro exI conjI bexI) (auto simp: new_discussion_def sel or_ctx_def)
next
  assume none: "\<nexists>x course curriculum major. active_context sa i x course curriculum major"
  have "\<nexists>c. academic_context e i = Inr c"
    using academic_context_Inr[OF assms(2)] course_context_Inr(1) none by metis
  then show "discussions (snd (create_discussion e u dto s)) = discussions s"
    using assms(3) by (auto simp: create_discussion_def returns split: sum.splits)
qed

definition course_env :: env where
  "course_env = (sample_env ''post'' 1)\<lparr>academic_info := academic_reply_to (faculty_env '''') ''secret'' faculty1\<rparr>"

definition course_dto :: create_discussion_dto where
  "course_dto = question_dto\<lparr>cd_curriculumCourseId := Some ''cc1''\<rparr>"

lemma course_post_created:
  "case fst (create_discussion course_env (current_user (signed_in ''ann'' ''student'')) course_dto init_db) of
     Inl _ \<Rightarrow> False | Inr _ \<Rightarrow> True"
  by code_simp

theorem posts_of_active_courses_witness:
  "\<exists>post \<in> set (discussions (snd (create_discussion course_env (current_user (signed_in ''ann'' ''student'')) course_dto init_db))).
     d_title post = ''A sample question'' \<and> d_majorId post = Some ''it'' \<and> d_courseId post = Some ''algo''"
proof -
  let ?u = "current_user (signed_in ''ann'' ''student'')"
  have info: "academic_info course_env = academic_reply_to (faculty_env '''') ''secret'' faculty1"
    and dto: "cd_curriculumCourseId course_dto = Some ''cc1''" "cd_title course_dto = ''A sample question''"
    by (simp_all add: course_env_def course_dto_def question_dto_def)
  obtain v where v: "fst (create_discussion course_env ?u course_dto init_db) = Inr v"
    using course_post_created by (auto split: sum.splits)
  obtain x course curriculum major post where
    "active_context faculty1 ''cc1'' x course curriculum major"
    "post \<in> set (discussions (snd (create_discussion course_env ?u course_dto init_db)))"
    "d_title post = cd_title course_dto" "d_majorId post = Some (maj_id major)" "d_courseId post = Some (crs_id course)"
    using posts_of_active_courses[OF reachable_faculty(1) info dto(1), of ?u init_db, THEN conjunct1, rule_format, OF v]
    by blast
  moreover from this(1) have "maj_id major = ''it''" "crs_id course = ''algo''"
    by (auto simp: active_context_def faculty1_eq)
  ultimately show ?thesis
    using dto(2) by auto
qed

end
