(* ===== verification/Media.thy ===== *)
theory Media
  imports Controllers Machines "HOL-Library.Word"
begin

unbundle bit_operations_syntax

text \<open>
  The media service (\<open>services/media-service/src/media\<close>): files are checked by extension and type, scanned by
  ClamD, stored at the CDN and recorded; deletion asks the discussion service whether a post still uses the file.
  ClamD, the CDN (Cloudinary), the hash function and the discussion service are parameters. The configuration of
  the services and the connection to ClamD are left out: what the socket does is a list of events.
\<close>

type_synonym bytes = "8 word list"

section \<open>The virus scanner\<close>

text \<open>\<open>writeUInt32BE\<close>: the four bytes of a number, the highest first.\<close>

definition uint32_be :: "nat \<Rightarrow> bytes" where
  "uint32_be n =
     (let w = (of_nat n :: 32 word) in map (\<lambda>k. ucast (drop_bit k w)) [24, 16, 8, 0])"

definition chunk_size :: nat where "chunk_size = 65536"

text \<open>The loop over the chunks of the file, with the size in front of each, from an offset on.\<close>

function chunks_from :: "nat \<Rightarrow> bytes \<Rightarrow> bytes" where
  "chunks_from offset buffer =
     (if offset < length buffer
      then let chunk = take chunk_size (drop offset buffer) in
        uint32_be (length chunk) @ chunk @ chunks_from (offset + chunk_size) buffer
      else [])"
  by pat_completeness auto

termination
  by (relation "measure (\<lambda>(offset, buffer). length buffer - offset)") (auto simp: chunk_size_def)

declare chunks_from.simps [simp del]

definition ascii_bytes :: "string \<Rightarrow> bytes" where
  "ascii_bytes t = map of_char t"

definition instream_request :: "bytes \<Rightarrow> bytes" where
  "instream_request buffer =
     ascii_bytes ''zINSTREAM'' @ [0] @ chunks_from 0 buffer @ replicate 4 0"

datatype socket_event = SocketError | SocketEnd | SocketData string

text \<open>
  What the scan promises: the first event that finishes it decides; \<open>None\<close> is a rejection. When no event
  finishes it, the deadline does. The answer ends before its first NUL.
\<close>

fun await_answer :: "string \<Rightarrow> socket_event list \<Rightarrow> string option" where
  "await_answer response [] = None"
| "await_answer response (SocketError # _) = None"
| "await_answer response (SocketEnd # _) = None"
| "await_answer response (SocketData chunk # rest) =
     (let response = response @ chunk in
      if 4096 < length response then None
      else if CHR 0x00 \<in> set response then Some (trim (takeWhile (\<lambda>c. c \<noteq> CHR 0x00) response))
      else await_answer response rest)"

definition ends_with :: "string \<Rightarrow> string \<Rightarrow> bool" where
  "ends_with t suffix = (length suffix \<le> length t \<and> drop (length t - length suffix) t = suffix)"

definition scan :: "(bytes \<Rightarrow> socket_event list) \<Rightarrow> bytes \<Rightarrow> exn + unit" where
  "scan clamd buffer =
     (case await_answer '''' (clamd (instream_request buffer)) of
        None \<Rightarrow> Inl (ServiceUnavailable ''Khong the quet virus. File chua duoc tai len; vui long thu lai.'')
      | Some result \<Rightarrow>
          if ends_with result '' FOUND''
          then Inl (BadRequest ''File bi chan do phat hien moi de doa. Hay go hoac thay file.'')
          else guardE (result = ''stream: OK'')
                 (ServiceUnavailable ''Khong kiem tra duoc file. File chua duoc tai len; vui long thu lai.''))"

section \<open>Checking a file\<close>

datatype media_category = ImageFile | DocumentFile | CodeFile

definition category_name :: "media_category \<Rightarrow> string" where
  "category_name c = (case c of ImageFile \<Rightarrow> ''image'' | DocumentFile \<Rightarrow> ''document'' | CodeFile \<Rightarrow> ''code'')"

definition read_category :: "string \<Rightarrow> media_category option" where
  "read_category t = find_by (\<lambda>c. category_name c = t) [ImageFile, DocumentFile, CodeFile]"

definition allowed_extensions :: "media_category \<Rightarrow> string list" where
  "allowed_extensions c = (case c of
     ImageFile \<Rightarrow> [''.jpg'', ''.jpeg'', ''.png'', ''.gif'', ''.webp'']
   | DocumentFile \<Rightarrow> [''.pdf'', ''.doc'', ''.docx'', ''.xls'', ''.xlsx'', ''.ppt'', ''.pptx'']
   | CodeFile \<Rightarrow>
       [''.js'', ''.ts'', ''.jsx'', ''.tsx'',
        ''.py'', ''.java'', ''.go'', ''.rs'', ''.c'', ''.cpp'', ''.cs'', ''.rb'', ''.php'',
        ''.html'', ''.css'', ''.scss'', ''.less'',
        ''.json'', ''.yaml'', ''.yml'', ''.xml'', ''.toml'',
        ''.sql'', ''.sh'', ''.bash'', ''.zsh'',
        ''.md'', ''.txt''])"

definition allowed_mimetypes :: "media_category \<Rightarrow> string list" where
  "allowed_mimetypes c = (case c of
     ImageFile \<Rightarrow> [''image/jpeg'', ''image/png'', ''image/gif'', ''image/webp'']
   | DocumentFile \<Rightarrow>
       [''application/pdf'', ''application/msword'',
        ''application/vnd.openxmlformats-officedocument.wordprocessingml.document'',
        ''application/vnd.ms-excel'',
        ''application/vnd.openxmlformats-officedocument.spreadsheetml.sheet'',
        ''application/vnd.ms-powerpoint'',
        ''application/vnd.openxmlformats-officedocument.presentationml.presentation'']
   | CodeFile \<Rightarrow> [])"

definition max_file_size_bytes :: nat where "max_file_size_bytes = 10 * 1024 * 1024"

text \<open>
  \<open>path.extname\<close> of Node: from the last dot of the last part of a path on; nothing when there is no dot, when
  the dot comes first, and for \<open>..\<close>.
\<close>

definition base_name :: "string \<Rightarrow> string" where
  "base_name path = rev (takeWhile (\<lambda>c. c \<noteq> CHR ''/'') (dropWhile (\<lambda>c. c = CHR ''/'') (rev path)))"

definition extname :: "string \<Rightarrow> string" where
  "extname path =
     (let base = base_name path; ext = rev (takeWhile (\<lambda>c. c \<noteq> CHR ''.'') (rev base)) in
      if CHR ''.'' \<notin> set base \<or> length ext + 1 = length base \<or> base = ''..'' then '''' else CHR ''.'' # ext)"

record upload_file =
  uf_originalname :: string
  uf_mimetype :: string
  uf_buffer :: bytes

definition validate_file :: "media_category \<Rightarrow> upload_file option \<Rightarrow> exn + upload_file" where
  "validate_file category file =
     bindE (someE file (BadRequest ''Khong co file nao duoc gui len'')) (\<lambda>f.
     bindE (guardE (to_lower (extname (uf_originalname f)) \<in> set (allowed_extensions category))
              (BadRequest ''Extension khong hop le'')) (\<lambda>_.
     bindE (guardE (category = CodeFile \<or> uf_mimetype f \<in> set (allowed_mimetypes category))
              (BadRequest ''MIME type khong hop le'')) (\<lambda>_. Inr f)))"

section \<open>Files and their records\<close>

datatype scan_status = CleanScan | UnverifiedScan

record asset =
  ma_id :: uuid
  ma_scanStatus :: scan_status
  ma_scannedAt :: "time option"
  ma_originalName :: "string option"
  ma_publicId :: string
  ma_secureUrl :: string
  ma_format :: string
  ma_mimeType :: string
  ma_category :: media_category
  ma_sizeBytes :: nat
  ma_sha256Hash :: string
  ma_uploadedBy :: uuid
  ma_createdAt :: time
  ma_deletedAt :: "time option"
  ma_deletedBy :: "string option"

text \<open>A file at the CDN, under the kind of resource that the CDN made of it.\<close>

record cdn_file =
  cf_publicId :: string
  cf_kind :: string
  cf_content :: bytes

record media =
  assetRows :: "asset list"
  cdnFiles :: "cdn_file list"

text \<open>
  What the CDN answers to an upload; then what a call takes from outside, among it \<open>me_oversize limit size\<close>,
  whether the upload middleware refuses a file for its size.
\<close>

record cdn_result =
  cr_public_id :: string
  cr_secure_url :: string
  cr_format :: string
  cr_kind :: string

record media_env =
  me_now :: time
  me_fresh :: uuid
  me_valid_uuid :: "string \<Rightarrow> bool"
  me_token :: "string option"
  me_oversize :: "nat \<Rightarrow> nat \<Rightarrow> bool"
  me_sha256 :: "string \<Rightarrow> bytes \<Rightarrow> string"
  me_clamd :: "bytes \<Rightarrow> socket_event list"
  me_cdn_upload :: "bytes \<Rightarrow> media_category \<Rightarrow> cdn_result option"
  me_cdn_destroys :: bool
  me_usage :: "uuid \<Rightarrow> nat reply"

definition find_asset :: "uuid \<Rightarrow> media \<Rightarrow> asset option" where
  "find_asset i s = find_by (\<lambda>a. ma_id a = i) (assetRows s)"

text \<open>\<open>findOne\<close> and the check that the row is not deleted.\<close>

definition live_asset :: "uuid \<Rightarrow> media \<Rightarrow> exn + asset" where
  "live_asset i s =
     bindE (someE (find_asset i s) (NotFound ''Media khong ton tai hoac da bi xoa'')) (\<lambda>a.
     bindE (guardE (ma_deletedAt a = None) (NotFound ''Media khong ton tai hoac da bi xoa'')) (\<lambda>_. Inr a))"

text \<open>What the public route shows of a file, and the owner, whom only the other services see.\<close>

record public_media =
  md_id :: uuid
  md_originalName :: "string option"
  md_secureUrl :: string
  md_scanStatus :: scan_status
  md_scannedAt :: "time option"
  md_format :: string
  md_mimeType :: string
  md_category :: media_category
  md_sizeBytes :: nat
  md_createdAt :: time

record media_dto = public_media +
  md_uploadedBy :: uuid

definition to_dto :: "asset \<Rightarrow> media_dto" where
  "to_dto a =
     \<lparr>md_id = ma_id a, md_originalName = ma_originalName a,
      md_secureUrl = (if ma_scanStatus a = CleanScan then ma_secureUrl a else ''''),
      md_scanStatus = ma_scanStatus a, md_scannedAt = ma_scannedAt a, md_format = ma_format a,
      md_mimeType = ma_mimeType a, md_category = ma_category a, md_sizeBytes = ma_sizeBytes a,
      md_createdAt = ma_createdAt a, md_uploadedBy = ma_uploadedBy a\<rparr>"

section \<open>Upload\<close>

definition stored_format :: "cdn_result \<Rightarrow> upload_file \<Rightarrow> string" where
  "stored_format r file =
     or_else (or_opt (truthy (Some (cr_format r)))
                     (truthy (Some (to_lower (take 20 (drop 1 (extname (uf_originalname file)))))))) ''bin''"

definition new_asset ::
  "media_env \<Rightarrow> upload_file \<Rightarrow> media_category \<Rightarrow> string \<Rightarrow> uuid \<Rightarrow> cdn_result \<Rightarrow> asset" where
  "new_asset e file category hash userId r =
     \<lparr>ma_id = me_fresh e, ma_scanStatus = CleanScan, ma_scannedAt = Some (me_now e),
      ma_originalName = Some (take 255 (uf_originalname file)), ma_publicId = cr_public_id r,
      ma_secureUrl = cr_secure_url r, ma_format = stored_format r file, ma_mimeType = uf_mimetype file,
      ma_category = category, ma_sizeBytes = length (uf_buffer file), ma_sha256Hash = hash,
      ma_uploadedBy = userId, ma_createdAt = me_now e, ma_deletedAt = None, ma_deletedBy = None\<rparr>"

text \<open>The table: lengths of columns and unique columns.\<close>

definition insert_asset :: "asset \<Rightarrow> asset list \<Rightarrow> exn + asset list" where
  "insert_asset a rows =
     bindE (guardE (length (ma_format a) \<le> 20 \<and> length (ma_mimeType a) \<le> 100 \<and> length (ma_sha256Hash a) \<le> 64 \<and>
                    length (ma_uploadedBy a) \<le> 36) (InternalError ''value too long'')) (\<lambda>_.
     bindE (guardE (\<not> exists_where (\<lambda>x. ma_id x = ma_id a \<or> ma_publicId x = ma_publicId a \<or>
                                        ma_sha256Hash x = ma_sha256Hash a) rows)
              (UniqueViolation ''media_assets'')) (\<lambda>_. Inr (rows @ [a])))"

text \<open>
  The file goes to the CDN first; when the row is refused afterwards, it stays there. Without a user in the
  header the row lacks its owner and is refused.
\<close>

definition store_file ::
  "media_env \<Rightarrow> upload_file \<Rightarrow> media_category \<Rightarrow> string \<Rightarrow> string option \<Rightarrow> media \<Rightarrow> (exn + media_dto) \<times> media" where
  "store_file e file category hash userHeader s =
     (case me_cdn_upload e (uf_buffer file) category of
        None \<Rightarrow> (Inl (InternalError ''Khong the upload file len CDN. Vui long thu lai.''), s)
      | Some r \<Rightarrow>
          let s1 = s\<lparr>cdnFiles := cdnFiles s @
                       [\<lparr>cf_publicId = cr_public_id r, cf_kind = cr_kind r, cf_content = uf_buffer file\<rparr>]\<rparr> in
          (case userHeader of
             None \<Rightarrow> (Inl (InternalError ''null value in column uploaded_by''), s1)
           | Some userId \<Rightarrow>
               let a = new_asset e file category hash userId r in
               (case insert_asset a (assetRows s1) of
                  Inl ex \<Rightarrow> (Inl ex, s1)
                | Inr rows \<Rightarrow> (Inr (to_dto a), s1\<lparr>assetRows := rows\<rparr>))))"

text \<open>\<open>undefined\<close> as a condition of a query is no condition, and as a text it is the word.\<close>

definition find_upload :: "string \<Rightarrow> string option \<Rightarrow> media \<Rightarrow> asset option" where
  "find_upload hash userHeader s =
     find_by (\<lambda>a. ma_sha256Hash a = hash \<and> (case userHeader of None \<Rightarrow> True | Some u \<Rightarrow> ma_uploadedBy a = u))
       (assetRows s)"

definition content_hash :: "media_env \<Rightarrow> upload_file \<Rightarrow> string option \<Rightarrow> string" where
  "content_hash e file userHeader = me_sha256 e (or_else userHeader ''undefined'' @ [CHR 0x00]) (uf_buffer file)"

definition upload ::
  "media_env \<Rightarrow> upload_file \<Rightarrow> media_category \<Rightarrow> string option \<Rightarrow> media \<Rightarrow> (exn + media_dto) \<times> media" where
  "upload e file category userHeader s =
     (case scan (me_clamd e) (uf_buffer file) of
        Inl ex \<Rightarrow> (Inl ex, s)
      | Inr _ \<Rightarrow>
          let hash = content_hash e file userHeader;
              stored = store_file e file category hash userHeader s in
          (case find_upload hash userHeader s of
             None \<Rightarrow> stored
           | Some a \<Rightarrow>
               if ma_deletedAt a \<noteq> None then stored
               else
                 let a' = a\<lparr>ma_scanStatus := CleanScan, ma_scannedAt := Some (me_now e)\<rparr> in
                 (Inr (to_dto a'), s\<lparr>assetRows := put ma_id a' (assetRows s)\<rparr>)))"

section \<open>Deletion\<close>

text \<open>The CDN removes a file only when the kind of resource of the call is that of the file.\<close>

definition resource_kind :: "media_category \<Rightarrow> string" where
  "resource_kind category = (if category = ImageFile then ''image'' else ''raw'')"

definition destroy_file :: "asset \<Rightarrow> media \<Rightarrow> media" where
  "destroy_file a s =
     s\<lparr>cdnFiles := delete_where (\<lambda>f. cf_publicId f = ma_publicId a \<and> cf_kind f = resource_kind (ma_category a)) (cdnFiles s)\<rparr>"

definition unused :: "media_env \<Rightarrow> uuid \<Rightarrow> exn + unit" where
  "unused e i =
     (case me_usage e i of
        NetworkError \<Rightarrow> Inl (ServiceUnavailable ''Cannot verify attachment usage'')
      | Reply st body \<Rightarrow>
          bindE (guardE (reply_ok (me_usage e i)) (ServiceUnavailable ''Cannot verify attachment usage'')) (\<lambda>_.
          bindE (someE body (InternalError ''invalid JSON'')) (\<lambda>n.
          guardE (n = 0) (BadRequest ''Remove this file from its posts before deleting it''))))"

definition deletable :: "media_env \<Rightarrow> uuid \<Rightarrow> string option \<Rightarrow> string \<Rightarrow> media \<Rightarrow> exn + asset" where
  "deletable e i userHeader userRole s =
     bindE (live_asset i s) (\<lambda>a.
     bindE (guardE (userHeader = Some (ma_uploadedBy a) \<or> userRole = ''admin'' \<or> userRole = ''moderator'')
              (Forbidden ''Ban khong co quyen xoa file nay'')) (\<lambda>_.
     bindE (unused e i) (\<lambda>_. Inr a)))"

definition delete_asset ::
  "media_env \<Rightarrow> uuid \<Rightarrow> string option \<Rightarrow> string \<Rightarrow> media \<Rightarrow> (exn + string) \<times> media" where
  "delete_asset e i userHeader userRole s =
     (case deletable e i userHeader userRole s of
        Inl ex \<Rightarrow> (Inl ex, s)
      | Inr a \<Rightarrow>
          if \<not> me_cdn_destroys e then (Inl (InternalError ''Cloudinary''), s)
          else
            let a' = a\<lparr>ma_deletedAt := Some (me_now e), ma_deletedBy := or_opt userHeader (ma_deletedBy a)\<rparr>;
                s1 = destroy_file a s in
            (Inr ''Xoa file thanh cong'', s1\<lparr>assetRows := put ma_id a' (assetRows s1)\<rparr>))"

section \<open>Routes\<close>

definition media_uuid :: "media_env \<Rightarrow> string \<Rightarrow> exn + unit" where
  "media_uuid e i = guardE (me_valid_uuid e i) (BadRequest ''Validation failed (uuid is expected)'')"

definition media_token_guard :: "string option \<Rightarrow> string option \<Rightarrow> exn + unit" where
  "media_token_guard expected token =
     (case (truthy expected, token) of
        (Some e, Some t) \<Rightarrow>
          guardE (length (utf8 t) = length (utf8 e) \<and> utf8 t = utf8 e) (Forbidden ''Forbidden'')
      | _ \<Rightarrow> Inl (Forbidden ''Forbidden''))"

definition upload_route ::
  "media_env \<Rightarrow> string option \<Rightarrow> string option \<Rightarrow> upload_file option \<Rightarrow> media \<Rightarrow> (exn + media_dto) \<times> media" where
  "upload_route e userHeader category file s =
     (case bindE (guardE (case file of None \<Rightarrow> True | Some f \<Rightarrow> \<not> me_oversize e max_file_size_bytes (length (uf_buffer f)))
                    (PayloadTooLarge ''File too large'')) (\<lambda>_.
           bindE (someE (Option.bind category read_category) (BadRequest ''category khong hop le'')) (\<lambda>c.
           bindE (validate_file c file) (\<lambda>f. Inr (c, f)))) of
        Inl ex \<Rightarrow> (Inl ex, s)
      | Inr (c, f) \<Rightarrow> upload e f c userHeader s)"

datatype media_call =
    PostUpload "string option" "upload_file option"
  | GetMedia uuid
  | DeleteMedia uuid
  | InternalMedia uuid

datatype media_reply =
    Uploaded media_dto
  | PublicMedia public_media
  | InternalMediaReply media_dto
  | DeletedMedia string

definition with_reply :: "('a \<Rightarrow> media_reply) \<Rightarrow> (exn + 'a) \<times> media \<Rightarrow> (exn + media_reply) \<times> media" where
  "with_reply c r = (case r of (Inl ex, s) \<Rightarrow> (Inl ex, s) | (Inr a, s) \<Rightarrow> (Inr (c a), s))"

definition media_controller :: "media_env \<Rightarrow> headers \<Rightarrow> media_call \<Rightarrow> media \<Rightarrow> (exn + media_reply) \<times> media" where
  "media_controller e h call s =
     (case call of
        PostUpload category file \<Rightarrow> with_reply Uploaded (upload_route e (h ''x-user-id'') category file s)
      | GetMedia i \<Rightarrow>
          with_reply (\<lambda>a. PublicMedia (public_media.truncate (to_dto a)))
            (bindE (media_uuid e i) (\<lambda>_. live_asset i s), s)
      | DeleteMedia i \<Rightarrow>
          (case media_uuid e i of
             Inl ex \<Rightarrow> (Inl ex, s)
           | Inr _ \<Rightarrow>
               with_reply DeletedMedia (delete_asset e i (h ''x-user-id'') (or_else (h ''x-user-role'') '''') s))
      | InternalMedia i \<Rightarrow>
          with_reply (\<lambda>a. InternalMediaReply (to_dto a))
            (bindE (media_uuid e i) (\<lambda>_. bindE (media_token_guard (me_token e) (h ''x-internal-token'')) (\<lambda>_.
             live_asset i s)), s))"

section \<open>The service\<close>

text \<open>
  The service may find rows of an earlier version, whose files were never scanned, with their files at the CDN.
\<close>

definition media_installed :: "media \<Rightarrow> bool" where
  "media_installed s \<longleftrightarrow>
     distinct (map ma_id (assetRows s)) \<and> distinct (map ma_publicId (assetRows s)) \<and>
     distinct (map ma_sha256Hash (assetRows s)) \<and>
     list_all (\<lambda>a. ma_scanStatus a = UnverifiedScan \<and> (ma_deletedAt a = None \<longrightarrow> ma_publicId a \<in> cf_publicId ` set (cdnFiles s)))
       (assetRows s)"

definition media_step :: "(bytes \<Rightarrow> socket_event list) \<Rightarrow> media \<Rightarrow> media \<Rightarrow> bool" where
  "media_step clamd s s' \<longleftrightarrow> (\<exists>e h call. me_clamd e = clamd \<and> s' = snd (media_controller e h call s))"

abbreviation media_reachable :: "(bytes \<Rightarrow> socket_event list) \<Rightarrow> media \<Rightarrow> bool" where
  "media_reachable clamd s \<equiv> reach media_installed (media_step clamd) s"

end
