(* ===== verification/Media_Stream.thy ===== *)
theory Media_Stream
  imports Media
begin

text \<open>
  The request to the virus scanner as the scanner reads it: the file comes out again, byte for byte.
\<close>

section \<open>Sizes\<close>

definition read_uint32 :: "bytes \<Rightarrow> nat" where
  "read_uint32 bs = foldl (\<lambda>n b. 256 * n + unat b) 0 bs"

lemma unat_byte: "unat (ucast (drop_bit k (w :: 32 word)) :: 8 word) = unat w div 2 ^ k mod 256"
  using unsigned_less[where ?'a = nat, of w]
  unfolding unsigned_ucast_eq unsigned_drop_bit_eq by (simp add: take_bit_eq_mod drop_bit_eq_div)

lemma base_256:
  "16777216 * (n div 16777216) + 65536 * (n div 65536 mod 256) + 256 * (n div 256 mod 256) + n mod 256 = (n :: nat)"
proof -
  have "n div 65536 = n div 256 div 256" "n div 16777216 = n div 256 div 256 div 256"
    by (simp_all flip: div_mult2_eq)
  moreover have "m = 256 * (m div 256) + m mod 256" for m :: nat
    by simp
  from this[of n] this[of "n div 256"] this[of "n div 256 div 256"] have
    "n = 16777216 * (n div 256 div 256 div 256) + 65536 * (n div 256 div 256 mod 256) + 256 * (n div 256 mod 256) + n mod 256"
    by linarith
  ultimately show ?thesis
    by simp
qed

lemma length_uint32 [simp]: "length (uint32_be n) = 4"
  by (simp add: uint32_be_def Let_def)

lemma read_uint32_be:
  assumes "n < 2 ^ 32"
  shows "read_uint32 (uint32_be n) = n"
proof -
  have "unat (of_nat n :: 32 word) = n"
    using assms by (simp add: unat_of_nat take_bit_nat_eq_self_iff)
  moreover have "n div 16777216 mod 256 = n div 16777216"
    using assms by (intro mod_less) (simp add: less_mult_imp_div_less)
  moreover have "unat (ucast (of_nat n :: 32 word) :: 8 word) = unat (of_nat n :: 32 word) mod 256"
    by (simp add: unsigned_ucast_eq take_bit_eq_mod)
  ultimately show ?thesis
    using base_256[of n] by (simp add: read_uint32_def uint32_be_def Let_def unat_byte)
qed

section \<open>The scanner's side of the protocol\<close>

text \<open>Chunks, each behind its size, up to a size of zero.\<close>

function read_chunks :: "bytes \<Rightarrow> bytes option" where
  "read_chunks bs =
     (if length bs < 4 then None
      else let n = read_uint32 (take 4 bs) in
        if n = 0 then Some []
        else if length bs < 4 + n then None
        else map_option (\<lambda>rest. take n (drop 4 bs) @ rest) (read_chunks (drop (4 + n) bs)))"
  by pat_completeness auto

termination
  by (relation "measure length") auto

declare read_chunks.simps [simp del]

definition instream_prefix :: bytes where
  "instream_prefix = ascii_bytes ''zINSTREAM'' @ [0]"

definition read_instream :: "bytes \<Rightarrow> bytes option" where
  "read_instream req =
     (if take 10 req = instream_prefix then read_chunks (drop 10 req) else None)"

lemma length_prefix [simp]: "length instream_prefix = 10"
  by (simp add: instream_prefix_def ascii_bytes_def)

lemma read_end: "read_chunks (replicate 4 0 @ rest) = Some []"
  by (subst read_chunks.simps) (simp add: read_uint32_def eval_nat_numeral)

lemma read_chunk:
  assumes "0 < length c" "length c < 2 ^ 32"
  shows "read_chunks (uint32_be (length c) @ c @ rest) = map_option (\<lambda>r. c @ r) (read_chunks rest)"
  using assms by (subst read_chunks.simps) (simp add: read_uint32_be)

lemma read_chunks_from:
  "read_chunks (chunks_from offset buffer @ replicate 4 0) = Some (drop offset buffer)"
proof (induction offset buffer rule: chunks_from.induct)
  case (1 offset buffer)
  let ?c = "take chunk_size (drop offset buffer)"
  show ?case
  proof (cases "offset < length buffer")
    case True
    have "length ?c \<le> chunk_size"
      by simp
    then have "0 < length ?c" "length ?c < 2 ^ 32"
      using True by (simp_all add: chunk_size_def)
    then have "read_chunks (chunks_from offset buffer @ replicate 4 0) =
        map_option (\<lambda>r. ?c @ r) (read_chunks (chunks_from (offset + chunk_size) buffer @ replicate 4 0))"
      using True by (subst chunks_from.simps) (simp only: Let_def if_True append_assoc read_chunk)
    also have "\<dots> = Some (?c @ drop (offset + chunk_size) buffer)"
      using 1 True by simp
    also have "?c @ drop (offset + chunk_size) buffer = drop offset buffer"
      by (metis append_take_drop_id drop_drop add.commute)
    finally show ?thesis .
  next
    case False
    then show ?thesis
      using read_end[of "[]"] by (simp add: chunks_from.simps)
  qed
qed

lemma length_chunks_from:
  "length (chunks_from offset buffer) =
     (length buffer - offset) + 4 * ((length buffer - offset + (chunk_size - 1)) div chunk_size)"
proof (induction offset buffer rule: chunks_from.induct)
  case (1 offset buffer)
  show ?case
  proof (cases "offset < length buffer")
    case True
    define m where "m = length buffer - offset"
    have m: "0 < m"
      using True by (simp add: m_def)
    have "length (chunks_from offset buffer) = 4 + min chunk_size m + length (chunks_from (offset + chunk_size) buffer)"
      using True by (subst chunks_from.simps) (simp add: Let_def m_def min.commute)
    also have "\<dots> = 4 + min chunk_size m + ((m - chunk_size) + 4 * ((m - chunk_size + (chunk_size - 1)) div chunk_size))"
      using 1 True by (simp add: m_def)
    also have "\<dots> = m + 4 * ((m + (chunk_size - 1)) div chunk_size)"
    proof (cases "m \<le> chunk_size")
      case True
      then have "(m + (chunk_size - 1)) div chunk_size = 1"
        using m by (intro div_nat_eqI) (auto simp: chunk_size_def)
      then show ?thesis
        using True by (simp add: chunk_size_def)
    next
      case False
      then have "m + (chunk_size - 1) = (m - chunk_size + (chunk_size - 1)) + chunk_size"
        by simp
      then have "(m + (chunk_size - 1)) div chunk_size = (m - chunk_size + (chunk_size - 1)) div chunk_size + 1"
        by (simp add: chunk_size_def)
      then show ?thesis
        using False by simp
    qed
    finally show ?thesis
      by (simp add: m_def)
  next
    case False
    then show ?thesis
      by (simp add: chunks_from.simps chunk_size_def)
  qed
qed

lemma read_instream_request: "read_instream (instream_request buffer) = Some buffer"
proof -
  have "instream_request buffer = instream_prefix @ chunks_from 0 buffer @ replicate 4 0"
    by (simp add: instream_request_def instream_prefix_def)
  then show ?thesis
    using read_chunks_from[of 0 buffer] by (simp add: read_instream_def)
qed

lemma length_instream_request:
  "length (instream_request buffer) = length buffer + 4 * ((length buffer + 65535) div 65536) + 14"
  using length_chunks_from[of 0 buffer]
  by (simp add: instream_request_def ascii_bytes_def chunk_size_def)

section \<open>What the answer is taken for\<close>

text \<open>
  What the scanner sends, on the wire: the text of its data up to an error or the end of the connection, and its reply,
  which is complete when its NUL is there. A reply that is cut off, an error and silence are no reply.
\<close>

fun sent_text :: "socket_event list \<Rightarrow> string" where
  "sent_text (SocketData chunk # rest) = chunk @ sent_text rest"
| "sent_text _ = []"

definition complete_reply :: "socket_event list \<Rightarrow> string option" where
  "complete_reply evs =
     (if CHR 0x00 \<in> set (sent_text evs) then Some (trim (takeWhile (\<lambda>c. c \<noteq> CHR 0x00) (sent_text evs))) else None)"

text \<open>What ClamD documents: it answers OK only when the content of the stream is clean.\<close>

definition sound_clamd :: "(bytes \<Rightarrow> socket_event list) \<Rightarrow> (bytes \<Rightarrow> bool) \<Rightarrow> bool" where
  "sound_clamd clamd clean \<longleftrightarrow>
     (\<forall>req content. read_instream req = Some content \<and> complete_reply (clamd req) = Some ''stream: OK'' \<longrightarrow> clean content)"

text \<open>The service takes for the answer what the scanner has completely replied, or nothing.\<close>

lemma await_answer_sent:
  "await_answer response evs = Some t \<Longrightarrow>
   CHR 0x00 \<in> set (response @ sent_text evs) \<and> t = trim (takeWhile (\<lambda>c. c \<noteq> CHR 0x00) (response @ sent_text evs))"
proof (induction response evs rule: await_answer.induct)
  case (4 response chunk rest)
  show ?case
  proof (cases "CHR 0x00 \<in> set (response @ chunk)")
    case True
    then have "takeWhile (\<lambda>c. c \<noteq> CHR 0x00) (response @ chunk @ sent_text rest) =
        takeWhile (\<lambda>c. c \<noteq> CHR 0x00) (response @ chunk)"
      using takeWhile_append1[of "CHR 0x00" "response @ chunk" "\<lambda>c. c \<noteq> CHR 0x00" "sent_text rest"] by simp
    then show ?thesis
      using 4(2) True by (auto simp: Let_def split: if_splits)
  next
    case False
    then show ?thesis
      using 4 by (simp add: Let_def split: if_splits)
  qed
qed simp_all

lemma await_answer_complete: "await_answer '''' evs = Some t \<Longrightarrow> complete_reply evs = Some t"
  using await_answer_sent[of "''''" evs t] by (simp add: complete_reply_def)

lemma scan_Inr:
  "scan clamd buffer = Inr u \<longleftrightarrow> await_answer '''' (clamd (instream_request buffer)) = Some ''stream: OK''"
  by (auto simp: scan_def guardE_def ends_with_def split: option.splits if_splits)

text \<open>A file passes only when the scanner has completely replied OK to it.\<close>

lemma scanned_reply: "scan clamd buffer = Inr u \<Longrightarrow> complete_reply (clamd (instream_request buffer)) = Some ''stream: OK''"
  by (simp add: scan_Inr await_answer_complete)

lemma scanned_clean: "sound_clamd clamd clean \<Longrightarrow> scan clamd buffer = Inr u \<Longrightarrow> clean buffer"
  using read_instream_request scanned_reply unfolding sound_clamd_def by blast

end
