(* ===== verification/Media_Results.thy ===== *)
theory Media_Results
  imports Media_Stream
begin

text \<open>
  What the operations of the media service change, and the invariant of its table and of the files at the CDN.
\<close>

section \<open>Upload\<close>

text \<open>A store leaves the state, or leaves the file without a row, or adds the file and its row.\<close>

lemma insert_asset_Inr:
  assumes "insert_asset a rows = Inr rows'"
  shows "rows' = rows @ [a]" "ma_id a \<notin> ma_id ` set rows" "ma_publicId a \<notin> ma_publicId ` set rows"
    "ma_sha256Hash a \<notin> ma_sha256Hash ` set rows"
  using assms by (auto simp: insert_asset_def returns exists_where_iff)

lemma store_file_cases:
  obtains (failed) "snd (store_file e up category hash h s) = s"
      "\<exists>ex. fst (store_file e up category hash h s) = Inl ex"
  | (orphan) f where "snd (store_file e up category hash h s) = s\<lparr>cdnFiles := cdnFiles s @ [f]\<rparr>"
      "cf_content f = uf_buffer up" "\<exists>ex. fst (store_file e up category hash h s) = Inl ex"
  | (stored) f a userId where
      "snd (store_file e up category hash h s) = s\<lparr>cdnFiles := cdnFiles s @ [f], assetRows := assetRows s @ [a]\<rparr>"
      "cf_content f = uf_buffer up" "ma_publicId a = cf_publicId f" "h = Some userId"
      "\<exists>r. a = new_asset e up category hash userId r" "insert_asset a (assetRows s) = Inr (assetRows s @ [a])"
      "fst (store_file e up category hash h s) = Inr (to_dto a)"
proof (cases "me_cdn_upload e (uf_buffer up) category")
  case None
  then show ?thesis using failed by (simp add: store_file_def)
next
  case (Some r)
  let ?f = "\<lparr>cf_publicId = cr_public_id r, cf_kind = cr_kind r, cf_content = uf_buffer up\<rparr>"
  show ?thesis
  proof (cases h)
    case None
    then show ?thesis using Some by (intro orphan[where f = ?f]) (simp_all add: store_file_def)
  next
    case (Some u)
    let ?a = "new_asset e up category hash u r"
    show ?thesis
    proof (cases "insert_asset ?a (assetRows s)")
      case (Inl ex)
      then show ?thesis
        using \<open>h = Some u\<close> \<open>me_cdn_upload e (uf_buffer up) category = Some r\<close>
        by (intro orphan[where f = ?f]) (simp_all add: store_file_def)
    next
      case (Inr rows)
      then show ?thesis
        using \<open>h = Some u\<close> \<open>me_cdn_upload e (uf_buffer up) category = Some r\<close> insert_asset_Inr(1)[OF Inr]
        by (intro stored[where f = ?f and a = ?a and userId = u]) (auto simp: store_file_def Let_def new_asset_def)
    qed
  qed
qed

lemma upload_cases:
  obtains (refused) ex where "scan (me_clamd e) (uf_buffer up) = Inl ex" "upload e up category h s = (Inl ex, s)"
  | (again) a where "scan (me_clamd e) (uf_buffer up) = Inr ()" "find_upload (content_hash e up h) h s = Some a"
      "ma_deletedAt a = None"
      "upload e up category h s =
         (Inr (to_dto (a\<lparr>ma_scanStatus := CleanScan, ma_scannedAt := Some (me_now e)\<rparr>)),
          s\<lparr>assetRows := put ma_id (a\<lparr>ma_scanStatus := CleanScan, ma_scannedAt := Some (me_now e)\<rparr>) (assetRows s)\<rparr>)"
  | (stores) "scan (me_clamd e) (uf_buffer up) = Inr ()"
      "\<And>a. find_upload (content_hash e up h) h s = Some a \<Longrightarrow> ma_deletedAt a \<noteq> None"
      "upload e up category h s = store_file e up category (content_hash e up h) h s"
proof (cases "scan (me_clamd e) (uf_buffer up)")
  case (Inl ex)
  then show ?thesis using refused by (simp add: upload_def)
next
  case (Inr x)
  then show ?thesis
    using again stores
    by (cases "find_upload (content_hash e up h) h s")
      (auto simp: upload_def Let_def split: if_splits)
qed

section \<open>Deletion\<close>

lemma live_asset_Inr [returns]:
  "live_asset i s = Inr a \<longleftrightarrow> find_asset i s = Some a \<and> ma_deletedAt a = None"
  by (auto simp: live_asset_def returns)

lemma unused_Inr [returns]:
  "unused e i = Inr u \<longleftrightarrow> (\<exists>st. me_usage e i = Reply st (Some 0) \<and> 200 \<le> st \<and> st < 300)"
  by (cases "me_usage e i") (auto simp: unused_def returns)

lemma deletable_Inr:
  "deletable e i h role s = Inr a \<longleftrightarrow>
     find_asset i s = Some a \<and> ma_deletedAt a = None \<and>
     (h = Some (ma_uploadedBy a) \<or> role = ''admin'' \<or> role = ''moderator'') \<and>
     (\<exists>st. me_usage e i = Reply st (Some 0) \<and> 200 \<le> st \<and> st < 300)"
  by (auto simp: deletable_def returns)

definition deleted_row :: "media_env \<Rightarrow> string option \<Rightarrow> asset \<Rightarrow> asset" where
  "deleted_row e h a = a\<lparr>ma_deletedAt := Some (me_now e), ma_deletedBy := or_opt h (ma_deletedBy a)\<rparr>"

lemma delete_asset_cases:
  obtains (kept) "snd (delete_asset e i h role s) = s" "\<exists>ex. fst (delete_asset e i h role s) = Inl ex"
  | (deleted) a where "deletable e i h role s = Inr a" "fst (delete_asset e i h role s) = Inr ''Xoa file thanh cong''"
      "snd (delete_asset e i h role s) =
         (destroy_file a s)\<lparr>assetRows := put ma_id (deleted_row e h a) (assetRows s)\<rparr>"
proof (cases "deletable e i h role s")
  case (Inl ex)
  then show ?thesis using kept by (simp add: delete_asset_def)
next
  case (Inr a)
  show ?thesis
  proof (cases "me_cdn_destroys e")
    case True
    then show ?thesis
      using Inr by (intro deleted[OF Inr]) (simp_all add: delete_asset_def Let_def deleted_row_def destroy_file_def)
  next
    case False
    then show ?thesis
      using Inr by (intro kept) (simp_all add: delete_asset_def)
  qed
qed

section \<open>Requests\<close>

lemma snd_with_reply [simp]: "snd (with_reply c r) = snd r"
  by (cases r) (auto simp: with_reply_def split: sum.splits)

lemma upload_route_cases:
  obtains (refused) "snd (upload_route e h category up s) = s" "\<exists>ex. fst (upload_route e h category up s) = Inl ex"
  | (uploads) f c where "upload_route e h category up s = upload e f c h s" "up = Some f"
      "Option.bind category read_category = Some c" "validate_file c (Some f) = Inr f"
      "\<not> me_oversize e max_file_size_bytes (length (uf_buffer f))"
proof (cases "bindE (guardE (case up of None \<Rightarrow> True | Some f \<Rightarrow> \<not> me_oversize e max_file_size_bytes (length (uf_buffer f)))
                    (PayloadTooLarge ''File too large'')) (\<lambda>_.
           bindE (someE (Option.bind category read_category) (BadRequest ''category khong hop le'')) (\<lambda>c.
           bindE (validate_file c up) (\<lambda>f. Inr (c, f))))")
  case (Inl ex)
  then show ?thesis using refused by (simp add: upload_route_def)
next
  case (Inr q)
  obtain c f where q: "q = (c, f)" by (cases q)
  have "up = Some f"
    using Inr by (auto simp: q returns validate_file_def)
  then show ?thesis
    using Inr by (intro uploads[of f c]) (auto simp: q upload_route_def returns)
qed

lemma media_controller_state:
  "snd (media_controller e h call s) =
     (case call of
        PostUpload category up \<Rightarrow> snd (upload_route e (h ''x-user-id'') category up s)
      | DeleteMedia i \<Rightarrow>
          if me_valid_uuid e i
          then snd (delete_asset e i (h ''x-user-id'') (or_else (h ''x-user-role'') '''') s) else s
      | _ \<Rightarrow> s)"
  by (cases call) (auto simp: media_controller_def media_uuid_def guardE_def)

section \<open>The invariant\<close>

definition media_ok :: "media \<Rightarrow> bool" where
  "media_ok s \<longleftrightarrow>
     distinct (map ma_id (assetRows s)) \<and> distinct (map ma_publicId (assetRows s)) \<and>
     distinct (map ma_sha256Hash (assetRows s)) \<and>
     (\<forall>a \<in> set (assetRows s). ma_deletedAt a = None \<longrightarrow> ma_publicId a \<in> cf_publicId ` set (cdnFiles s))"

lemma found_row:
  assumes "distinct (map ma_id rows)" "a \<in> set rows"
  shows "find_by (\<lambda>x. ma_id x = ma_id a) rows = Some a"
  using assms by (intro find_by_distinct[where key = ma_id]) auto

lemma map_put_row:
  assumes "distinct (map ma_id rows)" "a \<in> set rows" "ma_id a' = ma_id a" "f a' = f a"
  shows "map f (put ma_id a' rows) = map f rows"
proof -
  have "x = a" if "x \<in> set rows" "ma_id x = ma_id a" for x
    using assms(1,2) that by (auto simp: distinct_map dest: inj_onD)
  then show ?thesis
    using assms(3,4) by (auto simp: put_def update_where_def)
qed

lemma media_ok_put:
  assumes "media_ok s" "a \<in> set (assetRows s)" "ma_deletedAt a = None"
    and "ma_id a' = ma_id a" "ma_publicId a' = ma_publicId a" "ma_sha256Hash a' = ma_sha256Hash a"
  shows "media_ok (s\<lparr>assetRows := put ma_id a' (assetRows s)\<rparr>)"
proof -
  have d: "distinct (map ma_id (assetRows s))"
    using assms(1) by (simp add: media_ok_def)
  have "map ma_id (put ma_id a' (assetRows s)) = map ma_id (assetRows s)"
    "map ma_publicId (put ma_id a' (assetRows s)) = map ma_publicId (assetRows s)"
    "map ma_sha256Hash (put ma_id a' (assetRows s)) = map ma_sha256Hash (assetRows s)"
    using map_put_row[OF d assms(2,4)] assms(4-6) by auto
  moreover have "ma_publicId x \<in> cf_publicId ` set (cdnFiles s)"
    if "x \<in> set (put ma_id a' (assetRows s))" "ma_deletedAt x = None" for x
    using that set_put_subset[of ma_id a' "assetRows s"] assms(1,2,3,5) unfolding media_ok_def by auto
  ultimately show ?thesis
    using assms(1) by (simp add: media_ok_def)
qed

lemma media_ok_deleted:
  assumes "media_ok s" "find_asset i s = Some a" "ma_deletedAt a = None"
  shows "media_ok ((destroy_file a s)\<lparr>assetRows := put ma_id (deleted_row e h a) (assetRows s)\<rparr>)"
proof -
  have a: "a \<in> set (assetRows s)" "ma_id a = i"
    using find_by_Some[OF assms(2)[unfolded find_asset_def]] by simp_all
  have keys: "ma_id (deleted_row e h a) = ma_id a" "ma_publicId (deleted_row e h a) = ma_publicId a"
    "ma_sha256Hash (deleted_row e h a) = ma_sha256Hash a" "ma_deletedAt (deleted_row e h a) \<noteq> None"
    by (simp_all add: deleted_row_def)
  have ok: "media_ok (s\<lparr>assetRows := put ma_id (deleted_row e h a) (assetRows s)\<rparr>)"
    by (rule media_ok_put[OF assms(1) a(1) assms(3) keys(1-3)])
  moreover have "ma_publicId x \<in> cf_publicId ` set (cdnFiles (destroy_file a s))"
    if x: "x \<in> set (put ma_id (deleted_row e h a) (assetRows s))" "ma_deletedAt x = None" for x
  proof -
    have "x \<in> set (assetRows s)" "ma_id x \<noteq> ma_id a"
      using x set_put_subset[of ma_id "deleted_row e h a" "assetRows s"] keys by auto
    then have "ma_publicId x \<noteq> ma_publicId a"
      using assms(1) a(1) by (auto simp: media_ok_def distinct_map dest: inj_onD)
    moreover have "ma_publicId x \<in> cf_publicId ` set (cdnFiles s)"
      using ok x by (simp add: media_ok_def)
    ultimately show ?thesis
      by (auto simp: destroy_file_def delete_where_def)
  qed
  ultimately show ?thesis
    by (simp add: media_ok_def)
qed

lemma store_file_ok:
  assumes "media_ok s"
  shows "media_ok (snd (store_file e up category hash h s))"
proof (cases rule: store_file_cases[where e = e and up = up and category = category and hash = hash and h = h and s = s])
  case (stored f a userId)
  then show ?thesis
    using assms insert_asset_Inr[OF stored(6)] by (auto simp: media_ok_def)
qed (use assms in \<open>auto simp: media_ok_def\<close>)

lemma upload_ok:
  assumes "media_ok s"
  shows "media_ok (snd (upload e up category h s))"
proof (cases rule: upload_cases[where e = e and up = up and category = category and h = h and s = s])
  case (again a)
  then have "a \<in> set (assetRows s)"
    by (auto simp: find_upload_def dest: find_by_Some)
  then show ?thesis
    using again assms by (auto intro!: media_ok_put)
qed (use assms store_file_ok in auto)

interpretation media_machine: inductive_invariant media_installed "media_step clamd" media_ok
proof unfold_locales
  show "media_ok s" if "media_installed s" for s
    using that by (auto simp: media_installed_def media_ok_def list_all_iff)
next
  fix s s' assume ok: "media_ok s" and "media_step clamd s s'"
  then obtain e h call where s': "s' = snd (media_controller e h call s)"
    by (auto simp: media_step_def)
  show "media_ok s'"
  proof (cases call)
    case (PostUpload category up)
    then show ?thesis
      using ok upload_ok
      by (cases rule: upload_route_cases[where e = e and h = "h ''x-user-id''" and category = category and up = up and s = s]) (auto simp: s' media_controller_state)
  next
    case (DeleteMedia i)
    then show ?thesis
      using ok media_ok_deleted
      by (cases rule: delete_asset_cases[where e = e and i = i and h = "h ''x-user-id''" and role = "or_else (h ''x-user-role'') ''''" and s = s])
        (auto simp: s' media_controller_state deletable_Inr)
  qed (use ok in \<open>simp_all add: s' media_controller_state\<close>)
qed

section \<open>Files at the CDN\<close>

lemma step_files:
  assumes "media_step clamd s s'" "f \<in> set (cdnFiles s')" "f \<notin> set (cdnFiles s)"
  shows "scan clamd (cf_content f) = Inr ()"
proof -
  obtain e h call where clamd: "me_clamd e = clamd" and s': "s' = snd (media_controller e h call s)"
    using assms(1) by (auto simp: media_step_def)
  show ?thesis
  proof (cases call)
    case (PostUpload category up)
    then have s': "s' = snd (upload_route e (h ''x-user-id'') category up s)"
      by (simp add: s' media_controller_state)
    show ?thesis
    proof (cases rule: upload_route_cases[where e = e and h = "h ''x-user-id''" and category = category and up = up and s = s])
      case (uploads u c)
      show ?thesis
      proof (cases rule: upload_cases[where e = e and up = u and category = c and h = "h ''x-user-id''" and s = s])
        case stores
        then show ?thesis
          using assms(2,3) uploads(1)
          by (cases rule: store_file_cases[where e = e and up = u and category = c and hash = "content_hash e u (h ''x-user-id'')" and h = "h ''x-user-id''" and s = s])
            (auto simp: s' clamd)
      qed (use assms(2,3) uploads(1) in \<open>auto simp: s'\<close>)
    qed (use assms(2,3) in \<open>auto simp: s'\<close>)
  next
    case (DeleteMedia i)
    then show ?thesis
      using assms(2,3)
      by (cases rule: delete_asset_cases[where e = e and i = i and h = "h ''x-user-id''" and role = "or_else (h ''x-user-role'') ''''" and s = s])
        (auto simp: s' media_controller_state destroy_file_def delete_where_def split: if_splits)
  qed (use assms(2,3) in \<open>simp_all add: s' media_controller_state\<close>)
qed

end
