(* ===== verification/Media_Spec.thy ===== *)
theory Media_Spec
  imports Media_Results New_Posts Service_Links Sample_Cases
begin

text \<open>
  The properties of the media service, and of the two ways in which it and the discussion service rely on each
  other: posts with attachments, and the deletion of files.
\<close>

section \<open>A run on concrete data\<close>

text \<open>A scanner that finds a virus in every file with the byte 255.\<close>

definition sample_clamd :: "bytes \<Rightarrow> socket_event list" where
  "sample_clamd req =
     (case read_instream req of
        None \<Rightarrow> [SocketEnd]
      | Some content \<Rightarrow>
          [SocketData (if 255 \<in> set content then ''stream: Sample FOUND'' @ [CHR 0x00] else ''stream: OK'' @ [CHR 0x00])])"

definition harmless :: "bytes \<Rightarrow> bool" where
  "harmless content \<longleftrightarrow> 255 \<notin> set content"

lemma sample_answers:
  "await_answer '''' [SocketData (''stream: OK'' @ [CHR 0x00])] = Some ''stream: OK''"
  "await_answer '''' [SocketData (''stream: Sample FOUND'' @ [CHR 0x00])] = Some ''stream: Sample FOUND''"
  by code_simp+

lemma sample_reply:
  "complete_reply [SocketData (''stream: Sample FOUND'' @ [CHR 0x00])] = Some ''stream: Sample FOUND''"
  by code_simp

lemma sample_clamd_sound: "sound_clamd sample_clamd harmless"
  using sample_reply
  by (auto simp: sound_clamd_def sample_clamd_def harmless_def split: option.splits if_splits)

lemma sample_scan: "harmless content \<Longrightarrow> scan sample_clamd content = Inr ()"
  using sample_answers(1) by (simp add: scan_Inr sample_clamd_def read_instream_request harmless_def)

definition media_sample :: "string \<Rightarrow> media_env" where
  "media_sample i =
     \<lparr>me_now = 1, me_fresh = i, me_valid_uuid = (\<lambda>_. True), me_token = Some ''secret'',
      me_oversize = (\<lambda>limit size. limit < size), me_sha256 = (\<lambda>user content. user @ map (\<lambda>b. char_of (unat b)) content),
      me_clamd = sample_clamd,
      me_cdn_upload = (\<lambda>_ _. Some \<lparr>cr_public_id = i, cr_secure_url = ''https'', cr_format = '''', cr_kind = ''raw''\<rparr>),
      me_cdn_destroys = True, me_usage = (\<lambda>_. Reply 200 (Some 0))\<rparr>"

definition notes_file :: upload_file where
  "notes_file = \<lparr>uf_originalname = ''notes.MD'', uf_mimetype = ''text/markdown'', uf_buffer = [1, 2, 3]\<rparr>"

definition no_media :: media where
  "no_media = \<lparr>assetRows = [], cdnFiles = []\<rparr>"

lemma sample_chars: "char_of (Suc 0) = CHR 0x01" "char_of (2 :: nat) = CHR 0x02" "char_of (3 :: nat) = CHR 0x03"
  by code_simp+

definition media1 :: media where
  "media1 = snd (media_controller (media_sample ''m1'') (signed_in ''ann'' ''student'')
     (PostUpload (Some ''code'') (Some notes_file)) no_media)"

definition media2 :: media where
  "media2 = snd (media_controller (media_sample ''m2'') (signed_in ''ann'' ''student'') (DeleteMedia ''m1'') media1)"

definition notes_asset :: asset where
  "notes_asset =
     \<lparr>ma_id = ''m1'', ma_scanStatus = CleanScan, ma_scannedAt = Some 1, ma_originalName = Some ''notes.MD'',
      ma_publicId = ''m1'', ma_secureUrl = ''https'', ma_format = ''md'', ma_mimeType = ''text/markdown'',
      ma_category = CodeFile, ma_sizeBytes = 3, ma_sha256Hash = ''ann'' @ [CHR 0x00, CHR 0x01, CHR 0x02, CHR 0x03],
      ma_uploadedBy = ''ann'', ma_createdAt = 1, ma_deletedAt = None, ma_deletedBy = None\<rparr>"

lemma media1_eq [code]:
  "media1 = \<lparr>assetRows = [notes_asset], cdnFiles = [\<lparr>cf_publicId = ''m1'', cf_kind = ''raw'', cf_content = [1, 2, 3]\<rparr>]\<rparr>"
proof -
  have scan: "scan sample_clamd [1, 2, 3] = Inr ()"
    by (rule sample_scan) (simp add: harmless_def)
  have route: "read_category ''code'' = Some CodeFile" "validate_file CodeFile (Some notes_file) = Inr notes_file"
    "to_lower (take 20 (drop 1 (extname ''notes.MD''))) = ''md''"
    by code_simp+
  show ?thesis
    by (simp add: media1_def media_controller_state upload_route_def route [unfolded notes_file_def One_nat_def] media_sample_def max_file_size_bytes_def
        notes_file_def upload_def scan no_media_def find_upload_def find_by_def store_file_def insert_asset_def
        exists_where_def new_asset_def stored_format_def truthy_def content_hash_def notes_asset_def Let_def signed_in_def sample_chars)
qed

lemma media2_rows:
  "assetRows media2 = [deleted_row (media_sample ''m2'') (Some ''ann'') notes_asset]" "cdnFiles media2 = []"
proof -
  have "deletable (media_sample ''m2'') ''m1'' (Some ''ann'') ''student'' media1 = Inr notes_asset"
    by (simp add: deletable_Inr media1_eq find_asset_def find_by_def notes_asset_def media_sample_def)
  then have eq: "media2 = (destroy_file notes_asset media1)
      \<lparr>assetRows := put ma_id (deleted_row (media_sample ''m2'') (Some ''ann'') notes_asset) (assetRows media1)\<rparr>"
    by (simp add: media2_def media_controller_state media_sample_def signed_in_def delete_asset_def Let_def
        deleted_row_def destroy_file_def or_else_def)
  show "assetRows media2 = [deleted_row (media_sample ''m2'') (Some ''ann'') notes_asset]" "cdnFiles media2 = []"
    by (simp_all add: eq media1_eq destroy_file_def delete_where_def put_def update_where_def deleted_row_def
        notes_asset_def resource_kind_def)
qed

lemma reachable_media: "media_reachable sample_clamd media1" "media_reachable sample_clamd media2"
proof -
  have step: "media_step sample_clamd s (snd (media_controller (media_sample i) h call s))" for i h call s
    unfolding media_step_def by (intro exI conjI) (auto simp: media_sample_def)
  have "media_reachable sample_clamd no_media"
    by (rule reach.started) (simp add: media_installed_def no_media_def)
  then show m1: "media_reachable sample_clamd media1"
    unfolding media1_def by (rule reach.stepped) (rule step)
  then show "media_reachable sample_clamd media2"
    unfolding media2_def by (rule reach.stepped) (rule step)
qed

section \<open>Scanning\<close>

text \<open>
  C26. The request to the virus scanner, read as the scanner reads it, is the file, whatever its size; the framing adds
  14 bytes and four for each chunk of 64 KiB.
\<close>

theorem instream_roundtrip:
  "read_instream (instream_request buffer) = Some buffer \<and>
   length (instream_request buffer) = length buffer + 4 * ((length buffer + 65535) div 65536) + 14"
  using read_instream_request length_instream_request by blast

text \<open>
  C27. Every file that the service puts to the CDN has got the complete reply OK from the scanner, so it is clean when
  the scanner says OK only of clean content. Neither another reply, nor one that is cut off, nor an error, a closed
  connection or silence until the deadline lets a file pass.
\<close>

theorem infected_never_stored:
  assumes "sound_clamd clamd clean" "(media_step clamd)\<^sup>*\<^sup>* s s'"
  shows "\<forall>f \<in> set (cdnFiles s'). f \<in> set (cdnFiles s) \<or>
    complete_reply (clamd (instream_request (cf_content f))) = Some ''stream: OK'' \<and> clean (cf_content f)"
  using assms(2)
proof (induction rule: rtranclp_induct)
  case (step t t')
  then show ?case
    using step_files[of clamd t t'] scanned_clean[OF assms(1)] scanned_reply by blast
qed simp

theorem infected_never_stored_witness:
  "cdnFiles media1 \<noteq> [] \<and> list_all (\<lambda>f. harmless (cf_content f)) (cdnFiles media1)"
proof -
  have "media_step sample_clamd no_media media1"
    unfolding media1_def media_step_def by (intro exI conjI) (auto simp: media_sample_def)
  then have run: "(media_step sample_clamd)\<^sup>*\<^sup>* no_media media1"
    by (rule r_into_rtranclp)
  show ?thesis
    using infected_never_stored[OF sample_clamd_sound run] by (simp add: media1_eq no_media_def list_all_iff)
qed

section \<open>Files and rows\<close>

text \<open>
  In every reachable state ids, files and hashes of the rows are unique, and the file of a row that is not
  deleted is at the CDN.
\<close>

theorem media_files:
  assumes "media_reachable clamd s"
  shows "distinct (map ma_id (assetRows s)) \<and> distinct (map ma_publicId (assetRows s)) \<and>
    distinct (map ma_sha256Hash (assetRows s)) \<and>
    (\<forall>a \<in> set (assetRows s). ma_deletedAt a = None \<longrightarrow> (\<exists>f \<in> set (cdnFiles s). cf_publicId f = ma_publicId a))"
  using media_machine.holds[OF assms] unfolding media_ok_def image_iff by metis

theorem media_files_witness:
  "media_reachable sample_clamd media1 \<and> notes_asset \<in> set (assetRows media1) \<and>
   (\<exists>f \<in> set (cdnFiles media1). cf_publicId f = ma_publicId notes_asset)"
proof -
  have "notes_asset \<in> set (assetRows media1)" "ma_deletedAt notes_asset = None"
    by (simp_all add: media1_eq notes_asset_def)
  then show ?thesis
    using media_files[OF reachable_media(1)] reachable_media(1) by blast
qed

text \<open>
  C28. Who uploads a file again that he has already uploaded gets the same row, newly scanned, and nothing is stored.
  But when he has deleted the file in between, the upload fails: the row of the deleted file keeps the hash, and
  what was sent to the CDN stays there without a row.
\<close>

theorem upload_again:
  assumes "media_reachable clamd s" "scan (me_clamd e) (uf_buffer file) = Inr ()"
    and "a \<in> set (assetRows s)" "ma_uploadedBy a = user" "ma_sha256Hash a = content_hash e file (Some user)"
  shows "(ma_deletedAt a = None \<longrightarrow>
      (\<exists>d. fst (upload e file category (Some user) s) = Inr d \<and> md_id d = ma_id a \<and> md_scanStatus d = CleanScan) \<and>
      cdnFiles (snd (upload e file category (Some user) s)) = cdnFiles s \<and>
      map ma_id (assetRows (snd (upload e file category (Some user) s))) = map ma_id (assetRows s)) \<and>
    (ma_deletedAt a \<noteq> None \<longrightarrow>
      (\<exists>ex. fst (upload e file category (Some user) s) = Inl ex) \<and>
      assetRows (snd (upload e file category (Some user) s)) = assetRows s \<and>
      (\<forall>r. me_cdn_upload e (uf_buffer file) category = Some r \<longrightarrow>
         cdnFiles (snd (upload e file category (Some user) s)) =
           cdnFiles s @ [\<lparr>cf_publicId = cr_public_id r, cf_kind = cr_kind r, cf_content = uf_buffer file\<rparr>]))"
proof -
  have "distinct (map ma_sha256Hash (assetRows s))"
    using media_machine.holds[OF assms(1)] by (simp add: media_ok_def)
  then have found: "find_upload (content_hash e file (Some user)) (Some user) s = Some a"
    unfolding find_upload_def
    by (intro find_by_distinct[where key = ma_sha256Hash]) (use assms in auto)
  have "content_hash e file (Some user) \<in> ma_sha256Hash ` set (assetRows s)"
    using imageI[OF assms(3), of ma_sha256Hash] assms(5) by simp
  then have clash: "\<exists>ex. insert_asset (new_asset e file category (content_hash e file (Some user)) user r) (assetRows s) = Inl ex" for r
    using insert_asset_Inr(4)[of "new_asset e file category (content_hash e file (Some user)) user r" "assetRows s"]
    by (cases "insert_asset (new_asset e file category (content_hash e file (Some user)) user r) (assetRows s)")
      (auto simp: new_asset_def)
  have orphan: "(\<exists>ex. fst (store_file e file category (content_hash e file (Some user)) (Some user) s) = Inl ex) \<and>
      assetRows (snd (store_file e file category (content_hash e file (Some user)) (Some user) s)) = assetRows s \<and>
      (\<forall>r. me_cdn_upload e (uf_buffer file) category = Some r \<longrightarrow>
         cdnFiles (snd (store_file e file category (content_hash e file (Some user)) (Some user) s)) =
           cdnFiles s @ [\<lparr>cf_publicId = cr_public_id r, cf_kind = cr_kind r, cf_content = uf_buffer file\<rparr>])"
  proof (cases "me_cdn_upload e (uf_buffer file) category")
    case (Some r)
    moreover obtain ex where
      "insert_asset (new_asset e file category (content_hash e file (Some user)) user r) (assetRows s) = Inl ex"
      using clash by blast
    ultimately show ?thesis
      by (simp add: store_file_def Let_def)
  qed (simp add: store_file_def)
  show ?thesis
    using orphan by (auto simp: upload_def assms(2) found Let_def to_dto_def put_keys)
qed

theorem upload_again_witness:
  "\<exists>ex. fst (upload (media_sample ''m3'') notes_file CodeFile (Some ''ann'') media2) = Inl ex"
proof -
  let ?a = "deleted_row (media_sample ''m2'') (Some ''ann'') notes_asset"
  have "scan (me_clamd (media_sample ''m3'')) (uf_buffer notes_file) = Inr ()"
    using sample_scan[of "[1, 2, 3]"] by (simp add: media_sample_def notes_file_def harmless_def)
  moreover have "?a \<in> set (assetRows media2)" "ma_uploadedBy ?a = ''ann''"
    "ma_sha256Hash ?a = content_hash (media_sample ''m3'') notes_file (Some ''ann'')" "ma_deletedAt ?a \<noteq> None"
    by (simp_all add: media2_rows deleted_row_def notes_asset_def content_hash_def media_sample_def notes_file_def sample_chars)
  ultimately show ?thesis
    using upload_again[OF reachable_media(2), where category = CodeFile] by blast
qed

section \<open>Attachments of posts\<close>

text \<open>The replies of the two services to each other.\<close>

definition media_reply_to :: "media_env \<Rightarrow> string \<Rightarrow> media \<Rightarrow> uuid \<Rightarrow> media_asset reply" where
  "media_reply_to me token sm i =
     reply_of
       (\<lambda>r. case r of
          InternalMediaReply d \<Rightarrow>
            Some \<lparr>uploadedBy = Some (md_uploadedBy d),
                  scanStatus = (if md_scanStatus d = CleanScan then ''clean'' else ''unverified'')\<rparr>
        | _ \<Rightarrow> None)
       (fst (media_controller me (service_headers token) (InternalMedia i) sm))"

definition usage_reply_to :: "env \<Rightarrow> string option \<Rightarrow> string \<Rightarrow> db \<Rightarrow> uuid \<Rightarrow> nat reply" where
  "usage_reply_to e expected token s i =
     reply_of Some (fst (attachments_controller e expected (service_headers token) i s))"

lemma media_reply_clean:
  assumes "media_reply_to me token sm i = Reply st (Some asset)" "200 \<le> st" "st < 300" "scanStatus asset = ''clean''"
  shows "\<exists>a. find_asset i sm = Some a \<and> ma_deletedAt a = None \<and> ma_scanStatus a = CleanScan \<and>
    uploadedBy asset = Some (ma_uploadedBy a)"
proof -
  let ?r = "fst (media_controller me (service_headers token) (InternalMedia i) sm)"
  obtain r where r: "?r = Inr r"
    using assms(1) by (cases ?r) (auto simp: media_reply_to_def reply_of_def)
  then obtain a where "live_asset i sm = Inr a" "r = InternalMediaReply (to_dto a)"
    by (auto simp: media_controller_def with_reply_def returns split: sum.splits)
  then show ?thesis
    using assms r by (auto simp: media_reply_to_def reply_of_def returns to_dto_def split: if_splits)
qed

text \<open>
  C30. A post is created with attachments only when the media service, in whatever state it is, has each of them
  scanned, not deleted, and uploaded by the author of the post; each is then attached.
\<close>

theorem posts_attach_own_files:
  assumes "media_info e = media_reply_to me token sm" "fst (create_discussion e u dto s) = Inr v"
    and "i \<in> set (or_else (cd_mediaIds dto) [])"
  shows "(\<exists>a. find_asset i sm = Some a \<and> ma_deletedAt a = None \<and> ma_scanStatus a = CleanScan \<and>
      uid u = Some (ma_uploadedBy a)) \<and>
    (\<exists>m \<in> set (discussionMedia (snd (create_discussion e u dto s))). dm_discussionId m = fresh e 0 \<and> dm_mediaId m = i)"
proof -
  obtain author selected pc t k s' where
    *: "uid u = Some author" "author \<noteq> ''''" "validate_media e (or_else (cd_mediaIds dto) []) (Some author) = Inr ()"
      "create_discussion_body e dto author selected pc t = Inr (k, s')" "snd (create_discussion e u dto s) = s'"
    using assms(2) by (elim create_discussion_returned) auto
  then have "check_asset e (Some author) i = Inr ()"
    using assms(3) by (simp add: validate_media_Inr)
  then obtain st asset where "media_reply_to me token sm i = Reply st (Some asset)" "200 \<le> st" "st < 300"
      "scanStatus asset = ''clean''" "uploadedBy asset = Some author"
    using *(2) by (auto simp: check_asset_Inr assms(1) truthy_def)
  then show ?thesis
    using media_reply_clean[of me token sm i st asset] posted_row(2)[OF *(4) assms(3)] *(1,5) by auto
qed

definition attached_env :: env where
  "attached_env = (sample_env ''post'' 1)\<lparr>media_info := media_reply_to (media_sample '''') ''secret'' media1\<rparr>"

definition attached_dto :: create_discussion_dto where
  "attached_dto = question_dto\<lparr>cd_mediaIds := Some [''m1'']\<rparr>"

lemma attached_post_created:
  "case fst (create_discussion attached_env (current_user (signed_in ''ann'' ''student'')) attached_dto init_db) of
     Inl _ \<Rightarrow> False | Inr _ \<Rightarrow> True"
  by code_simp

theorem posts_attach_own_files_witness:
  "\<exists>m \<in> set (discussionMedia (snd (create_discussion attached_env (current_user (signed_in ''ann'' ''student'')) attached_dto init_db))).
     dm_discussionId m = ''post'' \<and> dm_mediaId m = ''m1''"
proof -
  let ?u = "current_user (signed_in ''ann'' ''student'')"
  obtain v where v: "fst (create_discussion attached_env ?u attached_dto init_db) = Inr v"
    using attached_post_created by (auto split: sum.splits)
  have "media_info attached_env = media_reply_to (media_sample '''') ''secret'' media1" "fresh attached_env 0 = ''post''"
    "''m1'' \<in> set (or_else (cd_mediaIds attached_dto) [])"
    by (simp_all add: attached_env_def attached_dto_def sample_env_def or_else_def)
  then show ?thesis
    using posts_attach_own_files[OF _ v] by metis
qed

lemma attachment_usage_0:
  "attachment_usage i s = 0 \<longleftrightarrow>
     (\<forall>m \<in> set (discussionMedia s). dm_mediaId m = i \<longrightarrow>
        (\<forall>d \<in> set (discussions s). d_deletedAt d = None \<longrightarrow> d_id d \<noteq> dm_discussionId m)) \<and>
     (\<forall>d \<in> set (discussions s). d_deletedAt d = None \<longrightarrow>
        (\<forall>p. d_pendingRevision d = Some p \<longrightarrow> i \<notin> set (pr_mediaIds p)))"
  by (auto simp: attachment_usage_def count_where_def filter_empty_conv exists_where_iff d_live_def split: option.splits) force

text \<open>
  C29. A file is deleted only on behalf of its owner, a moderator or an administrator, and only when the discussion
  service knows no live post that has it attached or proposed. Its row stays with the time of the deletion; at the
  CDN it is gone exactly when the CDN keeps it as the kind that the category suggests.
\<close>

theorem deletion_of_files:
  assumes "media_reachable clamd sm" "me_usage me = usage_reply_to e expected token s"
    and "delete_asset me i userHeader role sm = (Inr r, sm')"
  shows "\<exists>a \<in> set (assetRows sm). ma_id a = i \<and> ma_deletedAt a = None \<and>
    (userHeader = Some (ma_uploadedBy a) \<or> role = ''admin'' \<or> role = ''moderator'') \<and>
    (\<forall>d \<in> set (discussions s). d_deletedAt d = None \<longrightarrow>
       (\<forall>m \<in> set (discussionMedia s). dm_discussionId m = d_id d \<longrightarrow> dm_mediaId m \<noteq> i) \<and>
       (\<forall>p. d_pendingRevision d = Some p \<longrightarrow> i \<notin> set (pr_mediaIds p))) \<and>
    assetRows sm' = map (\<lambda>x. if x = a then deleted_row me userHeader a else x) (assetRows sm) \<and>
    ((\<exists>f \<in> set (cdnFiles sm'). cf_publicId f = ma_publicId a) \<longleftrightarrow>
     (\<exists>f \<in> set (cdnFiles sm). cf_publicId f = ma_publicId a \<and> cf_kind f \<noteq> resource_kind (ma_category a)))"
proof -
  obtain a where a: "deletable me i userHeader role sm = Inr a"
    and sm': "sm' = (destroy_file a sm)\<lparr>assetRows := put ma_id (deleted_row me userHeader a) (assetRows sm)\<rparr>"
    using delete_asset_cases[of me i userHeader role sm] assms(3) by force
  then have found: "find_asset i sm = Some a" "ma_deletedAt a = None"
    "userHeader = Some (ma_uploadedBy a) \<or> role = ''admin'' \<or> role = ''moderator''"
    "\<exists>st. usage_reply_to e expected token s i = Reply st (Some 0)"
    by (auto simp: deletable_Inr assms(2))
  have row: "a \<in> set (assetRows sm)" "ma_id a = i"
    using find_by_Some[OF found(1)[unfolded find_asset_def]] by simp_all
  have "attachment_usage i s = 0"
    using found(4)
    by (auto simp: usage_reply_to_def reply_of_def attachments_controller_def route_def read_only_def returns split: sum.splits)
  then have unused: "\<forall>d \<in> set (discussions s). d_deletedAt d = None \<longrightarrow>
       (\<forall>m \<in> set (discussionMedia s). dm_discussionId m = d_id d \<longrightarrow> dm_mediaId m \<noteq> i) \<and>
       (\<forall>p. d_pendingRevision d = Some p \<longrightarrow> i \<notin> set (pr_mediaIds p))"
    unfolding attachment_usage_0 by metis
  have same: "ma_id x = i \<longleftrightarrow> x = a" if "x \<in> set (assetRows sm)" for x
    using media_machine.holds[OF assms(1)] that row by (auto simp: media_ok_def distinct_map dest: inj_onD)
  have rows: "assetRows sm' = map (\<lambda>x. if x = a then deleted_row me userHeader a else x) (assetRows sm)"
    by (simp add: sm' put_def update_where_def row(2) deleted_row_def same cong: map_cong)
  have gone: "(\<exists>f \<in> set (cdnFiles sm'). cf_publicId f = ma_publicId a) \<longleftrightarrow>
     (\<exists>f \<in> set (cdnFiles sm). cf_publicId f = ma_publicId a \<and> cf_kind f \<noteq> resource_kind (ma_category a))"
    by (auto simp: sm' destroy_file_def delete_where_def)
  show ?thesis
    by (intro bexI[of _ a] conjI row found(2,3) unused rows gone)
qed

theorem deletion_of_files_witness:
  "\<exists>r sm'. delete_asset ((media_sample ''m2'')\<lparr>me_usage := usage_reply_to (sample_env '''' 1) (Some ''secret'') ''secret'' init_db\<rparr>)
     ''m1'' (Some ''ann'') '''' media1 = (Inr r, sm') \<and> map ma_deletedAt (assetRows sm') = [Some 1]"
proof -
  let ?me = "(media_sample ''m2'')\<lparr>me_usage := usage_reply_to (sample_env '''' 1) (Some ''secret'') ''secret'' init_db\<rparr>"
  have "usage_reply_to (sample_env '''' 1) (Some ''secret'') ''secret'' init_db ''m1'' = Reply 200 (Some 0)"
    by code_simp
  then have "deletable ?me ''m1'' (Some ''ann'') '''' media1 = Inr notes_asset"
    by (simp add: deletable_Inr media1_eq find_asset_def find_by_def notes_asset_def)
  then obtain r sm' where d: "delete_asset ?me ''m1'' (Some ''ann'') '''' media1 = (Inr r, sm')"
    by (cases "delete_asset ?me ''m1'' (Some ''ann'') '''' media1") (auto simp: delete_asset_def media_sample_def Let_def)
  have "me_usage ?me = usage_reply_to (sample_env '''' 1) (Some ''secret'') ''secret'' init_db"
    by simp
  from deletion_of_files[OF reachable_media(1) this d] obtain a where
    "a \<in> set (assetRows media1)" "assetRows sm' = map (\<lambda>x. if x = a then deleted_row ?me (Some ''ann'') a else x) (assetRows media1)"
    by blast
  then have "map ma_deletedAt (assetRows sm') = [Some 1]"
    by (simp add: media1_eq deleted_row_def media_sample_def)
  with d show ?thesis
    by (intro exI conjI)
qed

end
