(* ===== verification/Client_Api.thy ===== *)
theory Client_Api
  imports Content_Policy Machines
begin

text \<open>
  The client of the web frontend (\<open>frontend/src/lib/api/client.ts\<close>): tokens in memory and in the storage of the
  browser, requests that are sent again after the session was refreshed, and the queue of requests that wait for it.
  The requests of a tab are numbered in the order in which they start; what the network answers, and when, is not
  determined: every answer is a step.
\<close>

section \<open>Tokens\<close>

text \<open>
  The storage of the browser is shared by its tabs; the memory belongs to one tab. \<open>fetched\<close> is a history that the code
  does not keep: the request of each call of \<open>fetch\<close>, the calls that refresh the session apart.
\<close>

record storage =
  sn_access_token :: "string option"
  sn_refresh_token :: "string option"

datatype phase =
    InFlight bool "string option"
  | Queued
  | Refreshing string
  | Completed nat
  | Rejected nat string
  | Unreachable

record tab =
  accessToken :: "string option"
  isRefreshing :: bool
  pendingQueue :: "nat list"
  requests :: "phase list"
  fetched :: "nat list"

type_synonym client = "storage \<times> tab"

definition setAccessToken :: "string option \<Rightarrow> client \<Rightarrow> client" where
  "setAccessToken token c = ((fst c)\<lparr>sn_access_token := truthy token\<rparr>, (snd c)\<lparr>accessToken := token\<rparr>)"

definition getAccessToken :: "client \<Rightarrow> string option \<times> client" where
  "getAccessToken c =
     (case truthy (accessToken (snd c)) of
        Some t \<Rightarrow> (Some t, c)
      | None \<Rightarrow> let t = sn_access_token (fst c) in (t, (fst c, (snd c)\<lparr>accessToken := t\<rparr>)))"

definition setRefreshToken :: "string option \<Rightarrow> client \<Rightarrow> client" where
  "setRefreshToken token c = ((fst c)\<lparr>sn_refresh_token := truthy token\<rparr>, snd c)"

definition getRefreshToken :: "client \<Rightarrow> string option" where
  "getRefreshToken c = sn_refresh_token (fst c)"

definition clearTokens :: "client \<Rightarrow> client" where
  "clearTokens c = setRefreshToken None (setAccessToken None c)"

section \<open>Messages\<close>

definition error_messages :: "(string \<times> string) list" where
  "error_messages =
     [(''Email already registered'', ''Email nay da duoc dang ky.''),
      (''User not found'', ''Khong tim thay tai khoan.''),
      (''Account already verified'', ''Tai khoan da duoc xac minh.''),
      (''Username already taken'', ''Ten dang nhap da duoc su dung.''),
      (''Invalid or expired OTP'', ''Ma xac minh khong hop le hoac da het han.''),
      (''Invalid credentials'', ''Ten dang nhap, email hoac mat khau khong dung.''),
      (''Account not verified'', ''Ban can xac minh email truoc khi dang nhap.''),
      (''Invalid or expired refresh token'', ''Phien dang nhap da het han. Vui long dang nhap lai.''),
      (''Authentication required'', ''Vui long dang nhap de tiep tuc.''),
      (''Admin or moderator role required'', ''Chi quan tri vien hoac kiem duyet vien co quyen thuc hien.''),
      (''Post awaits approval'', ''Bai dang dang cho duyet.''),
      (''Content changed; reload before reviewing'', ''Bai dang da thay doi. Vui long tai lai truoc khi duyet.'')]"

definition displayError :: "string \<Rightarrow> string" where
  "displayError message = or_else (map_of error_messages message) message"

fun join_with :: "string \<Rightarrow> string list \<Rightarrow> string" where
  "join_with sep [] = ''''"
| "join_with sep [t] = t"
| "join_with sep (t # ts) = t @ sep @ join_with sep ts"

text \<open>The message of an error is a text (\<open>Inl\<close>) or a list of texts (\<open>Inr\<close>).\<close>

definition error_text :: "string + string list \<Rightarrow> string" where
  "error_text message =
     (case message of Inl t \<Rightarrow> displayError t | Inr ts \<Rightarrow> join_with '', '' (map displayError ts))"

text \<open>An answer: its status, the message of its body when that is one of an error, the text of its status.\<close>

record answer_from_server =
  as_status :: nat
  as_message :: "(string + string list) option"
  as_statusText :: string

section \<open>Requests\<close>

definition set_phase :: "nat \<Rightarrow> phase \<Rightarrow> client \<Rightarrow> client" where
  "set_phase k p c = (fst c, (snd c)\<lparr>requests := (requests (snd c))[k := p]\<rparr>)"

text \<open>A request takes the token that is there when it is sent.\<close>

definition send_request :: "nat \<Rightarrow> bool \<Rightarrow> client \<Rightarrow> client" where
  "send_request k isRetry c =
     (let (token, c') = getAccessToken c in
      set_phase k (InFlight isRetry (truthy token)) (fst c', (snd c')\<lparr>fetched := fetched (snd c') @ [k]\<rparr>))"

definition start_request :: "client \<Rightarrow> client" where
  "start_request c =
     (let k = length (requests (snd c)) in
      send_request k False (fst c, (snd c)\<lparr>requests := requests (snd c) @ [Queued]\<rparr>))"

definition wake :: "string option \<Rightarrow> nat \<Rightarrow> client \<Rightarrow> client" where
  "wake newToken k c =
     (if truthy newToken = None then set_phase k (Rejected 401 ''Vui long dang nhap de tiep tuc.'') c
      else send_request k True c)"

text \<open>After \<open>refreshAccessToken\<close> returned: the queue, then the request that refreshed.\<close>

definition end_refresh :: "nat \<Rightarrow> string option \<Rightarrow> client \<Rightarrow> client" where
  "end_refresh k newToken c =
     (let queue = pendingQueue (snd c);
          c1 = (fst c, (snd c)\<lparr>isRefreshing := False, pendingQueue := []\<rparr>);
          c2 = fold (wake newToken) queue c1 in
      if truthy newToken = None
      then set_phase k (Rejected 401 ''Phien dang nhap da het han. Vui long dang nhap lai.'') c2
      else send_request k True c2)"

definition failed_answer :: "answer_from_server \<Rightarrow> phase" where
  "failed_answer r =
     Rejected (as_status r) (error_text (case as_message r of None \<Rightarrow> Inl (as_statusText r) | Some m \<Rightarrow> m))"

definition receive :: "nat \<Rightarrow> answer_from_server \<Rightarrow> client \<Rightarrow> client" where
  "receive k r c =
     (case requests (snd c) ! k of
        InFlight isRetry token \<Rightarrow>
          if as_status r = 401 \<and> \<not> isRetry
          then
            if isRefreshing (snd c)
            then set_phase k Queued (fst c, (snd c)\<lparr>pendingQueue := pendingQueue (snd c) @ [k]\<rparr>)
            else
              (case truthy (getRefreshToken c) of
                 None \<Rightarrow> end_refresh k None (fst c, (snd c)\<lparr>isRefreshing := True\<rparr>)
               | Some rt \<Rightarrow> set_phase k (Refreshing rt) (fst c, (snd c)\<lparr>isRefreshing := True\<rparr>))
          else if 200 \<le> as_status r \<and> as_status r < 300 then set_phase k (Completed (as_status r)) c
          else set_phase k (failed_answer r) c
      | _ \<Rightarrow> c)"

text \<open>The network fails a request that is under way.\<close>

definition unreachable :: "nat \<Rightarrow> client \<Rightarrow> client" where
  "unreachable k c = (case requests (snd c) ! k of InFlight _ _ \<Rightarrow> set_phase k Unreachable c | _ \<Rightarrow> c)"

text \<open>
  The answer to the refresh: \<open>None\<close> when it is refused, otherwise the two new tokens. \<open>refresh_broken\<close>: the call
  or the reading of its body fails, and the exception leaves \<open>apiFetch\<close>.
\<close>

definition refresh_answered :: "nat \<Rightarrow> (string \<times> string) option \<Rightarrow> client \<Rightarrow> client" where
  "refresh_answered k reply c =
     (case requests (snd c) ! k of
        Refreshing _ \<Rightarrow>
          (case reply of
             None \<Rightarrow> end_refresh k None (clearTokens c)
           | Some (access, refresh) \<Rightarrow>
               end_refresh k (Some access) (setRefreshToken (Some refresh) (setAccessToken (Some access) c)))
      | _ \<Rightarrow> c)"

definition refresh_broken :: "nat \<Rightarrow> client \<Rightarrow> client" where
  "refresh_broken k c = (case requests (snd c) ! k of Refreshing _ \<Rightarrow> set_phase k Unreachable c | _ \<Rightarrow> c)"

text \<open>What \<open>login\<close> and \<open>logout\<close> of \<open>lib/auth/context.tsx\<close> do to the tokens.\<close>

definition signed_in_with :: "string \<Rightarrow> string \<Rightarrow> client \<Rightarrow> client" where
  "signed_in_with access refresh c = setRefreshToken (Some refresh) (setAccessToken (Some access) c)"

definition new_tab :: tab where
  "new_tab = \<lparr>accessToken = None, isRefreshing = False, pendingQueue = [], requests = [], fetched = []\<rparr>"

section \<open>One tab\<close>

text \<open>
  The events of a tab, with the refresh tokens it has sent so far. The identity service hands out tokens that it
  has not handed out before.
\<close>

datatype client_event =
    Start
  | Answer nat answer_from_server
  | Lost nat
  | RefreshAnswer nat "(string \<times> string) option"
  | RefreshLost nat
  | Login string string
  | Logout

fun handle_event :: "client_event \<Rightarrow> client \<Rightarrow> client" where
  "handle_event Start c = start_request c"
| "handle_event (Answer k r) c = receive k r c"
| "handle_event (Lost k) c = unreachable k c"
| "handle_event (RefreshAnswer k reply) c = refresh_answered k reply c"
| "handle_event (RefreshLost k) c = refresh_broken k c"
| "handle_event (Login access refresh) c = signed_in_with access refresh c"
| "handle_event Logout c = clearTokens c"

definition in_flight :: "phase \<Rightarrow> bool" where
  "in_flight p = (case p of InFlight _ _ \<Rightarrow> True | _ \<Rightarrow> False)"

definition first_try :: "phase \<Rightarrow> bool" where
  "first_try p = (case p of InFlight isRetry _ \<Rightarrow> \<not> isRetry | _ \<Rightarrow> False)"

definition in_refresh :: "phase \<Rightarrow> bool" where
  "in_refresh p = (case p of Refreshing _ \<Rightarrow> True | _ \<Rightarrow> False)"

lemma phase_tests [simp]:
  "in_flight p \<longleftrightarrow> (\<exists>b t. p = InFlight b t)" "first_try p \<longleftrightarrow> (\<exists>t. p = InFlight False t)"
  "in_refresh p \<longleftrightarrow> (\<exists>rt. p = Refreshing rt)"
  by (auto simp: in_flight_def first_try_def in_refresh_def split: phase.splits)

text \<open>An event can happen when the request it is about is in the phase for it.\<close>

fun possible :: "client_event \<Rightarrow> client \<Rightarrow> bool" where
  "possible (Answer k r) c = (k < length (requests (snd c)) \<and> in_flight (requests (snd c) ! k))"
| "possible (Lost k) c = (k < length (requests (snd c)) \<and> in_flight (requests (snd c) ! k))"
| "possible (RefreshAnswer k reply) c = (k < length (requests (snd c)) \<and> in_refresh (requests (snd c) ! k))"
| "possible (RefreshLost k) c = (k < length (requests (snd c)) \<and> in_refresh (requests (snd c) ! k))"
| "possible _ c = True"

text \<open>The refresh token that an event sends.\<close>

fun sends :: "client_event \<Rightarrow> client \<Rightarrow> string list" where
  "sends (Answer k r) c =
     (if as_status r = 401 \<and> first_try (requests (snd c) ! k) \<and> \<not> isRefreshing (snd c)
      then (case truthy (getRefreshToken c) of None \<Rightarrow> [] | Some rt \<Rightarrow> [rt]) else [])"
| "sends _ c = []"

fun brings :: "client_event \<Rightarrow> string list" where
  "brings (RefreshAnswer k (Some (access, refresh))) = [refresh]"
| "brings (Login access refresh) = [refresh]"
| "brings _ = []"

inductive client_step :: "client \<times> string list \<Rightarrow> client \<times> string list \<Rightarrow> bool" where
  "possible ev c \<Longrightarrow> set (brings ev) \<inter> set sent = {} \<Longrightarrow>
   client_step (c, sent) (handle_event ev c, sent @ sends ev c)"

definition opened :: "client \<times> string list \<Rightarrow> bool" where
  "opened x \<longleftrightarrow> (\<exists>st. x = ((st, new_tab), []))"

abbreviation client_reachable :: "client \<times> string list \<Rightarrow> bool" where
  "client_reachable x \<equiv> reach opened client_step x"

end
