(* ===== verification/Client_Spec.thy ===== *)
theory Client_Spec
  imports Client_Api
begin

text \<open>
  The properties of the client of the frontend: refresh tokens, waiting requests, and the number of its steps.
\<close>

section \<open>What the operations change\<close>

definition settled :: "phase \<Rightarrow> bool" where
  "settled p \<longleftrightarrow> (case p of InFlight isRetry _ \<Rightarrow> isRetry | Rejected _ _ \<Rightarrow> True | _ \<Rightarrow> False)"

lemma settled_simps [simp]:
  "settled (InFlight b t) = b" "settled (Rejected n m)" "\<not> settled Queued" "\<not> settled (Refreshing rt)"
  "\<not> settled (Completed n)" "\<not> settled Unreachable"
  by (simp_all add: settled_def)

lemma set_phase_simps [simp]:
  "fst (set_phase k p c) = fst c" "requests (snd (set_phase k p c)) = (requests (snd c))[k := p]"
  "pendingQueue (snd (set_phase k p c)) = pendingQueue (snd c)" "isRefreshing (snd (set_phase k p c)) = isRefreshing (snd c)"
  "fetched (snd (set_phase k p c)) = fetched (snd c)"
  by (simp_all add: set_phase_def)

lemma getAccessToken_simps [simp]:
  "fst (snd (getAccessToken c)) = fst c" "requests (snd (snd (getAccessToken c))) = requests (snd c)"
  "pendingQueue (snd (snd (getAccessToken c))) = pendingQueue (snd c)"
  "isRefreshing (snd (snd (getAccessToken c))) = isRefreshing (snd c)"
  "fetched (snd (snd (getAccessToken c))) = fetched (snd c)"
  by (auto simp: getAccessToken_def Let_def split: option.splits)

lemma send_request_simps [simp]:
  "fst (send_request k b c) = fst c"
  "requests (snd (send_request k b c)) = (requests (snd c))[k := InFlight b (truthy (fst (getAccessToken c)))]"
  "pendingQueue (snd (send_request k b c)) = pendingQueue (snd c)"
  "isRefreshing (snd (send_request k b c)) = isRefreshing (snd c)"
  "fetched (snd (send_request k b c)) = fetched (snd c) @ [k]"
  by (simp_all add: send_request_def split: prod.splits) (metis getAccessToken_simps snd_conv fst_conv)+

lemma wake_simps [simp]:
  "fst (wake t k c) = fst c" "pendingQueue (snd (wake t k c)) = pendingQueue (snd c)"
  "isRefreshing (snd (wake t k c)) = isRefreshing (snd c)"
  by (simp_all add: wake_def)

lemma wake_phase: "\<exists>p. settled p \<and> requests (snd (wake t k c)) = (requests (snd c))[k := p]"
proof (cases "truthy t")
  case None
  then show ?thesis
    by (intro exI[of _ "Rejected 401 ''Vui long dang nhap de tiep tuc.''"]) (simp add: wake_def)
next
  case (Some a)
  then show ?thesis
    by (intro exI[of _ "InFlight True (truthy (fst (getAccessToken c)))"]) (simp add: wake_def)
qed

lemma fold_wake:
  "fst (fold (wake t) ks c) = fst c \<and> pendingQueue (snd (fold (wake t) ks c)) = pendingQueue (snd c) \<and>
   isRefreshing (snd (fold (wake t) ks c)) = isRefreshing (snd c) \<and>
   length (requests (snd (fold (wake t) ks c))) = length (requests (snd c)) \<and>
   (\<forall>i < length (requests (snd c)).
      (i \<in> set ks \<longrightarrow> settled (requests (snd (fold (wake t) ks c)) ! i)) \<and>
      (i \<notin> set ks \<longrightarrow> requests (snd (fold (wake t) ks c)) ! i = requests (snd c) ! i))"
proof (induction ks arbitrary: c)
  case (Cons k ks)
  obtain p where p: "settled p" "requests (snd (wake t k c)) = (requests (snd c))[k := p]"
    using wake_phase by blast
  show ?case
    using Cons.IH[of "wake t k c"] p by (auto simp: nth_list_update)
qed simp

lemma end_refresh:
  assumes "k < length (requests (snd c))"
  shows "fst (end_refresh k t c) = fst c" "pendingQueue (snd (end_refresh k t c)) = []"
    "\<not> isRefreshing (snd (end_refresh k t c))" "length (requests (snd (end_refresh k t c))) = length (requests (snd c))"
    "i < length (requests (snd c)) \<Longrightarrow> i = k \<or> i \<in> set (pendingQueue (snd c)) \<Longrightarrow>
      settled (requests (snd (end_refresh k t c)) ! i)"
    "i < length (requests (snd c)) \<Longrightarrow> i \<noteq> k \<Longrightarrow> i \<notin> set (pendingQueue (snd c)) \<Longrightarrow>
      requests (snd (end_refresh k t c)) ! i = requests (snd c) ! i"
  using fold_wake[of t "pendingQueue (snd c)" "(fst c, (snd c)\<lparr>isRefreshing := False, pendingQueue := []\<rparr>)"] assms
  by (auto simp: end_refresh_def Let_def nth_list_update)

lemma token_simps [simp]:
  "snd (setRefreshToken t c) = snd c" "sn_refresh_token (fst (setRefreshToken t c)) = truthy t"
  "requests (snd (setAccessToken t c)) = requests (snd c)" "pendingQueue (snd (setAccessToken t c)) = pendingQueue (snd c)"
  "isRefreshing (snd (setAccessToken t c)) = isRefreshing (snd c)"
  "sn_refresh_token (fst (setAccessToken t c)) = sn_refresh_token (fst c)"
  by (simp_all add: setRefreshToken_def setAccessToken_def)

section \<open>The invariant\<close>

definition client_ok :: "client \<times> string list \<Rightarrow> bool" where
  "client_ok x \<longleftrightarrow>
     (let (c, sent) = x; rs = requests (snd c) in
      distinct sent \<and>
      (\<not> isRefreshing (snd c) \<longrightarrow> (\<forall>rt. truthy (getRefreshToken c) = Some rt \<longrightarrow> rt \<notin> set sent)) \<and>
      distinct (pendingQueue (snd c)) \<and> set (pendingQueue (snd c)) = {k. k < length rs \<and> rs ! k = Queued} \<and>
      (pendingQueue (snd c) \<noteq> [] \<longrightarrow> isRefreshing (snd c)) \<and>
      (\<forall>j k rt rt'. j < length rs \<and> k < length rs \<and> rs ! j = Refreshing rt \<and> rs ! k = Refreshing rt' \<longrightarrow> j = k) \<and>
      (\<forall>k rt. k < length rs \<and> rs ! k = Refreshing rt \<longrightarrow> isRefreshing (snd c)))"


lemma client_okD:
  assumes "client_ok (c, sent)"
  shows "distinct sent" "\<not> isRefreshing (snd c) \<Longrightarrow> truthy (getRefreshToken c) = Some rt \<Longrightarrow> rt \<notin> set sent"
    "distinct (pendingQueue (snd c))"
    "i < length (requests (snd c)) \<Longrightarrow> i \<in> set (pendingQueue (snd c)) \<longleftrightarrow> requests (snd c) ! i = Queued"
    "i \<in> set (pendingQueue (snd c)) \<Longrightarrow> i < length (requests (snd c))"
    "pendingQueue (snd c) \<noteq> [] \<Longrightarrow> isRefreshing (snd c)"
    "j < length (requests (snd c)) \<Longrightarrow> k < length (requests (snd c)) \<Longrightarrow> requests (snd c) ! j = Refreshing r \<Longrightarrow>
       requests (snd c) ! k = Refreshing r' \<Longrightarrow> j = k"
    "k < length (requests (snd c)) \<Longrightarrow> requests (snd c) ! k = Refreshing r \<Longrightarrow> isRefreshing (snd c)"
  using assms by (auto simp: client_ok_def Let_def)

lemma client_okI:
  assumes "distinct sent" "\<And>rt. \<not> isRefreshing (snd c) \<Longrightarrow> truthy (getRefreshToken c) = Some rt \<Longrightarrow> rt \<notin> set sent"
    "distinct (pendingQueue (snd c))"
    "\<And>i. i < length (requests (snd c)) \<Longrightarrow> i \<in> set (pendingQueue (snd c)) \<longleftrightarrow> requests (snd c) ! i = Queued"
    "\<And>i. i \<in> set (pendingQueue (snd c)) \<Longrightarrow> i < length (requests (snd c))"
    "pendingQueue (snd c) \<noteq> [] \<Longrightarrow> isRefreshing (snd c)"
    "\<And>j k r r'. j < length (requests (snd c)) \<Longrightarrow> k < length (requests (snd c)) \<Longrightarrow> requests (snd c) ! j = Refreshing r \<Longrightarrow>
       requests (snd c) ! k = Refreshing r' \<Longrightarrow> j = k"
    "\<And>k r. k < length (requests (snd c)) \<Longrightarrow> requests (snd c) ! k = Refreshing r \<Longrightarrow> isRefreshing (snd c)"
  shows "client_ok (c, sent)"
  unfolding client_ok_def Let_def prod.case using assms by (intro conjI allI impI) (blast+ | auto)

text \<open>A request moves from one phase to another that is neither waiting nor refreshing.\<close>

lemma client_ok_move:
  assumes "client_ok (c, sent)" "k < length (requests (snd c))" "requests (snd c) ! k \<noteq> Queued"
    and "\<forall>rt. p \<noteq> Refreshing rt" "p \<noteq> Queued"
    and "requests (snd c') = (requests (snd c))[k := p]" "pendingQueue (snd c') = pendingQueue (snd c)"
    and "isRefreshing (snd c') = isRefreshing (snd c)" "sn_refresh_token (fst c') = sn_refresh_token (fst c)"
  shows "client_ok (c', sent)"
  using client_okD[OF assms(1)] assms(2-) unfolding getRefreshToken_def
  by (intro client_okI) (auto simp: nth_list_update getRefreshToken_def split: if_splits)

lemma client_ok_tokens:
  assumes "client_ok (c, sent)" "snd c' = (snd c)\<lparr>accessToken := a\<rparr>"
    and "\<And>rt. truthy (sn_refresh_token (fst c')) = Some rt \<Longrightarrow> rt \<notin> set sent"
  shows "client_ok (c', sent)"
  using client_okD[OF assms(1)] assms(2,3) by (intro client_okI) (auto simp: getRefreshToken_def)

lemma client_ok_end:
  assumes "client_ok (c, sent)" "k < length (requests (snd c))"
    and "\<And>j rt. j < length (requests (snd c)) \<Longrightarrow> requests (snd c) ! j = Refreshing rt \<Longrightarrow> j = k"
    and "\<And>rt. truthy (getRefreshToken c) = Some rt \<Longrightarrow> rt \<notin> set sent"
  shows "client_ok (end_refresh k t c, sent)"
proof -
  note ok = client_okD[OF assms(1)] and e = end_refresh[OF assms(2), where t = t]
  have s: "settled (requests (snd (end_refresh k t c)) ! i) \<or>
      requests (snd (end_refresh k t c)) ! i \<noteq> Queued \<and> (\<forall>rt. requests (snd (end_refresh k t c)) ! i \<noteq> Refreshing rt)"
    if "i < length (requests (snd c))" for i
    using e(5,6)[OF that] ok(4)[OF that] assms(3)[OF that] by metis
  have "requests (snd (end_refresh k t c)) ! i \<noteq> Queued \<and> (\<forall>rt. requests (snd (end_refresh k t c)) ! i \<noteq> Refreshing rt)"
    if "i < length (requests (snd c))" for i
    using s[OF that] by (metis settled_simps(3,4))
  then show ?thesis
    using ok(1) assms(4) e(1-4) by (intro client_okI) (auto simp: getRefreshToken_def)
qed

lemma start_request_simps [simp]:
  "fst (start_request c) = fst c" "pendingQueue (snd (start_request c)) = pendingQueue (snd c)"
  "isRefreshing (snd (start_request c)) = isRefreshing (snd c)"
  "\<exists>t. requests (snd (start_request c)) = requests (snd c) @ [InFlight False t]"
  by (simp_all add: start_request_def Let_def)

lemma truthy_truthy [simp]: "truthy (truthy t) = truthy t"
  by (auto simp: truthy_def split: option.splits if_splits)

lemma clearTokens_simps [simp]:
  "requests (snd (clearTokens c)) = requests (snd c)" "pendingQueue (snd (clearTokens c)) = pendingQueue (snd c)"
  "isRefreshing (snd (clearTokens c)) = isRefreshing (snd c)"
  by (simp_all add: clearTokens_def)

lemma truthy_None [simp]: "truthy None = None"
  by (simp add: truthy_def)

lemma truthy_of_Some: "truthy (Some t) = Some u \<longleftrightarrow> t \<noteq> '''' \<and> u = t"
  by (auto simp: truthy_def)

lemma answer_ok:
  assumes ok: "client_ok (c, sent)" and k: "k < length (requests (snd c))" "requests (snd c) ! k = InFlight b t"
  shows "client_ok (receive k r c, sent @ sends (Answer k r) c)"
proof -
  note D = client_okD[OF ok]
  consider (waits) "as_status r = 401" "\<not> b" "isRefreshing (snd c)"
    | (guest) "as_status r = 401" "\<not> b" "\<not> isRefreshing (snd c)" "truthy (getRefreshToken c) = None"
    | (refreshes) rt where "as_status r = 401" "\<not> b" "\<not> isRefreshing (snd c)" "truthy (getRefreshToken c) = Some rt"
    | (ends) "as_status r \<noteq> 401 \<or> b"
    by fastforce
  then show ?thesis
  proof cases
    case waits
    then show ?thesis
      using D k by (intro client_okI) (auto simp: receive_def getRefreshToken_def nth_list_update split: if_splits)
  next
    case guest
    let ?c = "(fst c, (snd c)\<lparr>isRefreshing := True\<rparr>)"
    have "client_ok (?c, sent)"
      using D guest by (intro client_okI) (auto simp: getRefreshToken_def)
    then have "client_ok (end_refresh k None ?c, sent)"
      using D(8) k guest by (intro client_ok_end) (auto simp: getRefreshToken_def)
    then show ?thesis
      using guest k by (simp add: receive_def)
  next
    case refreshes
    then show ?thesis
      using D k by (intro client_okI) (auto simp: receive_def getRefreshToken_def nth_list_update split: if_splits)
  next
    case ends
    define p where "p = (if 200 \<le> as_status r \<and> as_status r < 300 then Completed (as_status r) else failed_answer r)"
    have p: "\<forall>rt. p \<noteq> Refreshing rt" "p \<noteq> Queued"
      by (simp_all add: p_def failed_answer_def)
    have "receive k r c = set_phase k p c" "sends (Answer k r) c = []"
      using ends k by (auto simp: receive_def p_def)
    then show ?thesis
      using client_ok_move[OF ok k(1) _ p, of "set_phase k p c"] k(2) by simp
  qed
qed

lemma refresh_answered_ok:
  assumes ok: "client_ok (c, sent)" and k: "k < length (requests (snd c))" "requests (snd c) ! k = Refreshing rt"
    and "set (brings (RefreshAnswer k reply)) \<inter> set sent = {}"
  shows "client_ok (refresh_answered k reply c, sent)"
proof -
  note D = client_okD[OF ok]
  have flag: "isRefreshing (snd c)"
    using D(8) k by blast
  have ends: "client_ok (end_refresh k t c', sent)"
    if "requests (snd c') = requests (snd c)" "pendingQueue (snd c') = pendingQueue (snd c)"
      "isRefreshing (snd c') = isRefreshing (snd c)"
      "\<And>rt. truthy (getRefreshToken c') = Some rt \<Longrightarrow> rt \<notin> set sent" for t c'
  proof (rule client_ok_end)
    show "client_ok (c', sent)"
      using D that flag by (intro client_okI) auto
  qed (use that D(7) k in \<open>auto simp: that\<close>)
  show ?thesis
    using assms(4) k(2)
    by (cases reply)
      (auto simp: refresh_answered_def clearTokens_def getRefreshToken_def truthy_of_Some intro!: ends)
qed

lemma event_ok:
  assumes ok: "client_ok (c, sent)" and "possible ev c" "set (brings ev) \<inter> set sent = {}"
  shows "client_ok (handle_event ev c, sent @ sends ev c)"
proof (cases ev)
  case Start
  note D = client_okD[OF ok]
  obtain t where "requests (snd (start_request c)) = requests (snd c) @ [InFlight False t]"
    using start_request_simps(4) by blast
  then have "client_ok (start_request c, sent)"
    using D by (intro client_okI) (auto simp: nth_append getRefreshToken_def less_Suc_eq split: if_splits dest: D(5))
  then show ?thesis
    by (simp add: Start)
next
  case (Answer k r)
  then obtain b t where "k < length (requests (snd c))" "requests (snd c) ! k = InFlight b t"
    using assms(2) by auto
  from answer_ok[OF ok this] show ?thesis
    by (simp only: Answer handle_event.simps)
next
  case (RefreshAnswer k reply)
  then show ?thesis
    using refresh_answered_ok[OF ok] assms(2,3) by auto
next
  case (Lost k)
  then have "k < length (requests (snd c))" "requests (snd c) ! k \<noteq> Queued"
      "handle_event ev c = set_phase k Unreachable c" "sends ev c = []"
    using assms(2) by (auto simp: unreachable_def)
  then show ?thesis
    using client_ok_move[OF ok, of k Unreachable "set_phase k Unreachable c"] by simp
next
  case (RefreshLost k)
  then have "k < length (requests (snd c))" "requests (snd c) ! k \<noteq> Queued"
      "handle_event ev c = set_phase k Unreachable c" "sends ev c = []"
    using assms(2) by (auto simp: refresh_broken_def)
  then show ?thesis
    using client_ok_move[OF ok, of k Unreachable "set_phase k Unreachable c"] by simp
next
  case (Login access refresh)
  have "snd (signed_in_with access refresh c) = (snd c)\<lparr>accessToken := Some access\<rparr>"
    by (simp add: signed_in_with_def setAccessToken_def)
  then show ?thesis
    using assms(3) client_ok_tokens[OF ok, of "signed_in_with access refresh c" "Some access"]
    by (simp add: Login) (simp add: signed_in_with_def truthy_of_Some)
next
  case Logout
  have "snd (clearTokens c) = (snd c)\<lparr>accessToken := None\<rparr>"
    by (simp add: clearTokens_def setAccessToken_def)
  then show ?thesis
    using client_ok_tokens[OF ok, of "clearTokens c" None]
    by (simp add: Logout) (simp add: clearTokens_def)
qed

interpretation client_machine: inductive_invariant opened client_step client_ok
proof unfold_locales
  show "client_ok x" if "opened x" for x
    using that by (auto simp: opened_def client_ok_def new_tab_def)
next
  show "client_ok y" if "client_ok x" "client_step x y" for x y
    using that(2,1) by cases (auto intro: event_ok)
qed

section \<open>Refresh tokens\<close>

text \<open>Two tabs over one storage: both have a request refused before either refresh is answered.\<close>

definition in_first :: "(client \<Rightarrow> client) \<Rightarrow> storage \<times> tab \<times> tab \<Rightarrow> storage \<times> tab \<times> tab" where
  "in_first f = (\<lambda>(st, a, b). let (st', a') = f (st, a) in (st', a', b))"

definition in_second :: "(client \<Rightarrow> client) \<Rightarrow> storage \<times> tab \<times> tab \<Rightarrow> storage \<times> tab \<times> tab" where
  "in_second f = (\<lambda>(st, a, b). let (st', b') = f (st, b) in (st', a, b'))"

definition expired_answer :: answer_from_server where
  "expired_answer = \<lparr>as_status = 401, as_message = Some (Inl ''Unauthorized''), as_statusText = ''Unauthorized''\<rparr>"

definition two_tabs :: "storage \<times> tab \<times> tab" where
  "two_tabs =
     in_second (receive 0 expired_answer) (in_first (receive 0 expired_answer)
       (in_second start_request (in_first start_request
         (\<lparr>sn_access_token = Some ''a'', sn_refresh_token = Some ''r''\<rparr>, new_tab, new_tab))))"

lemma two_tabs_refresh:
  "requests (fst (snd two_tabs)) = [Refreshing ''r'']" "requests (snd (snd two_tabs)) = [Refreshing ''r'']"
  by code_simp+

text \<open>
  C31. One tab never sends a refresh token twice and has at most one refresh under way, so it does not set off the alarm
  of the identity service for a token that is used again. Two tabs can: each guards its own refresh only, and both
  send the token of the common storage.
\<close>

theorem refresh_tokens_sent_once:
  "(client_reachable (c, sent) \<longrightarrow>
      distinct sent \<and>
      (\<forall>j k r r'. j < length (requests (snd c)) \<and> k < length (requests (snd c)) \<and>
         requests (snd c) ! j = Refreshing r \<and> requests (snd c) ! k = Refreshing r' \<longrightarrow> j = k)) \<and>
   (\<exists>st a b rt. two_tabs = (st, a, b) \<and> requests a = [Refreshing rt] \<and> requests b = [Refreshing rt])"
proof
  show "client_reachable (c, sent) \<longrightarrow>
      distinct sent \<and>
      (\<forall>j k r r'. j < length (requests (snd c)) \<and> k < length (requests (snd c)) \<and>
         requests (snd c) ! j = Refreshing r \<and> requests (snd c) ! k = Refreshing r' \<longrightarrow> j = k)"
    using client_machine.holds[of "(c, sent)"] by (simp add: client_ok_def Let_def)
  show "\<exists>st a b rt. two_tabs = (st, a, b) \<and> requests a = [Refreshing rt] \<and> requests b = [Refreshing rt]"
    using two_tabs_refresh by (intro exI[of _ "fst two_tabs"] exI[of _ "fst (snd two_tabs)"] exI[of _ "snd (snd two_tabs)"]) simp
qed

definition client_after :: "client_event list \<Rightarrow> client \<times> string list" where
  "client_after evs =
     fold (\<lambda>ev (c, sent). (handle_event ev c, sent @ sends ev c)) evs
       ((\<lparr>sn_access_token = Some ''a'', sn_refresh_token = Some ''r''\<rparr>, new_tab), [])"

definition waiting :: client where
  "waiting = fst (client_after [Start, Start, Answer 0 expired_answer, Answer 1 expired_answer])"

lemma waiting_phases: "requests (snd waiting) = [Refreshing ''r'', Queued]" "isRefreshing (snd waiting)"
  "client_after [Start, Start, Answer 0 expired_answer, Answer 1 expired_answer] = (waiting, [''r''])"
  by code_simp+

lemma reachable_waiting: "client_reachable (waiting, [''r''])"
proof -
  let ?s = "((\<lparr>sn_access_token = Some ''a'', sn_refresh_token = Some ''r''\<rparr>, new_tab), [])"
  have step: "client_reachable (c, sent) \<Longrightarrow> possible ev c \<Longrightarrow> set (brings ev) \<inter> set sent = {} \<Longrightarrow>
      client_reachable (handle_event ev c, sent @ sends ev c)" for c sent ev
    by (rule reach.stepped) (auto intro: client_step.intros)
  have "client_reachable ?s"
    by (rule reach.started) (auto simp: opened_def)
  have possible: "possible (Answer 0 expired_answer) (fst (client_after [Start, Start]))"
    "possible (Answer 1 expired_answer) (fst (client_after [Start, Start, Answer 0 expired_answer]))"
    by code_simp+
  have "client_reachable (client_after [Start])"
    using step[OF \<open>client_reachable ?s\<close>, of Start] by (simp add: client_after_def)
  then have "client_reachable (client_after [Start, Start])"
    using step[of "fst (client_after [Start])" "snd (client_after [Start])" Start]
    by (simp add: client_after_def)
  then have "client_reachable (client_after [Start, Start, Answer 0 expired_answer])"
    using step[OF _ possible(1), of "snd (client_after [Start, Start])"]
    by (simp add: client_after_def split_def del: sends.simps)
  then have "client_reachable (client_after [Start, Start, Answer 0 expired_answer, Answer 1 expired_answer])"
    using step[OF _ possible(2), of "snd (client_after [Start, Start, Answer 0 expired_answer])"]
    by (simp add: client_after_def split_def del: sends.simps)
  then show ?thesis
    by (simp only: waiting_phases(3))
qed

theorem refresh_tokens_sent_once_witness:
  "distinct [''r''] \<and> (\<exists>st a b rt. two_tabs = (st, a, b) \<and> requests a = [Refreshing rt] \<and> requests b = [Refreshing rt])"
  using refresh_tokens_sent_once[of waiting "[''r'']"] reachable_waiting by blast

section \<open>Waiting requests\<close>

definition woken :: "string option \<Rightarrow> phase" where
  "woken t = (if truthy t = None then Rejected 401 ''Vui long dang nhap de tiep tuc.'' else InFlight True (truthy t))"

lemma wake_woken:
  assumes "truthy t \<noteq> None \<Longrightarrow> accessToken (snd c) = t"
  shows "requests (snd (wake t k c)) = (requests (snd c))[k := woken t]" "accessToken (snd (wake t k c)) = accessToken (snd c)"
proof -
  have "getAccessToken c = (Some a, c)" if "truthy t = Some a" for a
    using assms that by (simp add: getAccessToken_def)
  then show "requests (snd (wake t k c)) = (requests (snd c))[k := woken t]" "accessToken (snd (wake t k c)) = accessToken (snd c)"
    by (auto simp: wake_def woken_def send_request_def set_phase_def truthy_def split: option.splits if_splits)
qed

lemma fold_wake_woken:
  assumes "truthy t \<noteq> None \<Longrightarrow> accessToken (snd c) = t" "i < length (requests (snd c))" "i \<in> set ks \<or> requests (snd c) ! i = woken t"
  shows "requests (snd (fold (wake t) ks c)) ! i = woken t"
  using assms
proof (induction ks arbitrary: c)
  case (Cons k ks)
  note w = wake_woken[of t c k, OF Cons.prems(1)]
  have "i \<in> set ks \<or> requests (snd (wake t k c)) ! i = woken t"
    using Cons.prems(2,3) w(1) by (cases "i = k") auto
  then show ?case
    using Cons.IH[of "wake t k c"] Cons.prems(1,2) w by simp
qed simp

text \<open>A tab whose refresh was lost: the flag stays, nobody refreshes.\<close>

definition hung :: "client \<Rightarrow> bool" where
  "hung c \<longleftrightarrow> isRefreshing (snd c) \<and> (\<forall>k < length (requests (snd c)). \<forall>rt. requests (snd c) ! k \<noteq> Refreshing rt)"

lemma hung_step:
  assumes "client_step x y" "hung (fst x)"
  shows "hung (fst y)" "length (requests (snd (fst x))) \<le> length (requests (snd (fst y)))"
    "i < length (requests (snd (fst x))) \<Longrightarrow> requests (snd (fst x)) ! i = Queued \<Longrightarrow> requests (snd (fst y)) ! i = Queued"
proof -
  obtain ev c sent where x: "x = (c, sent)" and y: "fst y = handle_event ev c" and "possible ev c"
    using assms(1) by cases auto
  have h: "isRefreshing (snd c)" "\<And>k rt. k < length (requests (snd c)) \<Longrightarrow> requests (snd c) ! k \<noteq> Refreshing rt"
    using assms(2) by (auto simp: hung_def x)
  have "hung (handle_event ev c) \<and> length (requests (snd c)) \<le> length (requests (snd (handle_event ev c))) \<and>
    (i < length (requests (snd c)) \<longrightarrow> requests (snd c) ! i = Queued \<longrightarrow> requests (snd (handle_event ev c)) ! i = Queued)"
  proof (cases ev)
    case Start
    obtain t where "requests (snd (start_request c)) = requests (snd c) @ [InFlight False t]"
      using start_request_simps(4) by blast
    then show ?thesis
      using h by (auto simp: Start hung_def nth_append less_Suc_eq)
  next
    case (Answer k r)
    then obtain b t where "k < length (requests (snd c))" "requests (snd c) ! k = InFlight b t"
      using \<open>possible ev c\<close> by auto
    then show ?thesis
      using h by (auto simp: Answer receive_def hung_def failed_answer_def nth_list_update)
  next
    case (Lost k)
    then show ?thesis
      using h \<open>possible ev c\<close> by (auto simp: unreachable_def hung_def nth_list_update split: if_splits)
  qed (use h \<open>possible ev c\<close> in \<open>auto simp: hung_def signed_in_with_def clearTokens_def\<close>)
  then show "hung (fst y)" "length (requests (snd (fst x))) \<le> length (requests (snd (fst y)))"
    "i < length (requests (snd (fst x))) \<Longrightarrow> requests (snd (fst x)) ! i = Queued \<Longrightarrow> requests (snd (fst y)) ! i = Queued"
    by (auto simp: x y)
qed

lemma hung_steps:
  assumes "client_step\<^sup>*\<^sup>* x y" "hung (fst x)"
  shows "hung (fst y) \<and> length (requests (snd (fst x))) \<le> length (requests (snd (fst y))) \<and>
    (\<forall>i < length (requests (snd (fst x))). requests (snd (fst x)) ! i = Queued \<longrightarrow> requests (snd (fst y)) ! i = Queued)"
  using assms(1)
proof (induction rule: rtranclp_induct)
  case (step y z)
  then show ?case
    using hung_step[of y z] by (meson order_less_le_trans order_trans)
qed (simp add: assms(2))

lemma answered_waiting:
  assumes "client_ok (c, sent)" "k < length (requests (snd c))" "requests (snd c) ! k = Refreshing rt"
    and "i < length (requests (snd c))" "requests (snd c) ! i = Queued"
  shows "requests (snd (refresh_answered k reply c)) ! i = woken (map_option fst reply)"
proof -
  note D = client_okD[OF assms(1)]
  have i: "i \<in> set (pendingQueue (snd c))" "i \<noteq> k"
    using D(4)[OF assms(4)] assms(3,5) by auto
  have *: "requests (snd (end_refresh k t c')) ! i = woken t"
    if "requests (snd c') = requests (snd c)" "pendingQueue (snd c') = pendingQueue (snd c)"
      "truthy t \<noteq> None \<Longrightarrow> accessToken (snd c') = t" for t c'
    using fold_wake_woken[of t "(fst c', (snd c')\<lparr>isRefreshing := False, pendingQueue := []\<rparr>)" i "pendingQueue (snd c)"]
      that i assms(4) by (auto simp: end_refresh_def Let_def)
  show ?thesis
    using assms(3)
    by (cases reply) (auto simp: refresh_answered_def clearTokens_def setAccessToken_def setRefreshToken_def intro!: *)
qed

text \<open>
  C32. While a refresh is under way, its answer ends the waiting: no request waits any longer, those that waited are
  sent again with the new token, or rejected when the refresh was refused. But when the call of the refresh fails, the
  requests that wait do so for ever, whatever happens, and the tab never refreshes again.
\<close>

theorem waiting_requests:
  assumes "client_reachable (c, sent)" "k < length (requests (snd c))" "requests (snd c) ! k = Refreshing rt"
  shows "(\<forall>reply. \<not> isRefreshing (snd (refresh_answered k reply c)) \<and>
      Queued \<notin> set (requests (snd (refresh_answered k reply c))) \<and>
      (\<forall>i < length (requests (snd c)). requests (snd c) ! i = Queued \<longrightarrow>
         requests (snd (refresh_answered k reply c)) ! i = woken (map_option fst reply))) \<and>
    (\<forall>c' sent'. client_step\<^sup>*\<^sup>* (refresh_broken k c, sent) (c', sent') \<longrightarrow>
      isRefreshing (snd c') \<and> (\<forall>p \<in> set (requests (snd c')). \<forall>r. p \<noteq> Refreshing r) \<and>
      (\<forall>i < length (requests (snd c)). requests (snd c) ! i = Queued \<longrightarrow> requests (snd c') ! i = Queued))"
proof (intro conjI allI impI)
  have ok: "client_ok (c, sent)"
    using client_machine.holds[OF assms(1)] .
  note D = client_okD[OF ok]
  fix reply
  have after: "client_ok (refresh_answered k reply c, []) \<and> \<not> isRefreshing (snd (refresh_answered k reply c))"
  proof -
    have "client_ok (c, [])"
      using D by (intro client_okI) auto
    then have "client_ok (refresh_answered k reply c, [])"
      using assms(2,3) by (intro refresh_answered_ok) auto
    then show ?thesis
      using assms(2,3) by (auto simp: refresh_answered_def end_refresh split: option.splits)
  qed
  then show "\<not> isRefreshing (snd (refresh_answered k reply c))"
    by blast
  show "Queued \<notin> set (requests (snd (refresh_answered k reply c)))"
  proof
    assume "Queued \<in> set (requests (snd (refresh_answered k reply c)))"
    then obtain i where "i < length (requests (snd (refresh_answered k reply c)))"
      "requests (snd (refresh_answered k reply c)) ! i = Queued"
      unfolding in_set_conv_nth by blast
    then show False
      using client_okD(4,6)[of "refresh_answered k reply c" "[]"] after by fastforce
  qed
  show "requests (snd (refresh_answered k reply c)) ! i = woken (map_option fst reply)"
    if "i < length (requests (snd c))" "requests (snd c) ! i = Queued" for i
    using answered_waiting[OF ok assms(2,3) that] .
next
  fix c' sent' assume run: "client_step\<^sup>*\<^sup>* (refresh_broken k c, sent) (c', sent')"
  note D = client_okD[OF client_machine.holds[OF assms(1)]]
  have "refresh_broken k c = set_phase k Unreachable c"
    using assms(3) by (simp add: refresh_broken_def)
  moreover have "hung (set_phase k Unreachable c)"
    using D(7)[OF assms(2) _ assms(3)] D(8)[OF assms(2,3)] assms(2) by (auto simp: hung_def nth_list_update split: if_splits)
  ultimately have h: "hung c'" "\<forall>i < length (requests (snd c)). (requests (snd c))[k := Unreachable] ! i = Queued \<longrightarrow>
      requests (snd c') ! i = Queued"
    using hung_steps[OF run] by auto
  then show "isRefreshing (snd c')" "\<forall>p \<in> set (requests (snd c')). \<forall>r. p \<noteq> Refreshing r"
    by (auto simp: hung_def in_set_conv_nth)
  show "requests (snd c') ! i = Queued" if "i < length (requests (snd c))" "requests (snd c) ! i = Queued" for i
  proof -
    have "i \<noteq> k"
      using that assms(3) by auto
    then show ?thesis
      using h(2) that by simp
  qed
qed

theorem waiting_requests_witness:
  "requests (snd (refresh_answered 0 (Some (''b'', ''s'')) waiting)) ! 1 = InFlight True (Some ''b'') \<and>
   requests (snd (refresh_answered 0 None waiting)) ! 1 = Rejected 401 ''Vui long dang nhap de tiep tuc.''"
  using waiting_requests[OF reachable_waiting, of 0 "''r''", THEN conjunct1] waiting_phases(1)
  by (auto simp: woken_def truthy_def)

section \<open>The number of steps\<close>

definition phase_rank :: "phase \<Rightarrow> nat" where
  "phase_rank p = (case p of InFlight isRetry _ \<Rightarrow> if isRetry then 1 else 3 | Queued \<Rightarrow> 2 | Refreshing _ \<Rightarrow> 2 | _ \<Rightarrow> 0)"

definition work :: "client \<Rightarrow> nat" where
  "work c = sum_list (map phase_rank (requests (snd c)))"

fun is_answer :: "client_event \<Rightarrow> bool" where
  "is_answer (Answer _ _) = True"
| "is_answer (Lost _) = True"
| "is_answer (RefreshAnswer _ _) = True"
| "is_answer (RefreshLost _) = True"
| "is_answer _ = False"

lemma settled_phase_rank: "settled p \<Longrightarrow> phase_rank p \<le> 1"
  by (cases p) (auto simp: phase_rank_def)

lemma work_less:
  assumes "length (requests (snd c')) = length (requests (snd c))" "k < length (requests (snd c))"
    and "\<And>i. i < length (requests (snd c)) \<Longrightarrow> phase_rank (requests (snd c') ! i) \<le> phase_rank (requests (snd c) ! i)"
    and "phase_rank (requests (snd c') ! k) < phase_rank (requests (snd c) ! k)"
  shows "work c' < work c"
  unfolding work_def sum_list_sum_nth
  using assms by (simp add: atLeast0LessThan) (rule sum_strict_mono_ex1, auto)

lemma work_end_refresh:
  assumes "k < length (requests (snd c))" "2 \<le> phase_rank (requests (snd c) ! k)"
    and "\<And>i. i \<in> set (pendingQueue (snd c)) \<Longrightarrow> i < length (requests (snd c)) \<Longrightarrow> requests (snd c) ! i = Queued"
  shows "work (end_refresh k t c) < work c"
proof (rule work_less[where k = k])
  note e = end_refresh[OF assms(1), where t = t]
  show "phase_rank (requests (snd (end_refresh k t c)) ! k) < phase_rank (requests (snd c) ! k)"
    using e(5)[OF assms(1)] assms(2) settled_phase_rank by (metis One_nat_def Suc_1 le_imp_less_Suc order_less_le_trans)
  show "phase_rank (requests (snd (end_refresh k t c)) ! i) \<le> phase_rank (requests (snd c) ! i)"
    if i: "i < length (requests (snd c))" for i
  proof (cases "i = k \<or> i \<in> set (pendingQueue (snd c))")
    case True
    then have "phase_rank (requests (snd (end_refresh k t c)) ! i) \<le> 1"
      using e(5)[OF i] settled_phase_rank by blast
    moreover have "2 \<le> phase_rank (requests (snd c) ! i)"
      using True assms(2) assms(3)[of i] i by (auto simp: phase_rank_def)
    ultimately show ?thesis by simp
  next
    case False
    then show ?thesis using e(6)[OF i] by simp
  qed
qed (use assms end_refresh(4) in auto)

lemma work_set_phase:
  assumes "k < length (requests (snd c))" "phase_rank p < phase_rank (requests (snd c) ! k)"
    and "requests (snd c') = (requests (snd c))[k := p]"
  shows "work c' < work c"
  using assms by (intro work_less[where k = k]) (auto simp: nth_list_update)

lemma answers_work:
  assumes ok: "client_ok (c, sent)" and "possible ev c" "is_answer ev"
  shows "work (handle_event ev c) < work c"
proof -
  note D = client_okD[OF ok]
  show ?thesis
  proof (cases ev)
    case (Answer k r)
    then obtain b t where k: "k < length (requests (snd c))" "requests (snd c) ! k = InFlight b t"
      using assms(2) by auto
    have "work (end_refresh k None (fst c, (snd c)\<lparr>isRefreshing := True\<rparr>)) < work c" if "\<not> b"
      using work_end_refresh[where k = k and c = "(fst c, (snd c)\<lparr>isRefreshing := True\<rparr>)" and t = None] k D(4) that
      by (auto simp: phase_rank_def work_def)
    then show ?thesis
      using k by (auto simp: Answer receive_def failed_answer_def phase_rank_def split: option.splits intro!: work_set_phase)
  next
    case (RefreshAnswer k reply)
    then obtain rt where k: "k < length (requests (snd c))" "requests (snd c) ! k = Refreshing rt"
      using assms(2) by auto
    have "work (end_refresh k t c') < work c"
      if "requests (snd c') = requests (snd c)" "pendingQueue (snd c') = pendingQueue (snd c)" for t c'
      using work_end_refresh[where k = k and c = c' and t = t] k D(4) that by (auto simp: phase_rank_def work_def)
    then show ?thesis
      using k by (auto simp: RefreshAnswer refresh_answered_def split: option.splits)
  next
    case (Lost k)
    then show ?thesis
      using assms(2) by (auto simp: unreachable_def phase_rank_def intro!: work_set_phase)
  next
    case (RefreshLost k)
    then show ?thesis
      using assms(2) by (auto simp: refresh_broken_def phase_rank_def intro!: work_set_phase)
  qed (use assms(3) in auto)
qed

lemma other_work:
  "\<not> is_answer ev \<Longrightarrow> work (handle_event ev c) \<le> work c + (if ev = Start then 3 else 0)"
proof (cases ev)
  case Start
  obtain t where "requests (snd (start_request c)) = requests (snd c) @ [InFlight False t]"
    using start_request_simps(4) by blast
  then show ?thesis
    by (simp add: Start work_def phase_rank_def)
qed (auto simp: work_def signed_in_with_def clearTokens_def)

text \<open>A run: each event possible, the tokens it brings new.\<close>

fun possible_run :: "client_event list \<Rightarrow> client \<times> string list \<Rightarrow> bool" where
  "possible_run [] x = True"
| "possible_run (ev # evs) (c, sent) =
     (possible ev c \<and> set (brings ev) \<inter> set sent = {} \<and> possible_run evs (handle_event ev c, sent @ sends ev c))"

section \<open>How often a request is sent\<close>

text \<open>A request that has been sent once, and can be sent again.\<close>

definition sent_once :: "phase \<Rightarrow> bool" where
  "sent_once p \<longleftrightarrow> (case p of InFlight isRetry _ \<Rightarrow> \<not> isRetry | Queued \<Rightarrow> True | Refreshing _ \<Rightarrow> True | _ \<Rightarrow> False)"

lemma sent_once_simps [simp]:
  "sent_once (InFlight b t) \<longleftrightarrow> \<not> b" "sent_once Queued" "sent_once (Refreshing rt)" "\<not> sent_once (Completed n)"
  "\<not> sent_once (Rejected n m)" "\<not> sent_once Unreachable"
  by (simp_all add: sent_once_def)

lemma settled_not_once: "settled p \<Longrightarrow> \<not> sent_once p"
  by (cases p) auto

definition sends_ok :: "client \<Rightarrow> bool" where
  "sends_ok c \<longleftrightarrow>
     (\<forall>k. count_list (fetched (snd c)) k \<le> 2 \<and>
       (length (requests (snd c)) \<le> k \<longrightarrow> count_list (fetched (snd c)) k = 0) \<and>
       (k < length (requests (snd c)) \<longrightarrow> sent_once (requests (snd c) ! k) \<longrightarrow> count_list (fetched (snd c)) k \<le> 1))"

lemma sends_okI:
  assumes "\<And>k. count_list (fetched (snd c)) k \<le> 2"
    and "\<And>k. length (requests (snd c)) \<le> k \<Longrightarrow> count_list (fetched (snd c)) k = 0"
    and "\<And>k. k < length (requests (snd c)) \<Longrightarrow> sent_once (requests (snd c) ! k) \<Longrightarrow> count_list (fetched (snd c)) k \<le> 1"
  shows "sends_ok c"
  using assms by (simp add: sends_ok_def)

lemma sends_okD:
  assumes "sends_ok c"
  shows "count_list (fetched (snd c)) k \<le> 2" "length (requests (snd c)) \<le> k \<Longrightarrow> count_list (fetched (snd c)) k = 0"
    "k < length (requests (snd c)) \<Longrightarrow> sent_once (requests (snd c) ! k) \<Longrightarrow> count_list (fetched (snd c)) k \<le> 1"
  using assms by (simp_all add: sends_ok_def)

lemma sends_ok_move:
  assumes "sends_ok c" "requests (snd c') = (requests (snd c))[k := p]" "fetched (snd c') = fetched (snd c)"
    and "sent_once p \<Longrightarrow> sent_once (requests (snd c) ! k)"
  shows "sends_ok c'"
proof -
  have "sent_once (requests (snd c) ! i)" if "i < length (requests (snd c))" "sent_once ((requests (snd c))[k := p] ! i)" for i
    using that assms(4) by (cases "i = k") auto
  then show ?thesis
    using sends_okD[OF assms(1)] assms(2,3) by (intro sends_okI) auto
qed

lemma count_distinct: "distinct xs \<Longrightarrow> count_list xs x = (if x \<in> set xs then 1 else 0)"
  by (induction xs) auto

lemma count_fold_wake:
  "count_list (fetched (snd (fold (wake t) ks c))) i \<le> count_list (fetched (snd c)) i + count_list ks i"
proof (induction ks arbitrary: c)
  case (Cons k ks)
  have "count_list (fetched (snd (wake t k c))) i \<le> count_list (fetched (snd c)) i + (if i = k then 1 else 0)"
    by (simp add: wake_def)
  then show ?case
    using Cons.IH[of "wake t k c"] by (auto split: if_splits)
qed simp

lemma count_end_refresh:
  "count_list (fetched (snd (end_refresh k t c))) i \<le>
     count_list (fetched (snd c)) i + count_list (pendingQueue (snd c)) i + (if i = k then 1 else 0)"
  using count_fold_wake[of t "pendingQueue (snd c)" "(fst c, (snd c)\<lparr>isRefreshing := False, pendingQueue := []\<rparr>)" i]
  by (auto simp: end_refresh_def Let_def)

lemma sends_ok_end:
  assumes ok: "sends_ok c" and k: "k < length (requests (snd c))" "sent_once (requests (snd c) ! k)"
    and q: "distinct (pendingQueue (snd c))" "k \<notin> set (pendingQueue (snd c))"
      "\<And>i. i \<in> set (pendingQueue (snd c)) \<Longrightarrow> i < length (requests (snd c)) \<and> requests (snd c) ! i = Queued"
  shows "sends_ok (end_refresh k t c)"
proof -
  note e = end_refresh[OF k(1), where t = t] and D = sends_okD[OF ok]
  have count: "count_list (fetched (snd (end_refresh k t c))) i \<le> count_list (fetched (snd c)) i +
      (if i = k \<or> i \<in> set (pendingQueue (snd c)) then 1 else 0)" for i
    using count_end_refresh[of k t c i] q(1,2) by (auto simp: count_distinct split: if_splits)
  have once: "count_list (fetched (snd c)) i \<le> 1" if "i = k \<or> i \<in> set (pendingQueue (snd c))" for i
    using that D(3)[of i] k q(3)[of i] by auto
  show ?thesis
  proof (rule sends_okI)
    show "count_list (fetched (snd (end_refresh k t c))) i \<le> 2" for i
      using count[of i] once[of i] D(1)[of i] by (auto split: if_splits)
    show "count_list (fetched (snd (end_refresh k t c))) i = 0" if "length (requests (snd (end_refresh k t c))) \<le> i" for i
      using count[of i] D(2)[of i] that e(4) k(1) q(3)[of i] by (auto split: if_splits)
    show "count_list (fetched (snd (end_refresh k t c))) i \<le> 1"
      if "i < length (requests (snd (end_refresh k t c)))" "sent_once (requests (snd (end_refresh k t c)) ! i)" for i
      using count[of i] D(3)[of i] that e(4) e(5,6)[of i] settled_not_once by (auto split: if_splits)
  qed
qed

lemma sends_ok_waiting:
  assumes "client_ok (c, sent)" "sends_ok c" "k < length (requests (snd c))"
    and "sent_once (requests (snd c) ! k)" "requests (snd c) ! k \<noteq> Queued"
    and "requests (snd c') = requests (snd c)" "pendingQueue (snd c') = pendingQueue (snd c)"
    and "fetched (snd c') = fetched (snd c)"
  shows "sends_ok (end_refresh k t c')"
proof (rule sends_ok_end)
  show "sends_ok c'"
    using assms(2,6,8) by (simp add: sends_ok_def)
qed (use client_okD(3-5)[OF assms(1)] assms(3-7) in auto)

lemma sends_ok_event:
  assumes ok: "client_ok (c, sent)" and sends: "sends_ok c" and "possible ev c"
  shows "sends_ok (handle_event ev c)"
proof (cases ev)
  case Start
  obtain t where "requests (snd (start_request c)) = requests (snd c) @ [InFlight False t]"
    using start_request_simps(4) by blast
  moreover have "fetched (snd (start_request c)) = fetched (snd c) @ [length (requests (snd c))]"
    by (simp add: start_request_def Let_def)
  ultimately show ?thesis
    using sends_okD[OF sends] by (intro sends_okI) (auto simp: Start nth_append less_Suc_eq split: if_splits)
next
  case (Answer k r)
  then obtain b t where k: "k < length (requests (snd c))" "requests (snd c) ! k = InFlight b t"
    using assms(3) by auto
  have "sends_ok (end_refresh k None (fst c, (snd c)\<lparr>isRefreshing := True\<rparr>))" if "\<not> b"
    using that k by (intro sends_ok_waiting[OF ok sends]) auto
  then show ?thesis
    using k by (auto simp: Answer receive_def failed_answer_def split: option.splits intro!: sends_ok_move[OF sends])
next
  case (Lost k)
  then show ?thesis
    using assms(3) by (auto simp: unreachable_def intro!: sends_ok_move[OF sends])
next
  case (RefreshAnswer k reply)
  then obtain rt where k: "k < length (requests (snd c))" "requests (snd c) ! k = Refreshing rt"
    using assms(3) by auto
  have "fetched (snd (clearTokens c)) = fetched (snd c)" "fetched (snd (setRefreshToken r (setAccessToken a c))) = fetched (snd c)" for a r
    by (simp_all add: clearTokens_def setRefreshToken_def setAccessToken_def)
  then show ?thesis
    using k by (auto simp: RefreshAnswer refresh_answered_def split: option.splits intro!: sends_ok_waiting[OF ok sends])
next
  case (RefreshLost k)
  then show ?thesis
    using assms(3) by (auto simp: refresh_broken_def intro!: sends_ok_move[OF sends])
qed (use sends in \<open>simp_all add: sends_ok_def signed_in_with_def clearTokens_def setRefreshToken_def setAccessToken_def\<close>)

text \<open>A request refreshes the session while it is \<open>Refreshing\<close>; it is so at most once.\<close>

fun ends_refresh :: "nat \<Rightarrow> client_event \<Rightarrow> bool" where
  "ends_refresh k (RefreshAnswer j _) = (j = k)"
| "ends_refresh k (RefreshLost j) = (j = k)"
| "ends_refresh k _ = False"

definition refresh_left :: "phase \<Rightarrow> nat" where
  "refresh_left p = (case p of InFlight isRetry _ \<Rightarrow> if isRetry then 0 else 1 | Refreshing _ \<Rightarrow> 1 | _ \<Rightarrow> 0)"

lemma refresh_left_simps [simp]:
  "refresh_left (InFlight b t) = (if b then 0 else 1)" "refresh_left (Refreshing rt) = 1" "refresh_left Queued = 0"
  "refresh_left (Completed n) = 0" "refresh_left (Rejected n m) = 0" "refresh_left Unreachable = 0"
  by (simp_all add: refresh_left_def)

lemma settled_refresh_left: "settled p \<Longrightarrow> refresh_left p = 0"
  by (cases p) auto

definition can_refresh :: "nat \<Rightarrow> client \<Rightarrow> nat" where
  "can_refresh i c = (if i < length (requests (snd c)) then refresh_left (requests (snd c) ! i) else 1)"

lemma can_refresh_end:
  assumes "k < length (requests (snd c))"
  shows "can_refresh i (end_refresh k t c) \<le> can_refresh i c" "can_refresh k (end_refresh k t c) = 0"
  using end_refresh(4)[OF assms, of t] end_refresh(5,6)[OF assms, of _ t] settled_refresh_left assms
  by (fastforce simp: can_refresh_def)+

lemma can_refresh_same: "requests (snd c') = requests (snd c) \<Longrightarrow> can_refresh i c' = can_refresh i c"
  by (simp add: can_refresh_def)

lemma can_refresh_set_phase:
  "requests (snd c') = (requests (snd c))[k := p] \<Longrightarrow> refresh_left p \<le> refresh_left (requests (snd c) ! k) \<Longrightarrow>
   can_refresh i c' \<le> can_refresh i c"
  by (cases "i = k") (auto simp: can_refresh_def)

lemma can_refresh_renewed:
  assumes "k < length (requests (snd c))" "requests (snd c) ! k = Refreshing rt" "requests (snd c') = requests (snd c)"
  shows "can_refresh i (end_refresh k t c') + (if i = k then 1 else 0) \<le> can_refresh i c"
  using can_refresh_end[where c = c' and k = k and t = t] can_refresh_same[OF assms(3)] assms
  by (cases "i = k") (auto simp: can_refresh_def[of k c])

lemma can_refresh_event:
  assumes "possible ev c"
  shows "can_refresh i (handle_event ev c) + (if ends_refresh i ev then 1 else 0) \<le> can_refresh i c"
proof (cases ev)
  case Start
  obtain t where "requests (snd (start_request c)) = requests (snd c) @ [InFlight False t]"
    using start_request_simps(4) by blast
  then show ?thesis
    by (auto simp: Start can_refresh_def nth_append)
next
  case (Answer k r)
  then obtain b t where k: "k < length (requests (snd c))" "requests (snd c) ! k = InFlight b t"
    using assms by auto
  have "can_refresh i (end_refresh k None (fst c, (snd c)\<lparr>isRefreshing := True\<rparr>)) \<le> can_refresh i c"
    using can_refresh_end(1)[where c = "(fst c, (snd c)\<lparr>isRefreshing := True\<rparr>)" and k = k and i = i and t = None] k
      can_refresh_same[of "(fst c, (snd c)\<lparr>isRefreshing := True\<rparr>)" c] by simp
  then show ?thesis
    using k by (auto simp: Answer receive_def failed_answer_def split: option.splits intro!: can_refresh_set_phase[where k = k])
next
  case (Lost k)
  then show ?thesis
    using assms by (auto simp: unreachable_def intro!: can_refresh_set_phase[where k = k])
next
  case (RefreshAnswer k reply)
  then obtain rt where k: "k < length (requests (snd c))" "requests (snd c) ! k = Refreshing rt"
    using assms by auto
  show ?thesis
    using can_refresh_renewed[OF k, of "clearTokens c" i None]
      can_refresh_renewed[OF k, of "setRefreshToken (Some r) (setAccessToken (Some a) c)" i "Some a" for a r] k
    by (cases reply) (auto simp: RefreshAnswer refresh_answered_def split: if_splits)
next
  case (RefreshLost k)
  then show ?thesis
    using assms by (auto simp: refresh_broken_def can_refresh_def nth_list_update)
qed (simp_all add: can_refresh_def signed_in_with_def clearTokens_def)

text \<open>The end of a run.\<close>

definition after_run :: "client_event list \<Rightarrow> client \<Rightarrow> client" where
  "after_run evs c = fold handle_event evs c"

lemma run_bounds:
  assumes "client_ok (c, sent)" "sends_ok c" "possible_run evs (c, sent)"
  shows "sends_ok (after_run evs c) \<and> length (filter (ends_refresh k) evs) \<le> can_refresh k c \<and>
    length (filter is_answer evs) \<le> work c + 3 * length (filter (\<lambda>ev. ev = Start) evs)"
  using assms
proof (induction evs arbitrary: c sent)
  case (Cons ev evs)
  then have "possible ev c" "set (brings ev) \<inter> set sent = {}"
    "possible_run evs (handle_event ev c, sent @ sends ev c)"
    by simp_all
  from Cons.IH[OF event_ok[OF Cons.prems(1) this(1,2)] sends_ok_event[OF Cons.prems(1,2) this(1)] this(3)]
    can_refresh_event[OF this(1), of k] answers_work[OF Cons.prems(1) this(1)] other_work[of ev c]
  show ?case
    by (cases "is_answer ev") (auto simp: after_run_def split: if_splits)
qed (simp add: after_run_def)

text \<open>
  C33. The client does not loop: however the network answers, each request is sent at most twice, refreshes the session
  at most once, and a run in which n requests are started has at most 3 n answers.
\<close>

theorem retries_bounded:
  assumes "possible_run evs ((st, new_tab), [])"
  shows "count_list (fetched (snd (after_run evs (st, new_tab)))) k \<le> 2 \<and>
    length (filter (ends_refresh k) evs) \<le> 1 \<and>
    length (filter is_answer evs) \<le> 3 * length (filter (\<lambda>ev. ev = Start) evs)"
proof -
  have "client_ok ((st, new_tab), [])" "sends_ok (st, new_tab)"
    by (simp_all add: client_ok_def sends_ok_def new_tab_def)
  from run_bounds[OF this assms, of k] show ?thesis
    by (simp add: sends_ok_def work_def can_refresh_def new_tab_def)
qed

text \<open>A request that is sent again with the new token and is refused again.\<close>

theorem retries_bounded_witness:
  "count_list (fetched (snd (after_run
     [Start, Answer 0 expired_answer, RefreshAnswer 0 (Some (''b'', ''s'')), Answer 0 expired_answer]
     (\<lparr>sn_access_token = Some ''a'', sn_refresh_token = Some ''r''\<rparr>, new_tab)))) 0 = 2"
proof -
  let ?evs = "[Start, Answer 0 expired_answer, RefreshAnswer 0 (Some (''b'', ''s'')), Answer 0 expired_answer]"
  let ?st = "\<lparr>sn_access_token = Some ''a'', sn_refresh_token = Some ''r''\<rparr>"
  have sent: "fetched (snd (after_run ?evs (?st, new_tab))) = [0, 0]"
    by code_simp
  have "possible_run ?evs ((?st, new_tab), [])"
    by code_simp
  from retries_bounded[OF this, of 0] have "count_list (fetched (snd (after_run ?evs (?st, new_tab)))) 0 \<le> 2"
    by (rule conjunct1)
  then show ?thesis
    unfolding sent by simp
qed

end
