(* ===== verification/Client_Stream.thy ===== *)
theory Client_Stream
  imports Prelude
begin

text \<open>
  The reader of the notification stream of the frontend (\<open>frontend/src/lib/notifications/stream.ts\<close>). The chunks are
  texts already decoded; an end of line is written with or without a carriage return.
\<close>

section \<open>Frames\<close>

abbreviation CR :: char where "CR \<equiv> CHR 0x0D"
abbreviation LF :: char where "LF \<equiv> CHR 0x0A"

text \<open>\<open>\r?\n\<close> at the start of a text, and \<open>\r?\n\r?\n\<close>: the length of the match.\<close>

fun newline_here :: "string \<Rightarrow> nat option" where
  "newline_here (c # d # _) = (if c = LF then Some 1 else if c = CR \<and> d = LF then Some 2 else None)"
| "newline_here [c] = (if c = LF then Some 1 else None)"
| "newline_here [] = None"

definition boundary_here :: "string \<Rightarrow> nat option" where
  "boundary_here t =
     (case newline_here t of
        None \<Rightarrow> None
      | Some m \<Rightarrow> map_option (\<lambda>n. m + n) (newline_here (drop m t)))"

text \<open>The first match in a text: what is in front of it and what is behind it.\<close>

fun split_at :: "(string \<Rightarrow> nat option) \<Rightarrow> string \<Rightarrow> (string \<times> string) option" where
  "split_at p [] = None"
| "split_at p (c # t) =
     (case p (c # t) of
        Some n \<Rightarrow> Some ([], drop n (c # t))
      | None \<Rightarrow> map_option (\<lambda>(a, b). (c # a, b)) (split_at p t))"

lemma split_at_shorter: "split_at p t = Some (a, b) \<Longrightarrow> length b \<le> length t"
  by (induction t arbitrary: a) (auto split: option.splits)

lemma newline_positive: "newline_here t = Some n \<Longrightarrow> 0 < n"
  by (induction t rule: newline_here.induct) (auto split: if_splits)

lemma boundary_positive: "boundary_here t = Some n \<Longrightarrow> 0 < n"
  by (auto simp: boundary_here_def split: option.splits dest: newline_positive)

lemma split_at_less:
  assumes "split_at p t = Some (a, b)" "\<And>u n. p u = Some n \<Longrightarrow> 0 < n"
  shows "length b < length t"
  using assms(1)
proof (induction t arbitrary: a)
  case (Cons c t)
  then show ?case
    using assms(2)[of "c # t"] by (fastforce split: option.splits)
qed simp

lemma split_boundary_less [termination_simp]:
  "Some (a, b) = split_at boundary_here t \<Longrightarrow> length b < length t"
  "Some (a, b) = split_at newline_here t \<Longrightarrow> length b < length t"
  by (auto intro!: split_at_less[where a = a] dest: boundary_positive newline_positive sym)

text \<open>\<open>frame.split(/\r?\n/)\<close>\<close>

fun split_lines :: "string \<Rightarrow> string list" where
  "split_lines t =
     (case split_at newline_here t of
        None \<Rightarrow> [t]
      | Some (line, rest) \<Rightarrow> line # split_lines rest)"

fun join_lines :: "string list \<Rightarrow> string" where
  "join_lines [] = ''''"
| "join_lines [t] = t"
| "join_lines (t # ts) = t @ LF # join_lines ts"

definition starts_with :: "string \<Rightarrow> string \<Rightarrow> bool" where
  "starts_with prefix t = (take (length prefix) t = prefix)"

definition drop_blank :: "string \<Rightarrow> string" where
  "drop_blank t = (case t of c # r \<Rightarrow> if c = CHR '' '' then r else t | [] \<Rightarrow> t)"

definition frame_data :: "string \<Rightarrow> string" where
  "frame_data frame =
     join_lines (map (\<lambda>line. drop_blank (drop 5 line)) (filter (starts_with ''data:'') (split_lines frame)))"

section \<open>The stream\<close>

text \<open>The inner loop: the data of the complete frames of the buffer, and what remains.\<close>

fun drain :: "string \<Rightarrow> string list \<times> string" where
  "drain buffer =
     (case split_at boundary_here buffer of
        None \<Rightarrow> ([], buffer)
      | Some (frame, rest) \<Rightarrow>
          let (ds, b) = drain rest; data = frame_data frame in
          (if data = '''' then (ds, b) else (data # ds, b)))"

declare split_lines.simps [simp del] drain.simps [simp del]

text \<open>What \<open>onNotification\<close> is called with, and the buffer when the stream ends.\<close>

fun consume_stream :: "string \<Rightarrow> string list \<Rightarrow> string list \<times> string" where
  "consume_stream buffer [] = ([], buffer)"
| "consume_stream buffer (chunk # chunks) =
     (let (ds, b) = drain (buffer @ chunk); (es, b') = consume_stream b chunks in (ds @ es, b'))"

definition consumeNotificationStream :: "string list \<Rightarrow> string list" where
  "consumeNotificationStream chunks = fst (consume_stream '''' chunks)"

section \<open>Chunks do not matter\<close>

lemma newline_append: "newline_here t = Some n \<Longrightarrow> newline_here (t @ u) = Some n \<and> n \<le> length t"
  by (induction t rule: newline_here.induct) (cases u; auto split: if_splits)+

lemma boundary_append:
  assumes "boundary_here t = Some n"
  shows "boundary_here (t @ u) = Some n" "n \<le> length t"
proof -
  obtain m k where m: "newline_here t = Some m" and k: "newline_here (drop m t) = Some k" and n: "n = m + k"
    using assms by (auto simp: boundary_here_def split: option.splits)
  show "boundary_here (t @ u) = Some n" "n \<le> length t"
    using newline_append[OF m, of u] newline_append[OF k, of u] m k n by (auto simp: boundary_here_def)
qed

text \<open>A boundary that only more text completes leaves no boundary behind its start.\<close>

lemma newline_completed:
  "newline_here (t @ u) = Some n \<Longrightarrow> newline_here t = None \<Longrightarrow> t = [] \<or> t = [CR]"
  by (cases t rule: newline_here.cases; cases u) (auto split: if_splits)

lemma boundary_completed:
  assumes "boundary_here (c # t @ u) = Some n" "boundary_here (c # t) = None"
  shows "split_at boundary_here t = None"
proof -
  have "t = [] \<or> t = [CR] \<or> t = [LF] \<or> t = [LF, CR]"
  proof (cases "newline_here (c # t)")
    case None
    then have "c # t = [CR]"
      using assms(1) newline_completed[of "c # t" u] by (auto simp: boundary_here_def split: option.splits)
    then show ?thesis by simp
  next
    case (Some m)
    then have m: "newline_here (c # t @ u) = Some m" "m \<le> length (c # t)"
      using newline_append[OF Some, of u] by auto
    then have "drop m (c # t @ u) = drop m (c # t) @ u"
      by (cases m) auto
    then have "newline_here (drop m (c # t) @ u) \<noteq> None" "newline_here (drop m (c # t)) = None"
      using assms Some m(1) by (auto simp: boundary_here_def split: option.splits)
    then have d: "drop m (c # t) = [] \<or> drop m (c # t) = [CR]"
      using newline_completed[of "drop m (c # t)" u] by blast
    have "m = 1 \<or> m = 2 \<and> (\<exists>r. t = LF # r)"
      using Some by (cases t) (auto split: if_splits)
    then show ?thesis
      using d by (auto simp: numeral_2_eq_2)
  qed
  then show ?thesis
    by (auto simp: boundary_here_def)
qed

lemma split_boundary_append:
  assumes "split_at boundary_here t = Some (a, b)"
  shows "split_at boundary_here (t @ u) = Some (a, b @ u)"
  using assms
proof (induction t arbitrary: a)
  case (Cons c t)
  show ?case
  proof (cases "boundary_here (c # t)")
    case None
    then obtain a' where a: "split_at boundary_here t = Some (a', b)" "a = c # a'"
      using Cons.prems by auto
    then have "boundary_here (c # t @ u) = None"
      using boundary_completed[where c = c and t = t and u = u] None by (cases "boundary_here (c # t @ u)") auto
    then show ?thesis
      using Cons.IH[OF a(1)] a(2) by simp
  next
    case (Some n)
    then have "a = []" "b = drop n (c # t)"
      using Cons.prems by auto
    then show ?thesis
      using boundary_append(1)[OF Some, of u] boundary_append(2)[OF Some] by (cases n) auto
  qed
qed simp

lemma drain_append:
  "drain (t @ u) = (let (ds, b) = drain t; (es, b') = drain (b @ u) in (ds @ es, b'))"
proof (induction t rule: drain.induct)
  case (1 t)
  show ?case
  proof (cases "split_at boundary_here t")
    case None
    then show ?thesis
      by (simp add: drain.simps[of t])
  next
    case (Some p)
    then obtain a b where s: "split_at boundary_here t = Some (a, b)"
      by (cases p) auto
    then have "drain (b @ u) = (let (ds, b) = drain b; (es, b') = drain (b @ u) in (ds @ es, b'))"
      using 1 by simp
    then show ?thesis
      using split_boundary_append[OF s, of u]
      by (simp add: drain.simps[of t] drain.simps[of "t @ u"] s Let_def split: prod.splits)
  qed
qed

lemma drain_rest: "snd (drain t) = b \<Longrightarrow> drain b = ([], b)"
proof (induction t arbitrary: b rule: drain.induct)
  case (1 t)
  show ?case
  proof (cases "split_at boundary_here t")
    case None
    then show ?thesis
      using 1(2) by (auto simp: drain.simps[of t] drain.simps[of b])
  next
    case (Some p)
    then obtain a r where s: "split_at boundary_here t = Some (a, r)"
      by (cases p) auto
    then have "snd (drain r) = b"
      using 1(2) by (simp add: drain.simps[of t] Let_def split: prod.splits if_splits)
    then show ?thesis
      using 1(1) s by blast
  qed
qed

lemma consume_stream_drain:
  "drain buffer = ([], buffer) \<Longrightarrow> consume_stream buffer chunks = drain (buffer @ concat chunks)"
proof (induction chunks arbitrary: buffer)
  case (Cons chunk chunks)
  obtain ds b where d: "drain (buffer @ chunk) = (ds, b)"
    by (cases "drain (buffer @ chunk)")
  then have "drain b = ([], b)"
    using drain_rest[of "buffer @ chunk" b] by simp
  then show ?case
    using Cons.IH[of b] drain_append[of "buffer @ chunk" "concat chunks"] d by simp
qed simp

lemma drain_Nil [simp]: "drain [] = ([], [])"
  by (simp add: drain.simps)

section \<open>What the server sends\<close>

text \<open>
  A frame of the stream as the format of server-sent events has it (the server's framework writes it): fields of other
  names in front, a \<open>data:\<close> line per line of the data, then an empty line.
\<close>

definition sse_frame :: "string list \<Rightarrow> string \<Rightarrow> string" where
  "sse_frame fields data =
     concat (map (\<lambda>line. line @ [LF]) (fields @ map (\<lambda>line. ''data: '' @ line) (split_on LF data))) @ [LF]"

definition field_line :: "string \<Rightarrow> bool" where
  "field_line line \<longleftrightarrow> line \<noteq> '''' \<and> LF \<notin> set line \<and> CR \<notin> set line"

fun line_texts :: "string list \<Rightarrow> string" where
  "line_texts [] = []"
| "line_texts [line] = line"
| "line_texts (line # ls) = line @ LF # line_texts ls"

lemma newline_none: "LF \<noteq> c \<Longrightarrow> CR \<noteq> c \<Longrightarrow> newline_here (c # t) = None"
  by (cases t) auto

lemma split_at_skip:
  assumes "LF \<notin> set line" "CR \<notin> set line"
  shows "split_at newline_here (line @ t) = map_option (\<lambda>(a, b). (line @ a, b)) (split_at newline_here t)"
    "split_at boundary_here (line @ t) = map_option (\<lambda>(a, b). (line @ a, b)) (split_at boundary_here t)"
  using assms
  by (induction line)
    (cases "split_at newline_here t"; cases "split_at boundary_here t"; auto simp: newline_none boundary_here_def)+

lemma split_line:
  assumes "LF \<notin> set line" "CR \<notin> set line"
  shows "split_lines (line @ LF # t) = line # split_lines t" "split_lines line = [line]"
proof -
  have "newline_here (LF # t) = Some 1" by (cases t) auto
  then show "split_lines (line @ LF # t) = line # split_lines t"
    by (subst split_lines.simps) (simp add: split_at_skip assms)
  show "split_lines line = [line]"
    using split_at_skip(1)[OF assms, of "[]"] by (subst split_lines.simps) simp
qed

lemma split_lines_texts:
  assumes "ls \<noteq> []" "\<forall>line \<in> set ls. LF \<notin> set line \<and> CR \<notin> set line"
  shows "split_lines (line_texts ls) = ls"
  using assms by (induction ls rule: line_texts.induct) (auto simp: split_line)

lemma split_frame:
  assumes "ls \<noteq> []" "\<forall>line \<in> set ls. field_line line"
  shows "split_at boundary_here (concat (map (\<lambda>line. line @ [LF]) ls) @ LF # t) = Some (line_texts ls, t)"
  using assms
proof (induction ls rule: line_texts.induct)
  case (2 line)
  then have "LF \<notin> set line" "CR \<notin> set line" by (auto simp: field_line_def)
  moreover have "boundary_here (LF # LF # t) = Some 2"
    by (cases t) (auto simp: boundary_here_def)
  ultimately show ?case
    by (simp add: split_at_skip numeral_2_eq_2)
next
  case (3 line l ls)
  let ?r = "concat (map (\<lambda>line. line @ [LF]) (l # ls)) @ LF # t"
  have l: "LF \<notin> set line" "CR \<notin> set line" "field_line l"
    using 3 by (auto simp: field_line_def)
  then obtain c l' where c: "l = c # l'" "c \<noteq> LF" "c \<noteq> CR"
    by (cases l) (auto simp: field_line_def)
  then have "boundary_here (LF # ?r) = None"
    by (simp add: boundary_here_def newline_none)
  then have "split_at boundary_here (LF # ?r) = Some (LF # line_texts (l # ls), t)"
    using 3 by simp
  then show ?case
    by (simp add: split_at_skip l del: split_at.simps)
qed simp

lemma split_on_parts:
  "w \<in> set (split_on sep s) \<Longrightarrow> set w \<subseteq> set s \<and> sep \<notin> set w"
proof (induction s arbitrary: w)
  case (Cons c s)
  then show ?case
    by (cases "split_on sep s") (auto split: if_splits, blast+)
qed simp

lemma join_split [simp]: "join_lines (split_on LF s) = s"
proof (induction s)
  case (Cons c s)
  then show ?case
    by (cases "split_on LF s"; cases "tl (split_on LF s)") auto
qed simp

lemma drain_frame:
  assumes "\<forall>line \<in> set fields. field_line line \<and> \<not> starts_with ''data:'' line" "CR \<notin> set data"
  shows "drain (sse_frame fields data @ t) =
    (let (ds, b) = drain t in (if data = '''' then ds else data # ds, b))"
proof -
  let ?ls = "fields @ map (\<lambda>line. ''data: '' @ line) (split_on LF data)"
  have parts: "LF \<notin> set w \<and> CR \<notin> set w" if "w \<in> set (split_on LF data)" for w
    using split_on_parts[OF that] assms(2) by auto
  have lines: "\<forall>line \<in> set ?ls. field_line line"
    using assms(1) parts by (auto simp: field_line_def)
  have ne: "?ls \<noteq> []" by simp
  have "split_lines (line_texts ?ls) = ?ls"
    using split_lines_texts[OF ne] lines by (simp add: field_line_def)
  moreover have "filter (starts_with ''data:'') fields = []"
    using assms(1) by (simp add: filter_empty_conv)
  moreover have "filter (starts_with ''data:'') (map (\<lambda>line. ''data: '' @ line) ws) = map (\<lambda>line. ''data: '' @ line) ws" for ws
    by (induction ws) (auto simp: starts_with_def)
  ultimately have "frame_data (line_texts ?ls) = data"
    by (simp add: frame_data_def comp_def drop_blank_def)
  then show ?thesis
    using split_frame[OF ne lines, of t]
    by (subst drain.simps) (simp add: sse_frame_def Let_def case_prod_beta)
qed

lemma drain_frames:
  assumes "\<forall>(fields, data) \<in> set frames. CR \<notin> set data \<and> (\<forall>line \<in> set fields. field_line line \<and> \<not> starts_with ''data:'' line)"
  shows "drain (concat (map (\<lambda>(fields, data). sse_frame fields data) frames)) =
    (filter (\<lambda>d. d \<noteq> '''') (map snd frames), [])"
  using assms by (induction frames) (auto simp: drain_frame Let_def)

text \<open>
  C34. Every notification of the stream reaches the page, whole and in order, however the network cuts the stream: with
  chunks that together are the server's frames (heartbeats among them, whose data is empty), the page is given exactly
  the data of the frames that have some; and two streams with the same text give the same notifications.
\<close>

theorem stream_any_chunks:
  assumes "\<forall>(fields, data) \<in> set frames. CR \<notin> set data \<and> (\<forall>line \<in> set fields. field_line line \<and> \<not> starts_with ''data:'' line)"
    and "concat chunks = concat (map (\<lambda>(fields, data). sse_frame fields data) frames)"
    and "concat texts = concat texts'"
  shows "consumeNotificationStream chunks = filter (\<lambda>d. d \<noteq> '''') (map snd frames)
    \<and> consumeNotificationStream texts = consumeNotificationStream texts'"
  using assms(2,3) drain_frames[OF assms(1)] by (simp add: consumeNotificationStream_def consume_stream_drain)

theorem stream_any_chunks_witness:
  "consumeNotificationStream
     [''event: heartbeat'' @ [LF] @ ''data: '' @ [LF], [LF] @ ''data: {'', ''}'' @ [LF], [LF]] = [''{}'']
   \<and> consumeNotificationStream [''data:x'' @ [CR], [LF, CR], [LF]] = consumeNotificationStream [''data:x'' @ [CR, LF, CR, LF]]"
  using stream_any_chunks[of "[([''event: heartbeat''], ''''), ([], ''{}'')]"
        "[''event: heartbeat'' @ [LF] @ ''data: '' @ [LF], [LF] @ ''data: {'', ''}'' @ [LF], [LF]]"
        "[''data:x'' @ [CR], [LF, CR], [LF]]" "[''data:x'' @ [CR, LF, CR, LF]]"]
  by (simp add: sse_frame_def field_line_def starts_with_def)

end
