(* ===== verification/Client_Forms.thy ===== *)
theory Client_Forms
  imports Media
begin

text \<open>
  The form for new posts of the web client (\<open>frontend/src/app/(app)/posts/create/page.tsx\<close>) with the picker of
  attachments (\<open>components/academic/Attachments.tsx\<close>) and the upload of a file (\<open>lib/api/media.ts\<close>), and what the
  discussion service makes of the requests that the form sends. What the uploads answer, and whether the writer
  confirms the links in the text, are parts of the events. The picker is disabled while files are uploaded, so the
  upload of a selection is one event, and the dialog for the links is modal, so a submission is one, too.
\<close>

section \<open>Uploading a file\<close>

record browser_file =
  bf_name :: string
  bf_type :: string
  bf_content :: bytes

text \<open>\<open>file.name.split(".").pop()?.toLowerCase()\<close>\<close>

definition name_extension :: "string \<Rightarrow> string" where
  "name_extension name = to_lower (last (split_on (CHR ''.'') name))"

definition image_type :: "string \<Rightarrow> bool" where
  "image_type t = (take 6 t = ''image/'')"

definition chosen_category :: "browser_file \<Rightarrow> media_category" where
  "chosen_category f =
     (if image_type (bf_type f) then ImageFile
      else if name_extension (bf_name f) \<in> set [''pdf'', ''doc'', ''docx'', ''xls'', ''xlsx'', ''ppt'', ''pptx'']
      then DocumentFile else CodeFile)"

text \<open>The part of the form data that the browser makes of a file: without a type of its own it is a stream of bytes.\<close>

definition sent_file :: "browser_file \<Rightarrow> upload_file" where
  "sent_file f =
     \<lparr>uf_originalname = bf_name f,
      uf_mimetype = (if bf_type f = '''' then ''application/octet-stream'' else bf_type f),
      uf_buffer = bf_content f\<rparr>"

section \<open>The form\<close>

record attachment =
  at_id :: uuid
  at_originalName :: string

record post_form =
  pf_roomId :: uuid
  pf_blocked :: bool
  pf_postType :: post_type
  pf_title :: string
  pf_content :: string
  pf_isAnonymous :: bool
  pf_selectedTags :: "uuid list"
  pf_loading :: bool
  pf_error :: string
  pf_files :: "attachment list"
  pf_uploading :: bool
  pf_failed :: "(browser_file \<times> string) list"
  pf_pickerError :: string

definition new_form :: "uuid \<Rightarrow> bool \<Rightarrow> post_form" where
  "new_form room blocked =
     \<lparr>pf_roomId = room, pf_blocked = blocked, pf_postType = Question, pf_title = '''', pf_content = '''',
      pf_isAnonymous = False, pf_selectedTags = [], pf_loading = False, pf_error = '''', pf_files = [],
      pf_uploading = False, pf_failed = [], pf_pickerError = ''''\<rparr>"

definition handleToggleTag :: "uuid \<Rightarrow> post_form \<Rightarrow> post_form" where
  "handleToggleTag tag f =
     (if tag \<in> set (pf_selectedTags f)
      then f\<lparr>pf_selectedTags := filter (\<lambda>t. t \<noteq> tag) (pf_selectedTags f)\<rparr>
      else if 5 \<le> length (pf_selectedTags f) then f\<lparr>pf_error := ''Ban co the chon toi da 5 the chu de.''\<rparr>
      else f\<lparr>pf_error := '''', pf_selectedTags := pf_selectedTags f @ [tag]\<rparr>)"

section \<open>The picker of attachments\<close>

text \<open>Each selected file with what its upload gives: an error, or the stored file.\<close>

fun upload_each ::
  "(browser_file \<times> (string + attachment)) list \<Rightarrow> attachment list \<Rightarrow> (browser_file \<times> string) list \<Rightarrow>
   attachment list \<times> (browser_file \<times> string) list" where
  "upload_each [] uploaded failures = (uploaded, failures)"
| "upload_each ((file', Inr asset) # rest) uploaded failures =
     upload_each rest
       (if list_ex (\<lambda>f. at_id f = at_id asset) uploaded then uploaded else uploaded @ [asset]) failures"
| "upload_each ((file', Inl err) # rest) uploaded failures = upload_each rest uploaded (failures @ [(file', err)])"

definition upload_files ::
  "(browser_file \<times> (string + attachment)) list \<Rightarrow> (browser_file \<times> string) list \<Rightarrow> post_form \<Rightarrow> post_form" where
  "upload_files selected remaining f =
     (if 10 < length (pf_files f) + length remaining + length selected
      then f\<lparr>pf_pickerError := ''Chi duoc dinh kem toi da 10 file.''\<rparr>
      else if list_ex (\<lambda>(file', _). 10 * 1024 * 1024 < length (bf_content file')) selected
      then f\<lparr>pf_pickerError := ''File vuot qua 10 MB.''\<rparr>
      else
        let (uploaded, failures) = upload_each selected (pf_files f) remaining in
        f\<lparr>pf_pickerError := '''', pf_files := uploaded, pf_failed := failures, pf_uploading := (failures \<noteq> [])\<rparr>)"

definition retry_file :: "nat \<Rightarrow> string + attachment \<Rightarrow> post_form \<Rightarrow> post_form" where
  "retry_file k outcome f =
     (if k < length (pf_failed f)
      then upload_files [(fst (pf_failed f ! k), outcome)] (without_index k (pf_failed f)) f else f)"

definition drop_failed :: "nat \<Rightarrow> post_form \<Rightarrow> post_form" where
  "drop_failed k f =
     (let remaining = without_index k (pf_failed f) in
      f\<lparr>pf_failed := remaining, pf_uploading := (remaining \<noteq> [])\<rparr>)"

definition remove_file :: "uuid \<Rightarrow> post_form \<Rightarrow> post_form" where
  "remove_file i f = f\<lparr>pf_files := filter (\<lambda>a. at_id a \<noteq> i) (pf_files f)\<rparr>"

section \<open>Submission\<close>

definition form_request :: "post_form \<Rightarrow> create_discussion_dto" where
  "form_request f =
     \<lparr>cd_roomId = pf_roomId f, cd_curriculumCourseId = None, cd_title = trim (pf_title f),
      cd_content = trim (pf_content f), cd_postType = pf_postType f, cd_tagIds = Some (pf_selectedTags f),
      cd_mediaIds = Some (map at_id (pf_files f)), cd_isAnonymous = Some (pf_isAnonymous f)\<rparr>"

definition handleSubmit :: "bool \<Rightarrow> post_form \<Rightarrow> post_form \<times> create_discussion_dto option" where
  "handleSubmit confirmed f =
     (if pf_uploading f \<or> pf_loading f then (f, None)
      else if trim (pf_title f) = '''' then (f\<lparr>pf_error := ''Vui long nhap tieu de.''\<rparr>, None)
      else if length (trim (pf_title f)) < 10
      then (f\<lparr>pf_error := ''Tieu de phai co it nhat 10 ky tu.''\<rparr>, None)
      else if trim (pf_content f) = '''' then (f\<lparr>pf_error := ''Vui long nhap noi dung bai dang.''\<rparr>, None)
      else if length (trim (pf_content f)) < 20
      then (f\<lparr>pf_error := ''Noi dung phai co it nhat 20 ky tu.''\<rparr>, None)
      else if \<not> confirmed then (f, None)
      else (f\<lparr>pf_loading := True, pf_error := ''''\<rparr>, Some (form_request f)))"

text \<open>The button, without which the form is not submitted.\<close>

definition submit_disabled :: "post_form \<Rightarrow> bool" where
  "submit_disabled f =
     (pf_loading f \<or> pf_uploading f \<or> pf_blocked f \<or> trim (pf_title f) = '''' \<or> trim (pf_content f) = '''' \<or>
      pf_selectedTags f = [])"

definition submit_click :: "bool \<Rightarrow> post_form \<Rightarrow> post_form \<times> create_discussion_dto option" where
  "submit_click confirmed f = (if submit_disabled f then (f, None) else handleSubmit confirmed f)"

definition submit_failed :: "string \<Rightarrow> post_form \<Rightarrow> post_form" where
  "submit_failed message f = f\<lparr>pf_error := message, pf_loading := False\<rparr>"

section \<open>The form in use\<close>

datatype form_input =
    TypeTitle string
  | TypeContent string
  | ChooseType post_type
  | ChooseAnonymous bool
  | ChooseRoom uuid bool
  | ToggleTag uuid
  | PickFiles "(browser_file \<times> (string + attachment)) list"
  | RetryFile nat "string + attachment"
  | DropFailed nat
  | RemoveFile uuid
  | SubmitFailed string

fun handle_input :: "form_input \<Rightarrow> post_form \<Rightarrow> post_form" where
  "handle_input (TypeTitle t) f = f\<lparr>pf_title := t\<rparr>"
| "handle_input (TypeContent t) f = f\<lparr>pf_content := t\<rparr>"
| "handle_input (ChooseType ty) f = f\<lparr>pf_postType := ty\<rparr>"
| "handle_input (ChooseAnonymous b) f = f\<lparr>pf_isAnonymous := b\<rparr>"
| "handle_input (ChooseRoom room blocked) f = f\<lparr>pf_roomId := room, pf_blocked := blocked\<rparr>"
| "handle_input (ToggleTag tag) f = handleToggleTag tag f"
| "handle_input (PickFiles selected) f = upload_files selected (pf_failed f) f"
| "handle_input (RetryFile k outcome) f = retry_file k outcome f"
| "handle_input (DropFailed k) f = drop_failed k f"
| "handle_input (RemoveFile i) f = remove_file i f"
| "handle_input (SubmitFailed message) f = submit_failed message f"

text \<open>The ids that an event brings into the form come from the services.\<close>

fun brought_ids :: "form_input \<Rightarrow> uuid list" where
  "brought_ids (ChooseRoom room blocked) = [room]"
| "brought_ids (ToggleTag tag) = [tag]"
| "brought_ids (PickFiles selected) = concat (map (\<lambda>(_, r). case r of Inl _ \<Rightarrow> [] | Inr a \<Rightarrow> [at_id a]) selected)"
| "brought_ids (RetryFile k (Inr a)) = [at_id a]"
| "brought_ids ev = []"

inductive form_step ::
  "env \<Rightarrow> post_form \<times> create_discussion_dto list \<Rightarrow> post_form \<times> create_discussion_dto list \<Rightarrow> bool" for e where
  handled: "list_all (valid_uuid e) (brought_ids ev) \<Longrightarrow> form_step e (f, reqs) (handle_input ev f, reqs)"
| submitted: "submit_click confirmed f = (f', r) \<Longrightarrow>
    form_step e (f, reqs) (f', reqs @ (case r of None \<Rightarrow> [] | Some dto \<Rightarrow> [dto]))"

definition form_opened :: "env \<Rightarrow> post_form \<times> create_discussion_dto list \<Rightarrow> bool" where
  "form_opened e x \<longleftrightarrow> (\<exists>room blocked. valid_uuid e room \<and> x = (new_form room blocked, []))"

abbreviation form_reachable :: "env \<Rightarrow> post_form \<times> create_discussion_dto list \<Rightarrow> bool" where
  "form_reachable e x \<equiv> reach (form_opened e) (form_step e) x"

end
