(* ===== verification/Client_Forms_Spec.thy ===== *)
theory Client_Forms_Spec
  imports Client_Forms Sample
begin

text \<open>
  The properties of the form for new posts: the picker keeps to its limits, and the requests of the form are those
  that the discussion service takes; and the category that an upload announces.
\<close>

section \<open>Texts\<close>

lemma dropWhile_kept: "t = [] \<or> \<not> p (hd t) \<Longrightarrow> dropWhile p t = t"
  by (cases t) auto

lemma trim_trim [simp]: "trim (trim s) = trim s"
proof -
  let ?r = "dropWhile is_space s"
  let ?t = "dropWhile is_space (rev ?r)"
  have "dropWhile is_space (rev ?t) = rev ?t"
  proof (rule dropWhile_kept, rule disjCI)
    assume "\<not> \<not> is_space (hd (rev ?t))"
    obtain u where u: "rev ?r = u @ ?t"
      by (metis takeWhile_dropWhile_id)
    then have r: "?r = rev ?t @ rev u"
      by (metis rev_append rev_rev_ident)
    show "rev ?t = []"
    proof (rule ccontr)
      assume "rev ?t \<noteq> []"
      then have "hd ?r = hd (rev ?t)" "?r \<noteq> []"
        using r by (metis hd_append2, metis append_is_Nil_conv)
      then show False
        using hd_dropWhile[of is_space s] \<open>\<not> \<not> is_space (hd (rev ?t))\<close> by simp
    qed
  qed
  then show ?thesis
    by (simp add: trim_def)
qed

lemma last_split_on: "last (split_on sep s) = rev (takeWhile (\<lambda>c. c \<noteq> sep) (rev s))"
proof (induction s)
  case (Cons c s)
  show ?case
  proof (cases "sep \<in> set s")
    case True
    then have "takeWhile (\<lambda>c. c \<noteq> sep) (rev s @ [c]) = takeWhile (\<lambda>c. c \<noteq> sep) (rev s)"
      by (metis (full_types) set_rev takeWhile_append1)
    moreover have "tl (split_on sep s) \<noteq> []"
      using True by (induction s) (auto split: list.splits)
    ultimately show ?thesis
      using Cons by (auto split: list.splits)
  next
    case False
    then have "split_on sep s = [s]"
      by (induction s) auto
    then show ?thesis
      using False by (simp add: takeWhile_append)
  qed
qed simp

section \<open>The category of an upload\<close>

lemma extension_same:
  assumes "CHR ''/'' \<notin> set name" "extname name \<noteq> ''''"
  shows "CHR ''.'' # name_extension name = to_lower (extname name)"
proof -
  have "dropWhile (\<lambda>c. c = CHR ''/'') (rev name) = rev name"
    using assms(1) by (intro dropWhile_kept) (metis hd_in_set set_rev)
  moreover have "takeWhile (\<lambda>c. c \<noteq> CHR ''/'') (rev name) = rev name"
    using assms(1) unfolding takeWhile_eq_all_conv by auto
  ultimately have "base_name name = name"
    by (simp only: base_name_def rev_rev_ident)
  then show ?thesis
    using assms(2)
    by (simp add: extname_def Let_def name_extension_def last_split_on to_lower_def lower_char_def split: if_splits)
qed

lemma validate_file_Inr:
  "validate_file c (Some g) = Inr h \<longleftrightarrow>
     h = g \<and> to_lower (extname (uf_originalname g)) \<in> set (allowed_extensions c) \<and>
     (c = CodeFile \<or> uf_mimetype g \<in> set (allowed_mimetypes c))"
  by (auto simp: validate_file_def returns)

text \<open>
  When the media service takes a file under any category, it takes it under the one that the client announces; the
  exception is source code that the browser calls an image.
\<close>

theorem announced_category:
  assumes "CHR ''/'' \<notin> set (bf_name f)" "validate_file c (Some (sent_file f)) = Inr g"
    and "\<not> (image_type (bf_type f) \<and> c = CodeFile)"
  shows "validate_file (chosen_category f) (Some (sent_file f)) = Inr g"
proof -
  have ext: "to_lower (extname (bf_name f)) \<in> set (allowed_extensions c)"
    and mime: "c = CodeFile \<or> uf_mimetype (sent_file f) \<in> set (allowed_mimetypes c)" and g: "g = sent_file f"
    using assms(2) by (auto simp: validate_file_Inr sent_file_def)
  have "extname (bf_name f) \<noteq> ''''"
    using ext by (cases c) (auto simp: allowed_extensions_def to_lower_def)
  then have name: "CHR ''.'' # name_extension (bf_name f) \<in> set (allowed_extensions c)"
    using ext extension_same[OF assms(1)] by simp
  have "chosen_category f = c"
  proof (cases c)
    case ImageFile
    then show ?thesis
      using mime by (auto simp: chosen_category_def image_type_def allowed_mimetypes_def sent_file_def split: if_splits)
  next
    case DocumentFile
    then have "\<not> image_type (bf_type f)"
      using mime by (auto simp: image_type_def allowed_mimetypes_def sent_file_def split: if_splits)
    then show ?thesis
      using name DocumentFile by (auto simp: chosen_category_def allowed_extensions_def)
  next
    case CodeFile
    then show ?thesis
      using name assms(3) by (auto simp: chosen_category_def allowed_extensions_def)
  qed
  then show ?thesis
    using assms(2) by simp
qed

section \<open>The invariant of the form\<close>

definition form_ok :: "env \<Rightarrow> post_form \<Rightarrow> bool" where
  "form_ok e f \<longleftrightarrow>
     valid_uuid e (pf_roomId f) \<and> length (pf_files f) + length (pf_failed f) \<le> 10 \<and>
     distinct (map at_id (pf_files f)) \<and> list_all (\<lambda>a. valid_uuid e (at_id a)) (pf_files f) \<and>
     length (pf_selectedTags f) \<le> 5 \<and> distinct (pf_selectedTags f) \<and> list_all (valid_uuid e) (pf_selectedTags f) \<and>
     (pf_failed f \<noteq> [] \<longrightarrow> pf_uploading f)"

definition request_ok :: "env \<Rightarrow> create_discussion_dto \<Rightarrow> bool" where
  "request_ok e dto \<longleftrightarrow>
     transform_create_discussion dto = dto \<and> cd_tagIds dto \<noteq> Some [] \<and>
     (valid_create_discussion e dto \<longleftrightarrow> length (cd_title dto) \<le> 300 \<and> length (cd_content dto) \<le> 100000)"

lemma distinct_added:
  "distinct (map k xs) \<Longrightarrow> distinct (map k (if list_ex (\<lambda>f. k f = k a) xs then xs else xs @ [a]))"
  by (simp add: list_ex_iff) (metis imageE)

lemma upload_each_length:
  "upload_each selected uploaded failures = (us, fs) \<Longrightarrow>
   length us + length fs \<le> length uploaded + length failures + length selected"
  by (induction selected uploaded failures rule: upload_each.induct) (auto split: if_splits)

lemma upload_each_distinct:
  "upload_each selected uploaded failures = (us, fs) \<Longrightarrow> distinct (map at_id uploaded) \<Longrightarrow> distinct (map at_id us)"
proof (induction selected uploaded failures rule: upload_each.induct)
  case (2 file' asset rest uploaded failures)
  then show ?case
    using distinct_added[of at_id uploaded asset] by simp
qed simp_all

lemma upload_each_all:
  "upload_each selected uploaded failures = (us, fs) \<Longrightarrow> list_all P uploaded \<Longrightarrow>
   list_all (\<lambda>(_, r). case r of Inl _ \<Rightarrow> True | Inr a \<Rightarrow> P a) selected \<Longrightarrow> list_all P us"
  by (induction selected uploaded failures rule: upload_each.induct) (auto split: if_splits)

lemma form_ok_upload:
  assumes "form_ok e f" "length remaining \<le> length (pf_failed f)"
    and "list_all (\<lambda>(_, r). case r of Inl _ \<Rightarrow> True | Inr a \<Rightarrow> valid_uuid e (at_id a)) selected"
  shows "form_ok e (upload_files selected remaining f)"
proof -
  obtain us fs where u: "upload_each selected (pf_files f) remaining = (us, fs)"
    by fastforce
  then show ?thesis
    using assms upload_each_length[OF u] upload_each_distinct[OF u]
      upload_each_all[OF u, where P = "\<lambda>a. valid_uuid e (at_id a)"]
    by (auto simp: upload_files_def form_ok_def)
qed

lemma brought_valid:
  "list_all (valid_uuid e) (concat (map (\<lambda>(_, r). case r of Inl _ \<Rightarrow> [] | Inr a \<Rightarrow> [at_id a]) selected)) \<longleftrightarrow>
   list_all (\<lambda>(_, r). case r of Inl _ \<Rightarrow> True | Inr a \<Rightarrow> valid_uuid e (at_id a)) selected"
proof (induction selected)
  case (Cons p selected)
  then show ?case
    by (cases p; cases "snd p") auto
qed simp

lemma form_ok_input:
  assumes "form_ok e f" "list_all (valid_uuid e) (brought_ids ev)"
  shows "form_ok e (handle_input ev f)"
proof (cases ev)
  case (PickFiles selected)
  then show ?thesis
    using assms form_ok_upload[OF assms(1)] by (simp add: brought_valid)
next
  case (RetryFile k outcome)
  then show ?thesis
    using assms form_ok_upload[OF assms(1) length_without_index]
    by (cases outcome) (simp_all add: retry_file_def)
next
  case (ToggleTag tag)
  then show ?thesis
    using assms by (auto simp: form_ok_def handleToggleTag_def list_all_iff intro: le_trans[OF length_filter_le])
next
  case (DropFailed k)
  then show ?thesis
    using assms length_without_index[of k "pf_failed f"] by (auto simp: form_ok_def drop_failed_def Let_def)
next
  case (RemoveFile i)
  have "length (filter (\<lambda>a. at_id a \<noteq> i) (pf_files f)) + length (pf_failed f) \<le> length (pf_files f) + length (pf_failed f)"
    by simp
  then have "length (filter (\<lambda>a. at_id a \<noteq> i) (pf_files f)) + length (pf_failed f) \<le> 10"
    using assms(1) unfolding form_ok_def by linarith
  then show ?thesis
    using assms(1) RemoveFile by (auto simp: form_ok_def remove_file_def list_all_iff distinct_map_filter)
qed (use assms in \<open>auto simp: form_ok_def submit_failed_def\<close>)

lemma submit_click_Some:
  assumes "submit_click confirmed f = (f', Some dto)"
  shows "dto = form_request f" "f' = f\<lparr>pf_loading := True, pf_error := ''''\<rparr>" "confirmed"
    "\<not> pf_uploading f" "\<not> pf_blocked f" "pf_selectedTags f \<noteq> []"
    "10 \<le> length (trim (pf_title f))" "20 \<le> length (trim (pf_content f))"
  using assms by (auto simp: submit_click_def submit_disabled_def handleSubmit_def split: if_splits)

lemma submit_click_form:
  "submit_click confirmed f = (f', r) \<Longrightarrow> form_ok e f' = form_ok e f"
  by (auto simp: submit_click_def handleSubmit_def form_ok_def split: if_splits)

lemma form_request_ok:
  assumes "form_ok e f" "submit_click confirmed f = (f', Some dto)"
  shows "request_ok e dto"
proof -
  note s = submit_click_Some[OF assms(2)]
  have "transform_create_discussion dto = dto"
    by (simp add: transform_create_discussion_def s(1) form_request_def)
  then show ?thesis
    using assms(1) s
    by (auto simp: request_ok_def valid_create_discussion_def form_request_def if_present_def length_within_def
        uuid_list_def form_ok_def list_all_iff)
qed

interpretation post_form_machine: inductive_invariant "form_opened e" "form_step e"
  "\<lambda>(f, reqs). form_ok e f \<and> list_all (request_ok e) reqs" for e
proof unfold_locales
  fix x
  assume "form_opened e x"
  then show "case x of (f, reqs) \<Rightarrow> form_ok e f \<and> list_all (request_ok e) reqs"
    by (auto simp: form_opened_def form_ok_def new_form_def)
next
  fix x y
  assume i: "case x of (f, reqs) \<Rightarrow> form_ok e f \<and> list_all (request_ok e) reqs" and "form_step e x y"
  from this(2) show "case y of (f, reqs) \<Rightarrow> form_ok e f \<and> list_all (request_ok e) reqs"
  proof (cases rule: form_step.cases)
    case (handled ev f reqs)
    then show ?thesis
      using i form_ok_input by simp
  next
    case (submitted confirmed f f' r reqs)
    then show ?thesis
      using i submit_click_form form_request_ok by (cases r) auto
  qed
qed

section \<open>The requests of the form\<close>

text \<open>
  C35. A request of the form for new posts passes the validation of the discussion service whenever title and text
  keep to the upper limits, which the form does not check; its texts are trimmed already, its attachments are the
  uploaded files and none that failed is left, and a second click sends nothing. The picker never holds more than
  ten files, each once.
\<close>

theorem create_form_requests:
  assumes "form_reachable e (f, reqs)" "submit_click confirmed f = (f', Some dto)"
  shows "(valid_create_discussion e (transform_create_discussion dto) \<longleftrightarrow>
      length (trim (pf_title f)) \<le> 300 \<and> length (trim (pf_content f)) \<le> 100000) \<and>
    cd_title dto = trim (pf_title f) \<and> cd_mediaIds dto = Some (map at_id (pf_files f)) \<and> pf_failed f = [] \<and>
    confirmed \<and> (\<forall>c. submit_click c f' = (f', None)) \<and>
    length (pf_files f) \<le> 10 \<and> distinct (map at_id (pf_files f))"
proof -
  note s = submit_click_Some[OF assms(2)]
  have f: "form_ok e f"
    using post_form_machine.holds[OF assms(1)] by simp
  have "request_ok e dto"
    by (rule form_request_ok[OF f assms(2)])
  moreover have "\<forall>c. submit_click c f' = (f', None)"
    by (simp add: s(2) submit_click_def submit_disabled_def)
  ultimately show ?thesis
    using f s by (auto simp: request_ok_def form_ok_def form_request_def)
qed

definition note_file :: browser_file where
  "note_file = \<lparr>bf_name = ''notes.pdf'', bf_type = ''application/pdf'', bf_content = [1, 2]\<rparr>"

definition filled_form :: post_form where
  "filled_form =
     fold handle_input
       [TypeTitle '' A question on sets '', TypeContent ''What is the power set of a set?'', ToggleTag ''tag1'',
        PickFiles [(note_file, Inr \<lparr>at_id = ''m1'', at_originalName = ''notes.pdf''\<rparr>)]] (new_form ''room'' False)"

lemma form_reachable_inputs:
  "form_reachable e (f, reqs) \<Longrightarrow> list_all (\<lambda>ev. list_all (valid_uuid e) (brought_ids ev)) evs \<Longrightarrow>
   form_reachable e (fold handle_input evs f, reqs)"
proof (induction evs arbitrary: f)
  case (Cons ev evs)
  then have "form_reachable e (handle_input ev f, reqs)"
    by (auto intro: reach.stepped handled)
  then show ?case
    using Cons by simp
qed simp

lemma filled_form_reachable: "form_reachable (sample_env '''' 1) (filled_form, [])"
  unfolding filled_form_def
  by (rule form_reachable_inputs[OF reach.started]) (auto simp: form_opened_def sample_env_def)

theorem create_form_requests_witness:
  "valid_create_discussion (sample_env '''' 1) (transform_create_discussion (form_request filled_form)) \<and>
   cd_mediaIds (form_request filled_form) = Some [''m1'']"
proof -
  have "snd (submit_click True filled_form) = Some (form_request filled_form)"
    "length (trim (pf_title filled_form)) = 18" "length (trim (pf_content filled_form)) = 31"
    "map at_id (pf_files filled_form) = [''m1'']"
    by code_simp+
  then show ?thesis
    using create_form_requests[OF filled_form_reachable, of True "fst (submit_click True filled_form)"]
    by (simp add: prod_eq_iff)
qed

theorem announced_category_witness:
  "validate_file (chosen_category note_file) (Some (sent_file note_file)) = Inr (sent_file note_file)"
proof -
  have "validate_file DocumentFile (Some (sent_file note_file)) = Inr (sent_file note_file)"
    by code_simp
  then show ?thesis
    by (intro announced_category[of _ DocumentFile]) (simp_all add: note_file_def image_type_def)
qed

end
