(* ===== verification/Client_Votes.thy ===== *)
theory Client_Votes
  imports Sample_Cases
begin

text \<open>
  The vote control of the web client (\<open>frontend/src/components/academic/VotePill.tsx\<close>): a click shows its effect
  before the discussion service answers, the answer overwrites it, and a failure restores the properties that the
  control was made with. While a request is under way the buttons are disabled.
\<close>

section \<open>The control\<close>

record vote_props =
  up_upvoteCount :: int
  up_downvoteCount :: int
  up_myVote :: "vote_type option"
  up_disabled :: bool

record vote_pill =
  vp_localUpvotes :: int
  vp_localDownvotes :: int
  vp_localVote :: "vote_type option"
  vp_isPending :: bool

definition new_pill :: "vote_props \<Rightarrow> vote_pill" where
  "new_pill props =
     \<lparr>vp_localUpvotes = up_upvoteCount props, vp_localDownvotes = up_downvoteCount props,
      vp_localVote = up_myVote props, vp_isPending = False\<rparr>"

definition netScore :: "vote_pill \<Rightarrow> int" where
  "netScore p = vp_localUpvotes p - vp_localDownvotes p"

definition optimistic :: "vote_type \<Rightarrow> vote_pill \<Rightarrow> int \<times> int \<times> vote_type option" where
  "optimistic type p =
     (let newUp = vp_localUpvotes p; newDown = vp_localDownvotes p in
      if vp_localVote p = Some type
      then
        (if type = Upvote then (max 0 (newUp - 1), newDown, None) else (newUp, max 0 (newDown - 1), None))
      else
        let newUp = (if vp_localVote p = Some Upvote then max 0 (newUp - 1) else newUp);
            newDown = (if vp_localVote p = Some Downvote then max 0 (newDown - 1) else newDown) in
        (if type = Upvote then (newUp + 1, newDown, Some type) else (newUp, newDown + 1, Some type)))"

text \<open>A click, with the vote that is requested: \<open>None\<close> removes the vote.\<close>

definition handleVote :: "vote_props \<Rightarrow> vote_type \<Rightarrow> vote_pill \<Rightarrow> vote_pill \<times> vote_type option option" where
  "handleVote props type p =
     (if up_disabled props \<or> vp_isPending p then (p, None)
      else
        let (newUp, newDown, newVote) = optimistic type p in
        (p\<lparr>vp_localUpvotes := newUp, vp_localDownvotes := newDown, vp_localVote := newVote, vp_isPending := True\<rparr>,
         Some newVote))"

definition vote_answered :: "vote_result \<Rightarrow> vote_pill \<Rightarrow> vote_pill" where
  "vote_answered r p =
     p\<lparr>vp_localUpvotes := vr_upvoteCount r, vp_localDownvotes := vr_downvoteCount r, vp_localVote := vr_voteType r,
       vp_isPending := False\<rparr>"

definition vote_failed :: "vote_props \<Rightarrow> vote_pill \<Rightarrow> vote_pill" where
  "vote_failed props p =
     p\<lparr>vp_localUpvotes := up_upvoteCount props, vp_localDownvotes := up_downvoteCount props,
       vp_localVote := up_myVote props, vp_isPending := False\<rparr>"

section \<open>Counting voters\<close>

lemma finite_ballot:
  assumes "distinct (map v_key vs)"
  shows "finite {y. ballot vs (y, ty, i) = Some t}"
proof -
  have "{y. ballot vs (y, ty, i) = Some t} \<subseteq> v_userId ` set vs"
    by (auto simp: ballot_Some[OF assms] v_key_def)
  then show ?thesis
    by (rule finite_subset) simp
qed

lemma card_ballot_upd:
  assumes "finite {y. b (y, ty, i) = Some t}"
  shows "int (card {y. (b((x, ty, i) := v)) (y, ty, i) = Some t}) =
    int (card {y. b (y, ty, i) = Some t}) - of_bool (b (x, ty, i) = Some t) + of_bool (v = Some t)"
proof -
  let ?A = "{y. b (y, ty, i) = Some t}"
  have "{y. (b((x, ty, i) := v)) (y, ty, i) = Some t} = (if v = Some t then insert x (?A - {x}) else ?A - {x})"
    by auto
  moreover have "int (card (?A - {x})) = int (card ?A) - of_bool (b (x, ty, i) = Some t)"
    using assms card_Diff_singleton[of x ?A] card_gt_0_iff[of ?A] by (auto simp: of_nat_diff)
  moreover have "int (card (insert x (?A - {x}))) = int (card (?A - {x})) + 1"
    using assms by (subst card_insert_disjoint) auto
  ultimately show ?thesis
    by (auto simp del: insert_Diff_single fun_upd_apply)
qed

text \<open>How the counters of a target change when one user votes.\<close>

lemma count_votes_write:
  assumes "distinct (map v_key vs)"
  shows "count_votes t ty i (write_vote x ty i v vs) =
    count_votes t ty i vs - of_bool (ballot vs (x, ty, i) = Some t) + of_bool (v = Some t)"
  using card_ballot_upd[OF finite_ballot[OF assms], where v = v]
  by (simp add: count_votes_card[OF distinct_write_vote[OF assms]] count_votes_card[OF assms] ballot_write_vote[OF assms])

lemma voted_positive:
  assumes "distinct (map v_key vs)" "ballot vs (x, ty, i) = Some t"
  shows "1 \<le> count_votes t ty i vs"
proof -
  have "x \<in> {y. ballot vs (y, ty, i) = Some t}"
    using assms(2) by simp
  then have "0 < card {y. ballot vs (y, ty, i) = Some t}"
    using finite_ballot[OF assms(1)] by (auto simp: card_gt_0_iff)
  then show ?thesis
    by (simp add: count_votes_card[OF assms(1)])
qed

section \<open>The prediction\<close>

text \<open>
  C36. When the control shows the counters and the vote of the caller, and nobody else votes meanwhile, then the answer
  of the service to a click changes nothing: the click has shown the counters and the vote that the service reports.
  A failure, however, shows the properties again that the control was made with, whatever was answered since.
\<close>

theorem pill_predicts:
  assumes "reachable w" "uid u = Some x"
    and "vp_localUpvotes p = count_votes Upvote ty i (votes (database w))"
    and "vp_localDownvotes p = count_votes Downvote ty i (votes (database w))"
    and "vp_localVote p = ballot (votes (database w)) (x, ty, i)"
    and "handleVote props type p = (p', Some v)" "set_vote ty i u v (database w) = (Inr r, s')"
  shows "vote_answered r p' = p'\<lparr>vp_isPending := False\<rparr> \<and>
    vp_localVote p' = ballot (votes s') (x, ty, i) \<and> netScore p' = vr_upvoteCount r - vr_downvoteCount r \<and>
    vote_failed props p' = new_pill props"
proof -
  let ?vs = "votes (database w)"
  have d: "distinct (map v_key ?vs)"
    using reachable_votes_inv[OF assms(1)] by (simp add: votes_inv_def)
  obtain y where y: "uid u = Some y" and s': "s' = voted ty i y v (database w)"
    and r: "r = \<lparr>vr_voteType = v, vr_upvoteCount = count_votes Upvote ty i (write_vote y ty i v ?vs),
          vr_downvoteCount = count_votes Downvote ty i (write_vote y ty i v ?vs)\<rparr>"
    using assms(7) by (cases rule: set_vote_cases [of ty i u v "database w"]) auto
  have x: "y = x"
    using y assms(2) by simp
  have b: "ballot (votes s') (x, ty, i) = v"
    using set_vote_ballot(1)[OF reachable_votes_inv[OF assms(1)] assms(7)] assms(2) by auto
  obtain up down where o: "optimistic type p = (up, down, v)"
    and p': "p' = p\<lparr>vp_localUpvotes := up, vp_localDownvotes := down, vp_localVote := v, vp_isPending := True\<rparr>"
    using assms(6) by (auto simp: handleVote_def Let_def split: if_splits prod.splits)
  have "up = vr_upvoteCount r" "down = vr_downvoteCount r"
    using o voted_positive[OF d, of x ty i] unfolding r x vote_result.simps count_votes_write[OF d]
    by (auto simp: optimistic_def Let_def assms(3-5) split: if_splits; cases type; auto)+
  then show ?thesis
    using b r by (simp add: p' vote_answered_def vote_failed_def new_pill_def netScore_def)
qed

definition answer_props :: vote_props where
  "answer_props = \<lparr>up_upvoteCount = 0, up_downvoteCount = 0, up_myVote = None, up_disabled = False\<rparr>"

theorem pill_predicts_witness:
  "(let p = \<lparr>vp_localUpvotes = count_votes Upvote OnAnswer ''ans'' (votes (database world5)),
      vp_localDownvotes = count_votes Downvote OnAnswer ''ans'' (votes (database world5)),
      vp_localVote = ballot (votes (database world5)) (''ann'', OnAnswer, ''ans''), vp_isPending = False\<rparr>;
      (p', v) = handleVote answer_props Downvote p;
      (r, s') = set_vote OnAnswer ''ans'' ann (Some Downvote) (database world5)
    in vp_localVote p' = ballot (votes s') (''ann'', OnAnswer, ''ans''))"
proof -
  let ?p = "\<lparr>vp_localUpvotes = count_votes Upvote OnAnswer ''ans'' (votes (database world5)),
      vp_localDownvotes = count_votes Downvote OnAnswer ''ans'' (votes (database world5)),
      vp_localVote = ballot (votes (database world5)) (''ann'', OnAnswer, ''ans''), vp_isPending = False\<rparr>"
  let ?r = "set_vote OnAnswer ''ans'' ann (Some Downvote) (database world5)"
  have "\<not> isl (fst ?r)" "snd (handleVote answer_props Downvote ?p) = Some (Some Downvote)"
    by code_simp+
  then obtain r s' p' where rs: "?r = (Inr r, s')" and p: "handleVote answer_props Downvote ?p = (p', Some (Some Downvote))"
    by (metis Inr_pairE prod.collapse)
  show ?thesis
    using pill_predicts[OF reachable_worlds(6) _ _ _ _ p rs, of "''ann''"]
    unfolding Let_def rs p by (simp add: ann_def)
qed

end
