(* ===== verification/Client_Inbox.thy ===== *)
theory Client_Inbox
  imports Notifications
begin

text \<open>
  The list of notifications that the web client keeps (\<open>frontend/src/lib/notifications/context.tsx\<close>): rows of the
  notification service are merged into it, from its list and from its stream, in whatever order they arrive. The time
  stamps are texts of one format on the wire, whose order is that of the times.
\<close>

section \<open>Items\<close>

record app_notification =
  an_id :: string
  an_type :: string
  an_title :: string
  an_body :: string
  an_createdAt :: time
  an_read :: bool
  an_actorName :: "string option"
  an_href :: "string option"

definition uri_unreserved :: "char \<Rightarrow> bool" where
  "uri_unreserved c =
     (let n = (of_char c :: nat) in
      (48 \<le> n \<and> n \<le> 57) \<or> (65 \<le> n \<and> n \<le> 90) \<or> (97 \<le> n \<and> n \<le> 122) \<or>
      c \<in> set ''-_.!~*()'' \<or> n = 39)"

definition hex_digit :: "nat \<Rightarrow> char" where
  "hex_digit n = (if n < 10 then char_of (48 + n) else char_of (55 + n))"

definition encodeURIComponent :: "string \<Rightarrow> string" where
  "encodeURIComponent t =
     concat (map (\<lambda>c. if uri_unreserved c then [c]
                       else concat (map (\<lambda>b. [CHR ''%'', hex_digit (b div 16), hex_digit (b mod 16)]) (utf8_char c))) t)"

definition text_member :: "string \<Rightarrow> (string \<times> json) list \<Rightarrow> string option" where
  "text_member k obj = (case member k obj of Some (JStr t) \<Rightarrow> Some t | _ \<Rightarrow> None)"

definition mapApiNotification :: "notification \<Rightarrow> app_notification" where
  "mapApiNotification n =
     \<lparr>an_id = n_id n, an_type = n_type n, an_title = n_title n, an_body = n_body n, an_createdAt = n_createdAt n,
      an_read = (n_readAt n \<noteq> None), an_actorName = text_member ''actorName'' (n_data n),
      an_href = map_option (\<lambda>i. ''/posts/'' @ encodeURIComponent i) (text_member ''discussionId'' (n_data n))\<rparr>"

section \<open>The list\<close>

text \<open>\<open>Map.set\<close>: an entry with the same key keeps its place.\<close>

definition set_item :: "app_notification \<Rightarrow> app_notification list \<Rightarrow> app_notification list" where
  "set_item x m = (if exists_where (\<lambda>y. an_id y = an_id x) m then put an_id x m else m @ [x])"

definition merge_entry :: "notification \<Rightarrow> app_notification list \<Rightarrow> app_notification list" where
  "merge_entry entry m =
     (let mapped = mapApiNotification entry;
          known = find_by (\<lambda>y. an_id y = n_id entry) m in
      set_item (mapped\<lparr>an_read := an_read mapped \<or> (case known of None \<Rightarrow> False | Some y \<Rightarrow> an_read y)\<rparr>) m)"

definition by_id :: "notification list \<Rightarrow> app_notification list \<Rightarrow> app_notification list" where
  "by_id entries current = fold merge_entry entries (fold set_item current [])"

definition merge_notifications :: "notification list \<Rightarrow> app_notification list \<Rightarrow> app_notification list" where
  "merge_notifications entries current =
     take 30 (sort_key (\<lambda>n. - int (an_createdAt n)) (by_id entries current))"

text \<open>What the service answers to \<open>markRead\<close>; the requests of \<open>markAllRead\<close>; a local entry; the number shown.\<close>

definition read_answered :: "string \<Rightarrow> notification \<Rightarrow> app_notification list \<Rightarrow> app_notification list" where
  "read_answered i saved current = map (\<lambda>x. if an_id x = i then mapApiNotification saved else x) current"

definition markAllRead :: "app_notification list \<Rightarrow> string list" where
  "markAllRead current = map an_id (filter (\<lambda>x. \<not> an_read x) current)"

definition pushNotification :: "app_notification \<Rightarrow> app_notification list \<Rightarrow> app_notification list" where
  "pushNotification x current = x\<lparr>an_read := False\<rparr> # current"

definition unreadCount :: "app_notification list \<Rightarrow> nat" where
  "unreadCount current = length (filter (\<lambda>x. \<not> an_read x) current)"

text \<open>A text of the stream, parsed: other texts and rows without an id are ignored.\<close>

definition stream_received :: "(string \<Rightarrow> notification option) \<Rightarrow> string \<Rightarrow> app_notification list \<Rightarrow> app_notification list" where
  "stream_received parse data current =
     (case parse data of
        Some entry \<Rightarrow> if n_id entry \<noteq> '''' then merge_notifications [entry] current else current
      | None \<Rightarrow> current)"

section \<open>The list in use\<close>

text \<open>The service answers with the row that was asked for; local entries get new ids.\<close>

inductive inbox_step :: "app_notification list \<Rightarrow> app_notification list \<Rightarrow> bool" where
  loaded: "inbox_step current (merge_notifications entries current)"
| streamed: "inbox_step current (stream_received parse data current)"
| marked: "n_id saved = i \<Longrightarrow> inbox_step current (read_answered i saved current)"
| pushed: "an_id x \<notin> an_id ` set current \<Longrightarrow> inbox_step current (pushNotification x current)"

abbreviation inbox_reachable :: "app_notification list \<Rightarrow> bool" where
  "inbox_reachable current \<equiv> reach (\<lambda>c. c = []) inbox_step current"

section \<open>Merging\<close>

lemma set_item_ids [simp]: "an_id ` set (set_item x m) = insert (an_id x) (an_id ` set m)"
  by (auto simp: set_item_def put_def update_where_def exists_where_iff image_iff)

lemma set_item_distinct: "distinct (map an_id m) \<Longrightarrow> distinct (map an_id (set_item x m))"
  by (auto simp: set_item_def put_keys exists_where_iff image_iff)

lemma set_item_in: "x \<in> set (set_item x m)"
  by (auto simp: set_item_def put_def update_where_def exists_where_iff image_iff)

lemma set_item_other: "y \<in> set m \<Longrightarrow> an_id y \<noteq> an_id x \<Longrightarrow> y \<in> set (set_item x m)"
  by (auto simp: set_item_def put_def update_where_def exists_where_iff image_iff)

lemma merge_entry_item:
  obtains r where "merge_entry e m = set_item ((mapApiNotification e)\<lparr>an_read := r\<rparr>) m"
    "\<And>y. y \<in> set m \<Longrightarrow> distinct (map an_id m) \<Longrightarrow> an_id y = n_id e \<Longrightarrow> an_read y \<Longrightarrow> r"
proof -
  have "find_by (\<lambda>z. an_id z = n_id e) m = Some y"
    if "y \<in> set m" "distinct (map an_id m)" "an_id y = n_id e" for y
    using that by (intro find_by_distinct[where key = an_id]) auto
  then show thesis
    by (intro that[of "an_read (mapApiNotification e) \<or>
          (case find_by (\<lambda>y. an_id y = n_id e) m of None \<Rightarrow> False | Some y \<Rightarrow> an_read y)"])
      (auto simp: merge_entry_def Let_def)
qed

lemma mapped_id [simp]: "an_id ((mapApiNotification e)\<lparr>an_read := r\<rparr>) = n_id e"
  by (simp add: mapApiNotification_def)

lemma merge_entry_ids [simp]: "an_id ` set (merge_entry e m) = insert (n_id e) (an_id ` set m)"
  by (rule merge_entry_item[of e m]) simp

lemma merge_entry_distinct: "distinct (map an_id m) \<Longrightarrow> distinct (map an_id (merge_entry e m))"
  by (rule merge_entry_item[of e m]) (simp add: set_item_distinct)

lemma merge_entry_read:
  assumes "distinct (map an_id m)" "y \<in> set m" "an_read y"
  shows "\<exists>z \<in> set (merge_entry e m). an_id z = an_id y \<and> an_read z"
proof -
  obtain r where m: "merge_entry e m = set_item ((mapApiNotification e)\<lparr>an_read := r\<rparr>) m"
    and r: "an_id y = n_id e \<Longrightarrow> r"
    using merge_entry_item[of e m] assms by metis
  show ?thesis
  proof (cases "an_id y = n_id e")
    case True
    then show ?thesis
      unfolding m using r by (intro bexI[OF _ set_item_in]) auto
  next
    case False
    then show ?thesis
      unfolding m using assms by (intro bexI[of _ y] set_item_other) auto
  qed
qed

lemma fold_set_item_distinct: "distinct (map an_id m) \<Longrightarrow> distinct (map an_id (fold set_item xs m))"
  by (induction xs arbitrary: m) (auto simp: set_item_distinct)

lemma fold_set_item_append:
  "distinct (map an_id (m @ xs)) \<Longrightarrow> fold set_item xs m = m @ xs"
proof (induction xs arbitrary: m)
  case (Cons x xs)
  then have "an_id x \<notin> an_id ` set m"
    by auto
  then have "set_item x m = m @ [x]"
    by (auto simp: set_item_def exists_where_iff image_iff)
  then show ?case
    using Cons by simp
qed simp

lemma fold_merge_distinct: "distinct (map an_id m) \<Longrightarrow> distinct (map an_id (fold merge_entry es m))"
  by (induction es arbitrary: m) (auto simp: merge_entry_distinct)

lemma fold_merge_ids: "an_id ` set (fold merge_entry es m) = n_id ` set es \<union> an_id ` set m"
  by (induction es arbitrary: m) auto

lemma fold_merge_read:
  "distinct (map an_id m) \<Longrightarrow> y \<in> set m \<Longrightarrow> an_read y \<Longrightarrow>
   \<exists>z \<in> set (fold merge_entry es m). an_id z = an_id y \<and> an_read z"
proof (induction es arbitrary: m y)
  case (Cons e es)
  then obtain z where "z \<in> set (merge_entry e m)" "an_id z = an_id y" "an_read z"
    using merge_entry_read by blast
  then show ?case
    using Cons.IH[OF merge_entry_distinct[OF Cons.prems(1)], of z] by simp
qed auto

lemma by_id_distinct: "distinct (map an_id (by_id entries current))"
  by (simp add: by_id_def fold_merge_distinct fold_set_item_distinct)

lemma by_id_ids:
  "distinct (map an_id current) \<Longrightarrow> an_id ` set (by_id entries current) = n_id ` set entries \<union> an_id ` set current"
  by (simp add: by_id_def fold_merge_ids fold_set_item_append)

lemma merge_subset: "set (merge_notifications entries current) \<subseteq> set (by_id entries current)"
  unfolding merge_notifications_def by (rule subset_trans[OF set_take_subset]) simp

lemma merge_distinct: "distinct (map an_id (merge_notifications entries current))"
proof -
  have "distinct (map an_id (sort_key (\<lambda>n. - int (an_createdAt n)) (by_id entries current)))"
    using by_id_distinct[of entries current] by (simp add: distinct_map)
  then show ?thesis
    by (simp add: merge_notifications_def distinct_take flip: take_map)
qed

lemma merge_sorted: "sorted_wrt (\<lambda>a b. an_createdAt b \<le> an_createdAt a) (merge_notifications entries current)"
proof -
  have "sorted (map (\<lambda>n. - int (an_createdAt n)) (merge_notifications entries current))"
    by (simp add: merge_notifications_def sorted_wrt_take flip: take_map)
  then show ?thesis
    by (simp add: sorted_wrt_map)
qed

lemma merge_newest:
  assumes "x \<in> set (by_id entries current)" "x \<notin> set (merge_notifications entries current)"
  shows "length (merge_notifications entries current) = 30"
    "\<forall>y \<in> set (merge_notifications entries current). an_createdAt x \<le> an_createdAt y"
proof -
  let ?s = "sort_key (\<lambda>n. - int (an_createdAt n)) (by_id entries current)"
  have "x \<in> set ?s"
    using assms(1) by simp
  then have d: "x \<in> set (drop 30 ?s)"
    using assms(2) unfolding merge_notifications_def by (metis Un_iff append_take_drop_id set_append)
  then show "length (merge_notifications entries current) = 30"
    unfolding merge_notifications_def using not_le_imp_less by fastforce
  have "sorted (map (\<lambda>n. - int (an_createdAt n)) (take 30 ?s @ drop 30 ?s))"
    by simp
  then show "\<forall>y \<in> set (merge_notifications entries current). an_createdAt x \<le> an_createdAt y"
    using d unfolding merge_notifications_def map_append sorted_append by auto
qed

interpretation inbox_machine: inductive_invariant "\<lambda>c. c = []" inbox_step "\<lambda>c. distinct (map an_id c)"
proof unfold_locales
  fix c c'
  assume d: "distinct (map an_id c)" and "inbox_step c c'"
  from this(2) show "distinct (map an_id c')"
  proof (cases rule: inbox_step.cases)
    case (marked saved i)
    have "map an_id c' = map an_id c"
      by (simp add: marked read_answered_def mapApiNotification_def)
    then show ?thesis using d by simp
  qed (use d in \<open>auto simp: merge_distinct stream_received_def pushNotification_def split: option.split\<close>)
qed simp

text \<open>
  C37. In every reachable state ids are unique. A merge shows at most 30 entries, newest first; what was read stays
  read, even when an older answer of the service arrives late; and an entry that is not shown is older than all
  that are.
\<close>

theorem inbox_merge:
  assumes "inbox_reachable current"
  shows "distinct (map an_id current) \<and> distinct (map an_id (merge_notifications entries current)) \<and>
    length (merge_notifications entries current) \<le> 30 \<and>
    sorted_wrt (\<lambda>a b. an_createdAt b \<le> an_createdAt a) (merge_notifications entries current) \<and>
    (\<forall>a \<in> set current. \<forall>b \<in> set (merge_notifications entries current).
       an_read a \<and> an_id b = an_id a \<longrightarrow> an_read b) \<and>
    an_id ` set (by_id entries current) = n_id ` set entries \<union> an_id ` set current \<and>
    (\<forall>x \<in> set (by_id entries current) - set (merge_notifications entries current).
       length (merge_notifications entries current) = 30 \<and>
       (\<forall>y \<in> set (merge_notifications entries current). an_createdAt x \<le> an_createdAt y))"
proof -
  have d: "distinct (map an_id current)"
    by (rule inbox_machine.holds[OF assms])
  have "an_read b" if ab: "a \<in> set current" "b \<in> set (merge_notifications entries current)" "an_read a" "an_id b = an_id a" for a b
  proof -
    obtain z where z: "z \<in> set (by_id entries current)" "an_id z = an_id a" "an_read z"
      using fold_merge_read[OF d ab(1,3), of entries] fold_set_item_append[of "[]" current] d
      unfolding by_id_def by auto
    have "b \<in> set (by_id entries current)"
      using ab(2) merge_subset by blast
    moreover have "inj_on an_id (set (by_id entries current))"
      using by_id_distinct[of entries current] by (simp add: distinct_map)
    ultimately have "b = z"
      using inj_onD z(1,2) ab(4) by metis
    then show ?thesis using z(3) by simp
  qed
  then have "\<forall>a \<in> set current. \<forall>b \<in> set (merge_notifications entries current).
       an_read a \<and> an_id b = an_id a \<longrightarrow> an_read b"
    by blast
  moreover have "length (merge_notifications entries current) \<le> 30"
    by (simp add: merge_notifications_def)
  moreover have "\<forall>x \<in> set (by_id entries current) - set (merge_notifications entries current).
       length (merge_notifications entries current) = 30 \<and>
       (\<forall>y \<in> set (merge_notifications entries current). an_createdAt x \<le> an_createdAt y)"
    using merge_newest by (meson DiffE)
  ultimately show ?thesis
    by (intro conjI d merge_distinct merge_sorted by_id_ids[OF d]) assumption+
qed

definition saved_row :: notification where
  "saved_row =
     \<lparr>n_id = ''n1'', n_recipientId = ''ann'', n_actorId = None, n_type = ''comment.created'', n_title = ''New'',
      n_body = ''A comment'', n_data = [(''discussionId'', JStr ''d 1'')], n_priority = ''normal'', n_readAt = Some 9,
      n_createdAt = 5\<rparr>"

definition other_row :: notification where
  "other_row = saved_row\<lparr>n_id := ''n2'', n_readAt := None, n_createdAt := 7\<rparr>"

text \<open>A row that was read stays read when its older, unread state arrives after the answer to the request.\<close>

theorem inbox_merge_witness:
  "(let current = merge_notifications [saved_row] [];
        shown = merge_notifications [saved_row\<lparr>n_readAt := None\<rparr>, other_row] current in
    map an_id shown = [''n2'', ''n1''] \<and> map an_read shown = [False, True] \<and>
    map an_href shown = [Some ''/posts/d%201'', Some ''/posts/d%201''] \<and> distinct (map an_id shown))"
proof -
  let ?c = "merge_notifications [saved_row] []"
  have "inbox_reachable ?c"
    by (rule reach.stepped[where s = "[]"]) (intro reach.started inbox_step.loaded refl)+
  then have "distinct (map an_id (merge_notifications [saved_row\<lparr>n_readAt := None\<rparr>, other_row] ?c))"
    using inbox_merge by blast
  moreover have "map an_id (merge_notifications [saved_row\<lparr>n_readAt := None\<rparr>, other_row] ?c) = [''n2'', ''n1'']"
    "map an_read (merge_notifications [saved_row\<lparr>n_readAt := None\<rparr>, other_row] ?c) = [False, True]"
    "map an_href (merge_notifications [saved_row\<lparr>n_readAt := None\<rparr>, other_row] ?c) =
      [Some ''/posts/d%201'', Some ''/posts/d%201'']"
    by code_simp+
  ultimately show ?thesis
    by (simp add: Let_def)
qed

end
