(* ===== verification/Client_Review.thy ===== *)
theory Client_Review
  imports Sample_Cases
begin

text \<open>
  The page of the reviewers (\<open>frontend/src/app/(app)/moderation/page.tsx\<close>, \<open>lib/api/moderation.ts\<close>): the filters, the
  queue, which is loaded again when a filter changes, and the form that sends a decision. A load that is overtaken
  is recognised by its number. React renders after every event; then the queue is loaded when a filter changed.
\<close>

section \<open>The page\<close>

type_synonym load_params = "moderation_status \<times> nat \<times> uuid \<times> string"

record review_page =
  rg_status :: moderation_status
  rg_page :: nat
  rg_room :: uuid
  rg_search :: string
  rg_query :: string
  rg_selected :: "uuid option"
  rg_error :: string
  rg_notice :: string
  rg_busy :: bool
  rg_loading :: bool
  rg_queue :: "queue_entry page option"
  rg_generation :: nat
  rg_requests :: "(nat \<times> load_params) list"
  rg_review :: "(string \<times> load_params) option"
  rg_finishing :: "nat option"

definition page_params :: "review_page \<Rightarrow> load_params" where
  "page_params p = (rg_status p, rg_page p, rg_room p, rg_query p)"

definition start_load :: "load_params \<Rightarrow> review_page \<Rightarrow> review_page" where
  "start_load ps p =
     (let current = Suc (rg_generation p) in
      p\<lparr>rg_generation := current, rg_loading := True, rg_error := '''',
        rg_requests := rg_requests p @ [(current, ps)]\<rparr>)"

text \<open>The effect after an event: \<open>load\<close> depends on the filters.\<close>

definition rerender :: "review_page \<Rightarrow> review_page \<Rightarrow> review_page" where
  "rerender old p = (if page_params p \<noteq> page_params old then start_load (page_params p) p else p)"

definition first_page :: review_page where
  "first_page =
     start_load (Pending, 1, '''', '''')
       \<lparr>rg_status = Pending, rg_page = 1, rg_room = '''', rg_search = '''', rg_query = '''', rg_selected = None,
        rg_error = '''', rg_notice = '''', rg_busy = False, rg_loading = True, rg_queue = None, rg_generation = 0,
        rg_requests = [], rg_review = None, rg_finishing = None\<rparr>"

text \<open>The answer to the \<open>k\<close>-th load under way; a review that waits for this load is then over.\<close>

definition load_answered :: "nat \<Rightarrow> string + queue_entry page \<Rightarrow> review_page \<Rightarrow> review_page" where
  "load_answered k result p =
     (if k < length (rg_requests p)
      then
        let (current, _) = rg_requests p ! k;
            p1 = p\<lparr>rg_requests := without_index k (rg_requests p)\<rparr>;
            p2 = (if current = rg_generation p
                  then
                    (case result of
                       Inr q \<Rightarrow>
                         p1\<lparr>rg_queue := Some q,
                            rg_selected := (case rg_selected p of None \<Rightarrow> None
                              | Some i \<Rightarrow> if list_ex (\<lambda>x. qe_id x = i) (pg_data q) then Some i else None),
                            rg_loading := False\<rparr>
                     | Inl message \<Rightarrow> p1\<lparr>rg_queue := None, rg_error := message, rg_loading := False\<rparr>)
                  else p1) in
        (if rg_finishing p = Some current then p2\<lparr>rg_busy := False, rg_finishing := None\<rparr> else p2)
      else p)"

section \<open>Filters\<close>

definition click_status :: "moderation_status \<Rightarrow> review_page \<Rightarrow> review_page" where
  "click_status st p =
     (if rg_busy p then p
      else rerender p (p\<lparr>rg_generation := Suc (rg_generation p), rg_loading := True, rg_status := st, rg_page := 1,
                          rg_selected := None\<rparr>))"

definition type_search :: "string \<Rightarrow> review_page \<Rightarrow> review_page" where
  "type_search t p =
     (if rg_busy p then p else p\<lparr>rg_generation := Suc (rg_generation p), rg_search := t\<rparr>)"

definition search_timer :: "review_page \<Rightarrow> review_page" where
  "search_timer p = rerender p (p\<lparr>rg_query := rg_search p, rg_page := 1\<rparr>)"

definition choose_room :: "uuid \<Rightarrow> review_page \<Rightarrow> review_page" where
  "choose_room r p =
     (if rg_busy p then p
      else rerender p (p\<lparr>rg_generation := Suc (rg_generation p), rg_loading := True, rg_room := r, rg_page := 1,
                          rg_selected := None\<rparr>))"

definition total_pages :: "review_page \<Rightarrow> nat" where
  "total_pages p = (case rg_queue p of None \<Rightarrow> 1 | Some q \<Rightarrow> pg_totalPages q)"

definition click_previous :: "review_page \<Rightarrow> review_page" where
  "click_previous p =
     (if rg_page p \<le> 1 \<or> rg_loading p \<or> rg_busy p then p else rerender p (p\<lparr>rg_page := rg_page p - 1\<rparr>))"

definition click_next :: "review_page \<Rightarrow> review_page" where
  "click_next p =
     (if total_pages p \<le> rg_page p \<or> rg_loading p \<or> rg_busy p then p else rerender p (p\<lparr>rg_page := rg_page p + 1\<rparr>))"

definition click_reload :: "review_page \<Rightarrow> review_page" where
  "click_reload p = (if rg_busy p \<or> rg_loading p then p else start_load (page_params p) p)"

definition click_post :: "uuid \<Rightarrow> review_page \<Rightarrow> review_page" where
  "click_post i p = (if rg_busy p then p else p\<lparr>rg_selected := Some i\<rparr>)"

text \<open>The post whose details are shown.\<close>

definition shown_post :: "review_page \<Rightarrow> queue_entry option" where
  "shown_post p =
     (if rg_loading p then None
      else case (rg_queue p, rg_selected p) of
        (Some q, Some i) \<Rightarrow> find_by (\<lambda>x. qe_id x = i) (pg_data q)
      | _ \<Rightarrow> None)"

section \<open>Decisions\<close>

record review_detail =
  dt_item :: queue_entry
  dt_note :: string
  dt_validation :: string
  dt_filesSafe :: bool
  dt_checking :: bool

definition new_detail :: "queue_entry \<Rightarrow> review_detail" where
  "new_detail item =
     \<lparr>dt_item = item, dt_note = '''', dt_validation = '''', dt_filesSafe = (qe_mediaIds item = []),
      dt_checking = (qe_mediaIds item \<noteq> [])\<rparr>"

text \<open>The scan states of the attachments, or \<open>None\<close> when one of them could not be read; the button to ask again.\<close>

definition files_checked :: "string list option \<Rightarrow> review_detail \<Rightarrow> review_detail" where
  "files_checked states d =
     d\<lparr>dt_filesSafe := (case states of None \<Rightarrow> False | Some sts \<Rightarrow> list_all (\<lambda>st. st = ''clean'') sts),
       dt_checking := False\<rparr>"

definition check_again :: "review_detail \<Rightarrow> review_detail" where
  "check_again d = (if \<not> dt_checking d \<and> \<not> dt_filesSafe d then d\<lparr>dt_checking := True\<rparr> else d)"

text \<open>Which buttons are there and enabled.\<close>

definition decision_enabled :: "decision \<Rightarrow> bool \<Rightarrow> review_detail \<Rightarrow> bool" where
  "decision_enabled decision busy d =
     (\<not> busy \<and> qe_moderationStatus (dt_item d) \<noteq> Hidden \<and>
      (case decision of
         Hide \<Rightarrow> True
       | Hold \<Rightarrow> qe_moderationStatus (dt_item d) = Pending
       | Allow \<Rightarrow> qe_moderationStatus (dt_item d) = Pending \<and> \<not> dt_checking d \<and> dt_filesSafe d))"

definition review_request :: "queue_entry \<Rightarrow> decision \<Rightarrow> string \<Rightarrow> review_dto" where
  "review_request item decision note =
     \<lparr>rd_decision = decision, rd_expectedModerationStatus = Some (qe_moderationStatus item),
      rd_expectedVersion = qe_contentVersion item, rd_expectedContent = qe_content item, rd_note = Some note\<rparr>"

definition decide_click :: "decision \<Rightarrow> bool \<Rightarrow> review_detail \<Rightarrow> review_detail \<times> review_dto option" where
  "decide_click decision busy d =
     (if \<not> decision_enabled decision busy d then (d, None)
      else if decision \<noteq> Allow \<and> trim (dt_note d) = ''''
      then (d\<lparr>dt_validation := ''Hay nhap ly do de nguoi gui biet can thay doi dieu gi.''\<rparr>, None)
      else (d\<lparr>dt_validation := ''''\<rparr>, Some (review_request (dt_item d) decision (dt_note d))))"

text \<open>
  The form in use. A check asks the media service for every attachment; \<open>asked\<close> is the scan state that it answers for
  a file, or \<open>None\<close> when the file cannot be read, on which \<open>Promise.all\<close> gives up.
\<close>

datatype detail_event =
    FilesChecked "uuid \<Rightarrow> string option"
  | CheckAgain
  | TypeNote string
  | Decide decision bool

fun on_detail :: "detail_event \<Rightarrow> review_detail \<Rightarrow> review_detail" where
  "on_detail (FilesChecked asked) d = files_checked (those (map asked (qe_mediaIds (dt_item d)))) d"
| "on_detail CheckAgain d = check_again d"
| "on_detail (TypeNote t) d = d\<lparr>dt_note := take 2000 t\<rparr>"
| "on_detail (Decide decision busy) d = fst (decide_click decision busy d)"

text \<open>The checks that were answered, in order.\<close>

fun answered_checks :: "detail_event list \<Rightarrow> (uuid \<Rightarrow> string option) list" where
  "answered_checks [] = []"
| "answered_checks (FilesChecked asked # evs) = asked # answered_checks evs"
| "answered_checks (_ # evs) = answered_checks evs"

definition decision_label :: "decision \<Rightarrow> string" where
  "decision_label decision =
     (case decision of Allow \<Rightarrow> ''Da duyet'' | Hold \<Rightarrow> ''Yeu cau chinh sua'' | Hide \<Rightarrow> ''Tu choi / An'')"

text \<open>The page while the decision is under way. The load behind it takes the filters of the click.\<close>

definition start_review :: "queue_entry \<Rightarrow> decision \<Rightarrow> review_page \<Rightarrow> review_page" where
  "start_review target decision p =
     p\<lparr>rg_busy := True, rg_error := '''', rg_notice := '''',
       rg_review := Some (decision_label decision @ '': '' @ qe_title target, page_params p)\<rparr>"

definition review_answered :: "string option \<Rightarrow> review_page \<Rightarrow> review_page" where
  "review_answered failure p =
     (case rg_review p of
        None \<Rightarrow> p
      | Some (notice, ps) \<Rightarrow>
          (case failure of
             Some message \<Rightarrow> p\<lparr>rg_error := message, rg_busy := False, rg_review := None\<rparr>
           | None \<Rightarrow>
               let p1 = start_load ps (p\<lparr>rg_notice := notice, rg_review := None\<rparr>) in
               p1\<lparr>rg_finishing := Some (rg_generation p1)\<rparr>))"

section \<open>The page in use\<close>

datatype page_event =
    LoadAnswered nat "string + queue_entry page"
  | ClickStatus moderation_status
  | TypeSearch string
  | SearchTimer
  | ChooseReviewRoom uuid
  | ClickPrevious
  | ClickNext
  | ClickReload
  | ClickPost uuid
  | ReviewStarted queue_entry decision
  | ReviewAnswered "string option"

fun on_page :: "page_event \<Rightarrow> review_page \<Rightarrow> review_page" where
  "on_page (LoadAnswered k result) p = load_answered k result p"
| "on_page (ClickStatus st) p = click_status st p"
| "on_page (TypeSearch t) p = type_search t p"
| "on_page SearchTimer p = search_timer p"
| "on_page (ChooseReviewRoom r) p = choose_room r p"
| "on_page ClickPrevious p = click_previous p"
| "on_page ClickNext p = click_next p"
| "on_page ClickReload p = click_reload p"
| "on_page (ClickPost i) p = click_post i p"
| "on_page (ReviewStarted target decision) p =
     (if shown_post p = Some target \<and> \<not> rg_busy p then start_review target decision p else p)"
| "on_page (ReviewAnswered failure) p = review_answered failure p"

text \<open>The answer that the page shows, with the filters it was asked for: the last answer that was taken.\<close>

definition taken :: "page_event \<Rightarrow> review_page \<Rightarrow> (nat \<times> load_params) option \<Rightarrow> (nat \<times> load_params) option" where
  "taken ev p origin =
     (case ev of
        LoadAnswered k (Inr q) \<Rightarrow>
          if k < length (rg_requests p) \<and> fst (rg_requests p ! k) = rg_generation p then Some (rg_requests p ! k)
          else origin
      | _ \<Rightarrow> origin)"

text \<open>The last load that was started, if the event starts one.\<close>

definition last_load :: "review_page \<Rightarrow> review_page \<Rightarrow> nat \<times> load_params \<Rightarrow> nat \<times> load_params" where
  "last_load p p' l = (if length (rg_requests p) < length (rg_requests p') then last (rg_requests p') else l)"

inductive page_step ::
  "review_page \<times> (nat \<times> load_params) option \<times> (nat \<times> load_params) \<Rightarrow>
   review_page \<times> (nat \<times> load_params) option \<times> (nat \<times> load_params) \<Rightarrow> bool" where
  "page_step (p, origin, l) (on_page ev p, taken ev p origin, last_load p (on_page ev p) l)"

definition page_opened :: "review_page \<times> (nat \<times> load_params) option \<times> (nat \<times> load_params) \<Rightarrow> bool" where
  "page_opened x \<longleftrightarrow> x = (first_page, None, (1, page_params first_page))"

abbreviation page_reachable :: "review_page \<times> (nat \<times> load_params) option \<times> (nat \<times> load_params) \<Rightarrow> bool" where
  "page_reachable x \<equiv> reach page_opened page_step x"

end
