(* ===== verification/Client_Review_Spec.thy ===== *)
theory Client_Review_Spec
  imports Client_Review
begin

text \<open>
  The properties of the page of the reviewers: what it shows is the answer to the last load, and a decision that the
  discussion service accepts is about the post as the page shows it. Two runs show where the page falls short.
\<close>

section \<open>The last load\<close>

definition page_ok_with :: "review_page \<times> (nat \<times> load_params) option \<times> (nat \<times> load_params) \<Rightarrow> bool" where
  "page_ok_with x \<longleftrightarrow>
     (case x of (p, origin, l) \<Rightarrow>
        fst l \<le> rg_generation p \<and> (\<forall>r \<in> set (rg_requests p). fst r \<le> fst l \<and> (fst r = fst l \<longrightarrow> r = l)) \<and>
        (\<not> rg_loading p \<and> rg_queue p \<noteq> None \<longrightarrow> origin = Some l))"

lemma page_ok_started:
  assumes "page_ok_with (p, origin, l)" "rg_requests q = rg_requests p" "rg_generation p \<le> rg_generation q"
  shows "page_ok_with (start_load ps q, origin', last_load p (start_load ps q) l)"
  using assms by (fastforce simp: page_ok_with_def start_load_def last_load_def Let_def)

lemma page_ok_finishing:
  "page_ok_with (q\<lparr>rg_finishing := x\<rparr>, origin, last_load p (q\<lparr>rg_finishing := x\<rparr>) l) = page_ok_with (q, origin, last_load p q l)"
  by (simp add: page_ok_with_def last_load_def)

lemma page_ok_kept:
  assumes "page_ok_with (p, origin, l)" "rg_requests q = rg_requests p" "rg_generation p \<le> rg_generation q"
    and "rg_loading q \<or> rg_loading q = rg_loading p \<and> rg_queue q = rg_queue p"
  shows "page_ok_with (q, origin, last_load p q l)"
  using assms by (auto simp: page_ok_with_def last_load_def)

lemma page_ok_rerender:
  assumes "page_ok_with (p, origin, l)" "rg_requests q = rg_requests p" "rg_generation p \<le> rg_generation q"
    and "rg_loading q \<or> rg_loading q = rg_loading p \<and> rg_queue q = rg_queue p"
  shows "page_ok_with (rerender p q, origin, last_load p (rerender p q) l)"
  using page_ok_started[OF assms(1-3)] page_ok_kept[OF assms] by (simp add: rerender_def)

lemma page_ok_answered:
  assumes "page_ok_with (p, origin, l)"
  shows "page_ok_with (load_answered k result p, taken (LoadAnswered k result) p origin, last_load p (load_answered k result p) l)"
proof (cases "k < length (rg_requests p)")
  case True
  obtain c ps where r: "rg_requests p ! k = (c, ps)"
    by (cases "rg_requests p ! k")
  then have "(c, ps) \<in> set (rg_requests p)"
    using True by (metis nth_mem)
  then have c: "c = rg_generation p \<Longrightarrow> l = (c, ps)"
    using assms by (fastforce simp: page_ok_with_def)
  have sub: "set (without_index k (rg_requests p)) \<subseteq> set (rg_requests p)"
    "\<not> length (rg_requests p) < length (without_index k (rg_requests p))"
    using set_without_index[of k "rg_requests p"] length_without_index[of k "rg_requests p"] by (auto simp: not_less)
  have rest: "\<forall>r \<in> set (without_index k (rg_requests p)). fst r \<le> fst l \<and> (fst r = fst l \<longrightarrow> r = l)"
    "fst l \<le> rg_generation p"
    using assms sub(1) unfolding page_ok_with_def by auto
  have old: "\<not> rg_loading p \<and> rg_queue p \<noteq> None \<longrightarrow> origin = Some l"
    using assms by (simp add: page_ok_with_def)
  show ?thesis
    using rest old True c sub(2)
    by (cases "c = rg_generation p"; cases result) (simp_all add: page_ok_with_def load_answered_def taken_def last_load_def r Let_def)
next
  case False
  then show ?thesis
    using assms by (cases result) (auto simp: page_ok_with_def load_answered_def taken_def last_load_def)
qed

interpretation review_page_machine: inductive_invariant page_opened page_step page_ok_with
proof unfold_locales
  fix x
  assume "page_opened x"
  then show "page_ok_with x"
    by (simp add: page_opened_def page_ok_with_def first_page_def start_load_def page_params_def)
next
  fix x y
  assume i: "page_ok_with x" and "page_step x y"
  from this(2) show "page_ok_with y"
  proof (cases rule: page_step.cases)
    case (1 p origin l ev)
    note ok = i[unfolded 1]
    show ?thesis
      unfolding 1
    proof (cases ev)
      case (LoadAnswered k result)
      then show "page_ok_with (on_page ev p, taken ev p origin, last_load p (on_page ev p) l)"
        using page_ok_answered[OF ok] by simp
    next
      case (ReviewAnswered failure)
      show "page_ok_with (on_page ev p, taken ev p origin, last_load p (on_page ev p) l)"
      proof (cases "rg_review p")
        case None
        then show ?thesis
          using page_ok_kept[OF ok, of p] by (simp add: ReviewAnswered taken_def review_answered_def)
      next
        case (Some n)
        obtain notice ps where n: "n = (notice, ps)" by (cases n)
        show ?thesis
        proof (cases failure)
          case None
          let ?q = "start_load ps (p\<lparr>rg_notice := notice, rg_review := None\<rparr>)"
          have "page_ok_with (?q, origin, last_load p ?q l)"
            by (rule page_ok_started[OF ok]) simp_all
          then show ?thesis
            using Some n None page_ok_finishing by (simp add: ReviewAnswered taken_def review_answered_def Let_def)
        next
          case (Some message)
          then show ?thesis
            using \<open>rg_review p = Some n\<close> n page_ok_kept[OF ok, of "p\<lparr>rg_error := message, rg_busy := False, rg_review := None\<rparr>"]
            by (simp add: ReviewAnswered taken_def review_answered_def)
        qed
      qed
    qed (simp add: taken_def click_status_def type_search_def search_timer_def choose_room_def
        click_previous_def click_next_def click_reload_def click_post_def start_review_def,
      (intro impI conjI)?;
      ((rule page_ok_rerender[OF ok]; simp; fail) | (rule page_ok_started[OF ok]; simp; fail) |
       (rule page_ok_kept[OF ok]; simp; fail)))+
  qed
qed

text \<open>
  The post whose details the page shows is one of the queue that answered the last load that was started, however
  the answers overtake each other.
\<close>

theorem page_shows_last_load:
  assumes "page_reachable (p, origin, l)" "shown_post p = Some item"
  shows "origin = Some l \<and> (\<exists>q. rg_queue p = Some q \<and> item \<in> set (pg_data q))"
proof -
  have "page_ok_with (p, origin, l)"
    by (rule review_page_machine.holds[OF assms(1)])
  then show ?thesis
    using assms(2) find_by_Some by (fastforce simp: page_ok_with_def shown_post_def split: if_splits option.splits)
qed

section \<open>Decisions\<close>

lemma decide_click_Some:
  assumes "decide_click decision busy d = (d', Some dto)"
  shows "dto = review_request (dt_item d) decision (dt_note d)" "decision_enabled decision busy d"
    "decision = Allow \<or> trim (dt_note d) \<noteq> ''''"
  using assms by (auto simp: decide_click_def split: if_splits)

lemma those_Some: "those (map f xs) = Some ys \<Longrightarrow> map f xs = map Some ys"
  by (induction xs arbitrary: ys) (auto split: option.splits)

lemma those_None: "those (map f xs) = None \<Longrightarrow> \<exists>x \<in> set xs. f x = None"
  by (induction xs) (auto split: option.splits)

lemma all_clean:
  "(case those (map asked xs) of None \<Rightarrow> False | Some sts \<Rightarrow> list_all (\<lambda>st. st = ''clean'') sts) \<longleftrightarrow>
   (\<forall>i \<in> set xs. asked i = Some ''clean'')"
proof (cases "those (map asked xs)")
  case None
  obtain x where "x \<in> set xs" "asked x = None"
    using those_None[OF None] by blast
  then have "x \<in> set xs" "asked x \<noteq> Some ''clean''"
    by simp_all
  then show ?thesis
    unfolding None option.case by blast
next
  case (Some sts)
  have "(\<forall>i \<in> set xs. asked i = Some ''clean'') \<longleftrightarrow> list_all (\<lambda>y. y = Some ''clean'') (map asked xs)"
    by (simp add: list_all_iff)
  also have "\<dots> \<longleftrightarrow> list_all (\<lambda>st. st = ''clean'') sts"
    by (simp add: those_Some[OF Some] list_all_iff)
  finally show ?thesis
    by (simp add: Some)
qed

lemma answered_checks_append: "answered_checks (evs @ evs') = answered_checks evs @ answered_checks evs'"
  by (induction evs rule: answered_checks.induct) auto

text \<open>The files count as safe when there are none, or when the last check found each of them clean.\<close>

lemma detail_in_use:
  fixes evs item
  defines "d \<equiv> fold on_detail evs (new_detail item)"
  shows "dt_item d = item \<and>
    (dt_filesSafe d \<longleftrightarrow>
       (if answered_checks evs = [] then qe_mediaIds item = []
        else \<forall>i \<in> set (qe_mediaIds item). last (answered_checks evs) i = Some ''clean''))"
  unfolding d_def
proof (induction evs rule: rev_induct)
  case (snoc ev evs)
  then show ?case
    by (cases ev) (auto simp: answered_checks_append files_checked_def all_clean check_again_def decide_click_def)
qed (simp add: new_detail_def)

text \<open>
  C38. When the discussion service accepts a decision of the page, the post was in the state, the version and the text
  that the page showed. A post is allowed only when it has no attachments or when the media service, asked last, had
  each of them scanned and clean; then exactly the text that was shown is published. Any other decision carries a
  reason.
\<close>

theorem review_as_shown:
  assumes "reachable w" "d = fold on_detail evs (new_detail item)" "decide_click decision busy d = (d', Some dto)"
    and "review e ''discussion'' (qe_id item) dto u (database w) = (Inr st, s')"
    and "find_discussion (qe_id item) (database w) = Some post"
  shows "d_moderationStatus post = qe_moderationStatus item \<and>
    d_contentVersion post = qe_contentVersion item \<and> reviewed_content post = qe_content item \<and>
    requires_note dto = Inr () \<and>
    (decision = Allow \<longrightarrow>
      (qe_mediaIds item = [] \<or>
       answered_checks evs \<noteq> [] \<and> (\<forall>i \<in> set (qe_mediaIds item). last (answered_checks evs) i = Some ''clean'')) \<and>
      \<not> dt_checking d \<and>
      (\<exists>post'. find_discussion (qe_id item) s' = Some post' \<and> d_content post' = qe_content item \<and>
         d_moderationStatus post' = Approved \<and> d_visibility post' = Visible))"
proof -
  note used = detail_in_use[of evs item, folded assms(2)]
  note dto = decide_click_Some[OF assms(3), unfolded used[THEN conjunct1]]
  have "distinct (map m_key (memberships (database w)))"
    using reachable_rooms_inv [OF assms(1)] by (simp add: rooms_inv_def rooms_ok_def rooms_keyed_def)
  note r = review_result [OF reachable_post_inv [OF assms(1)] this assms(4,5)]
  have u: "d_moderationStatus post = qe_moderationStatus item" "d_contentVersion post = qe_contentVersion item"
    "reviewed_content post = qe_content item"
    using r(2) by (simp_all add: unchanged_since_def dto(1) review_request_def)
  moreover have "requires_note dto = Inr ()"
    using dto(1,3) by (auto simp: requires_note_def review_request_def returns)
  moreover have "(qe_mediaIds item = [] \<or>
       answered_checks evs \<noteq> [] \<and> (\<forall>i \<in> set (qe_mediaIds item). last (answered_checks evs) i = Some ''clean'')) \<and>
      \<not> dt_checking d \<and>
      (\<exists>post'. find_discussion (qe_id item) s' = Some post' \<and> d_content post' = qe_content item \<and>
         d_moderationStatus post' = Approved \<and> d_visibility post' = Visible)" if "decision = Allow"
  proof -
    have e: "qe_moderationStatus item = Pending" "dt_filesSafe d" "\<not> dt_checking d"
      using dto(2) that used by (simp_all add: decision_enabled_def)
    have "d_content (review_outcome dto post) = reviewed_content post"
      "d_moderationStatus (review_outcome dto post) = Approved" "d_visibility (review_outcome dto post) = Visible"
      using e(1) u(1) that dto(1)
      by (auto simp: review_outcome_def review_request_def reviewed_content_def draft_of_def Let_def split: option.splits)
    then show ?thesis
      using e used r(5) u(3) by (auto split: if_splits)
  qed
  ultimately show ?thesis
    by blast
qed

section \<open>Where the page falls short\<close>

text \<open>
  A click on the tab that is open already leaves the page loading without a load under way, and the button that
  loads again is disabled.
\<close>

definition empty_queue :: "queue_entry page" where
  "empty_queue = \<lparr>pg_data = [], pg_page = 1, pg_limit = 30, pg_totalItems = 0, pg_totalPages = 1\<rparr>"

lemma same_tab_hangs:
  "let p = fold on_page [LoadAnswered 0 (Inr empty_queue), ClickStatus Pending] first_page in
   rg_loading p \<and> rg_requests p = [] \<and> click_reload p = p"
  by code_simp

definition held_entry :: queue_entry where
  "held_entry =
     \<lparr>qe_id = ''held'', qe_title = ''A held post'', qe_content = ''Where do the invariants hold?'', qe_contentVersion = 2,
      qe_author = None, qe_authorId = Some ''bob'', qe_isAnonymous = False, qe_roomId = None, qe_roomName = ''Hall'',
      qe_moderationStatus = Pending, qe_visibility = Visible, qe_isRevision = True, qe_moderationNote = '''',
      qe_mediaIds = [], qe_reviews = []\<rparr>"

text \<open>
  The load behind a decision takes the filters of the click. When the timer of the search fires in between, the page
  shows the answer for the old search under the new one.
\<close>

lemma search_overtaken:
  "let p = fold on_page
      [LoadAnswered 0 (Inr (empty_queue\<lparr>pg_data := [held_entry]\<rparr>)), ClickPost ''held'', TypeSearch ''x'',
       ReviewStarted held_entry Hide, SearchTimer, ReviewAnswered None] first_page in
   rg_query p = ''x'' \<and> rg_generation p = 4 \<and>
   rg_requests p = [(3, (Pending, 1, '''', ''x'')), (4, (Pending, 1, '''', ''''))]"
  by code_simp

section \<open>Runs on concrete data\<close>

lemma page_reachable_event:
  "page_reachable (p, origin, l) \<Longrightarrow> page_reachable (on_page ev p, taken ev p origin, last_load p (on_page ev p) l)"
  by (rule reach.stepped) (auto intro: page_step.intros)

theorem page_shows_last_load_witness:
  "shown_post (on_page (ClickPost ''held'') (on_page (LoadAnswered 0 (Inr (empty_queue\<lparr>pg_data := [held_entry]\<rparr>))) first_page)) =
     Some held_entry \<and> held_entry \<in> set [held_entry]"
proof -
  let ?ev = "LoadAnswered 0 (Inr (empty_queue\<lparr>pg_data := [held_entry]\<rparr>))"
  let ?p = "on_page (ClickPost ''held'') (on_page ?ev first_page)"
  obtain origin l where "page_reachable (?p, origin, l)"
    using page_reachable_event[OF page_reachable_event[OF reach.started[where start = page_opened]]]
    by (metis page_opened_def)
  moreover have "shown_post ?p = Some held_entry" "rg_queue ?p = Some (empty_queue\<lparr>pg_data := [held_entry]\<rparr>)"
    by code_simp+
  ultimately show ?thesis
    using page_shows_last_load[of ?p origin l held_entry] by simp
qed

theorem review_as_shown_witness:
  "\<exists>post'. find_discussion ''held'' (snd (review (sample_env ''review'' 9) ''discussion'' ''held''
       (review_request held_entry Allow '''') eve (database hall8))) = Some post' \<and>
     d_content post' = ''Where do the invariants hold?''"
proof -
  let ?evs = "[FilesChecked (\<lambda>_. None), CheckAgain, FilesChecked (\<lambda>_. Some ''clean'')]"
  let ?d = "fold on_detail ?evs (new_detail held_entry)" and ?dto = "review_request held_entry Allow ''''"
  let ?r = "review (sample_env ''review'' 9) ''discussion'' (qe_id held_entry) ?dto eve (database hall8)"
  have "snd (decide_click Allow False ?d) = Some ?dto"
    by code_simp
  then obtain d' where click: "decide_click Allow False ?d = (d', Some ?dto)"
    by (metis prod.collapse)
  have "\<not> isl (fst ?r)" by code_simp
  then obtain st s' where r: "?r = (Inr st, s')" by (rule Inr_pairE)
  have entry: "qe_id held_entry = ''held''" "qe_content held_entry = ''Where do the invariants hold?''"
    by (simp_all add: held_entry_def)
  have "find_discussion (qe_id held_entry) (database hall8) = Some hall_post"
    unfolding entry by (rule hall8_found(4))
  from review_as_shown[OF reachable_halls(8) refl click r this] obtain post' where
    "find_discussion (qe_id held_entry) s' = Some post'" "d_content post' = qe_content held_entry"
    by blast
  then show ?thesis
    using r unfolding entry by simp
qed

text \<open>With attachments, a post can be allowed only behind a check that found all of them clean.\<close>

lemma checks_of_files:
  "map (\<lambda>evs. snd (decide_click Allow False (fold on_detail evs (new_detail (held_entry\<lparr>qe_mediaIds := [''m1'', ''m2'']\<rparr>)))) \<noteq> None)
     [[], [FilesChecked (\<lambda>_. Some ''infected'')], [FilesChecked (\<lambda>i. if i = ''m1'' then Some ''clean'' else None)],
      [FilesChecked (\<lambda>_. Some ''clean'')], [FilesChecked (\<lambda>_. Some ''clean''), FilesChecked (\<lambda>_. None)]] =
   [False, False, False, True, False]"
  by code_simp

end
