(* ===== verification/Client_Feed.thy ===== *)
theory Client_Feed
  imports Content_Policy Machines
begin

text \<open>
  What the pages of the web client share (\<open>frontend/src\<close>): the feed of posts with its filters in the address
  (\<open>app/(app)/_components/Feed.tsx\<close>), the selected room (\<open>lib/rooms/context.tsx\<close>), short messages
  (\<open>lib/toast/context.tsx\<close>) and the dialog in front of external links (\<open>components/shared/LinkSafety.tsx\<close>).
\<close>

section \<open>The feed\<close>

text \<open>\<open>URLSearchParams\<close>: \<open>set\<close> overwrites the first value of a key and removes the others.\<close>

type_synonym search_params = "(string \<times> string) list"

fun params_set :: "string \<Rightarrow> string \<Rightarrow> search_params \<Rightarrow> search_params" where
  "params_set k v [] = [(k, v)]"
| "params_set k v ((k', w) # ps) =
     (if k' = k then (k, v) # filter (\<lambda>p. fst p \<noteq> k) ps else (k', w) # params_set k v ps)"

definition params_delete :: "string \<Rightarrow> search_params \<Rightarrow> search_params" where
  "params_delete k ps = filter (\<lambda>p. fst p \<noteq> k) ps"

definition updateParam :: "string \<Rightarrow> string \<Rightarrow> search_params \<Rightarrow> search_params" where
  "updateParam key val ps =
     params_delete ''page'' (if val \<noteq> '''' then params_set key val ps else params_delete key ps)"

record feed_query =
  fq_roomId :: uuid
  fq_search :: "string option"
  fq_tag :: "string option"
  fq_sort :: string
  fq_postType :: "string option"
  fq_page :: string

text \<open>The request for a list of posts; the page is the text from the address.\<close>

definition feed_query_of :: "uuid \<Rightarrow> string option \<Rightarrow> string option \<Rightarrow> search_params \<Rightarrow> feed_query" where
  "feed_query_of room fixedTag fixedPostType ps =
     \<lparr>fq_roomId = room, fq_search = truthy (map_of ps ''search''),
      fq_tag = truthy (or_opt fixedTag (map_of ps ''tag'')), fq_sort = or_else (map_of ps ''sort'') ''newest'',
      fq_postType = truthy (or_opt fixedPostType (map_of ps ''type'')), fq_page = or_else (map_of ps ''page'') ''1''\<rparr>"

lemma map_of_filter_other: "map_of (filter (\<lambda>p. fst p \<noteq> k) ps) k' = (if k' = k then None else map_of ps k')"
  by (induction ps) auto

lemma map_of_params_set: "map_of (params_set k v ps) k' = (if k' = k then Some v else map_of ps k')"
  by (induction k v ps rule: params_set.induct) (auto simp: map_of_filter_other)

text \<open>
  A change of a filter keeps the other filters and returns to the first page; and so do the buttons for the pages,
  which change the filter \<open>page\<close>: the feed never leaves its first page by them.
\<close>

lemma feed_stays_on_first_page:
  "fq_page (feed_query_of room fixedTag fixedPostType (updateParam key val ps)) = ''1''"
  "k \<noteq> key \<Longrightarrow> k \<noteq> ''page'' \<Longrightarrow> map_of (updateParam key val ps) k = map_of ps k"
  "key \<noteq> ''page'' \<Longrightarrow> map_of (updateParam key val ps) key = truthy (Some val)"
  by (simp_all add: feed_query_of_def updateParam_def params_delete_def map_of_filter_other map_of_params_set truthy_def)

text \<open>
  The loads of the feed are not numbered: whatever answer comes last is shown.
\<close>

record 'a feed =
  fe_data :: "'a option"
  fe_loading :: bool
  fe_error :: "string option"

definition fetch_started :: "'a feed \<Rightarrow> 'a feed" where
  "fetch_started f = f\<lparr>fe_loading := True, fe_error := None\<rparr>"

definition fetch_answered :: "'a option \<Rightarrow> 'a feed \<Rightarrow> 'a feed" where
  "fetch_answered result f =
     (case result of
        Some d \<Rightarrow> f\<lparr>fe_data := Some d, fe_loading := False\<rparr>
      | None \<Rightarrow> f\<lparr>fe_error := Some ''Khong the tai bai dang. Vui long thu lai.'', fe_loading := False\<rparr>)"

lemma feed_shows_last_answer:
  "fetch_answered (Some old) (fetch_answered (Some new) (fetch_started (fetch_started f))) =
     f\<lparr>fe_data := Some old, fe_loading := False, fe_error := None\<rparr>"
  by (simp add: fetch_answered_def fetch_started_def)

section \<open>The selected room\<close>

record room_item =
  ri_id :: uuid
  ri_active :: bool

record room_state =
  rs_rooms :: "room_item list"
  rs_selectedRoom :: "room_item option"
  rs_loading :: bool
  rs_error :: "string option"
  rs_stored :: "string option"

definition refresh_rooms :: "room_item list option \<Rightarrow> room_state \<Rightarrow> room_state" where
  "refresh_rooms result s =
     (case result of
        None \<Rightarrow> s\<lparr>rs_error := Some ''Khong tai duoc danh sach room.'', rs_loading := False\<rparr>
      | Some listed \<Rightarrow>
          let selected = find_by (\<lambda>r. Some (ri_id r) = rs_stored s \<and> ri_active r) listed in
          s\<lparr>rs_rooms := listed, rs_error := None, rs_selectedRoom := selected,
            rs_stored := (if truthy (rs_stored s) \<noteq> None \<and> selected = None then None else rs_stored s),
            rs_loading := False\<rparr>)"

definition selectRoom :: "room_item \<Rightarrow> room_state \<Rightarrow> room_state" where
  "selectRoom r s = s\<lparr>rs_stored := Some (ri_id r), rs_selectedRoom := Some r\<rparr>"

lemma refresh_selects:
  assumes "refresh_rooms (Some listed) s = s'"
  shows "rs_selectedRoom s' = Some r \<Longrightarrow> r \<in> set listed \<and> ri_active r \<and> rs_stored s' = Some (ri_id r)"
    "rs_selectedRoom s' = None \<Longrightarrow> truthy (rs_stored s') = None"
  using assms
  by (auto simp: refresh_rooms_def Let_def truthy_def split: if_splits option.splits dest: find_by_Some) (auto dest!: find_by_Some)

section \<open>Short messages\<close>

record toast_item =
  to_id :: nat
  to_kind :: string
  to_title :: string
  to_detail :: "string option"

record toasts =
  ts_items :: "toast_item list"
  ts_sequence :: nat
  ts_timers :: "nat list"

definition dismiss_toast :: "nat \<Rightarrow> toasts \<Rightarrow> toasts" where
  "dismiss_toast i s =
     s\<lparr>ts_timers := filter (\<lambda>t. t \<noteq> i) (ts_timers s), ts_items := filter (\<lambda>x. to_id x \<noteq> i) (ts_items s)\<rparr>"

definition push_toast :: "string \<Rightarrow> string \<Rightarrow> string option \<Rightarrow> toasts \<Rightarrow> toasts" where
  "push_toast kind title detail s =
     (let i = Suc (ts_sequence s) in
      s\<lparr>ts_sequence := i,
        ts_items := drop (length (ts_items s) - 3) (ts_items s) @
          [\<lparr>to_id = i, to_kind = kind, to_title = title, to_detail = detail\<rparr>],
        ts_timers := ts_timers s @ [i]\<rparr>)"

inductive toast_step :: "toasts \<Rightarrow> toasts \<Rightarrow> bool" where
  "toast_step s (push_toast kind title detail s)"
| "toast_step s (dismiss_toast i s)"

definition no_toasts :: "toasts \<Rightarrow> bool" where
  "no_toasts s \<longleftrightarrow> s = \<lparr>ts_items = [], ts_sequence = 0, ts_timers = []\<rparr>"

text \<open>At most four messages are shown, each once, and each has a timer that dismisses it.\<close>

definition toasts_ok :: "toasts \<Rightarrow> bool" where
  "toasts_ok s \<longleftrightarrow>
     length (ts_items s) \<le> 4 \<and> distinct (map to_id (ts_items s)) \<and>
     (\<forall>x \<in> set (ts_items s). to_id x \<le> ts_sequence s \<and> to_id x \<in> set (ts_timers s))"

interpretation toast_machine: inductive_invariant no_toasts toast_step toasts_ok
proof unfold_locales
  fix s s'
  assume ok: "toasts_ok s" and "toast_step s s'"
  from this(2) show "toasts_ok s'"
  proof cases
    case (1 kind title detail)
    let ?kept = "drop (length (ts_items s) - 3) (ts_items s)"
    have "distinct (map to_id ?kept)" "set ?kept \<subseteq> set (ts_items s)"
      using ok by (auto simp: toasts_ok_def distinct_drop set_drop_subset simp flip: drop_map)
    then show ?thesis
      using ok by (fastforce simp: toasts_ok_def 1 push_toast_def Let_def)
  next
    case (2 i)
    then show ?thesis
      using ok le_trans[OF length_filter_le, of "ts_items s" 4]
      by (auto simp: toasts_ok_def dismiss_toast_def distinct_map_filter)
  qed
qed (simp add: no_toasts_def toasts_ok_def)

section \<open>External links\<close>

text \<open>
  A question to the reader, with its links, and its answers by the number of the question. \<open>send\<close> and \<open>open\<close> differ
  in the texts of the dialog only.
\<close>

record link_dialog =
  ld_request :: "(string list \<times> bool) option"
  ld_resolve :: "nat option"
  ld_asked :: "string list list"
  ld_answers :: "(nat \<times> bool) list"
  ld_confirmed :: "string list list"

definition resolve_question :: "bool \<Rightarrow> link_dialog \<Rightarrow> link_dialog" where
  "resolve_question allowed s =
     s\<lparr>ld_answers := ld_answers s @ (case ld_resolve s of None \<Rightarrow> [] | Some n \<Rightarrow> [(n, allowed)]), ld_resolve := None\<rparr>"

definition ask_links :: "string list \<Rightarrow> bool \<Rightarrow> link_dialog \<Rightarrow> link_dialog" where
  "ask_links links send s =
     (let n = length (ld_asked s); s1 = s\<lparr>ld_asked := ld_asked s @ [links]\<rparr> in
      if links = [] then s1\<lparr>ld_answers := ld_answers s @ [(n, True)]\<rparr>
      else (resolve_question False s1)\<lparr>ld_request := Some (links, send), ld_resolve := Some n\<rparr>)"

text \<open>A button of the dialog, which is there while a request is shown; \<open>ld_confirmed\<close> records what the reader confirmed.\<close>

definition finish_links :: "bool \<Rightarrow> link_dialog \<Rightarrow> link_dialog" where
  "finish_links allowed s =
     (case ld_request s of
        None \<Rightarrow> s
      | Some (links, _) \<Rightarrow>
          (resolve_question allowed s)
            \<lparr>ld_request := None,
             ld_confirmed := (if allowed then ld_confirmed s @ [links] else ld_confirmed s)\<rparr>)"

inductive link_step :: "link_dialog \<Rightarrow> link_dialog \<Rightarrow> bool" where
  "link_step s (ask_links links send s)"
| "link_step s (finish_links allowed s)"
| "link_step s (resolve_question False s)"

definition no_questions :: "link_dialog \<Rightarrow> bool" where
  "no_questions s \<longleftrightarrow>
     s = \<lparr>ld_request = None, ld_resolve = None, ld_asked = [], ld_answers = [], ld_confirmed = []\<rparr>"

definition links_ok :: "link_dialog \<Rightarrow> bool" where
  "links_ok s \<longleftrightarrow>
     (\<forall>n. ld_resolve s = Some n \<longrightarrow> n < length (ld_asked s) \<and> n \<notin> fst ` set (ld_answers s) \<and>
        (\<exists>send. ld_request s = Some (ld_asked s ! n, send))) \<and>
     distinct (map fst (ld_answers s)) \<and>
     (\<forall>(n, allowed) \<in> set (ld_answers s). n < length (ld_asked s) \<and>
        (allowed \<longrightarrow> ld_asked s ! n = [] \<or> ld_asked s ! n \<in> set (ld_confirmed s)))"

lemma links_ok_resolve: "links_ok s \<Longrightarrow> links_ok (resolve_question False s)"
  by (auto simp: links_ok_def resolve_question_def split: option.splits)

lemma links_ok_asked: "links_ok s \<Longrightarrow> links_ok (s\<lparr>ld_asked := ld_asked s @ [links]\<rparr>)"
  by (fastforce simp: links_ok_def nth_append)

interpretation link_machine: inductive_invariant no_questions link_step links_ok
proof unfold_locales
  fix s s'
  assume ok: "links_ok s" and "link_step s s'"
  from this(2) show "links_ok s'"
  proof cases
    case (1 links send)
    have asked: "links_ok (s\<lparr>ld_asked := ld_asked s @ [links]\<rparr>)"
      by (rule links_ok_asked[OF ok])
    have fresh: "length (ld_asked s) \<notin> fst ` set (ld_answers s)" "ld_resolve s \<noteq> Some (length (ld_asked s))"
      using ok by (fastforce simp: links_ok_def)+
    show ?thesis
    proof (cases "links = []")
      case True
      then show ?thesis
        using asked fresh by (auto simp: 1 ask_links_def links_ok_def Let_def nth_append)
    next
      case False
      have "links_ok (resolve_question False (s\<lparr>ld_asked := ld_asked s @ [links]\<rparr>))"
        by (rule links_ok_resolve[OF asked])
      then show ?thesis
        using False fresh by (auto simp: 1 ask_links_def links_ok_def Let_def resolve_question_def nth_append split: option.splits)
    qed
  next
    case (2 allowed)
    then show ?thesis
      using ok by (fastforce simp: finish_links_def links_ok_def resolve_question_def split: option.splits)
  next
    case 3
    then show ?thesis
      using links_ok_resolve[OF ok] by simp
  qed
qed (simp add: no_questions_def links_ok_def)

text \<open>Every question is answered at most once, and with yes only when it names no link or the reader confirmed its links.\<close>

lemma links_confirmed:
  assumes "reach no_questions link_step s" "(n, True) \<in> set (ld_answers s)"
  shows "ld_asked s ! n = [] \<or> ld_asked s ! n \<in> set (ld_confirmed s)"
  using link_machine.holds[OF assms(1)] assms(2) by (auto simp: links_ok_def)

end
