(* ===== verification/Client_Post.thy ===== *)
theory Client_Post
  imports Sample_Cases
begin

text \<open>
  The page of a post of the web client (\<open>frontend/src/app/(app)/posts/[id]/page.tsx\<close>) with the answers of a question
  (\<open>components/academic/AnswerList.tsx\<close>) and the threads of comments (\<open>components/academic/CommentThread.tsx\<close>).
  The dialog in front of external links is modal: whether the writer confirmed is part of the event.
\<close>

section \<open>The page\<close>

datatype page_action = Saving | Replying | Refreshing | Deleting

record post_page =
  pp_post :: "post_view option"
  pp_error :: string
  pp_text :: string
  pp_anonymous :: bool
  pp_busy :: bool
  pp_version :: nat
  pp_editing :: bool
  pp_title :: string
  pp_content :: string
  pp_typedTitle :: bool
  pp_typedContent :: bool
  pp_replyOpen :: bool
  pp_action :: "page_action option"

definition new_page :: post_page where
  "new_page =
     \<lparr>pp_post = None, pp_error = '''', pp_text = '''', pp_anonymous = False, pp_busy = False, pp_version = 0,
      pp_editing = False, pp_title = '''', pp_content = '''', pp_typedTitle = False, pp_typedContent = False,
      pp_replyOpen = False, pp_action = None\<rparr>"

text \<open>The first load, and the load when another user signs in.\<close>

definition post_loaded :: "string + post_view \<Rightarrow> post_page \<Rightarrow> post_page" where
  "post_loaded result p =
     (case result of Inr post \<Rightarrow> p\<lparr>pp_post := Some post, pp_error := ''''\<rparr> | Inl message \<Rightarrow> p\<lparr>pp_error := message\<rparr>)"

text \<open>\<open>refresh\<close>, behind an action of the page or as \<open>onChange\<close> of a list.\<close>

definition refreshed :: "post_view \<Rightarrow> post_page \<Rightarrow> post_page" where
  "refreshed post p = p\<lparr>pp_post := Some post, pp_version := pp_version p + 1\<rparr>"

definition refresh_ended :: "string + post_view \<Rightarrow> post_page \<Rightarrow> post_page" where
  "refresh_ended result p =
     (if pp_action p = Some Refreshing
      then
        (case result of
           Inr post \<Rightarrow> (refreshed post p)\<lparr>pp_busy := False, pp_action := None\<rparr>
         | Inl message \<Rightarrow> p\<lparr>pp_error := message, pp_busy := False, pp_action := None\<rparr>)
      else p)"

text \<open>What \<open>act\<close> does before its request and after the answer.\<close>

definition start_act :: "page_action \<Rightarrow> post_page \<Rightarrow> post_page" where
  "start_act action p = p\<lparr>pp_busy := True, pp_error := '''', pp_action := Some action\<rparr>"

definition act_answered :: "string option \<Rightarrow> post_page \<Rightarrow> post_page" where
  "act_answered failure p =
     (case (pp_action p, failure) of
        (Some Saving, None) \<Rightarrow> p\<lparr>pp_editing := False, pp_action := Some Refreshing\<rparr>
      | (Some Replying, None) \<Rightarrow> p\<lparr>pp_text := '''', pp_replyOpen := False, pp_action := Some Refreshing\<rparr>
      | (Some Saving, Some message) \<Rightarrow> p\<lparr>pp_error := message, pp_busy := False, pp_action := None\<rparr>
      | (Some Replying, Some message) \<Rightarrow> p\<lparr>pp_error := message, pp_busy := False, pp_action := None\<rparr>
      | (Some Deleting, Some message) \<Rightarrow> p\<lparr>pp_error := message, pp_busy := False, pp_action := None\<rparr>
      | _ \<Rightarrow> p)"

section \<open>Editing and deleting\<close>

definition click_edit :: "post_page \<Rightarrow> post_page" where
  "click_edit p =
     (case pp_post p of
        Some (post, _) \<Rightarrow>
          if p_canManage post \<and> \<not> pp_busy p \<and> pb_status (p_body post) \<noteq> Closed
          then p\<lparr>pp_editing := True,
                 pp_title := or_else (map_option pr_title (p_pendingRevision post)) (pb_title (p_body post)),
                 pp_content := or_else (map_option pr_content (p_pendingRevision post)) (p_content post),
                 pp_typedTitle := False, pp_typedContent := False\<rparr>
          else p
      | None \<Rightarrow> p)"

text \<open>The browser cuts what is typed to the maximal length, and wants the minimal length of typed texts.\<close>

definition type_title :: "string \<Rightarrow> post_page \<Rightarrow> post_page" where
  "type_title t p = p\<lparr>pp_title := take 300 t, pp_typedTitle := True\<rparr>"

definition type_content :: "string \<Rightarrow> post_page \<Rightarrow> post_page" where
  "type_content t p = p\<lparr>pp_content := take 100000 t, pp_typedContent := True\<rparr>"

definition edit_form_valid :: "post_page \<Rightarrow> bool" where
  "edit_form_valid p =
     (pp_title p \<noteq> '''' \<and> (pp_typedTitle p \<longrightarrow> 10 \<le> length (pp_title p)) \<and>
      pp_content p \<noteq> '''' \<and> (pp_typedContent p \<longrightarrow> 20 \<le> length (pp_content p)))"

definition edit_request :: "post_page \<Rightarrow> post_body presented \<Rightarrow> update_discussion_dto" where
  "edit_request p post =
     \<lparr>ud_expectedVersion = Some (pb_contentVersion (p_body post)), ud_revisionType = None,
      ud_title = Some (pp_title p), ud_content = Some (pp_content p), ud_tagIds = None, ud_mediaIds = None,
      ud_isAnonymous = None\<rparr>"

text \<open>Without a confirmation nothing is sent, and \<open>act\<close> refreshes the page.\<close>

definition submit_edit :: "bool \<Rightarrow> post_page \<Rightarrow> post_page \<times> update_discussion_dto option" where
  "submit_edit confirmed p =
     (case pp_post p of
        Some (post, _) \<Rightarrow>
          if \<not> pp_editing p \<or> pp_busy p \<or> \<not> edit_form_valid p then (p, None)
          else if \<not> confirmed then (start_act Refreshing p, None)
          else (start_act Saving p, Some (edit_request p post))
      | None \<Rightarrow> (p, None))"

definition click_delete :: "bool \<Rightarrow> post_page \<Rightarrow> post_page \<times> uuid option" where
  "click_delete confirmed p =
     (case pp_post p of
        Some (post, _) \<Rightarrow>
          if p_canManage post \<and> \<not> pp_busy p \<and> confirmed
          then (p\<lparr>pp_busy := True, pp_action := Some Deleting\<rparr>, Some (p_id post)) else (p, None)
      | None \<Rightarrow> (p, None))"

section \<open>Replying\<close>

definition canReply :: "bool \<Rightarrow> post_body presented \<Rightarrow> bool" where
  "canReply isAuthenticated post =
     (isAuthenticated \<and> pb_status (p_body post) \<noteq> Closed \<and> p_moderationStatus post \<in> set [Pending, Approved] \<and>
      p_visibility post = Visible)"

definition type_reply :: "string \<Rightarrow> post_page \<Rightarrow> post_page" where
  "type_reply t p = p\<lparr>pp_text := take 20000 t\<rparr>"

definition cancel_reply :: "post_page \<Rightarrow> post_page" where
  "cancel_reply p = p\<lparr>pp_replyOpen := False, pp_text := ''''\<rparr>"

datatype reply_request = AnswerRequest create_answer_dto | CommentRequest create_comment_dto

definition reply_payload :: "post_page \<Rightarrow> post_body presented \<Rightarrow> reply_request" where
  "reply_payload p post =
     (if pb_postType (p_body post) = Question
      then AnswerRequest \<lparr>na_content = trim (pp_text p), na_isAnonymous = Some (pp_anonymous p)\<rparr>
      else CommentRequest \<lparr>nc_content = trim (pp_text p), nc_parentCommentId = None,
                           nc_isAnonymous = Some (pp_anonymous p)\<rparr>)"

definition submit_reply :: "bool \<Rightarrow> bool \<Rightarrow> post_page \<Rightarrow> post_page \<times> reply_request option" where
  "submit_reply isAuthenticated confirmed p =
     (case pp_post p of
        Some (post, _) \<Rightarrow>
          if \<not> canReply isAuthenticated post \<or> \<not> pp_replyOpen p \<or> pp_busy p \<or> trim (pp_text p) = '''' then (p, None)
          else if \<not> confirmed then (start_act Refreshing p, None)
          else (start_act Replying p, Some (reply_payload p post))
      | None \<Rightarrow> (p, None))"

section \<open>The answers of a question\<close>

record answer_list =
  al_answers :: "(reply_body presented \<times> bool) list"
  al_error :: string
  al_busyId :: "uuid option"

definition answers_loaded :: "string + (reply_body presented \<times> bool) list \<Rightarrow> answer_list \<Rightarrow> answer_list" where
  "answers_loaded result l =
     (case result of Inr listed \<Rightarrow> l\<lparr>al_answers := listed, al_error := ''''\<rparr> | Inl message \<Rightarrow> l\<lparr>al_error := message\<rparr>)"

text \<open>The button of an answer and its click. A version 0 counts as no version.\<close>

definition accept_offered :: "post_body presented \<Rightarrow> reply_body presented \<times> bool \<Rightarrow> bool" where
  "accept_offered post ans =
     (snd ans \<and> pb_acceptedAnswerId (p_body post) \<noteq> Some (p_id (fst ans)) \<and> pb_status (p_body post) \<noteq> Closed)"

definition accept_click ::
  "post_body presented \<Rightarrow> reply_body presented \<times> bool \<Rightarrow> answer_list \<Rightarrow> answer_list \<times> accept_answer_dto option" where
  "accept_click post ans l =
     (if \<not> accept_offered post ans \<or> al_busyId l = Some (p_id (fst ans)) \<or> pb_contentVersion (p_body post) = 0
      then (l, None)
      else
        (l\<lparr>al_busyId := Some (p_id (fst ans))\<rparr>,
         Some \<lparr>aa_answerId = p_id (fst ans), aa_expectedQuestionVersion = pb_contentVersion (p_body post),
               aa_expectedAnswerVersion = or_else (rb_contentVersion (p_body (fst ans))) 0\<rparr>))"

definition accept_ended :: "string option \<Rightarrow> answer_list \<Rightarrow> answer_list" where
  "accept_ended failure l =
     (case failure of None \<Rightarrow> l\<lparr>al_busyId := None\<rparr> | Some message \<Rightarrow> l\<lparr>al_error := message, al_busyId := None\<rparr>)"

section \<open>A thread of comments\<close>

record comment_thread =
  ct_parentId :: "uuid option"
  ct_items :: "comment_view list"
  ct_page :: nat
  ct_pages :: nat
  ct_error :: string
  ct_loading :: bool
  ct_version :: nat
  ct_active :: nat
  ct_requests :: "(nat \<times> nat) list"

text \<open>The effect: it loads the page of the moment, and answers to older loads are ignored from then on.\<close>

definition load_comments :: "comment_thread \<Rightarrow> comment_thread" where
  "load_comments t =
     t\<lparr>ct_active := Suc (ct_active t), ct_requests := ct_requests t @ [(Suc (ct_active t), ct_page t)]\<rparr>"

definition new_thread :: "uuid option \<Rightarrow> nat \<Rightarrow> comment_thread" where
  "new_thread parent version =
     load_comments
       \<lparr>ct_parentId = parent, ct_items = [], ct_page = 1, ct_pages = 1, ct_error = '''', ct_loading = True,
        ct_version = version, ct_active = 0, ct_requests = []\<rparr>"

definition comments_loaded :: "nat \<Rightarrow> string + comment_view page \<Rightarrow> comment_thread \<Rightarrow> comment_thread" where
  "comments_loaded k result t =
     (if k < length (ct_requests t)
      then
        let (n, _) = ct_requests t ! k; t1 = t\<lparr>ct_requests := without_index k (ct_requests t)\<rparr> in
        (if n = ct_active t
         then
           (case result of
              Inr q \<Rightarrow> t1\<lparr>ct_items := pg_data q, ct_pages := pg_totalPages q, ct_error := '''', ct_loading := False\<rparr>
            | Inl message \<Rightarrow> t1\<lparr>ct_error := message, ct_loading := False\<rparr>)
         else t1)
      else t)"

definition previous_comments :: "comment_thread \<Rightarrow> comment_thread" where
  "previous_comments t =
     (if ct_pages t \<le> 1 \<or> ct_page t = 1 then t else load_comments (t\<lparr>ct_page := ct_page t - 1\<rparr>))"

definition next_comments :: "comment_thread \<Rightarrow> comment_thread" where
  "next_comments t =
     (if ct_pages t \<le> 1 \<or> ct_pages t \<le> ct_page t then t else load_comments (t\<lparr>ct_page := ct_page t + 1\<rparr>))"

definition page_refreshed :: "nat \<Rightarrow> comment_thread \<Rightarrow> comment_thread" where
  "page_refreshed version t = (if version = ct_version t then t else load_comments (t\<lparr>ct_version := version\<rparr>))"

text \<open>
  What is shown: an accepted comment stands first on the first page. Of the two kinds of accepted answers comments
  alone have a member \<open>parentCommentId\<close>; they have no version. A comment has more members when a list shows it.
\<close>

definition legacyAcceptedAnswer :: "post_view \<Rightarrow> reply_body presented option" where
  "legacyAcceptedAnswer post =
     (case snd post of
        Some a \<Rightarrow> if rb_contentVersion (p_body a) = None then Some a else None
      | None \<Rightarrow> None)"

definition displayed :: "post_view \<Rightarrow> comment_thread \<Rightarrow> (reply_body presented \<times> comment_view option) list" where
  "displayed post t =
     (let listed = map (\<lambda>v. (cv_item v, Some v)) (ct_items t) in
      case legacyAcceptedAnswer post of
        Some a \<Rightarrow>
          if ct_parentId t = None \<and> ct_page t = 1
          then (a, None) # filter (\<lambda>x. p_id (fst x) \<noteq> p_id a) listed else listed
      | None \<Rightarrow> listed)"

section \<open>An entry of a thread\<close>

datatype entry_mode = ReplyMode | EditMode

record comment_entry =
  ce_item :: comment_view
  ce_expanded :: bool
  ce_mode :: "entry_mode option"
  ce_text :: string
  ce_anonymous :: bool
  ce_busy :: bool
  ce_error :: string

definition new_entry :: "comment_view \<Rightarrow> comment_entry" where
  "new_entry item =
     \<lparr>ce_item = item, ce_expanded = False, ce_mode = None, ce_text = '''', ce_anonymous = False, ce_busy = False,
      ce_error = ''''\<rparr>"

definition open_entry :: "post_body presented \<Rightarrow> comment_entry \<Rightarrow> bool" where
  "open_entry post c = (p_deletedAt (cv_item (ce_item c)) = None \<and> pb_status (p_body post) \<noteq> Closed)"

definition click_reply :: "bool \<Rightarrow> post_body presented \<Rightarrow> comment_entry \<Rightarrow> comment_entry" where
  "click_reply isAuthenticated post c =
     (if open_entry post c \<and> isAuthenticated \<and> \<not> ce_busy c then c\<lparr>ce_mode := Some ReplyMode, ce_text := ''''\<rparr> else c)"

definition edit_offered :: "post_body presented \<Rightarrow> comment_entry \<Rightarrow> bool" where
  "edit_offered post c = (open_entry post c \<and> cv_canManage (ce_item c) \<and> \<not> ce_busy c)"

definition click_edit_comment :: "post_body presented \<Rightarrow> comment_entry \<Rightarrow> comment_entry" where
  "click_edit_comment post c =
     (if edit_offered post c
      then c\<lparr>ce_mode := Some EditMode, ce_text := p_content (cv_item (ce_item c))\<rparr> else c)"

definition comment_accept_offered :: "post_body presented \<Rightarrow> comment_entry \<Rightarrow> bool" where
  "comment_accept_offered post c =
     (open_entry post c \<and> cv_canAccept (ce_item c) \<and> p_isMine post \<and> pb_postType (p_body post) = Question \<and>
      rb_parentCommentId (p_body (cv_item (ce_item c))) = None \<and> \<not> p_isMine (cv_item (ce_item c)) \<and> \<not> ce_busy c)"

datatype entry_request =
    UpdateComment uuid update_comment_dto
  | CreateReply uuid create_comment_dto
  | RemoveComment uuid
  | AcceptComment uuid uuid
  | RemoveAccepted uuid

definition entry_started :: "comment_entry \<Rightarrow> comment_entry" where
  "entry_started c = c\<lparr>ce_busy := True, ce_error := ''''\<rparr>"

definition click_delete_comment ::
  "bool \<Rightarrow> post_body presented \<Rightarrow> comment_entry \<Rightarrow> comment_entry \<times> entry_request option" where
  "click_delete_comment confirmed post c =
     (if edit_offered post c \<and> confirmed then (entry_started c, Some (RemoveComment (p_id (cv_item (ce_item c)))))
      else (c, None))"

definition click_accept_comment :: "post_body presented \<Rightarrow> comment_entry \<Rightarrow> comment_entry \<times> entry_request option" where
  "click_accept_comment post c =
     (if comment_accept_offered post c
      then
        (entry_started c,
         Some (if pb_acceptedCommentId (p_body post) = Some (p_id (cv_item (ce_item c)))
               then RemoveAccepted (p_id post) else AcceptComment (p_id post) (p_id (cv_item (ce_item c)))))
      else (c, None))"

definition submit_comment :: "post_body presented \<Rightarrow> comment_entry \<Rightarrow> comment_entry \<times> entry_request option" where
  "submit_comment post c =
     (if ce_busy c \<or> trim (ce_text c) = '''' then (c, None)
      else
        (case ce_mode c of
           None \<Rightarrow> (c, None)
         | Some EditMode \<Rightarrow>
             (entry_started c,
              Some (UpdateComment (p_id (cv_item (ce_item c)))
                \<lparr>uc_content = Some (trim (ce_text c)), uc_isAnonymous = None\<rparr>))
         | Some ReplyMode \<Rightarrow>
             (entry_started c,
              Some (CreateReply (p_id post)
                \<lparr>nc_content = trim (ce_text c), nc_parentCommentId = Some (p_id (cv_item (ce_item c))),
                 nc_isAnonymous = Some (ce_anonymous c)\<rparr>))))"

text \<open>After a success the page is refreshed; the failure of that is shown like a failure of the action.\<close>

definition entry_answered :: "entry_request \<Rightarrow> string option \<Rightarrow> comment_entry \<Rightarrow> comment_entry" where
  "entry_answered request failure c =
     (case failure of
        Some message \<Rightarrow> c\<lparr>ce_error := message, ce_busy := False\<rparr>
      | None \<Rightarrow>
          c\<lparr>ce_expanded := (case request of CreateReply _ _ \<Rightarrow> True | _ \<Rightarrow> ce_expanded c), ce_mode := None,
            ce_text := ''''\<rparr>)"

definition entry_refreshed :: "string option \<Rightarrow> comment_entry \<Rightarrow> comment_entry" where
  "entry_refreshed failure c = c\<lparr>ce_error := or_else failure (ce_error c), ce_busy := False\<rparr>"

section \<open>The page in use\<close>

datatype post_event =
    PostLoaded "string + post_view"
  | ListChanged post_view
  | RefreshEnded "string + post_view"
  | ActAnswered "string option"
  | ClickEdit
  | CancelEdit
  | TypeEditTitle string
  | TypeEditContent string
  | SubmitEdit bool
  | ClickDelete bool
  | OpenReply
  | CancelReply
  | TypeReply string
  | ChooseReplyAnonymous bool
  | SubmitReply bool

fun on_post :: "bool \<Rightarrow> post_event \<Rightarrow> post_page \<Rightarrow> post_page" where
  "on_post signedIn (PostLoaded result) p = post_loaded result p"
| "on_post signedIn (ListChanged post) p = refreshed post p"
| "on_post signedIn (RefreshEnded result) p = refresh_ended result p"
| "on_post signedIn (ActAnswered failure) p = act_answered failure p"
| "on_post signedIn ClickEdit p = click_edit p"
| "on_post signedIn CancelEdit p = p\<lparr>pp_editing := False\<rparr>"
| "on_post signedIn (TypeEditTitle t) p = type_title t p"
| "on_post signedIn (TypeEditContent t) p = type_content t p"
| "on_post signedIn (SubmitEdit confirmed) p = fst (submit_edit confirmed p)"
| "on_post signedIn (ClickDelete confirmed) p = fst (click_delete confirmed p)"
| "on_post signedIn OpenReply p = p\<lparr>pp_replyOpen := True\<rparr>"
| "on_post signedIn CancelReply p = cancel_reply p"
| "on_post signedIn (TypeReply t) p = type_reply t p"
| "on_post signedIn (ChooseReplyAnonymous b) p = p\<lparr>pp_anonymous := b\<rparr>"
| "on_post signedIn (SubmitReply confirmed) p = fst (submit_reply signedIn confirmed p)"

inductive post_step :: "post_page \<Rightarrow> post_page \<Rightarrow> bool" where
  "post_step p (on_post signedIn ev p)"

abbreviation post_reachable :: "post_page \<Rightarrow> bool" where
  "post_reachable p \<equiv> reach (\<lambda>q. q = new_page) post_step p"

text \<open>A thread in use, with the load whose answer is shown: its number and its page. Errors carry a message.\<close>

inductive thread_step :: "comment_thread \<times> (nat \<times> nat) option \<Rightarrow> comment_thread \<times> (nat \<times> nat) option \<Rightarrow> bool" where
  answered: "result \<noteq> Inl '''' \<Longrightarrow> origin' = (if isl result \<or> length (ct_requests t) \<le> k \<or> fst (ct_requests t ! k) \<noteq> ct_active t then origin
                 else Some (ct_requests t ! k)) \<Longrightarrow>
     thread_step (t, origin) (comments_loaded k result t, origin')"
| previous: "thread_step (t, origin) (previous_comments t, origin)"
| forward: "thread_step (t, origin) (next_comments t, origin)"
| changed: "thread_step (t, origin) (page_refreshed version t, origin)"

definition thread_opened :: "comment_thread \<times> (nat \<times> nat) option \<Rightarrow> bool" where
  "thread_opened x \<longleftrightarrow> (\<exists>parent version. x = (new_thread parent version, None))"

end
