(* ===== verification/Client_Post_Spec.thy ===== *)
theory Client_Post_Spec
  imports Client_Post Client_Forms_Spec
begin

text \<open>
  The properties of the page of a post: what it offers is what the discussion service lets through, and what it sends
  refers to the versions that it shows.
\<close>

section \<open>The state of the page\<close>

interpretation post_page_machine: inductive_invariant "\<lambda>q. q = new_page" post_step
  "\<lambda>p. length (pp_text p) \<le> 20000 \<and> (pp_busy p \<longleftrightarrow> pp_action p \<noteq> None)"
proof unfold_locales
  fix p p'
  assume ok: "length (pp_text p) \<le> 20000 \<and> (pp_busy p \<longleftrightarrow> pp_action p \<noteq> None)" and "post_step p p'"
  then obtain signedIn ev where p': "p' = on_post signedIn ev p"
    by (auto simp: post_step.simps)
  show "length (pp_text p') \<le> 20000 \<and> (pp_busy p' \<longleftrightarrow> pp_action p' \<noteq> None)"
    using ok unfolding p'
    by (cases ev) (auto simp: post_loaded_def refreshed_def refresh_ended_def act_answered_def start_act_def
        click_edit_def type_title_def type_content_def submit_edit_def click_delete_def cancel_reply_def type_reply_def
        submit_reply_def split: sum.split option.split page_action.split)
qed (simp add: new_page_def)

lemma post_reachable_events: "post_reachable p \<Longrightarrow> post_reachable (fold (on_post signedIn) evs p)"
  by (induction evs arbitrary: p) (auto intro: reach.stepped post_step.intros)

section \<open>The thread of comments\<close>

definition thread_ok :: "comment_thread \<times> (nat \<times> nat) option \<Rightarrow> bool" where
  "thread_ok x \<longleftrightarrow>
     (case x of (t, origin) \<Rightarrow>
        1 \<le> ct_page t \<and> (\<forall>r \<in> set (ct_requests t). fst r \<le> ct_active t \<and> (fst r = ct_active t \<longrightarrow> snd r = ct_page t)) \<and>
        ((ct_active t, ct_page t) \<in> set (ct_requests t) \<or> ct_error t \<noteq> '''' \<or> origin = Some (ct_active t, ct_page t)))"

lemma thread_ok_load: "thread_ok (t, origin) \<Longrightarrow> ct_requests t' = ct_requests t \<Longrightarrow> ct_active t' = ct_active t \<Longrightarrow>
   1 \<le> ct_page t' \<Longrightarrow> thread_ok (load_comments t', origin)"
  by (fastforce simp: thread_ok_def load_comments_def)

lemma thread_ok_page: "thread_ok (t, origin) \<Longrightarrow> 1 \<le> ct_page t"
  by (simp add: thread_ok_def)

lemma in_without_index: "x \<in> set xs \<Longrightarrow> x \<noteq> xs ! k \<Longrightarrow> x \<in> set (without_index k xs)"
proof -
  assume x: "x \<in> set xs" "x \<noteq> xs ! k"
  show ?thesis
  proof (cases "k < length xs")
    case True
    then have "xs = take k xs @ xs ! k # drop (Suc k) xs"
      by (simp add: id_take_nth_drop)
    then have "x \<in> set (take k xs @ xs ! k # drop (Suc k) xs)"
      using x(1) by simp
    then show ?thesis
      using x(2) by (auto simp: without_index_def)
  next
    case False
    then show ?thesis
      using x by (simp add: without_index_def)
  qed
qed

lemma thread_ok_answered:
  assumes "thread_ok (t, origin)" "result \<noteq> Inl ''''"
    and "origin' = (if isl result \<or> length (ct_requests t) \<le> k \<or> fst (ct_requests t ! k) \<noteq> ct_active t then origin
                 else Some (ct_requests t ! k))"
  shows "thread_ok (comments_loaded k result t, origin')"
proof (cases "k < length (ct_requests t)")
  case True
  obtain n pg where r: "ct_requests t ! k = (n, pg)"
    by (cases "ct_requests t ! k")
  then have "(n, pg) \<in> set (ct_requests t)"
    using True by (metis nth_mem)
  then have pg: "n = ct_active t \<Longrightarrow> pg = ct_page t"
    using assms(1) by (fastforce simp: thread_ok_def)
  have sub: "set (without_index k (ct_requests t)) \<subseteq> set (ct_requests t)"
    by (rule set_without_index)
  then have rest: "\<forall>r \<in> set (without_index k (ct_requests t)). fst r \<le> ct_active t \<and> (fst r = ct_active t \<longrightarrow> snd r = ct_page t)"
    "1 \<le> ct_page t"
    using assms(1) unfolding thread_ok_def by auto
  show ?thesis
  proof (cases "n = ct_active t")
    case True
    then show ?thesis
      using rest pg \<open>k < length (ct_requests t)\<close> assms(2,3)
      by (cases result) (simp_all add: thread_ok_def comments_loaded_def r Let_def not_le)
  next
    case False
    then have "(ct_active t, ct_page t) \<in> set (ct_requests t) \<Longrightarrow>
        (ct_active t, ct_page t) \<in> set (without_index k (ct_requests t))"
      by (intro in_without_index) (auto simp: r)
    then show ?thesis
      using rest False True assms(1,3) by (auto simp: thread_ok_def comments_loaded_def r Let_def)
  qed
next
  case False
  then show ?thesis
    using assms by (simp add: comments_loaded_def)
qed

interpretation thread_machine: inductive_invariant thread_opened thread_step thread_ok
proof unfold_locales
  fix x assume "thread_opened x"
  then show "thread_ok x"
    by (auto simp: thread_opened_def thread_ok_def new_thread_def load_comments_def)
next
  fix x y
  assume ok: "thread_ok x" and "thread_step x y"
  from this(2) show "thread_ok y"
  proof cases
    case (answered result origin' t k origin)
    then show ?thesis
      using thread_ok_answered[of t origin result origin' k] ok by simp
  next
    case (previous t origin)
    then show ?thesis
      using thread_ok_load[of t origin "t\<lparr>ct_page := ct_page t - 1\<rparr>"] ok thread_ok_page[of t origin]
      by (cases "ct_page t = 1") (simp_all add: previous_comments_def)
  next
    case (forward t origin)
    then show ?thesis
      using thread_ok_load[of t origin "t\<lparr>ct_page := ct_page t + 1\<rparr>"] ok by (simp add: next_comments_def)
  next
    case (changed t origin version)
    then show ?thesis
      using thread_ok_load[of t origin "t\<lparr>ct_version := version\<rparr>"] ok thread_ok_page[of t origin]
      by (simp add: page_refreshed_def)
  qed
qed

text \<open>
  When no load of the thread is under way and no error is shown, then the comments are the answer to the load of
  the page that is shown, whatever answers of overtaken loads came late.
\<close>

lemma thread_shows_its_page:
  assumes "reach thread_opened thread_step (t, origin)" "ct_requests t = []" "ct_error t = ''''"
  shows "origin = Some (ct_active t, ct_page t)"
  using thread_machine.holds[OF assms(1)] assms(2,3) by (simp add: thread_ok_def)

section \<open>What is presented\<close>

lemma present_post_fields:
  fixes e u s d
  defines "v \<equiv> fst (present_post e u s d)"
  shows "p_id v = d_id d" "p_moderationStatus v = d_moderationStatus d" "p_visibility v = d_visibility d"
    "p_body v = i_body (post_item s d)"
    "p_canManage v \<longleftrightarrow> d_deletedAt d = None \<and> canManage (d_authorId d) u"
  by (simp_all add: v_def present_post_def present_many_def present_one_def post_item_def Let_def)

lemma post_body_fields [simp]:
  "pb_status (i_body (post_item s d)) = d_status d" "pb_postType (i_body (post_item s d)) = d_postType d"
  "pb_contentVersion (i_body (post_item s d)) = d_contentVersion d"
  "pb_acceptedAnswerId (i_body (post_item s d)) = d_acceptedAnswerId d"
  by (simp_all add: post_item_def)

lemma present_comment_fields:
  fixes e u s c
  defines "v \<equiv> present_comment e u s c"
  shows "p_id v = c_id c" "p_deletedAt v = c_deletedAt c"
    "p_canManage v \<longleftrightarrow> c_deletedAt c = None \<and> canManage (c_authorId c) u"
  by (simp_all add: v_def present_comment_def present_many_def present_one_def comment_item_def Let_def)

section \<open>The reply bar\<close>

lemma submit_reply_result:
  assumes "pp_post p = Some (post, a)"
  shows "snd (submit_reply signedIn confirmed p) =
    (if canReply signedIn post \<and> pp_replyOpen p \<and> \<not> pp_busy p \<and> trim (pp_text p) \<noteq> '''' \<and> confirmed
     then Some (reply_payload p post) else None)"
  using assms by (simp add: submit_reply_def)

lemma trim_length: "length (trim t) \<le> length t"
proof -
  have "length (dropWhile is_space (rev (dropWhile is_space t))) \<le> length (rev (dropWhile is_space t))"
    by (rule length_dropWhile_le)
  also have "\<dots> \<le> length t"
    by (simp add: length_dropWhile_le)
  finally show ?thesis
    by (simp add: trim_def)
qed

text \<open>
  C39. The reply bar is there exactly for signed-in callers whom the guards of the discussion service on the state of
  the post let reply, so for every open post that is pending or approved, and visible. It sends a request exactly when
  it is open, nothing is under way, the text is not blank and links are confirmed; otherwise nothing is sent. The
  answer to a question, and the comment on another post, then goes straight to the gate of its room. The reply passes
  the validation of the service, but for answers of less than 20 characters, which the bar lets through.
\<close>

theorem reply_bar:
  assumes "find_discussion i s = Some d" "uid u = Some x" "x \<noteq> ''''" "post_reachable p"
    and "pp_post p = Some (present_post e u s d)"
  shows "(canReply signedIn (fst (present_post e u s d)) \<longleftrightarrow>
      signedIn \<and> requireOpen d = Inr () \<and> requireApproved d = Inr ()) \<and>
    (case snd (submit_reply signedIn confirmed p) of
       None \<Rightarrow>
         \<not> (signedIn \<and> requireOpen d = Inr () \<and> requireApproved d = Inr () \<and>
            pp_replyOpen p \<and> \<not> pp_busy p \<and> trim (pp_text p) \<noteq> '''' \<and> confirmed)
     | Some (AnswerRequest dto) \<Rightarrow>
         signedIn \<and> confirmed \<and> requireOpen d = Inr () \<and> requireApproved d = Inr () \<and>
         d_postType d = Question \<and> na_content dto = trim (pp_text p) \<and>
         (valid_create_answer (transform_create_answer dto) \<longleftrightarrow> 20 \<le> length (na_content dto)) \<and>
         create_answer e i dto u s =
           (case with_gate e (d_roomId d) u (create_answer_body e i dto x d) s of
              (Inl ex, t) \<Rightarrow> (Inl ex, t) | (Inr a, t) \<Rightarrow> (find_answer_one a t, t))
     | Some (CommentRequest dto) \<Rightarrow>
         signedIn \<and> confirmed \<and> requireOpen d = Inr () \<and> requireApproved d = Inr () \<and>
         d_postType d = Discussion \<and> nc_content dto = trim (pp_text p) \<and>
         valid_create_comment e (transform_create_comment dto) \<and>
         create_comment e i u dto s =
           (case with_gate e (d_roomId d) u (create_comment_body e i dto x d) s of
              (Inl ex, t) \<Rightarrow> (Inl ex, t) | (Inr c, t) \<Rightarrow> (Inr (present_comment e u t c), t)))"
proof -
  obtain v a where post: "present_post e u s d = (v, a)"
    by (cases "present_post e u s d")
  note v = present_post_fields[of e u s d, unfolded post fst_conv]
  note sent = submit_reply_result[OF assms(5)[unfolded post], of signedIn confirmed]
  have bar: "canReply signedIn v \<longleftrightarrow> signedIn \<and> requireOpen d = Inr () \<and> requireApproved d = Inr ()"
    by (auto simp: canReply_def v returns approved_def)
  have len: "length (trim (pp_text p)) \<le> 20000"
    using post_page_machine.holds[OF assms(4)] trim_length[of "pp_text p"] by simp
  show ?thesis
  proof (cases "canReply signedIn v \<and> pp_replyOpen p \<and> \<not> pp_busy p \<and> trim (pp_text p) \<noteq> '''' \<and> confirmed")
    case False
    then show ?thesis
      using bar by (auto simp: sent post)
  next
    case True
    then have c: "signedIn" "confirmed" "d_status d \<noteq> Closed" "approved (d_moderationStatus d) (d_visibility d)"
      "1 \<le> length (trim (pp_text p))"
      by (auto simp: canReply_def v approved_def Suc_le_eq)
    have request: "snd (submit_reply signedIn confirmed p) = Some (reply_payload p v)"
      unfolding sent using True by (rule if_P)
    show ?thesis
      unfolding post fst_conv bar request
      using c len assms(1-3)
      by (cases "d_postType d")
        (simp_all add: reply_payload_def v valid_create_answer_def transform_create_answer_def
          length_within_def create_answer_def valid_create_comment_def transform_create_comment_def if_present_def
          create_comment_def authenticated_def truthy_def lockPost_def requireOpen_def requireApproved_def)
  qed
qed

section \<open>Comments\<close>

text \<open>
  Editing and deleting a comment is offered exactly to those whom the discussion service lets do it, and while the
  post and the comment are as they are shown, both succeed: the comment gets the text that was typed, trimmed, and a
  deleted comment is gone.
\<close>

theorem offered_comment_actions:
  assumes "reachable w" "find_comment j (database w) = Some c" "find_discussion (c_discussionId c) (database w) = Some d"
    and "uid u = Some x" "x \<noteq> ''''"
    and "ce_item entry = comment_view_of u d (database w) c (present_comment e u (database w) c)"
    and "post = fst (present_post e u (database w) d)"
  shows "(edit_offered post entry \<longleftrightarrow>
      \<not> ce_busy entry \<and> requireOpen d = Inr () \<and> requireManager (c_authorId c) u = Inr ()) \<and>
    (edit_offered post entry \<longrightarrow>
      (\<forall>typed \<in> {t. trim t \<noteq> ''''}. \<exists>entry' dto s' r.
         submit_comment post ((click_edit_comment post entry)\<lparr>ce_text := typed\<rparr>) = (entry', Some (UpdateComment j dto)) \<and>
         update_comment e' j u dto (database w) = (Inr r, s') \<and>
         map_option c_content (find_comment j s') = Some (trim typed)) \<and>
      (\<exists>entry' s'. click_delete_comment True post entry = (entry', Some (RemoveComment j)) \<and>
         remove_comment e' j u (database w) = (Inr (), s') \<and> find_comment j s' = None))"
proof -
  let ?s = "database w"
  have keys: "distinct (map c_id (comments ?s))"
    by (rule post_inv_keys(3)[OF reachable_post_inv[OF assms(1)]])
  note c = comment_repo.found[OF assms(2)]
  note v = present_post_fields[of e u ?s d, folded assms(7)] present_comment_fields[of e u ?s c]
  have live: "c_deletedAt c = None"
    using c by (simp add: c_live_def)
  have item: "p_id (cv_item (ce_item entry)) = j" "p_deletedAt (cv_item (ce_item entry)) = None"
    "cv_canManage (ce_item entry) \<longleftrightarrow> canManage (c_authorId c) u \<and> d_status d \<noteq> Closed"
    using c live by (auto simp: assms(6) comment_view_of_def v)
  have offered: "edit_offered post entry \<longleftrightarrow>
      \<not> ce_busy entry \<and> requireOpen d = Inr () \<and> requireManager (c_authorId c) u = Inr ()"
    using assms(4,5) by (auto simp: edit_offered_def open_entry_def item v requireOpen_def requireManager_def
        authenticated_def truthy_def guardE_def)
  have edited: "\<exists>entry' dto s' r.
         submit_comment post ((click_edit_comment post entry)\<lparr>ce_text := typed\<rparr>) = (entry', Some (UpdateComment j dto)) \<and>
         update_comment e' j u dto ?s = (Inr r, s') \<and> map_option c_content (find_comment j s') = Some (trim typed)"
    if ok: "edit_offered post entry" and "trim typed \<noteq> ''''" for typed
  proof -
    let ?dto = "\<lparr>uc_content = Some (trim typed), uc_isAnonymous = None\<rparr>"
    have busy: "\<not> ce_busy entry" "requireOpen d = Inr ()" "requireManager (c_authorId c) u = Inr ()"
      using ok offered by simp_all
    have sub: "snd (submit_comment post ((click_edit_comment post entry)\<lparr>ce_text := typed\<rparr>)) = Some (UpdateComment j ?dto)"
      using that busy(1) item(1) by (simp add: submit_comment_def click_edit_comment_def entry_started_def)
    obtain c2 s1 where b: "update_comment_body e' j u ?dto ?s = Inr (c2, save_comment c2 s1)"
      and c2: "c_id c2 = j" "c_content c2 = trim typed" "c_live c2" "comments s1 = comments ?s"
      using busy assms(2-5) c live
      by (auto simp: update_comment_body_def lockCommentPost_def lockPost_def authenticated_def truthy_def Let_def
          save_discussion_def c_live_def)
    have "find_comment j (save_comment c2 s1) = Some c2"
      using comment_repo.lookup_save_same[of s1 c2 c] keys c2 assms(2) by (simp add: find_comment_def)
    moreover have "update_comment e' j u ?dto ?s =
        (Inr (present_comment e' u (save_comment c2 s1) c2), save_comment c2 s1)"
      by (simp add: update_comment_def b)
    ultimately show ?thesis
      using sub c2(2) by (metis option.map(2) prod.collapse)
  qed
  have deleted: "\<exists>entry' s'. click_delete_comment True post entry = (entry', Some (RemoveComment j)) \<and>
         remove_comment e' j u ?s = (Inr (), s') \<and> find_comment j s' = None" if ok: "edit_offered post entry"
  proof -
    let ?c = "c\<lparr>c_deletedAt := Some (now e')\<rparr>"
    have busy: "requireOpen d = Inr ()" "requireManager (c_authorId c) u = Inr ()"
      using ok offered by simp_all
    let ?s' = "save_discussion (clear_accepted_comment j (d\<lparr>d_commentCount := max 0 (d_commentCount d - 1)\<rparr>))
        (save_comment ?c ?s)"
    have "remove_comment e' j u ?s = (Inr (), ?s')"
      using busy assms(2-5) by (simp add: remove_comment_def lockCommentPost_def lockPost_def authenticated_def truthy_def)
    moreover have "find_comment j ?s' = None"
    proof (rule ccontr)
      assume "find_comment j ?s' \<noteq> None"
      then obtain y where "find_comment j (save_comment ?c ?s) = Some y"
        by (auto simp: find_comment_def save_discussion_def)
      then have "y \<in> set (comments (save_comment ?c ?s))" "c_id y = c_id ?c" "c_live y"
        using comment_repo.found c by fastforce+
      then show False
        using comment_repo.in_rows_save[of y ?c ?s] by (auto simp: c_live_def)
    qed
    ultimately show ?thesis
      using ok item(1) by (auto simp: click_delete_comment_def)
  qed
  show ?thesis
    using offered edited deleted by blast
qed

section \<open>Accepting an answer\<close>

lemma present_many_member:
  assumes "x \<in> set (present_many e ty u s (map f xs))"
  obtains a vs ps where "a \<in> set xs" "x = present_one ty u vs ps (f a)"
proof -
  obtain vs ps where "present_many e ty u s (map f xs) = map (present_one ty u vs ps) (map f xs)"
    unfolding present_many_def Let_def by blast
  then show thesis
    using assms that by auto
qed

lemma list_answers_member:
  assumes "list_answers e i u s = Inr shown" "ans \<in> set shown"
  obtains a q where "find_discussion i s = Some q" "a \<in> set (answers s)" "a_live a" "a_discussionId a = i"
    "p_id (fst ans) = a_id a" "rb_contentVersion (p_body (fst ans)) = Some (a_contentVersion a)"
    "snd ans \<longleftrightarrow> canAccept q u"
proof -
  obtain q where q: "find_discussion i s = Some q"
    and s: "shown = map (\<lambda>a. (a, canAccept q u)) (present_many e OnAnswer u s
        (map answer_item (sort_key a_createdAt (filter (\<lambda>a. a_live a \<and> a_discussionId a = i) (answers s)))))"
    using assms(1) by (auto simp: list_answers_def returns Let_def)
  obtain y where y: "ans = (y, canAccept q u)" "y \<in> set (present_many e OnAnswer u s
        (map answer_item (sort_key a_createdAt (filter (\<lambda>a. a_live a \<and> a_discussionId a = i) (answers s)))))"
    using assms(2) unfolding s by auto
  from y(2) obtain a vs ps where a: "a \<in> set (sort_key a_createdAt (filter (\<lambda>a. a_live a \<and> a_discussionId a = i) (answers s)))"
    and "y = present_one OnAnswer u vs ps (answer_item a)"
    by (rule present_many_member)
  then have "p_id y = a_id a" "rb_contentVersion (p_body y) = Some (a_contentVersion a)"
    by (simp_all add: present_one_def answer_item_def Let_def)
  then show thesis
    using a y(1) by (intro that[OF q, of a]) simp_all
qed

text \<open>
  What the list of answers sends for an acceptance refers to the versions that the page shows. While question and
  answer are as they are shown, the service accepts exactly when the question is approved and the answer is somebody
  else's; the button is also there when it is not.
\<close>

theorem accept_button:
  assumes "reachable w" "find_discussion i (database w) = Some q" "d_postType q = Question" "uid u = Some x"
    and "list_answers e i u (database w) = Inr shown" "ans \<in> set shown"
    and "post = fst (present_post e u (database w) q)" "accept_click post ans l = (l', Some dto)"
    and "fresh e' 0 \<notin> o_id ` set (outbox (database w))"
  shows "\<exists>a. find_answer (aa_answerId dto) (database w) = Some a \<and> a_id a = p_id (fst ans) \<and>
    aa_expectedQuestionVersion dto = d_contentVersion q \<and> aa_expectedAnswerVersion dto = a_contentVersion a \<and>
    ((\<exists>r s'. accept_answer e' i dto u (database w) = (Inr r, s')) \<longleftrightarrow>
       requireApproved q = Inr () \<and> a_authorId a \<noteq> x)"
proof -
  let ?s = "database w"
  note inv = reachable_post_inv[OF assms(1)]
  obtain a where a: "a \<in> set (answers ?s)" "a_live a" "a_discussionId a = i" "p_id (fst ans) = a_id a"
    "rb_contentVersion (p_body (fst ans)) = Some (a_contentVersion a)" "snd ans \<longleftrightarrow> canAccept q u"
    by (rule list_answers_member[OF assms(5,6)]) (use assms(2) in simp)
  note v = present_post_fields[of e u ?s q, folded assms(7)]
  have dto: "aa_answerId dto = a_id a" "aa_expectedQuestionVersion dto = d_contentVersion q"
    "aa_expectedAnswerVersion dto = a_contentVersion a" "canAccept q u" "d_status q \<noteq> Closed"
    using assms(8) a(4-6) by (auto simp: accept_click_def accept_offered_def v split: if_splits)
  have f: "find_answer (a_id a) ?s = Some a"
    by (rule answer_repo.lookup_unique[OF post_inv_keys(2)[OF inv] a(1,2)])
  have id: "d_id q = i"
    by (rule post_invD(2)[OF inv assms(2)])
  have "\<exists>r s'. accept_answer e' i dto u ?s = (Inr r, s')" if "requireApproved q = Inr ()" "a_authorId a \<noteq> x"
  proof -
    have "may_accept i dto u x a q ?s"
      using that assms(2-4) dto f a(3) id by (simp add: may_accept_def returns)
    then show ?thesis
      using accept_answer_result[OF inv _ assms(9)] by metis
  qed
  moreover have "requireApproved q = Inr () \<and> a_authorId a \<noteq> x" if acc: "accept_answer e' i dto u ?s = (Inr r, s')" for r s'
  proof -
    obtain y where "accept_answer_body e' i dto u ?s = Inr y"
      using acc by (cases "accept_answer_body e' i dto u ?s") (auto simp: accept_answer_def)
    then obtain a1 q1 where "may_accept i dto u x a1 q1 ?s"
      using accept_answer_body_Inr[of e' i dto u ?s] assms(4) by (metis may_accept_def option.inject prod.collapse)
    then show ?thesis
      using assms(2) f dto(1) by (auto simp: may_accept_def returns)
  qed
  ultimately show ?thesis
    using f a(4) dto by auto
qed

section \<open>Editing the post\<close>

lemma with_gate_returns:
  assumes "with_gate e r u body s = (Inr x, s')"
  obtains policy t where "body policy t = Inr (x, s')"
  using assms by (auto simp: with_gate_def transaction_Inr split: option.splits prod.splits sum.splits)

text \<open>
  An edit is saved only while the post has the version that the page shows when the form is submitted. The texts,
  however, are those that were shown when the form was opened: a refresh in between, as it follows every action in the
  lists, gives them the version of texts that the writer has not seen.
\<close>

lemma edit_of_shown_version:
  assumes "pp_post p = Some (post, a)" "submit_edit confirmed p = (p', Some dto)"
    and "update_discussion e i u dto s = (Inr r, s')"
  shows "\<exists>d. find_discussion i s = Some d \<and> d_contentVersion d = pb_contentVersion (p_body post) \<and>
    ud_title dto = Some (pp_title p) \<and> ud_content dto = Some (pp_content p)"
proof -
  have dto: "dto = edit_request p post"
    using assms(1,2) by (auto simp: submit_edit_def split: if_splits)
  obtain d editor t y where d: "find_discussion i s = Some d"
    and g: "with_gate e (d_roomId d) \<lparr>uid = Some (d_authorId d), urole = urole u\<rparr>
        (update_discussion_body e dto editor d) s = (Inr y, t)"
    using assms(3) unfolding update_discussion_def then_find_def
    by (force simp: returns split: sum.splits prod.splits)
  from g obtain policy t' where "update_discussion_body e dto editor d policy t' = Inr (y, t)"
    by (rule with_gate_returns)
  from update_discussion_body_Inr(2)[OF this refl] show ?thesis
    using d by (auto simp: dto edit_request_def)
qed

lemma edit_after_refresh:
  assumes "pp_post p = Some (post, a)" "p_canManage post" "\<not> pp_busy p" "pb_status (p_body post) \<noteq> Closed"
    and "p_pendingRevision post = None" "pb_title (p_body post) \<noteq> ''''" "p_content post \<noteq> ''''"
  shows "snd (submit_edit True (refreshed (newer, b) (click_edit p))) =
    Some \<lparr>ud_expectedVersion = Some (pb_contentVersion (p_body newer)), ud_revisionType = None,
      ud_title = Some (pb_title (p_body post)), ud_content = Some (p_content post), ud_tagIds = None, ud_mediaIds = None,
      ud_isAnonymous = None\<rparr>"
  using assms by (simp add: click_edit_def refreshed_def submit_edit_def edit_form_valid_def edit_request_def)

section \<open>Runs on concrete data\<close>

definition replying_page :: post_page where
  "replying_page =
     fold (on_post True)
       [PostLoaded (Inr (present_post (sample_env '''' 5) bob (database world4) open_post)), OpenReply,
        TypeReply '' Only there. ''] new_page"

text \<open>An answer that is too short for the service is sent.\<close>

theorem reply_bar_witness:
  "canReply True (fst (present_post (sample_env '''' 5) bob (database world4) open_post)) \<and>
   (\<exists>dto. snd (submit_reply True True replying_page) = Some (AnswerRequest dto) \<and>
     \<not> valid_create_answer (transform_create_answer dto))"
proof -
  let ?e = "sample_env '''' 5" and ?s = "database world4"
  have page: "post_reachable replying_page" "pp_post replying_page = Some (present_post ?e bob ?s open_post)"
    unfolding replying_page_def
    by (intro post_reachable_events reach.started refl) (simp add: post_loaded_def type_reply_def new_page_def)
  have sent: "snd (submit_reply True True replying_page) =
      Some (AnswerRequest \<lparr>na_content = ''Only there.'', na_isAnonymous = Some False\<rparr>)"
    by code_simp
  have "uid bob = Some ''bob''" "requireOpen open_post = Inr ()" "requireApproved open_post = Inr ()"
    by (simp_all add: bob_def returns approved_def open_post_def sample_post_def)
  then show ?thesis
    using reply_bar[OF world4_found(1) _ _ page, where x = "''bob''" and signedIn = True and confirmed = True] sent by auto
qed

definition sample_entry :: comment_entry where
  "sample_entry = new_entry (comment_view_of bob open_post (database world4) sample_comment
     (present_comment (sample_env '''' 5) bob (database world4) sample_comment))"

theorem offered_comment_actions_witness:
  "find_comment ''com'' (snd (remove_comment (sample_env '''' 6) ''com'' bob (database world4))) = None"
proof -
  let ?e = "sample_env '''' 5" and ?s = "database world4"
  let ?post = "fst (present_post ?e bob ?s open_post)"
  have c: "find_comment ''com'' ?s = Some sample_comment"
    by code_simp
  have "edit_offered ?post sample_entry"
    by code_simp
  then show ?thesis
    using offered_comment_actions[OF reachable_worlds(5) c, where e = ?e and e' = "sample_env '''' 6" and u = bob and
        x = "''bob''" and d = open_post and entry = sample_entry and post = ?post] world4_found(1)
    by (auto simp: bob_def sample_entry_def new_entry_def sample_comment_def)
qed

theorem accept_button_witness:
  "\<exists>r s'. accept_answer (sample_env ''acc'' 5) ''post'' accept_dto ann (database world4) = (Inr r, s')"
proof -
  let ?e = "sample_env '''' 5" and ?s = "database world4"
  let ?post = "fst (present_post ?e ann ?s open_post)"
  let ?l = "\<lparr>al_answers = projr (list_answers ?e ''post'' ann ?s), al_error = '''', al_busyId = None\<rparr>"
  let ?ans = "hd (al_answers ?l)"
  have "\<not> isl (list_answers ?e ''post'' ann ?s)" "al_answers ?l \<noteq> []"
    by code_simp+
  then have listed: "list_answers ?e ''post'' ann ?s = Inr (al_answers ?l)" "?ans \<in> set (al_answers ?l)"
    by simp_all
  have "snd (accept_click ?post ?ans ?l) = Some accept_dto"
    by code_simp
  then obtain l' where click: "accept_click ?post ?ans ?l = (l', Some accept_dto)"
    by (metis prod.collapse)
  have fresh: "fresh (sample_env ''acc'' 5) 0 \<notin> o_id ` set (outbox ?s)"
    by code_simp
  obtain a where a: "find_answer (aa_answerId accept_dto) ?s = Some a"
    "(\<exists>r s'. accept_answer (sample_env ''acc'' 5) ''post'' accept_dto ann ?s = (Inr r, s')) \<longleftrightarrow>
       requireApproved open_post = Inr () \<and> a_authorId a \<noteq> ''ann''"
    using accept_button[OF reachable_worlds(5) world4_found(1) _ _ listed refl click fresh]
    by (auto simp: ann_def open_post_def sample_post_def)
  have "a = sample_answer"
    using a(1) world4_found(2) by (simp add: accept_dto_def)
  then show ?thesis
    unfolding a(2) by (simp add: sample_answer_def open_post_def sample_post_def requireApproved_def approved_def)
qed

end
