(* ===== verification/Client_Rooms.thy ===== *)
theory Client_Rooms
  imports Sample_Cases
begin

text \<open>
  The page for the policies of a room (\<open>frontend/src/app/(app)/moderation/rooms/page.tsx\<close>, \<open>lib/api/rooms.ts\<close>): who may
  post directly, and exceptions for members. While the rooms are loaded again the panel is not shown, so the panel is
  a new one after every saved policy. Members are identified by their user, of whom a room has one membership.
\<close>

section \<open>The panel\<close>

type_synonym member_item = "room_membership \<times> string option"

datatype panel_action = SavingPolicy | SavingMember | LoadingHistory

record room_panel =
  rp_room :: room_view
  rp_admin :: bool
  rp_policy :: review_policy
  rp_locked :: bool
  rp_members :: "member_item list"
  rp_history :: "policy_audit list"
  rp_search :: string
  rp_error :: string
  rp_notice :: string
  rp_busy :: bool
  rp_loading :: bool
  rp_action :: "panel_action option"

definition managed_rooms :: "room_view list \<Rightarrow> room_view list" where
  "managed_rooms listed = filter rv_canManage listed"

text \<open>The room that is shown: the chosen one, else the one in use, else the first.\<close>

definition panel_room :: "string \<Rightarrow> uuid option \<Rightarrow> room_view list \<Rightarrow> room_view option" where
  "panel_room chosen current listed =
     (let managed = managed_rooms listed in
      or_opt (find_by (\<lambda>r. r_id (rv_room r) = chosen) managed)
        (or_opt (find_by (\<lambda>r. Some (r_id (rv_room r)) = current) managed)
          (case managed of [] \<Rightarrow> None | r # _ \<Rightarrow> Some r)))"

definition new_panel :: "room_view \<Rightarrow> bool \<Rightarrow> room_panel" where
  "new_panel room isAdmin =
     \<lparr>rp_room = room, rp_admin = isAdmin, rp_policy = r_reviewPolicy (rv_room room),
      rp_locked = r_policyLocked (rv_room room), rp_members = [], rp_history = [], rp_search = '''', rp_error = '''',
      rp_notice = '''', rp_busy = False, rp_loading = True, rp_action = None\<rparr>"

definition panel_loaded :: "string + member_item list \<times> policy_audit list \<Rightarrow> room_panel \<Rightarrow> room_panel" where
  "panel_loaded result p =
     (case result of
        Inr (items, audits) \<Rightarrow> p\<lparr>rp_members := items, rp_history := audits, rp_loading := False\<rparr>
      | Inl message \<Rightarrow> p\<lparr>rp_error := message, rp_loading := False\<rparr>)"

definition click_retry :: "room_panel \<Rightarrow> room_panel" where
  "click_retry p = (if rp_error p = '''' \<or> rp_busy p then p else p\<lparr>rp_loading := True, rp_error := ''''\<rparr>)"

definition readOnly :: "room_panel \<Rightarrow> bool" where
  "readOnly p = (\<not> rv_canConfigurePolicy (rp_room p) \<or> (r_policyLocked (rv_room (rp_room p)) \<and> \<not> rp_admin p))"

section \<open>The policy of the room\<close>

definition choose_policy :: "review_policy \<Rightarrow> room_panel \<Rightarrow> room_panel" where
  "choose_policy pol p = (if rp_busy p \<or> readOnly p then p else p\<lparr>rp_policy := pol\<rparr>)"

definition choose_locked :: "bool \<Rightarrow> room_panel \<Rightarrow> room_panel" where
  "choose_locked b p = (if rp_admin p \<and> \<not> rp_busy p then p\<lparr>rp_locked := b\<rparr> else p)"

definition policy_request :: "room_panel \<Rightarrow> update_policy_dto" where
  "policy_request p =
     \<lparr>up_reviewPolicy = rp_policy p, up_policyLocked = (if rp_admin p then Some (rp_locked p) else None)\<rparr>"

definition savePolicy :: "room_panel \<Rightarrow> room_panel \<times> update_policy_dto option" where
  "savePolicy p =
     (if rp_busy p \<or> readOnly p then (p, None)
      else (p\<lparr>rp_busy := True, rp_error := '''', rp_action := Some SavingPolicy\<rparr>, Some (policy_request p)))"

text \<open>After a success the rooms are loaded again, and the panel starts anew on what they show.\<close>

definition policy_saved :: "string option \<Rightarrow> room_view \<Rightarrow> room_panel \<Rightarrow> room_panel" where
  "policy_saved failure room p =
     (case failure of
        Some message \<Rightarrow> p\<lparr>rp_error := message, rp_busy := False, rp_action := None\<rparr>
      | None \<Rightarrow> new_panel room (rp_admin p))"

section \<open>Exceptions for members\<close>

definition includes_text :: "string \<Rightarrow> string \<Rightarrow> bool" where
  "includes_text part t = list_ex (\<lambda>k. take (length part) (drop k t) = part) [0..<Suc (length t)]"

definition visible_members :: "room_panel \<Rightarrow> member_item list" where
  "visible_members p =
     filter (\<lambda>(m, name). includes_text (to_lower (rp_search p)) (to_lower (m_userId m @ '' '' @ or_else name '''')))
       (rp_members p)"

definition choose_permission :: "uuid \<Rightarrow> post_permission \<Rightarrow> room_panel \<Rightarrow> room_panel" where
  "choose_permission userId permission p =
     (if rp_busy p \<or> readOnly p \<or> rp_loading p then p
      else p\<lparr>rp_members := map (\<lambda>(m, name). (if m_userId m = userId then m\<lparr>m_postPermission := permission\<rparr> else m, name))
               (rp_members p)\<rparr>)"

text \<open>The request holds role and state of the member as they were loaded.\<close>

definition member_request :: "room_membership \<Rightarrow> update_membership_dto" where
  "member_request m =
     \<lparr>um_postPermission = Some (m_postPermission m), um_role = m_role m, um_status = m_status m\<rparr>"

definition saveMember :: "member_item \<Rightarrow> room_panel \<Rightarrow> room_panel \<times> (uuid \<times> update_membership_dto) option" where
  "saveMember item p =
     (if rp_busy p \<or> readOnly p \<or> rp_loading p \<or> item \<notin> set (visible_members p) then (p, None)
      else (p\<lparr>rp_busy := True, rp_error := '''', rp_notice := '''', rp_action := Some SavingMember\<rparr>,
            Some (m_userId (fst item), member_request (fst item))))"

definition member_saved :: "string option \<Rightarrow> room_panel \<Rightarrow> room_panel" where
  "member_saved failure p =
     (case failure of
        Some message \<Rightarrow> p\<lparr>rp_error := message, rp_busy := False, rp_action := None\<rparr>
      | None \<Rightarrow> p\<lparr>rp_notice := ''Da cap nhat quyen dang cua thanh vien.'', rp_action := Some LoadingHistory\<rparr>)"

definition history_loaded :: "string + policy_audit list \<Rightarrow> room_panel \<Rightarrow> room_panel" where
  "history_loaded result p =
     (case result of
        Inr audits \<Rightarrow> p\<lparr>rp_history := audits, rp_busy := False, rp_action := None\<rparr>
      | Inl message \<Rightarrow> p\<lparr>rp_error := message, rp_busy := False, rp_action := None\<rparr>)"

section \<open>What the service makes of it\<close>

lemma list_rooms_member:
  assumes "list_rooms e collate type parent u s = Inr listed" "view \<in> set listed"
    and "uid u = Some x" "x \<noteq> ''''" "distinct (map m_key (memberships s))"
  shows "rv_room view \<in> set (rooms s)"
    "rv_canConfigurePolicy view \<longleftrightarrow> requirePolicyOwner e (r_id (rv_room view)) u s = Inr ()"
proof -
  let ?own = "filter (\<lambda>m. Some (m_userId m) = uid u) (memberships s)"
  have v: "rv_room view \<in> set (rooms s) \<and> (rv_canConfigurePolicy view \<longleftrightarrow>
      admin u \<or> exists_where (\<lambda>m. m_roomId m = r_id (rv_room view) \<and> m_status m = Active \<and> m_role m = Owner \<and>
        \<not> expired (now e) m) ?own)"
    using assms(1-4) by (auto simp: list_rooms_def Let_def truthy_def returns)
  have one: "m = m'" if "m \<in> set (memberships s)" "m' \<in> set (memberships s)" "m_key m = m_key m'" for m m'
    using assms(5) that by (auto simp: distinct_map inj_on_def)
  have "exists_where (\<lambda>m. m_roomId m = r_id (rv_room view) \<and> m_status m = Active \<and> m_role m = Owner \<and>
        \<not> expired (now e) m) ?own \<longleftrightarrow>
      (case find_active_membership (r_id (rv_room view)) x s of
         None \<Rightarrow> False | Some m \<Rightarrow> m_role m = Owner \<and> \<not> expired (now e) m)"
  proof (cases "find_active_membership (r_id (rv_room view)) x s")
    case None
    then have "\<forall>m \<in> set (memberships s). \<not> (m_key m = (r_id (rv_room view), x) \<and> m_status m = Active)"
      by (simp add: find_active_membership_def find_by_None)
    then show ?thesis
      using assms(3) by (auto simp: None exists_where_iff m_key_def)
  next
    case (Some m)
    then have m: "m \<in> set (memberships s)" "m_key m = (r_id (rv_room view), x)" "m_status m = Active"
      using find_by_Some by (fastforce simp: find_active_membership_def)+
    have same: "y = m" if "y \<in> set (memberships s)" "m_roomId y = r_id (rv_room view)" "m_userId y = x" for y
    proof (rule one[OF that(1) m(1)])
      show "m_key y = m_key m"
        unfolding m(2) by (simp add: that(2,3) m_key_def)
    qed
    have r: "m_roomId m = r_id (rv_room view)" "m_userId m = x"
      using m(2) by (simp_all add: m_key_def)
    have in_own: "Some (m_userId m) = uid u"
      using r(2) assms(3) by simp
    show ?thesis
    proof
      assume "exists_where (\<lambda>m. m_roomId m = r_id (rv_room view) \<and> m_status m = Active \<and> m_role m = Owner \<and>
        \<not> expired (now e) m) ?own"
      then obtain y where y: "y \<in> set (memberships s)" "m_userId y = x" "m_roomId y = r_id (rv_room view)"
        "m_role y = Owner" "\<not> expired (now e) y"
        using assms(3) by (auto simp: exists_where_iff)
      have "y = m"
        by (rule same[OF y(1,3,2)])
      then show "case find_active_membership (r_id (rv_room view)) x s of
          None \<Rightarrow> False | Some m \<Rightarrow> m_role m = Owner \<and> \<not> expired (now e) m"
        using y(4,5) by (simp add: Some)
    next
      assume "case find_active_membership (r_id (rv_room view)) x s of
          None \<Rightarrow> False | Some m \<Rightarrow> m_role m = Owner \<and> \<not> expired (now e) m"
      then show "exists_where (\<lambda>m. m_roomId m = r_id (rv_room view) \<and> m_status m = Active \<and> m_role m = Owner \<and>
        \<not> expired (now e) m) ?own"
        using m(1,3) r(1) in_own by (auto simp: Some exists_where_iff)
    qed
  qed
  then show "rv_canConfigurePolicy view \<longleftrightarrow> requirePolicyOwner e (r_id (rv_room view)) u s = Inr ()"
    using v assms(3,4) by (auto simp: requirePolicyOwner_def authenticated_def truthy_def split: option.splits)
  show "rv_room view \<in> set (rooms s)"
    using v by blast
qed

lemma members_member:
  assumes "members e roomId u s = Inr items" "item \<in> set items" "distinct (map m_key (memberships s))"
  shows "m_roomId (fst item) = roomId" "find_membership roomId (m_userId (fst item)) s = Some (fst item)"
proof -
  have "fst item \<in> set (memberships s) \<and> m_roomId (fst item) = roomId"
    using assms(1,2) by (auto simp: members_def returns Let_def)
  then show "m_roomId (fst item) = roomId" "find_membership roomId (m_userId (fst item)) s = Some (fst item)"
    using membership_repo.lookup_unique[OF assms(3), of "fst item"] by (simp_all add: m_key_def)
qed

lemma policy_owner_manages:
  assumes "requirePolicyOwner e roomId u s = Inr ()"
  shows "requireRoomManager e roomId u s = Inr ()" "uid u = Some x \<Longrightarrow> canManageOwners e roomId u x s"
proof -
  obtain i where i: "uid u = Some i" "i \<noteq> ''''" "admin u \<or> owns e roomId i s"
    using assms by (auto simp: requirePolicyOwner_Inr)
  have "admin u \<Longrightarrow> staff u"
    by (simp add: admin_def staff_iff)
  moreover have "owns e roomId i s \<Longrightarrow> manages e roomId i s"
    by (simp add: owns_def manages_def split: option.splits)
  ultimately have "staff u \<or> manages e roomId i s"
    using i(3) by blast
  then show "requireRoomManager e roomId u s = Inr ()"
    using i(1,2) by (simp add: requireRoomManager_Inr)
  show "uid u = Some x \<Longrightarrow> canManageOwners e roomId u x s"
    using i by (simp add: canManageOwners_iff)
qed

text \<open>
  C40. While the room is as the panel shows it, the button that saves the policy is enabled exactly when the discussion
  service carries the request out. The permission of a member that is chosen and saved becomes the permission of the
  member, whose role and state are kept when they are as they were loaded.
\<close>

theorem policy_panel:
  assumes "reachable w" "uid u = Some x" "x \<noteq> ''''"
    and "list_rooms e collate type parent u (database w) = Inr listed" "rp_room p \<in> set listed"
    and "rp_admin p = admin u" "\<not> rp_busy p" "roomId = r_id (rv_room (rp_room p))"
    and "members e roomId u (database w) = Inr items" "(m, name) \<in> set items"
  shows "((\<exists>r s'. update_policy e roomId (policy_request p) u (database w) = (Inr r, s')) \<longleftrightarrow>
      savePolicy p \<noteq> (p, None)) \<and>
    (\<not> readOnly p \<longrightarrow>
      (\<exists>s'. update_membership e roomId (m_userId m) (member_request (m\<lparr>m_postPermission := permission\<rparr>)) u (database w) =
         (Inr (m\<lparr>m_postPermission := permission, m_assignedBy := Some x\<rparr>), s')))"
proof -
  let ?s = "database w"
  have inv: "rooms_ok ?s"
    using reachable_rooms_inv[OF assms(1)] by (simp add: rooms_inv_def)
  have keys: "distinct (map m_key (memberships ?s))" "distinct (map r_id (rooms ?s))"
    using inv by (simp_all add: rooms_ok_def rooms_keyed_def)
  note l = list_rooms_member[OF assms(4,5,2,3) keys(1), folded assms(8)]
  have room: "find_room roomId ?s = Some (rv_room (rp_room p))"
    using room_repo.lookup_unique[OF keys(2) l(1)] by (simp add: assms(8))
  have "(\<exists>r s'. update_policy e roomId (policy_request p) u ?s = (Inr r, s')) \<longleftrightarrow> \<not> readOnly p"
    using assms(2,3,6) l(2) room
    by (cases "requirePolicyOwner e roomId u ?s")
      (auto simp: update_policy_def update_policy_body_def readOnly_def policy_request_def authenticated_def truthy_def
        Let_def guardE_def)
  moreover have "savePolicy p \<noteq> (p, None) \<longleftrightarrow> \<not> readOnly p"
    using assms(7) by (auto simp: savePolicy_def)
  moreover have "\<exists>s'. update_membership e roomId (m_userId m) (member_request (m\<lparr>m_postPermission := permission\<rparr>)) u ?s =
         (Inr (m\<lparr>m_postPermission := permission, m_assignedBy := Some x\<rparr>), s')" if "\<not> readOnly p"
  proof -
    have owner: "requirePolicyOwner e roomId u ?s = Inr ()"
      using that l(2) by (simp add: readOnly_def)
    have "find_membership roomId (m_userId m) ?s = Some m"
      using members_member(2)[OF assms(9,10) keys(1)] by simp
    then show ?thesis
      using that owner policy_owner_manages[OF owner] assms(2,3,6) room
      by (auto simp: update_membership_def update_membership_body_def member_request_def authenticated_def truthy_def
          readOnly_def Let_def guardE_def)
  qed
  ultimately show ?thesis
    by blast
qed

section \<open>A row that was loaded before\<close>

definition bob_row :: room_membership where
  "bob_row = hall_member ''bob'' Member None 2"

definition ban_dto :: update_membership_dto where
  "ban_dto = \<lparr>um_postPermission = None, um_role = Member, um_status = Banned\<rparr>"

text \<open>
  The request has no version: when a member was banned after the panel was loaded, saving a permission of the member
  makes him active again.
\<close>

lemma saved_permission_lifts_ban:
  "let s1 = snd (update_membership (sample_env ''ban'' 9) hall_id ''bob'' ban_dto eve (database hall8));
       s2 = snd (update_membership (sample_env ''direct'' 10) hall_id ''bob''
         (member_request (bob_row\<lparr>m_postPermission := DirectPost\<rparr>)) eve s1) in
   map_option m_status (find_membership hall_id ''bob'' s1) = Some Banned \<and>
   map_option m_status (find_membership hall_id ''bob'' s2) = Some Active"
  by code_simp

section \<open>Run on concrete data\<close>

theorem policy_panel_witness:
  "\<exists>s'. update_membership (sample_env ''direct'' 9) hall_id ''bob''
     (member_request (bob_row\<lparr>m_postPermission := DirectPost\<rparr>)) eve (database hall8) =
     (Inr (bob_row\<lparr>m_postPermission := DirectPost, m_assignedBy := Some ''eve''\<rparr>), s')"
proof -
  let ?e = "sample_env ''direct'' 9" and ?s = "database hall8"
  let ?listed = "projr (list_rooms ?e id None None eve ?s)"
  let ?items = "projr (members ?e hall_id eve ?s)"
  let ?view = "last ?listed"
  let ?p = "new_panel ?view False"
  have "\<not> isl (list_rooms ?e id None None eve ?s)" "?listed \<noteq> []" "\<not> isl (members ?e hall_id eve ?s)"
    by code_simp+
  then have listed: "list_rooms ?e id None None eve ?s = Inr ?listed" "rp_room ?p \<in> set ?listed"
    "members ?e hall_id eve ?s = Inr ?items"
    by (simp_all add: new_panel_def)
  have room: "hall_id = r_id (rv_room (rp_room ?p))" "\<not> readOnly ?p" "rp_admin ?p = admin eve" "\<not> rp_busy ?p"
    by code_simp+
  have rows: "map fst ?items = [hall_member ''eve'' Owner (Some ''eve'') 1, bob_row]"
    by code_simp
  have "bob_row \<in> set (map fst ?items)"
    unfolding rows by simp
  then obtain name where bob: "(bob_row, name) \<in> set ?items"
    unfolding set_map by (rule imageE) (metis prod.collapse)
  have "uid eve = Some ''eve''" "''eve'' \<noteq> ''''" "m_userId bob_row = ''bob''"
    by (simp_all add: eve_def bob_row_def hall_member_def)
  with policy_panel[OF reachable_halls(8) _ _ listed(1,2) room(3,4,1) listed(3) bob] room(2) show ?thesis
    by metis
qed

end
