(* ===== verification/Client_Account.thy ===== *)
theory Client_Account
  imports Identity_Api
begin

text \<open>
  The forms for accounts of the web client: registration (\<open>frontend/src/app/(auth)/register/page.tsx\<close>), login
  (\<open>login/page.tsx\<close>), a forgotten password (\<open>forgot-password/page.tsx\<close>) and the settings
  (\<open>app/(app)/profile/settings/page.tsx\<close>), with what the validation of the identity service makes of their requests. A
  button is disabled while its request is under way; errors are the messages that are shown.
\<close>

section \<open>Registration\<close>

datatype register_stage = FillForm | EnterCode | Activated

record register_form =
  rf_stage :: register_stage
  rf_email :: string
  rf_error :: string
  rf_loading :: bool
  rf_username :: string
  rf_fullName :: string
  rf_password :: string
  rf_otp :: string

definition new_register :: register_form where
  "new_register =
     \<lparr>rf_stage = FillForm, rf_email = '''', rf_error = '''', rf_loading = False, rf_username = '''', rf_fullName = '''',
      rf_password = '''', rf_otp = ''''\<rparr>"

text \<open>The field of the code takes six characters, of which the digits are kept.\<close>

definition typed_code :: "string \<Rightarrow> string" where
  "typed_code t = filter is_digit (take 6 t)"

definition handleRegister :: "register_form \<Rightarrow> register_form \<times> register_dto option" where
  "handleRegister f =
     (if rf_stage f \<noteq> FillForm \<or> rf_loading f \<or> rf_fullName f = '''' \<or> rf_email f = '''' \<or> rf_password f = ''''
      then (f, None)
      else
        (f\<lparr>rf_error := '''', rf_loading := True\<rparr>,
         Some \<lparr>rg_fullName = rf_fullName f, rg_dateOfBirth = None, rg_email = rf_email f, rg_password = rf_password f\<rparr>))"

definition register_answered :: "string option \<Rightarrow> register_form \<Rightarrow> register_form" where
  "register_answered failure f =
     (case failure of
        None \<Rightarrow> f\<lparr>rf_stage := EnterCode, rf_loading := False\<rparr>
      | Some message \<Rightarrow> f\<lparr>rf_error := message, rf_loading := False\<rparr>)"

definition handleVerifyOtp :: "register_form \<Rightarrow> register_form \<times> verify_otp_dto option" where
  "handleVerifyOtp f =
     (if rf_stage f \<noteq> EnterCode \<or> rf_loading f \<or> length (rf_otp f) < 6 \<or> length (rf_username f) < 5 then (f, None)
      else
        (f\<lparr>rf_error := '''', rf_loading := True\<rparr>,
         Some \<lparr>vo_email = rf_email f, vo_otp = rf_otp f, vo_username = rf_username f\<rparr>))"

definition verify_answered :: "string option \<Rightarrow> register_form \<Rightarrow> register_form" where
  "verify_answered failure f =
     (case failure of
        None \<Rightarrow> f\<lparr>rf_stage := Activated, rf_loading := False\<rparr>
      | Some message \<Rightarrow> f\<lparr>rf_error := message, rf_loading := False\<rparr>)"

definition handleResendOtp :: "register_form \<Rightarrow> register_form \<times> string option" where
  "handleResendOtp f =
     (if rf_stage f = EnterCode then (f\<lparr>rf_error := ''''\<rparr>, Some (rf_email f)) else (f, None))"

definition resend_answered :: "string option \<Rightarrow> register_form \<Rightarrow> register_form" where
  "resend_answered failure f = f\<lparr>rf_error := or_else failure (rf_error f)\<rparr>"

datatype register_event =
    TypeFullName string
  | TypeEmail string
  | TypePassword string
  | TypeCode string
  | TypeUsername string
  | SubmitRegister
  | RegisterAnswered "string option"
  | SubmitCode
  | VerifyAnswered "string option"
  | ClickResend
  | ResendAnswered "string option"

fun on_register :: "register_event \<Rightarrow> register_form \<Rightarrow> register_form" where
  "on_register (TypeFullName t) f = f\<lparr>rf_fullName := t\<rparr>"
| "on_register (TypeEmail t) f = f\<lparr>rf_email := t\<rparr>"
| "on_register (TypePassword t) f = f\<lparr>rf_password := t\<rparr>"
| "on_register (TypeCode t) f = f\<lparr>rf_otp := typed_code t\<rparr>"
| "on_register (TypeUsername t) f = f\<lparr>rf_username := to_lower t\<rparr>"
| "on_register SubmitRegister f = fst (handleRegister f)"
| "on_register (RegisterAnswered failure) f = register_answered failure f"
| "on_register SubmitCode f = fst (handleVerifyOtp f)"
| "on_register (VerifyAnswered failure) f = verify_answered failure f"
| "on_register ClickResend f = fst (handleResendOtp f)"
| "on_register (ResendAnswered failure) f = resend_answered failure f"

inductive register_step :: "register_form \<Rightarrow> register_form \<Rightarrow> bool" where
  "register_step f (on_register ev f)"

section \<open>Login\<close>

record login_form =
  lf_identifier :: string
  lf_password :: string
  lf_error :: string
  lf_loading :: bool

definition login_submit :: "login_form \<Rightarrow> login_form \<times> login_dto option" where
  "login_submit f =
     (if lf_loading f \<or> lf_identifier f = '''' \<or> lf_password f = '''' then (f, None)
      else (f\<lparr>lf_error := '''', lf_loading := True\<rparr>,
            Some \<lparr>lg_identifier = lf_identifier f, lg_password = lf_password f\<rparr>))"

definition login_ended :: "string option \<Rightarrow> login_form \<Rightarrow> login_form" where
  "login_ended failure f = f\<lparr>lf_error := or_else failure (lf_error f), lf_loading := False\<rparr>"

section \<open>A forgotten password\<close>

datatype forgot_stage = EnterEmail | EnterReset | ResetDone

record forgot_form =
  ff_stage :: forgot_stage
  ff_email :: string
  ff_otp :: string
  ff_newPassword :: string
  ff_confirm :: string
  ff_error :: string
  ff_loading :: bool

definition handleEmailSubmit :: "forgot_form \<Rightarrow> forgot_form \<times> string option" where
  "handleEmailSubmit f =
     (if ff_stage f \<noteq> EnterEmail \<or> ff_loading f \<or> ff_email f = '''' then (f, None)
      else (f\<lparr>ff_error := '''', ff_loading := True\<rparr>, Some (ff_email f)))"

definition email_answered :: "string option \<Rightarrow> forgot_form \<Rightarrow> forgot_form" where
  "email_answered failure f =
     (case failure of
        None \<Rightarrow> f\<lparr>ff_stage := EnterReset, ff_loading := False\<rparr>
      | Some message \<Rightarrow> f\<lparr>ff_error := message, ff_loading := False\<rparr>)"

definition handleReset :: "forgot_form \<Rightarrow> forgot_form \<times> reset_password_dto option" where
  "handleReset f =
     (if ff_stage f \<noteq> EnterReset \<or> ff_loading f \<or> length (ff_otp f) < 6 \<or> ff_newPassword f = '''' \<or> ff_confirm f = ''''
      then (f, None)
      else if ff_newPassword f \<noteq> ff_confirm f then (f\<lparr>ff_error := ''Mat khau xac nhan khong khop.''\<rparr>, None)
      else
        (f\<lparr>ff_error := '''', ff_loading := True\<rparr>,
         Some \<lparr>rp_email = ff_email f, rp_otp = ff_otp f, rp_newPassword = ff_newPassword f\<rparr>))"

definition reset_answered :: "string option \<Rightarrow> forgot_form \<Rightarrow> forgot_form" where
  "reset_answered failure f =
     (case failure of
        None \<Rightarrow> f\<lparr>ff_stage := ResetDone, ff_loading := False\<rparr>
      | Some message \<Rightarrow> f\<lparr>ff_error := message, ff_loading := False\<rparr>)"

section \<open>The password in the settings\<close>

record password_form =
  pw_current :: string
  pw_new :: string
  pw_confirm :: string
  pw_error :: string
  pw_saving :: bool

text \<open>The browser does not submit the form while a required field is empty.\<close>

definition handlePasswordSubmit :: "password_form \<Rightarrow> password_form \<times> change_password_dto option" where
  "handlePasswordSubmit f =
     (if pw_saving f \<or> pw_current f = '''' \<or> pw_new f = '''' \<or> pw_confirm f = '''' then (f, None)
      else if pw_new f \<noteq> pw_confirm f
      then (f\<lparr>pw_error := ''Mat khau moi va mat khau xac nhan khong khop.''\<rparr>, None)
      else if length (pw_new f) < 8 then (f\<lparr>pw_error := ''Mat khau phai co it nhat 8 ky tu.''\<rparr>, None)
      else
        (f\<lparr>pw_error := '''', pw_saving := True\<rparr>,
         Some \<lparr>cp_currentPassword = pw_current f, cp_newPassword = pw_new f, cp_confirmPassword = pw_confirm f\<rparr>))"

definition password_answered :: "string option \<Rightarrow> password_form \<Rightarrow> password_form" where
  "password_answered failure f =
     (case failure of
        None \<Rightarrow> f\<lparr>pw_current := '''', pw_new := '''', pw_confirm := '''', pw_saving := False\<rparr>
      | Some message \<Rightarrow> f\<lparr>pw_error := message, pw_saving := False\<rparr>)"

section \<open>What the requests hold\<close>

interpretation register_machine: inductive_invariant "\<lambda>f. f = new_register" register_step
  "\<lambda>f. list_all is_digit (rf_otp f) \<and> length (rf_otp f) \<le> 6"
proof unfold_locales
  fix f f'
  assume ok: "list_all is_digit (rf_otp f) \<and> length (rf_otp f) \<le> 6" and "register_step f f'"
  then obtain ev where f': "f' = on_register ev f"
    by (auto simp: register_step.simps)
  have "length (typed_code t) \<le> 6" for t
    using length_filter_le[of is_digit "take 6 t"] by (simp add: typed_code_def)
  then show "list_all is_digit (rf_otp f') \<and> length (rf_otp f') \<le> 6"
    using ok unfolding f'
    by (cases ev) (auto simp: handleRegister_def register_answered_def handleVerifyOtp_def verify_answered_def
        handleResendOtp_def resend_answered_def list_all_iff typed_code_def split: option.splits)
qed (simp add: new_register_def)

text \<open>
  The code that is sent always has six digits; of the user name the form checks the lower limit only.
\<close>

lemma verify_request:
  assumes "reach (\<lambda>f. f = new_register) register_step f" "handleVerifyOtp f = (f', Some dto)"
  shows "list_all is_digit (vo_otp dto)"
    "valid_verify_otp v dto \<longleftrightarrow> va_email v (vo_email dto) \<and> length (vo_username dto) \<le> 20 \<and>
       list_all (\<lambda>c. lower_letter c \<or> is_digit c \<or> c = CHR ''_'') (vo_username dto)"
  using register_machine.holds[OF assms(1)] assms(2)
  by (auto simp: handleVerifyOtp_def valid_verify_otp_def valid_otp_def valid_username_def split: if_splits)

lemma reset_request:
  assumes "handleReset f = (f', Some dto)"
  shows "rp_newPassword dto = ff_confirm f" "rp_newPassword dto = ff_newPassword f" "6 \<le> length (rp_otp dto)"
  using assms by (auto simp: handleReset_def split: if_splits)

text \<open>
  The service finds new password and confirmation alike; it asks for letters of both cases and a digit, too.
\<close>

lemma password_request:
  assumes "handlePasswordSubmit f = (f', Some dto)"
  shows "cp_newPassword dto = cp_confirmPassword dto" "valid_change_password dto \<longleftrightarrow> strong_password (cp_newPassword dto)"
    "8 \<le> length (cp_newPassword dto)"
  using assms by (auto simp: handlePasswordSubmit_def valid_change_password_def split: if_splits)

section \<open>Profile and privacy in the settings\<close>

record settings_form =
  sf_fullName :: string
  sf_dateOfBirth :: string
  sf_privacy :: privacy
  sf_profileSaving :: bool
  sf_profileError :: string
  sf_privacySaving :: bool
  sf_privacyError :: string

text \<open>The effect on every new user object: all fields take what the service has.\<close>

definition settings_shown :: "user_profile \<Rightarrow> settings_form \<Rightarrow> settings_form" where
  "settings_shown u f =
     f\<lparr>sf_fullName := up_fullName u, sf_dateOfBirth := take 10 (or_else (up_dateOfBirth u) ''''),
       sf_privacy := up_privacy u\<rparr>"

text \<open>The name and the date of a request; \<open>iso_date\<close> is \<open>new Date(...).toISOString()\<close> on the value of a date field.\<close>

definition handleProfileSubmit ::
  "(string \<Rightarrow> string) \<Rightarrow> settings_form \<Rightarrow> settings_form \<times> (string \<times> string option) option" where
  "handleProfileSubmit iso_date f =
     (if sf_profileSaving f \<or> sf_fullName f = '''' then (f, None)
      else
        (f\<lparr>sf_profileSaving := True, sf_profileError := ''''\<rparr>,
         Some (trim (sf_fullName f), if sf_dateOfBirth f \<noteq> '''' then Some (iso_date (sf_dateOfBirth f)) else None)))"

text \<open>A success reads the user again.\<close>

definition profile_answered :: "string + user_profile \<Rightarrow> settings_form \<Rightarrow> settings_form" where
  "profile_answered result f =
     (case result of
        Inr u \<Rightarrow> (settings_shown u f)\<lparr>sf_profileSaving := False\<rparr>
      | Inl message \<Rightarrow> f\<lparr>sf_profileError := message, sf_profileSaving := False\<rparr>)"

definition handlePrivacySubmit :: "settings_form \<Rightarrow> settings_form \<times> privacy option" where
  "handlePrivacySubmit f =
     (if sf_privacySaving f then (f, None)
      else (f\<lparr>sf_privacySaving := True, sf_privacyError := ''''\<rparr>, Some (sf_privacy f)))"

definition privacy_answered :: "string + user_profile \<Rightarrow> settings_form \<Rightarrow> settings_form" where
  "privacy_answered result f =
     (case result of
        Inr u \<Rightarrow> (settings_shown u f)\<lparr>sf_privacySaving := False\<rparr>
      | Inl message \<Rightarrow> f\<lparr>sf_privacyError := message, sf_privacySaving := False\<rparr>)"

text \<open>
  A date of birth cannot be removed: the request without a date keeps it, and the field shows it again. And what was
  typed into the profile is lost when the privacy is saved.
\<close>

lemma birth_stays:
  assumes "handleProfileSubmit iso_date (f\<lparr>sf_dateOfBirth := ''''\<rparr>) = (f', Some (name, birth))"
    and "update_profile u name birth s = (Inr r, s')"
  shows "up_dateOfBirth r = u_dateOfBirth u"
    "sf_dateOfBirth (profile_answered (Inr r) f') = take 10 (or_else (u_dateOfBirth u) '''')"
  using assms
  by (auto simp: handleProfileSubmit_def update_profile_def thenH_def returnH_def truthy_def get_profile_def
      profile_answered_def settings_shown_def Let_def split: if_splits sum.splits prod.splits)

lemma privacy_drops_typed_name:
  "sf_fullName (privacy_answered (Inr u) (f\<lparr>sf_fullName := typed\<rparr>)) = up_fullName u"
  by (simp add: privacy_answered_def settings_shown_def)

end
