(* ===== verification/Spec2Isabelle.thy ===== *)
theory Spec2Isabelle
  imports Findings Identity_Spec Notify_Spec Academic_Chain Media_Spec Client_Spec Client_Stream
    Client_Forms_Spec Client_Votes Client_Inbox Client_Review_Spec Client_Feed Client_Post_Spec Client_Rooms
    Client_Account
    "HOL-Library.Sublist"
begin

text \<open>
  AcaSocial is a community for students: posts, questions and answers, comments, votes, rooms,
  moderation and tags. The repository holds a web client (\<open>frontend/\<close>), a gateway and several services.
  The rules of the community live in the discussion service (\<open>services/discussion-service/src\<close>): every
  operation of its services is modelled, with the guards and the validation in front of them, the client of the
  other services and the worker of its outbox. The accounts, sessions and one-time codes live in the
  identity service, the notifications in the notification service, which consumes the events of the outbox, and
  the catalogue of majors, curricula, courses and topics in the academic service, and attachments in the media
  service; each is a machine of its own, as is a tab of the web client with its API client.
  Where services call each other, the answers are parameters of the caller; \<open>Notify_Chain\<close>,
  \<open>Academic_Chain\<close> and \<open>Media_Spec\<close> put the model of the called service in their place.

  \<^bold>\<open>Parts and theories.\<close>
  \<^item> \<open>Prelude\<close>: exceptions as values, the combinators for handlers (\<open>bindE\<close>, \<open>guardE\<close>, \<open>transaction\<close>),
    tables as lists of rows, and the locales of invariants of a step relation and of a table with
    deleted rows. \<open>Schema\<close>: the rows of all tables, the enumerations, the record \<open>db\<close> of the tables, the
    record \<open>env\<close> of what a call takes from outside (the time, new ids, answers of other services), and
    the database after the migrations, \<open>init_db\<close>.
  \<^item> \<open>Content_Policy\<close> (\<open>common/content-policy.ts\<close>, guards, current user), \<open>Outbox\<close> (\<open>events/\<close>: the table,
    the worker that publishes it, the stream), \<open>Services\<close> (attachments, academic contexts, mentions).
  \<^item> \<open>Rooms\<close> (\<open>rooms/rooms.service.ts\<close>: creation, memberships, rules, policies, the posting gate),
    \<open>Presenter\<close> (what a caller sees of a row), \<open>Discussions\<close>, \<open>Answers\<close>, \<open>Comments\<close>, \<open>Votes\<close>, \<open>Moderation\<close>,
    \<open>Tags\<close>: the services of these names. \<open>Controllers\<close>: the routes, the transformations and the
    validation of requests. \<open>System\<close>: one step of the running service is one request or one round of the
    worker, and \<open>reachable\<close> are the states after any number of steps.
  \<^item> \<open>Effects\<close>, \<open>Locality\<close>, \<open>Post_Invariants\<close>, \<open>Post_Steps\<close>, \<open>Rooms_Correct\<close>, \<open>Room_Frame\<close>, \<open>Room_Steps\<close>,
    \<open>Tally\<close>, \<open>Tally_Steps\<close>, \<open>Outbox_Frame\<close>: what each operation changes, and that it keeps the invariants
    of posts, of rooms, of votes and of the outbox.
  \<^item> \<open>Room_Access\<close>, \<open>Post_Results\<close>, \<open>Vote_Ledger\<close>, \<open>Query_Results\<close>: what single operations return and do.
    \<open>Sample\<close>, \<open>Sample_Campus\<close>, \<open>Sample_Cases\<close>: runs on concrete data. \<open>Findings\<close>: runs that show where the
    code falls short of its own rules.
  \<^item> \<open>Machines\<close>: reachable states and the locales of invariants, of which the services are instances.
  \<^item> The identity service: \<open>Accounts\<close> (the tables, Redis, handlers), \<open>Otp\<close> (\<open>otp/otp.service.ts\<close>), \<open>Auth\<close>
    (\<open>auth/auth.service.ts\<close>, the strategy of access tokens, lifetimes), \<open>Users\<close> (\<open>users/users.service.ts\<close>),
    \<open>Identity_Api\<close> (routes, validation, the machine). \<open>Identity_Inv\<close>: a logic of handlers and the invariant of
    accounts and tokens; \<open>Token_History\<close>, \<open>Session_History\<close>: what stays revoked and blacklisted along all
    steps; \<open>Identity_Results\<close>: what single operations do; \<open>Identity_Sample\<close>: runs on concrete data;
    \<open>Identity_Spec\<close>: its properties.
  \<^item> The notification service: \<open>Notifications\<close> (\<open>notifications.service.ts\<close>, \<open>nats.consumer.ts\<close>,
    \<open>notification-content.ts\<close>, \<open>domain-event.ts\<close>, the controller, the machine of deliveries and requests),
    \<open>Notify_Results\<close> (its invariant, claims, what single operations do), \<open>Notify_Chain\<close> (the way of a comment
    through outbox, stream and identity service), \<open>Notify_Spec\<close>: its properties.
  \<^item> The academic service: \<open>Academic\<close> (\<open>academic.service.ts\<close>, \<open>entities.ts\<close>), \<open>Academic_Api\<close> (routes, access,
    validation, the machine), \<open>Academic_Inv\<close> (keys and references), \<open>Academic_Spec\<close>: its properties,
    \<open>Academic_Chain\<close>: posts that name a course. \<open>Service_Links\<close> and \<open>New_Posts\<close> hold what the chains share: the
    replies of a route to another service, and what is known of a created post.
  \<^item> The media service: \<open>Media\<close> (\<open>media.service.ts\<close>, \<open>virus-scanner.service.ts\<close>, \<open>cloudinary.service.ts\<close>, the
    validation, the controllers, the machine), \<open>Media_Stream\<close> (the protocol of the virus scanner on words of 8 and
    32 bits, and its reader), \<open>Media_Results\<close> (invariant, what operations do), \<open>Media_Spec\<close>: its properties and
    its ties to the discussion service.
  \<^item> The web client (\<open>frontend/src/lib\<close>): \<open>Client_Api\<close> (\<open>api/client.ts\<close>, the tokens of \<open>auth/context.tsx\<close>: the machine
    of a tab), \<open>Client_Spec\<close>: its properties; \<open>Client_Stream\<close> (\<open>notifications/stream.ts\<close>): the reader of the
    notification stream and its property; \<open>Client_Inbox\<close> (\<open>notifications/context.tsx\<close>): the list of notifications.
  \<^item> The pages of the web client, as states with the handlers of their events: \<open>Client_Forms\<close> (the form for new posts
    in \<open>app/(app)/posts/create/page.tsx\<close>, \<open>components/academic/Attachments.tsx\<close>, \<open>lib/api/media.ts\<close>) with
    \<open>Client_Forms_Spec\<close>; \<open>Client_Votes\<close> (\<open>components/academic/VotePill.tsx\<close>); \<open>Client_Post\<close> (the page of a post,
    \<open>AnswerList.tsx\<close>, \<open>CommentThread.tsx\<close>) with \<open>Client_Post_Spec\<close>; \<open>Client_Review\<close> (the page of the reviewers) with
    \<open>Client_Review_Spec\<close>; \<open>Client_Rooms\<close> (the policies of rooms); \<open>Client_Account\<close> (the forms for registration, login,
    passwords and settings); \<open>Client_Feed\<close> (\<open>Feed.tsx\<close>, the selected room, short
    messages, the dialog in front of links). The answers of the services are parts of the events; the properties tie
    what a page offers and sends to the model of the service that answers.

  \<^bold>\<open>How the code is read.\<close> A handler is a function from the database to a result and a database; a
  result is an exception or a value. The body of a transaction returns the new database only when it
  succeeds. Rows are records, tables are lists in the order of insertion, unique keys are checked on
  insertion and a violation is an exception. Times are milliseconds, ids are strings in canonical form,
  texts are strings of Latin-1 characters (messages in Vietnamese are written without their accents).
  Requests run one after the other: a step is a whole request, as the row locks of the code intend.
  Where a check is made before the transaction that it protects, two requests can interleave;
  \<open>Findings\<close> shows one such case. The auto-join of the posting gate runs on its own connection and is kept
  even when the request fails, as in the code. The handlers of the identity service run without a
  transaction (one of them apart), so what they wrote before an exception stays; hash functions, signatures,
  the mail server and random codes are parameters, and a key of Redis is there as long as its time has not
  passed.

  The deliveries of the stream to the notification service come in any order, as often as the stream likes, and
  may overlap between the check of an event and its transaction.

  \<^bold>\<open>What is shown.\<close> In every reachable state of the discussion service: acceptance and its history, solved posts,
  counters of replies and votes, revisions, moderation state and visibility, owners and rules and
  canonical rooms, and the outbox, of which nothing is lost and all is delivered when the stream
  acknowledges. What operations do: acceptance, edits, the posting gate, joining, changes of memberships and
  policies, closed posts, approval, reviews, votes as a refinement of a ballot; lists, pages, anonymity, slugs,
  mentions and callers that are not signed in. Of the identity service: consistent accounts, refresh tokens that
  work once, ended sessions, bounded guessing of codes and where the bound fails, and changes of roles. Of the
  notification service: one notification per event however it is delivered, the verdicts on deliveries, the
  author of an anonymous comment kept secret, reading, and the chain from a comment to its notification. Of the
  academic service: a consistent catalogue, who changes it, contexts, active curricula, and posts that refer
  to active courses. Of the media service: the protocol of the scanner as a round trip, no file at the
  CDN without a complete OK of the scanner, repeated uploads, deletion, and attachments of posts. Of the web client: refresh tokens sent once, requests
  that wait for a refresh, each request sent at most twice, and a stream read the same in any chunks. Of its pages: requests of the
  form for posts that the service takes, votes predicted before the answer, notifications merged in any order,
  reviews of what was shown with files checked last, and buttons (for replies, comments, acceptances and policies) that are there exactly when
  the service lets the request through, or where they are not. \<open>Findings\<close> exhibits defects, as do some theorems and
  lemmas of the other parts. The code also leaves its documents: by \<open>docs/academic-foundation.md\<close> posts
  are held until an administrator or moderator approves them, and only approved ones are public; \<open>approved\<close> of
  \<open>common/content-policy.ts\<close> counts pending visible posts, managers of rooms review, and a rejected draft leaves the
  published post visible. The model follows the code; \<open>Findings\<close> has runs of this. Loops of the code are
  recursions on lists; the recursions that are not structural (the scan for mentions, the removal of tags
  from names, the chunks of a file, the frames of a stream) have termination proofs. No fuel is used.

  \<^bold>\<open>Not modelled.\<close> HTTP, SQL and TypeORM themselves, columns that no rule reads (\<open>updatedAt\<close>, the columns
  of the AI features, provenance), the pattern matching and collation of the database, ClamD, the CDN
  and the upload middleware (parameters); the rendering and styles of the web client, its pages for profiles and
  tags and its navigation, and the search for links in texts (\<open>lib/link-safety.ts\<close>, whose regular expressions and
  URL parser belong to the platform; the dialog takes the links as given); the scripts that seed data; and the
  gateway, which is written in Go; it appears through the headers that it sets.
\<close>

section \<open>Posts in reachable states\<close>

lemma reachable_post_ok:
  "reachable w \<Longrightarrow> d \<in> set (discussions (database w)) \<Longrightarrow> post_ok (database w) d"
  using reachable_post_inv by (simp add: post_inv_def)

lemma reachable_counted:
  "reachable w \<Longrightarrow> row \<in> set (tally ty (database w)) \<Longrightarrow> counted ty (votes (database w)) row"
  using reachable_votes_inv by (simp add: votes_inv_def)

text \<open>C1: in every reachable state the accepted answer of a post is exactly the one acceptance of its
  history that is not revoked; without an accepted answer every acceptance is revoked.\<close>

theorem accepted_answer_history:
  assumes "reachable w" "d \<in> set (discussions (database w))"
  shows "map ac_answerId (filter (ac_active (d_id d)) (answerAcceptances (database w))) =
    (case d_acceptedAnswerId d of None \<Rightarrow> [] | Some a \<Rightarrow> [a])"
  using post_okD(1) [OF reachable_post_ok [OF assms]] by (simp add: accept_ok_def active_answers_eq)

theorem accepted_answer_history_witness:
  "map ac_answerId (filter (ac_active ''post'') (answerAcceptances (database world5))) = [''ans'']"
  using accepted_answer_history [of world5 sample_post] by (simp add: sample_post_def)

text \<open>C2: the accepted answer of a post is a live answer to this very post, and only questions have
  one; the accepted comment is a live root comment of this post by somebody else than its author.\<close>

theorem accepted_content:
  assumes "reachable w" "d \<in> set (discussions (database w))"
  shows "(case d_acceptedAnswerId d of None \<Rightarrow> True
      | Some i \<Rightarrow> d_postType d = Question \<and>
          (\<exists>a \<in> set (answers (database w)).
             a_id a = i \<and> a_discussionId a = d_id d \<and> a_deletedAt a = None)) \<and>
    (case d_acceptedCommentId d of None \<Rightarrow> True
      | Some j \<Rightarrow>
          (\<exists>c \<in> set (comments (database w)).
             c_id c = j \<and> c_discussionId c = d_id d \<and> c_deletedAt c = None \<and>
             c_parentCommentId c = None \<and> c_authorId c \<noteq> d_authorId d))"
  using post_okD(2,3) [OF reachable_post_ok [OF assms]]
  by (auto simp: answer_ok_def comment_ok_def of_defs a_live_def c_live_def split: option.splits)

theorem accepted_content_witness:
  "\<exists>a \<in> set (answers (database world5)). a_id a = ''ans'' \<and> a_discussionId a = ''post'' \<and> a_deletedAt a = None"
  using accepted_content [of world5 sample_post] by (simp add: sample_post_def)

text \<open>A post is solved only when it has an accepted answer or an accepted comment.\<close>

theorem solved_has_accepted:
  assumes "reachable w" "d \<in> set (discussions (database w))" "d_status d = Solved"
  shows "d_acceptedAnswerId d \<noteq> None \<or> d_acceptedCommentId d \<noteq> None"
  using post_okD(4) [OF reachable_post_ok [OF assms(1,2)]] assms(3) by (simp add: solved_ok_def)

theorem solved_has_accepted_witness:
  "d_status sample_post = Solved \<and> d_acceptedAnswerId sample_post = Some ''ans''"
  using solved_has_accepted [of world5 sample_post] by (simp add: sample_post_def)

text \<open>C3: the counters of a post are the numbers of its answers and comments that are not deleted.\<close>

theorem reply_counters:
  assumes "reachable w" "d \<in> set (discussions (database w))"
  shows "d_answerCount d =
      int (length (filter (\<lambda>a. a_discussionId a = d_id d \<and> a_deletedAt a = None) (answers (database w)))) \<and>
    d_commentCount d =
      int (length (filter (\<lambda>c. c_discussionId c = d_id d \<and> c_deletedAt c = None) (comments (database w))))"
  using post_okD(5) [OF reachable_post_ok [OF assms]]
  by (simp add: counts_ok_def of_defs count_where_def a_live_def c_live_def conj_commute)

theorem reply_counters_witness: "d_answerCount sample_post = 1 \<and> d_commentCount sample_post = 1"
  using reply_counters [of world5 sample_post] by (simp add: sample_post_def sample_answer_def sample_comment_def)

text \<open>C4: the revisions of a post are numbered 1, 2, ... up to its content version, and the last one is
  the text under discussion: the proposed text when a proposal is pending, else the published text.\<close>

theorem revision_history:
  assumes "reachable w" "d \<in> set (discussions (database w))"
  shows "let rs = filter (\<lambda>r. dr_discussionId r = d_id d) (discussionRevisions (database w)) in
      map dr_contentVersion rs = [1..<Suc (d_contentVersion d)] \<and> rs \<noteq> [] \<and>
      (dr_title (last rs), dr_content (last rs)) =
        (case d_pendingRevision d of None \<Rightarrow> (d_title d, d_content d)
         | Some p \<Rightarrow> (pr_title p, pr_content p))"
proof -
  note r = post_okD(6) [OF reachable_post_ok [OF assms]]
  have "revisions_of (d_id d) (database w) \<noteq> []"
  proof
    assume "revisions_of (d_id d) (database w) = []"
    with r show False by (simp add: revisions_ok_def split: if_splits)
  qed
  then show ?thesis
    using r by (simp add: revisions_ok_def newest_text_def of_defs Let_def split: option.splits)
qed

theorem revision_history_witness:
  "map dr_contentVersion
     (filter (\<lambda>r. dr_discussionId r = ''post'') (discussionRevisions (database world5))) = [1]"
  using revision_history [of world5 sample_post]
  by (simp add: sample_post_def Let_def)

text \<open>The moderation status and the visibility of a post agree: an approved post is visible, a hidden
  one is concealed, a pending one is not concealed, and only a post that is not held back has a pending
  revision.\<close>

theorem publication_state:
  assumes "reachable w" "d \<in> set (discussions (database w))"
  shows "(case d_moderationStatus d of
      Approved \<Rightarrow> d_visibility d = Visible
    | Hidden \<Rightarrow> d_visibility d = Concealed
    | Pending \<Rightarrow> d_visibility d \<noteq> Concealed) \<and>
    \<not> (d_visibility d = Held \<and> d_pendingRevision d \<noteq> None)"
  using post_okD(7) [OF reachable_post_ok [OF assms]]
  by (auto simp: published_ok_def split: moderation_status.splits)

theorem publication_state_witness: "d_visibility sample_post \<noteq> Concealed"
  using publication_state [of world5 sample_post] by (simp add: sample_post_def)

section \<open>Votes in reachable states\<close>

text \<open>The vote counters of every post, comment and answer are the numbers of its votes.\<close>

theorem vote_counters:
  assumes "reachable w"
  shows "(\<forall>d \<in> set (discussions (database w)).
      d_upvoteCount d = count_votes Upvote OnDiscussion (d_id d) (votes (database w)) \<and>
      d_downvoteCount d = count_votes Downvote OnDiscussion (d_id d) (votes (database w))) \<and>
    (\<forall>c \<in> set (comments (database w)).
      c_upvoteCount c = count_votes Upvote OnComment (c_id c) (votes (database w)) \<and>
      c_downvoteCount c = count_votes Downvote OnComment (c_id c) (votes (database w))) \<and>
    (\<forall>a \<in> set (answers (database w)).
      a_upvoteCount a = count_votes Upvote OnAnswer (a_id a) (votes (database w)) \<and>
      a_downvoteCount a = count_votes Downvote OnAnswer (a_id a) (votes (database w)))"
proof (intro conjI ballI)
  fix d assume "d \<in> set (discussions (database w))"
  then have "d_tally d \<in> set (tally OnDiscussion (database w))" by (simp add: tally_def)
  from reachable_counted [OF assms this]
  show "d_upvoteCount d = count_votes Upvote OnDiscussion (d_id d) (votes (database w))"
    "d_downvoteCount d = count_votes Downvote OnDiscussion (d_id d) (votes (database w))"
    by (simp_all add: counted_def d_tally_def)
next
  fix c assume "c \<in> set (comments (database w))"
  then have "c_tally c \<in> set (tally OnComment (database w))" by (simp add: tally_def)
  from reachable_counted [OF assms this]
  show "c_upvoteCount c = count_votes Upvote OnComment (c_id c) (votes (database w))"
    "c_downvoteCount c = count_votes Downvote OnComment (c_id c) (votes (database w))"
    by (simp_all add: counted_def c_tally_def)
next
  fix a assume "a \<in> set (answers (database w))"
  then have "a_tally a \<in> set (tally OnAnswer (database w))" by (simp add: tally_def)
  from reachable_counted [OF assms this]
  show "a_upvoteCount a = count_votes Upvote OnAnswer (a_id a) (votes (database w))"
    "a_downvoteCount a = count_votes Downvote OnAnswer (a_id a) (votes (database w))"
    by (simp_all add: counted_def a_tally_def)
qed

theorem vote_counters_witness:
  "a_upvoteCount sample_answer = 1 \<and> count_votes Upvote OnAnswer ''ans'' (votes (database world5)) = 1"
  using vote_counters [of world5] by (simp add: sample_answer_def)

text \<open>C5: a user has at most one vote on a target, every vote is on content that exists, and nobody votes
  on his own content.\<close>

theorem votes_well_formed:
  assumes "reachable w"
  shows "distinct (map (\<lambda>v. (v_userId v, v_targetType v, v_targetId v)) (votes (database w))) \<and>
    (\<forall>v \<in> set (votes (database w)). \<exists>author.
       (v_targetId v, author) \<in> set (case v_targetType v of
          OnDiscussion \<Rightarrow> map (\<lambda>d. (d_id d, d_authorId d)) (discussions (database w))
        | OnComment \<Rightarrow> map (\<lambda>c. (c_id c, c_authorId c)) (comments (database w))
        | OnAnswer \<Rightarrow> map (\<lambda>a. (a_id a, a_authorId a)) (answers (database w))) \<and>
       v_userId v \<noteq> author)"
proof -
  note inv = reachable_votes_inv [OF assms]
  have "\<exists>author. (v_targetId v, author) \<in> set (case v_targetType v of
          OnDiscussion \<Rightarrow> map (\<lambda>d. (d_id d, d_authorId d)) (discussions (database w))
        | OnComment \<Rightarrow> map (\<lambda>c. (c_id c, c_authorId c)) (comments (database w))
        | OnAnswer \<Rightarrow> map (\<lambda>a. (a_id a, a_authorId a)) (answers (database w))) \<and>
       v_userId v \<noteq> author" if v: "v \<in> set (votes (database w))" for v
  proof -
    obtain author up down where
      row: "(v_targetId v, author, up, down) \<in> set (tally (v_targetType v) (database w))"
      using inv v by (fastforce simp: votes_inv_def)
    moreover have "v_userId v \<noteq> author"
      using reachable_counted [OF assms row] v by (simp add: counted_def)
    ultimately show ?thesis
      by (cases "v_targetType v") (auto simp: tally_def d_tally_def c_tally_def a_tally_def)
  qed
  then show ?thesis
    using inv by (simp add: votes_inv_def v_key_def [abs_def])
qed

theorem votes_well_formed_witness:
  "\<exists>author. (''ans'', author) \<in> set (map (\<lambda>a. (a_id a, a_authorId a)) [sample_answer]) \<and> ''ann'' \<noteq> author"
  using votes_well_formed [of world5] by (simp add: sample_vote_def)

section \<open>Rooms in reachable states\<close>

text \<open>C6: every room, the two rooms of the installation apart, has an active owner in every reachable
  state, so somebody can always manage it.\<close>

theorem room_has_owner:
  assumes "reachable w" "r \<in> set (rooms (database w))" "r_id r \<noteq> general_id" "r_id r \<noteq> off_topic_id"
  shows "\<exists>m \<in> set (memberships (database w)). m_roomId m = r_id r \<and> m_role m = Owner \<and> m_status m = Active"
proof -
  have "owned (database w)"
    using reachable_rooms_inv [OF assms(1)] by (simp add: rooms_inv_def rooms_ok_def)
  then have "0 < active_owners (r_id r) (database w)"
    using ownedD [of "database w" "r_id r"] assms(2-4) by (auto simp: seeded_def)
  then show ?thesis
    by (auto simp: active_owners_def count_where_zero simp flip: neq0_conv)
qed


theorem room_has_owner_witness:
  "\<exists>m \<in> set (memberships (database hall8)). m_roomId m = hall_id \<and> m_role m = Owner \<and> m_status m = Active"
  using room_has_owner [of hall8 hall_room]
  by (simp add: hall_room_def hall_id_def general_id_def off_topic_id_def)

text \<open>The versions of a rule of a room are kept under distinct numbers, and exactly the newest one
  is active.\<close>

theorem newest_rule_active:
  assumes "reachable w"
  shows "distinct (map (\<lambda>x. (ru_roomId x, ru_ruleCode x, ru_version x)) (roomRules (database w))) \<and>
    (\<forall>x \<in> set (roomRules (database w)).
       ru_active x \<longleftrightarrow>
         ru_version x = Max (ru_version ` {y \<in> set (roomRules (database w)).
           ru_roomId y = ru_roomId x \<and> ru_ruleCode y = ru_ruleCode x}))"
proof -
  let ?rs = "roomRules (database w)"
  have inv: "rules_versioned (database w)"
    using reachable_rooms_inv [OF assms] by (simp add: rooms_inv_def)
  have "ru_active x \<longleftrightarrow> ru_version x = Max (ru_version ` {y \<in> set ?rs.
      ru_roomId y = ru_roomId x \<and> ru_ruleCode y = ru_ruleCode x})" (is "_ \<longleftrightarrow> _ = Max (ru_version ` ?C)")
    if x: "x \<in> set ?rs" for x
  proof -
    have C: "finite (ru_version ` ?C)" "ru_version x \<in> ru_version ` ?C" using x by auto
    have "ru_active x \<longleftrightarrow> (\<forall>n \<in> ru_version ` ?C. n \<le> ru_version x)"
      using inv x by (auto simp: rules_versioned_def same_code_def)
    also have "\<dots> \<longleftrightarrow> Max (ru_version ` ?C) \<le> ru_version x"
      by (rule Max_le_iff [symmetric]) (use C in auto)
    also have "\<dots> \<longleftrightarrow> ru_version x = Max (ru_version ` ?C)"
      using Max_ge [OF C] by auto
    finally show ?thesis .
  qed
  then show ?thesis using inv by (simp add: rules_versioned_def rule_key_def [abs_def])
qed

theorem newest_rule_active_witness:
  "map ru_active (roomRules (database hall8)) = [False, True] \<and>
   distinct (map (\<lambda>x. (ru_roomId x, ru_ruleCode x, ru_version x)) (roomRules (database hall8)))"
  using newest_rule_active [of hall8] by (simp add: hall_rule_def)

text \<open>A major has at most one canonical room, as long as requests run one after the other.\<close>

theorem canonical_major_room:
  assumes "reachable w"
  shows "length (filter (\<lambda>b. b_majorId b = mj \<and>
      (\<exists>r \<in> set (rooms (database w)). r_id r = b_roomId b \<and> r_type r = MAJOR)) (bindings (database w))) \<le> 1"
  using majors_uniqueD [of "database w" mj] reachable_rooms_inv [OF assms]
  by (simp add: rooms_inv_def bound_rooms_def exists_where_iff)

theorem canonical_major_room_witness:
  "length (filter (\<lambda>b. b_majorId b = ''cs'' \<and>
      (\<exists>r \<in> set (rooms (database campus2)). r_id r = b_roomId b \<and> r_type r = MAJOR))
    (bindings (database campus2))) = 1"
  using canonical_major_room [of campus2 "''cs''"] by (simp add: campus_room_def campus_binding_def)

section \<open>The outbox in reachable states\<close>

text \<open>C7: an event that is marked delivered is in the stream, the stream holds nothing but events of the
  outbox, and the events have distinct ids.\<close>

theorem outbox_stream:
  assumes "reachable w"
  shows "distinct (map o_id (outbox (database w))) \<and>
    (\<forall>ev \<in> set (outbox (database w)). o_deliveredAt ev = None \<or> message_of ev \<in> set (stream w)) \<and>
    (\<forall>m \<in> set (stream w). \<exists>ev \<in> set (outbox (database w)). m = message_of ev)"
  using reachable_log_inv [OF assms] by (auto simp: queue_inv_def)

theorem outbox_stream_witness:
  "\<exists>ev \<in> set (outbox (database sent1)). hd (stream sent1) = message_of ev"
proof -
  have "hd (stream sent1) \<in> set (stream sent1)" by code_simp
  then show ?thesis using outbox_stream [of sent1] by simp
qed

text \<open>No step loses, changes or reorders an event of the outbox; a step appends events.\<close>

theorem outbox_append_only:
  assumes "reachable w" "service_step w w'"
  shows "prefix (map message_of (outbox (database w))) (map message_of (outbox (database w')))"
  using log_kept.step_or_round [OF assms(2)]
proof (elim disjE exE conjE)
  assume "grows (database w) (database w')"
  then show ?thesis by (auto simp: grows_def log_grows_def)
next
  fix t connected net
  assume *: "(outbox (database w'), stream w') = deliver t connected net (outbox (database w), stream w)"
  have "map message_of (fst (deliver t connected net (outbox (database w), stream w))) =
      map message_of (outbox (database w))"
    using deliver_messages [OF queue_inv_keys [OF reachable_log_inv [OF assms(1)]]] by simp
  then show ?thesis by (simp add: * [symmetric])
qed

theorem outbox_append_only_witness:
  "prefix (map message_of (outbox (database world4))) (map message_of (outbox (database world5)))"
  by (rule outbox_append_only [OF reachable_worlds(5)]) (simp only: world5_def service_step.answers)

text \<open>C8: when the stream acknowledges what it is sent, n rounds publish every event that is due, as soon
  as 20 n is at least the number of due events.\<close>

theorem outbox_drains:
  assumes "reachable w" "backlog t (outbox (database w), stream w) \<le> 20 * n"
    and "ev \<in> set (outbox (database w))" "o_deliveredAt ev = None" "o_nextAttemptAt ev \<le> t"
  shows "message_of ev \<in>
    set (snd ((deliver t True (\<lambda>_. Acked) ^^ n) (outbox (database w), stream w)))"
  using assms(2-5) by (intro all_due_published [OF reachable_log_inv [OF assms(1)]]) (simp_all add: due_def)

theorem outbox_drains_witness:
  "message_of (hd (outbox (database world1))) \<in>
     set (snd ((deliver 9 True (\<lambda>_. Acked) ^^ 1) (outbox (database world1), stream world1)))"
  by (rule outbox_drains) (simp_all only: reachable_worlds, code_simp+)

section \<open>Accepting and editing answers\<close>

text \<open>C9: an acceptance whose conditions hold goes through. The conditions are: an open, visible
  question, pending or approved, with the expected version, a caller who is its author or an admin, and an
  answer to it with the expected version that the caller did not write. Afterwards the question is solved by
  the answer, the acceptance is the only one in force, and one event tells the author of the answer. The
  question of the witness is pending: the code counts it as approved, where \<open>docs/academic-foundation.md\<close>
  wants approved questions only.\<close>

theorem acceptance_succeeds:
  assumes "reachable w" "may_accept di dto u actor a q (database w)"
    and "fresh e 0 \<notin> o_id ` set (outbox (database w))"
  shows "\<exists>s'. accept_answer e di dto u (database w) = (Inr a, s') \<and>
    find_discussion di s' = Some
      (q\<lparr>d_acceptedAnswerId := Some (a_id a), d_acceptedCommentId := None, d_status := Solved\<rparr>) \<and>
    filter (ac_active di) (answerAcceptances s') = [new_acceptance q a actor] \<and>
    outbox s' = outbox (database w) @ [accepted_event e q a actor] \<and>
    d_moderationStatus q \<in> {Pending, Approved} \<and> d_visibility q = Visible"
proof -
  have "d_moderationStatus q \<in> {Pending, Approved} \<and> d_visibility q = Visible"
    using assms(2) by (auto simp: may_accept_def approved_def)
  then show ?thesis
    using accept_answer_result [OF reachable_post_inv [OF assms(1)] assms(2,3)]
    by (metis solved_by_def)
qed

theorem acceptance_succeeds_witness:
  "d_moderationStatus open_post = Pending \<and>
   (\<exists>s'. accept_answer (sample_env ''acc'' 5) ''post'' accept_dto ann (database world4) = (Inr sample_answer, s'))"
proof -
  have "may_accept ''post'' accept_dto ann ''ann'' sample_answer open_post (database world4)"
    using world4_found by (simp add: may_accept_def ann_def accept_dto_def canAccept_def truthy_def
        sample_answer_def sample_post_def open_post_def approved_def)
  moreover have "fresh (sample_env ''acc'' 5) 0 \<notin> o_id ` set (outbox (database world4))" by code_simp
  ultimately have "\<exists>s'. accept_answer (sample_env ''acc'' 5) ''post'' accept_dto ann (database world4) = (Inr sample_answer, s')"
    using acceptance_succeeds [OF reachable_worlds(5)] by blast
  then show ?thesis by (simp add: open_post_def sample_post_def)
qed

text \<open>An edit of an answer makes the next version of it; when the change is semantic and the answer
  is the accepted one, the acceptance is revoked and the question is open again, and an editorial change
  leaves the question as it is.\<close>

theorem answer_edit_revokes:
  assumes "reachable w" "update_answer e i dto u (database w) = (Inr a', s')"
    and "find_answer i (database w) = Some a" "a_content a \<noteq> ua_content dto"
    and "find_discussion (a_discussionId a) (database w) = Some q"
  shows "a' = next_answer dto a \<and> a_contentVersion a = ua_expectedVersion dto \<and> d_status q \<noteq> Closed \<and>
    (if ua_revisionType dto = Semantic \<and> d_acceptedAnswerId q = Some i
     then find_discussion (d_id q) s' = Some (q\<lparr>d_acceptedAnswerId := None, d_status := Open\<rparr>) \<and>
       filter (ac_active (d_id q)) (answerAcceptances s') = []
     else find_discussion (d_id q) s' = Some q)"
proof -
  note inv = reachable_post_inv [OF assms(1)]
  note r = update_answer_result [OF inv assms(2-5)]
  have "d_id q = a_discussionId a" using post_invD(2) [OF inv assms(5)] .
  then show ?thesis using r by auto
qed

theorem answer_edit_revokes_witness:
  "find_discussion ''post'' (snd (update_answer (sample_env ''fix'' 6) ''ans'' (correction_dto Semantic) bob
     (database world5))) = Some open_post"
proof -
  let ?r = "update_answer (sample_env ''fix'' 6) ''ans'' (correction_dto Semantic) bob (database world5)"
  have "\<not> isl (fst ?r)" by code_simp
  then obtain a' where r: "?r = (Inr a', snd ?r)" by (metis isl_def sum.exhaust_sel prod.collapse)
  show ?thesis
    using answer_edit_revokes [OF reachable_worlds(6) r world5_found(2)] world5_found(1)
    by (simp add: correction_dto_def sample_answer_def sample_post_def open_post_def)
qed

section \<open>Posting in rooms\<close>

text \<open>C10: the gate in front of every post, answer and comment lets a caller through exactly when he is
  signed in, the room exists and is active, and his membership (or, without one, the kind of room)
  allows it: no bar on the membership, an active membership where the room is private or not open to
  anyone, and a role above member where only approved members may post.\<close>

theorem posting_gate:
  "(\<exists>pc. fst (assertCanPost e r u s) = Inr pc) \<longleftrightarrow>
     (\<exists>i room. uid u = Some i \<and> i \<noteq> '''' \<and> find_room r s = Some room \<and> r_status room = ACTIVE \<and>
        (case find_membership r i s of
           Some m \<Rightarrow>
             unhindered (now e) m \<and>
             ((r_visibility room = PRIVATE \<or> r_postingPolicy room \<noteq> ANYONE) \<longrightarrow> m_status m = Active) \<and>
             (r_postingPolicy room = APPROVED \<longrightarrow> m_role m \<noteq> Member)
         | None \<Rightarrow>
             (case r_postingPolicy room of
                ANYONE \<Rightarrow> r_visibility room \<noteq> PRIVATE
              | MEMBERS \<Rightarrow> r_visibility room = PUBLIC \<and> r_membershipPolicy room = OpenJoin
              | APPROVED \<Rightarrow> False)))"
  unfolding gate_may_post may_post_def by blast

theorem posting_gate_witness:
  "\<exists>pc. fst (assertCanPost (sample_env ''gate'' 9) hall_id bob (database hall8)) = Inr pc"
  unfolding posting_gate
  by (simp add: hall8_found bob_def hall_room_def hall_member_def unhindered_def)

text \<open>A member who is banned, muted, barred from posting or whose membership has run out can not
  write in the room: a post, an answer and a comment are refused, and the call changes nothing.\<close>

theorem hindered_members_silent:
  assumes "uid u = Some i" "find_membership r i s = Some m"
    and "m_status m = Banned \<or> m_status m = Muted \<or> m_postPermission m = BlockedPost \<or>
      (\<exists>t. m_expiresAt m = Some t \<and> t \<le> now e)"
    and "find_discussion di s = Some q" "d_roomId q = Some r" "cd_roomId cd = r"
  shows "(\<exists>ex. create_discussion e u cd s = (Inl ex, s)) \<and>
    (\<exists>ex. create_answer e di na u s = (Inl ex, s)) \<and>
    (\<exists>ex. create_comment e di u nc s = (Inl ex, s))"
proof -
  have "\<not> unhindered (now e) m" using assms(3) by (auto simp: unhindered_def)
  note no = hindered_gate [OF assms(1,2) this]
  show ?thesis
    using refused_create_discussion [of e cd u s] refused_create_answer [OF assms(4,5)]
      refused_create_comment [OF assms(4,5)] no assms(6)
    by (simp add: refused_def)
qed

theorem hindered_members_silent_witness:
  "\<exists>ex. create_comment (sample_env ''late'' 9) ''held'' bob comment_dto barred_db = (Inl ex, barred_db)"
  using hindered_members_silent [where e = "sample_env ''late'' 9" and u = bob, OF _ barred_found(1) _ barred_found(2),
      where cd = held_dto and nc = comment_dto]
  by (simp add: bob_def barred_member_def hall_post_def held_dto_def sample_env_def)

text \<open>Joining a room by the membership the caller has: none gives a new one, a membership that was
  left is taken up again as a plain member, a ban is refused, and any other is returned as it is.\<close>

theorem joining:
  assumes "uid u = Some i" "i \<noteq> ''''" "find_room r s = Some room" "r_membershipPolicy room \<noteq> InviteOnly"
  shows "join_room e r u s =
    (let st = (if r_membershipPolicy room = ApprovalJoin then Waiting else Active) in
     case find_membership r i s of
       None \<Rightarrow>
         let m = new_membership e r i Member st None in
         (Inr m, s\<lparr>memberships := memberships s @ [m]\<rparr>)
     | Some m \<Rightarrow>
         (case m_status m of
            Banned \<Rightarrow> (Inl (Forbidden ''You are banned from this room''), s)
          | Gone \<Rightarrow>
              let m' = m\<lparr>m_role := Member, m_status := st, m_assignedBy := None, m_expiresAt := None\<rparr> in
              (Inr m', save_membership m' s)
          | _ \<Rightarrow> (Inr m, s)))"
  unfolding Let_def by (rule join_room_by_membership [OF assms, unfolded Let_def])

theorem joining_witness:
  "memberships (snd (join_room (sample_env ''in'' 9) hall_id ann (database hall8))) =
     memberships (database hall8) @ [new_membership (sample_env ''in'' 9) hall_id ''ann'' Member Active None]"
  using joining [where u = ann, OF _ _ hall8_found(1), where e = "sample_env ''in'' 9"]
  by (simp add: ann_def hall8_found hall_room_def Let_def)

text \<open>Who changes a membership: staff or an active manager of the room. Only an owner or an admin
  changes the membership of an owner, makes an owner or sets a posting permission; the last active owner
  stays, and a locked room keeps its posting permissions. The change is the requested one, of that
  membership alone.\<close>

theorem membership_changes:
  assumes "update_membership e r j dto u s = (Inr m', s')"
  shows "\<exists>i m room. uid u = Some i \<and> find_room r s = Some room \<and> find_membership r j s = Some m \<and>
    (staff u \<or> manages e r i s) \<and>
    (m_role m = Owner \<or> um_role dto = Owner \<or> um_postPermission dto \<noteq> None \<longrightarrow> admin u \<or> owns e r i s) \<and>
    (m_role m = Owner \<and> m_status m = Active \<and> (um_role dto \<noteq> Owner \<or> um_status dto \<noteq> Active) \<longrightarrow>
       1 < active_owners r s) \<and>
    (r_policyLocked room \<and> \<not> admin u \<longrightarrow> m_postPermission m' = m_postPermission m) \<and>
    m' = m\<lparr>m_role := um_role dto, m_status := um_status dto, m_assignedBy := Some i,
           m_postPermission := or_else (um_postPermission dto) (m_postPermission m)\<rparr> \<and>
    memberships s' = put m_key m' (memberships s) \<and> rooms s' = rooms s"
proof (rule update_membership_Inr [OF assms])
  fix i room m
  assume g: "uid u = Some i" "staff u \<or> manages e r i s" "find_room r s = Some room" "find_membership r j s = Some m"
    "m_role m = Owner \<or> um_role dto = Owner \<or> um_postPermission dto \<noteq> None \<Longrightarrow> admin u \<or> owns e r i s"
    "m_role m = Owner \<Longrightarrow> m_status m = Active \<Longrightarrow> um_role dto \<noteq> Owner \<or> um_status dto \<noteq> Active \<Longrightarrow>
       1 < active_owners r s"
    "r_policyLocked room \<Longrightarrow> \<not> admin u \<Longrightarrow> um_postPermission dto \<noteq> None \<Longrightarrow>
       um_postPermission dto = Some (m_postPermission m)"
    "m' = m\<lparr>m_role := um_role dto, m_status := um_status dto, m_assignedBy := Some i,
            m_postPermission := or_else (um_postPermission dto) (m_postPermission m)\<rparr>"
    "s' = save_membership m' (s\<lparr>policyAudits := policyAudits s @ [membership_audit e i j m dto]\<rparr>)"
  have "m_postPermission m' = m_postPermission m" if "r_policyLocked room" "\<not> admin u"
    using g(7) [OF that] g(8) by (cases "um_postPermission dto") auto
  then have "m_postPermission m' = m_postPermission m \<or> \<not> (r_policyLocked room \<and> \<not> admin u)" by blast
  then show ?thesis
    using g by (intro exI [of _ i] exI [of _ m] exI [of _ room]) (auto simp: save_membership_def)
qed

theorem membership_changes_witness:
  "memberships (snd (update_membership (sample_env ''up'' 9) hall_id ''bob'' promote_dto eve (database hall8))) =
     [hall_member ''eve'' Owner (Some ''eve'') 1, hall_member ''bob'' Moderator (Some ''eve'') 2]"
proof -
  let ?r = "update_membership (sample_env ''up'' 9) hall_id ''bob'' promote_dto eve (database hall8)"
  have "\<not> isl (fst ?r)" by code_simp
  then obtain m' s' where r: "?r = (Inr m', s')" by (rule Inr_pairE)
  show ?thesis
    unfolding r using membership_changes [OF r]
    by (auto simp: hall8_found promote_dto_def eve_def hall_member_def put_def update_where_def
        m_key_def)
qed

text \<open>Only an owner or an admin changes the review policy of a room, and once it is locked only an
  admin does; locking and unlocking is for admins.\<close>

theorem policy_changes:
  assumes "update_policy e r dto u s = (Inr room', s')"
  shows "\<exists>i room. uid u = Some i \<and> find_room r s = Some room \<and> (admin u \<or> owns e r i s) \<and>
    (r_policyLocked room \<or> up_policyLocked dto \<noteq> None \<longrightarrow> admin u) \<and>
    room' = room\<lparr>r_reviewPolicy := up_reviewPolicy dto,
                 r_policyLocked := or_else (up_policyLocked dto) (r_policyLocked room)\<rparr> \<and>
    rooms s' = put r_id room' (rooms s) \<and>
    policyAudits s' = policyAudits s @ [policy_change_audit e i room dto]"
proof (rule update_policy_Inr [OF assms])
  fix i room
  assume "uid u = Some i" "admin u \<or> owns e r i s" "find_room r s = Some room"
    "admin u \<or> \<not> r_policyLocked room \<and> up_policyLocked dto = None"
    "room' = room\<lparr>r_reviewPolicy := up_reviewPolicy dto,
                   r_policyLocked := or_else (up_policyLocked dto) (r_policyLocked room)\<rparr>"
    "s' = save_room room' (s\<lparr>policyAudits := policyAudits s @ [policy_change_audit e i room dto]\<rparr>)"
  then show ?thesis by (intro exI [of _ i] exI [of _ room]) (auto simp: save_room_def)
qed

theorem policy_changes_witness:
  "rooms (snd (update_policy (sample_env ''direct'' 9) hall_id lock_dto eve (database hall8))) =
     rooms init_db @ [hall_room\<lparr>r_reviewPolicy := DirectPolicy\<rparr>]"
proof -
  let ?r = "update_policy (sample_env ''direct'' 9) hall_id lock_dto eve (database hall8)"
  have "\<not> isl (fst ?r)" by code_simp
  then obtain room' s' where r: "?r = (Inr room', s')" by (rule Inr_pairE)
  from policy_changes [OF r] have "rooms s' = put r_id (hall_room\<lparr>r_reviewPolicy := DirectPolicy\<rparr>) (rooms (database hall8))"
    by (auto simp: hall8_found lock_dto_def hall_room_def)
  also have "\<dots> = rooms init_db @ [hall_room\<lparr>r_reviewPolicy := DirectPolicy\<rparr>]" by code_simp
  finally show ?thesis by (simp add: r)
qed

section \<open>Closed posts, approval and reviews\<close>

text \<open>A closed post takes no answer, comment, edit, acceptance or vote, and its answers and comments
  can not be edited, removed or voted on: each of these calls is refused and changes nothing.\<close>

theorem closed_post_refuses:
  assumes "find_discussion di s = Some q" "d_status q = Closed"
  shows "(\<exists>ex. create_answer e di na u s = (Inl ex, s)) \<and>
    (\<exists>ex. create_comment e di u nc s = (Inl ex, s)) \<and>
    (\<exists>ex. update_discussion e di u ud s = (Inl ex, s)) \<and>
    (\<exists>ex. accept_answer e di aa u s = (Inl ex, s)) \<and>
    (\<exists>ex. accept_comment e di u ac s = (Inl ex, s)) \<and>
    (\<exists>ex. remove_accepted_comment e di u s = (Inl ex, s)) \<and>
    (\<exists>ex. set_vote OnDiscussion di u v s = (Inl ex, s)) \<and>
    (\<forall>i a. find_answer i s = Some a \<and> a_discussionId a = di \<longrightarrow>
       (\<exists>ex. update_answer e i ua u s = (Inl ex, s)) \<and> (\<exists>ex. remove_answer e i u s = (Inl ex, s)) \<and>
       (\<exists>ex. set_vote OnAnswer i u v s = (Inl ex, s))) \<and>
    (\<forall>j c. find_comment j s = Some c \<and> c_discussionId c = di \<longrightarrow>
       (\<exists>ex. update_comment e j u uc s = (Inl ex, s)) \<and> (\<exists>ex. remove_comment e j u s = (Inl ex, s)) \<and>
       (\<exists>ex. set_vote OnComment j u v s = (Inl ex, s)))"
proof -
  have "refused (update_answer e i ua u s) s \<and> refused (remove_answer e i u s) s \<and> refused (set_vote OnAnswer i u v s) s"
    if "find_answer i s = Some a" "a_discussionId a = di" for i a
    using closed_refuses_answers [OF _ assms(2) that(1)] assms(1) that(2) by simp
  moreover have
    "refused (update_comment e j u uc s) s \<and> refused (remove_comment e j u s) s \<and> refused (set_vote OnComment j u v s) s"
    if "find_comment j s = Some c" "c_discussionId c = di" for j c
    using closed_refuses_comments [OF _ assms(2) that(1)] assms(1) that(2) by simp
  ultimately show ?thesis
    unfolding refused_def [symmetric]
    using closed_refuses_replies [OF assms] closed_refuses_edit [OF assms]
      closed_refuses_acceptance [OF assms] closed_refuses_votes [OF assms] by auto
qed

theorem closed_post_refuses_witness:
  "(\<exists>ex. update_answer (sample_env ''fix'' 8) ''ans'' (correction_dto Editorial) bob closed_db = (Inl ex, closed_db)) \<and>
   (\<exists>ex. set_vote OnDiscussion ''post'' bob (Some Upvote) closed_db = (Inl ex, closed_db))"
  using closed_post_refuses [OF closed_found(1), where e = "sample_env ''fix'' 8" and u = bob
      and ua = "correction_dto Editorial" and v = "Some Upvote"] closed_found
  by (auto simp: sample_answer_def)

text \<open>An edit of a visible post that asks for approval leaves the published post alone: its text, its
  tags, its attachments and its accepted answer stay, and the new text is the pending revision.\<close>

theorem approval_keeps_published:
  assumes "reachable w" "update_discussion e i u dto (database w) = (Inr v, s')"
    and "find_discussion i (database w) = Some post" "d_visibility post = Visible" "content_changed post dto"
    and "d_pendingRevision post \<noteq> None \<or>
      (\<exists>r pc. d_roomId post = Some r \<and> pc_requiresApproval pc \<and>
         fst (assertCanPost e r \<lparr>uid = Some (d_authorId post), urole = urole u\<rparr> (database w)) = Inr pc)"
  shows "find_discussion i s' = Some
      (post\<lparr>d_pendingRevision := Some (next_draft dto post (database w)), d_moderationStatus := Pending,
            d_moderationNote := '''', d_contentVersion := d_contentVersion post + 1\<rparr>) \<and>
    discussionTags s' = discussionTags (database w) \<and> discussionMedia s' = discussionMedia (database w) \<and>
    answerAcceptances s' = answerAcceptances (database w)"
proof -
  note r = proposed_edit [OF reachable_post_inv [OF assms(1)] assms(2-6)]
  show ?thesis using r(1) content_eq_tables [OF r(2)] by (simp add: proposal_posted_def)
qed

theorem approval_keeps_published_witness:
  "find_discussion ''held'' (snd (update_discussion (sample_env ''edit'' 8) ''held'' bob edit_dto (database hall7))) =
     Some hall_post"
proof -
  let ?r = "update_discussion (sample_env ''edit'' 8) ''held'' bob edit_dto (database hall7)"
  have "\<not> isl (fst ?r)" by code_simp
  then obtain v s' where r: "?r = (Inr v, s')" by (rule Inr_pairE)
  have gate: "fst (assertCanPost (sample_env ''edit'' 8) hall_id \<lparr>uid = Some ''bob'', urole = urole bob\<rparr>
      (database hall7)) = 
      Inr \<lparr>pc_room = hall_room, pc_binding = None, pc_requiresApproval = True\<rparr>" by code_simp
  let ?old = "held_post\<lparr>d_moderationStatus := Approved, d_visibility := Visible\<rparr>"
  have "find_discussion ''held'' s' = Some
      (?old\<lparr>d_pendingRevision := Some (next_draft edit_dto ?old (database hall7)), d_moderationStatus := Pending,
            d_moderationNote := '''', d_contentVersion := d_contentVersion ?old + 1\<rparr>)"
    using approval_keeps_published [OF reachable_halls(7) r hall7_found] gate
    by (simp add: held_post_def hall_post_def content_changed_def edit_dto_def)
  then show ?thesis
    unfolding r by (simp add: hall7_draft) (simp add: held_post_def hall_post_def)
qed

text \<open>C11: a review is for staff and for managers of the post's room, it refers to the version and text it
  was made on, and it needs a note unless it allows the post. Its effect is a function of the decision
  and the post: the post is approved and visible when it is allowed, and also when a draft of a visible post is
  turned down; any other decision hides it. \<open>docs/academic-foundation.md\<close> has neither the reviews by room
  managers, such as that of the witness, nor the rejection that leaves the published post where it is.\<close>

theorem review_decides:
  assumes "reachable w" "review e ty i dto u (database w) = (Inr st, s')"
    and "find_discussion i (database w) = Some post"
  shows "(\<exists>actor. uid u = Some actor \<and>
      (staff u \<or> (\<exists>r. d_roomId post = Some r \<and> manages e r actor (database w)))) \<and>
    d_moderationStatus post = or_else (rd_expectedModerationStatus dto) Pending \<and>
    d_contentVersion post = rd_expectedVersion dto \<and> reviewed_content post = rd_expectedContent dto \<and>
    (rd_decision dto = Allow \<or> trim (or_else (rd_note dto) '''') \<noteq> '''') \<and>
    find_discussion i s' = Some (review_outcome dto post) \<and> st = d_moderationStatus (review_outcome dto post) \<and>
    (d_moderationStatus (review_outcome dto post), d_visibility (review_outcome dto post)) =
      (if rd_decision dto = Allow \<or>
          d_moderationStatus post = Pending \<and> d_pendingRevision post \<noteq> None \<and> d_visibility post = Visible
       then (Approved, Visible) else (Hidden, Concealed))"
proof -
  have "distinct (map m_key (memberships (database w)))"
    using reachable_rooms_inv [OF assms(1)] by (simp add: rooms_inv_def rooms_ok_def rooms_keyed_def)
  note r = review_result [OF reachable_post_inv [OF assms(1)] this assms(2,3)]
  have "(d_moderationStatus (review_outcome dto post), d_visibility (review_outcome dto post)) =
      (if rd_decision dto = Allow \<or>
          d_moderationStatus post = Pending \<and> d_pendingRevision post \<noteq> None \<and> d_visibility post = Visible
       then (Approved, Visible) else (Hidden, Concealed))"
    by (cases "rd_decision dto") (auto simp: review_outcome_def draft_of_def Let_def split: option.splits)
  then show ?thesis using r by (simp add: unchanged_since_def)
qed

theorem review_decides_witness:
  "\<not> staff eve \<and> find_discussion ''held'' (snd (review (sample_env ''review'' 9) ''discussion'' ''held'' allow_edit_dto eve
       (database hall8))) =
     Some (hall_post\<lparr>d_content := ''Where do the invariants hold?'', d_pendingRevision := None,
       d_moderationStatus := Approved\<rparr>)"
proof -
  let ?r = "review (sample_env ''review'' 9) ''discussion'' ''held'' allow_edit_dto eve (database hall8)"
  have "\<not> isl (fst ?r)" by code_simp
  then obtain st s' where r: "?r = (Inr st, s')" by (rule Inr_pairE)
  show ?thesis
    unfolding r using review_decides [OF reachable_halls(8) r hall8_found(4)]
    by (simp add: review_outcome_def draft_of_def allow_edit_dto_def hall_post_def trim_def eve_def staff_def)
qed

section \<open>The ballot\<close>

text \<open>C12: the votes refine a ballot, a map from users and targets to votes: a successful call changes it
  at the caller's place only, to the requested vote or to none, and reports the numbers of users who
  vote up and down on the target.\<close>

theorem voting_updates_ballot:
  assumes "reachable w" "set_vote ty i u v (database w) = (Inr r, s')"
  shows "\<exists>x. uid u = Some x \<and> ballot (votes s') = (ballot (votes (database w)))((x, ty, i) := v) \<and>
    vr_voteType r = v \<and>
    vr_upvoteCount r = int (card {y. ballot (votes s') (y, ty, i) = Some Upvote}) \<and>
    vr_downvoteCount r = int (card {y. ballot (votes s') (y, ty, i) = Some Downvote})"
  using set_vote_ballot [OF reachable_votes_inv [OF assms(1)] assms(2)] by auto

theorem voting_updates_ballot_witness:
  "ballot (votes (snd (set_vote OnAnswer ''ans'' ann (Some Downvote) (database world5)))) =
     (ballot [sample_vote])((''ann'', OnAnswer, ''ans'') := Some Downvote)"
proof -
  let ?r = "set_vote OnAnswer ''ans'' ann (Some Downvote) (database world5)"
  have "\<not> isl (fst ?r)" by code_simp
  then obtain r s' where r: "?r = (Inr r, s')" by (rule Inr_pairE)
  show ?thesis unfolding r using voting_updates_ballot [OF reachable_worlds(6) r] by (auto simp: ann_def)
qed

section \<open>The list of posts\<close>



text \<open>Reading the pages one after the other, as many as the first answer announces, shows every post
  of the list once and in order.\<close>

theorem pages_cover_list:
  assumes "0 < or_else (fd_limit flt) 20"
  shows "concat (map (\<lambda>p. map p_id (pg_data (findAll e ilike (flt\<lparr>fd_page := Some p\<rparr>) u s)))
      [1..<Suc (pg_totalPages (findAll e ilike flt u s))]) =
    map d_id (found_posts ilike flt u s)"
proof -
  let ?l = "or_else (fd_limit flt) 20" and ?ds = "found_posts ilike flt u s"
  have "concat (map (\<lambda>p. map p_id (pg_data (findAll e ilike (flt\<lparr>fd_page := Some p\<rparr>) u s)))
      [1..<Suc (page_count (length ?ds) ?l)]) =
    map d_id (concat (map (\<lambda>p. paginate p ?l ?ds) [1..<Suc (page_count (length ?ds) ?l)]))"
    by (simp add: findAll_ids map_concat comp_def del: upt_Suc)
  then show ?thesis by (simp only: all_pages [OF assms] findAll_pages)
qed

theorem pages_cover_list_witness:
  "concat (map (\<lambda>p. map p_id (pg_data (findAll (sample_env ''list'' 9) anything (plain_filter\<lparr>fd_page := Some p\<rparr>) ann
       (database world5)))) [1..<Suc (pg_totalPages (findAll (sample_env ''list'' 9) anything plain_filter ann
       (database world5)))]) = [''post'']"
proof -
  have "map d_id (found_posts anything plain_filter ann (database world5)) = [''post'']" by code_simp
  then show ?thesis
    using pages_cover_list [of plain_filter "sample_env ''list'' 9" anything ann "database world5"]
    by (simp add: plain_filter_def)
qed

text \<open>C14: the list does not tell who wrote an anonymous post: with another author in its place, and
  neither of the two being the caller, the answer is the same.\<close>

theorem anonymous_author_secret:
  assumes "\<And>d. d \<in> set (discussions s) \<Longrightarrow> d_id d = i \<Longrightarrow>
      d_isAnonymous d \<and> uid u \<noteq> Some (d_authorId d)"
    and "uid u \<noteq> Some author"
  shows "findAll e ilike flt u
      (s\<lparr>discussions := map (\<lambda>d. if d_id d = i then d\<lparr>d_authorId := author\<rparr> else d) (discussions s)\<rparr>) =
    findAll e ilike flt u s"
  using findAll_reauthored [OF assms] by (simp add: reauthored_def [abs_def])

theorem anonymous_author_secret_witness:
  "findAll (sample_env ''list'' 9) anything plain_filter bob
     ((database world5)\<lparr>discussions := [sample_post\<lparr>d_authorId := ''eve''\<rparr>]\<rparr>) =
   findAll (sample_env ''list'' 9) anything plain_filter bob (database world5)"
  using anonymous_author_secret [of "database world5" "''post''" bob "''eve''" "sample_env ''list'' 9" anything
      plain_filter]
  by (simp add: sample_post_def bob_def)

section \<open>Names, mentions and callers\<close>

text \<open>The slug that is made from the name of a tag is well formed (words of small letters and digits,
  separated by single dashes) or empty.\<close>

theorem generated_slugs:
  "generateSlug name = '''' \<or> slug_ok (generateSlug name)"
  by (rule generateSlug_ok)

text \<open>Of a text at most 20 user names are looked up, each once, each of 3 to 20 letters, digits and
  underscores; the events that are recorded for the mentioned users leave out the author.\<close>

theorem mentions_bounded:
  assumes "emit_mentions e k content author ctx s = Inr s'"
  shows "distinct (mentioned_usernames content) \<and> length (mentioned_usernames content) \<le> 20 \<and>
    (\<forall>w \<in> set (mentioned_usernames content). 3 \<le> length w \<and> length w \<le> 20 \<and> list_all word_char w) \<and>
    (\<exists>new. outbox s' = outbox s @ new \<and>
       (\<forall>ev \<in> set new. o_eventType ev = ''mention.created'' \<and>
          (\<exists>user \<noteq> author. (''recipientId'', JStr user) \<in> set (o_payload ev))))"
proof -
  have "\<exists>new. outbox s' = outbox s @ new \<and>
       (\<forall>ev \<in> set new. o_eventType ev = ''mention.created'' \<and>
          (\<exists>user \<noteq> author. (''recipientId'', JStr user) \<in> set (o_payload ev)))"
  proof (cases "s' = s")
    case False
    then obtain users where
      "events e k ''mention.created'' (map (mention_payload author ctx) (filter (\<lambda>u. fst u \<noteq> author) users)) s = Inr s'"
      using assms by (auto simp: emit_mentions_def Let_def returns split: if_splits reply.splits)
    from events_outbox [OF this] obtain new where new: "outbox s' = outbox s @ new"
      "map o_payload new = map (mention_payload author ctx) (filter (\<lambda>u. fst u \<noteq> author) users)"
      "\<forall>ev \<in> set new. o_eventType ev = ''mention.created''" by blast
    have "\<exists>user \<noteq> author. (''recipientId'', JStr user) \<in> set (o_payload ev)" if "ev \<in> set new" for ev
    proof -
      have "o_payload ev \<in> set (map (mention_payload author ctx) (filter (\<lambda>u. fst u \<noteq> author) users))"
        using that by (simp flip: new(2))
      then show ?thesis by (auto simp: mention_payload_def)
    qed
    then show ?thesis using new by blast
  qed simp
  then show ?thesis using mentioned_usernames_spec [where c = content] by blast
qed

theorem mentions_bounded_witness:
  "mentioned_usernames ''@bob, @eve_2 and @bob: a@b @x'' = [''bob'', ''eve_2''] \<and>
   length (mentioned_usernames ''@bob, @eve_2 and @bob: a@b @x'') \<le> 20"
proof -
  have "emit_mentions (sample_env ''m'' 1) 0 ''@bob, @eve_2 and @bob: a@b @x'' ''ann''
      \<lparr>mc_entityType = ''comment'', mc_entityId = ''com'', mc_discussionId = ''post'', mc_discussionTitle = ''T''\<rparr>
      init_db = Inr init_db" by code_simp
  moreover have "mentioned_usernames ''@bob, @eve_2 and @bob: a@b @x'' = [''bob'', ''eve_2'']" by code_simp
  ultimately show ?thesis using mentions_bounded by blast
qed

text \<open>A caller without the header of a signed-in user changes nothing but view counters, whatever
  route he calls.\<close>

theorem guests_change_nothing:
  assumes "truthy (h ''x-user-id'') = None"
  shows "snd (answers_controller e h ac s) = s \<and> snd (comments_controller e h cc s) = s \<and>
    snd (votes_controller e h vc s) = s \<and> snd (moderation_controller e filt order h mc s) = s \<and>
    snd (rooms_controller e collate h rc s) = s \<and> snd (tags_controller e ilike h tc s) = s \<and>
    (\<exists>ds. snd (discussions_controller e ilike h dc s) = s\<lparr>discussions := ds\<rparr> \<and>
      map (\<lambda>d. d\<lparr>d_viewCount := 0\<rparr>) ds = map (\<lambda>d. d\<lparr>d_viewCount := 0\<rparr>) (discussions s))"
proof -
  have login: "gateway_auth_guard h = Inl (Unauthorized ''Authentication required'')"
    using assms by (simp add: gateway_auth_guard_def)
  note no = all_of_def staff_guards_def login Let_def
  have seen: "\<exists>ds. snd (findOne e i u True s) = s\<lparr>discussions := ds\<rparr> \<and>
      map (\<lambda>d. d\<lparr>d_viewCount := 0\<rparr>) ds = map (\<lambda>d. d\<lparr>d_viewCount := 0\<rparr>) (discussions s)" for i u
  proof (cases rule: findOne_cases [of e i u True s])
    case same
    then show ?thesis by (intro exI [of _ "discussions s"]) simp
  next
    case viewed
    then show ?thesis by (intro exI [of _ "map (viewed i) (discussions s)"]) (simp add: viewed_def)
  qed
  have kept: "\<exists>ds. s = s\<lparr>discussions := ds\<rparr> \<and>
      map (\<lambda>d. d\<lparr>d_viewCount := 0\<rparr>) ds = map (\<lambda>d. d\<lparr>d_viewCount := 0\<rparr>) (discussions s)"
    by (intro exI [of _ "discussions s"]) simp
  have "snd (answers_controller e h ac s) = s" "snd (comments_controller e h cc s) = s"
    "snd (votes_controller e h vc s) = s" "snd (moderation_controller e filt order h mc s) = s"
    "snd (rooms_controller e collate h rc s) = s" "snd (tags_controller e ilike h tc s) = s"
    by (cases ac, simp_all add: answers_controller_def no split: sum.splits)
      (cases cc, simp_all add: comments_controller_def no split: sum.splits,
       cases vc, simp_all add: votes_controller_def no,
       cases mc, simp_all add: moderation_controller_def no,
       cases rc, simp_all add: rooms_controller_def no,
       cases tc, simp_all add: tags_controller_def no split: sum.splits)
  moreover have "\<exists>ds. snd (discussions_controller e ilike h dc s) = s\<lparr>discussions := ds\<rparr> \<and>
      map (\<lambda>d. d\<lparr>d_viewCount := 0\<rparr>) ds = map (\<lambda>d. d\<lparr>d_viewCount := 0\<rparr>) (discussions s)"
    using seen kept by (cases dc) (simp_all add: discussions_controller_def no split: sum.splits)
  ultimately show ?thesis by blast
qed

theorem guests_change_nothing_witness:
  "snd (answers_controller (sample_env ''x'' 1) (\<lambda>_. None) (DeleteAnswer ''ans'') (database world5)) = database world5"
  using guests_change_nothing [of "\<lambda>_. None"] by (simp add: truthy_def)

end
